(* ===== verification/Prelude.thy ===== *)
theory Prelude
  imports Complex_Main "HOL-Library.AList"
begin

text \<open>
  The notions every component of the serving system shares.

  \<^item> \<open>exn\<close>: the exceptions the Python code raises, catches or lets escape.  A call that may
    raise returns a value of \<open>'a res\<close>, \<open>Inl\<close> for the exception.
  \<^item> \<open>dict\<close>: a Python dictionary, an association list in insertion order.  \<open>dset\<close> keeps the place
    of a key that is already there, as CPython does.
  \<^item> the text of integers (\<open>str(n)\<close>, \<open>int(s)\<close>) and f-strings that join identifiers with \<open>#\<close>.
  \<^item> \<open>reach\<close>: the states a step relation can reach, and the locale \<open>safe_machine\<close> that lifts a
    one-step invariant to them.
\<close>

section \<open>Exceptions and results\<close>

datatype exn =
    KeyError
  | IndexError
  | AttributeError string
  | ValueError string
  | TypeError string
  | RuntimeError string
  | RpcError string
  | CloudError string
  | WaitError string
  | NotFoundError
  | URLError
  | RequestError
  | GenericError string

text \<open>
  \<open>RpcError\<close> is \<open>grpc.RpcError\<close> (and its subclass \<open>AioRpcError\<close>) with the status code,
  \<open>CloudError\<close> an API error of a cloud client (\<open>ClientError\<close>, \<open>GoogleAPICallError\<close>), \<open>WaitError\<close>
  a \<open>WaiterError\<close>, \<open>GenericError\<close> any other \<open>Exception\<close>.  \<open>asyncio.CancelledError\<close> is no subclass
  of \<open>Exception\<close> and is not one of these values.
\<close>

type_synonym 'a res = "exn + 'a"

text \<open>\<open>str(e)\<close>, as far as an exception here carries a text.\<close>

fun exn_text :: "exn \<Rightarrow> string" where
  "exn_text (RpcError s) = s"
| "exn_text (GenericError s) = s"
| "exn_text (AttributeError s) = s"
| "exn_text (ValueError s) = s"
| "exn_text (TypeError s) = s"
| "exn_text (RuntimeError s) = s"
| "exn_text (CloudError s) = s"
| "exn_text (WaitError s) = s"
| "exn_text e = []"

fun is_rpc_error :: "exn \<Rightarrow> bool" where
  "is_rpc_error (RpcError c) = True"
| "is_rpc_error e = False"

lemma is_rpc_error_iff: "is_rpc_error e \<longleftrightarrow> (\<exists>c. e = RpcError c)"
  by (cases e) auto

section \<open>Dictionaries\<close>

type_synonym ('k, 'v) dict = "('k \<times> 'v) list"

definition dget :: "('k, 'v) dict \<Rightarrow> 'k \<Rightarrow> 'v option" where
  "dget d k = map_of d k"

definition dset :: "'k \<Rightarrow> 'v \<Rightarrow> ('k, 'v) dict \<Rightarrow> ('k, 'v) dict" where
  "dset k v d = AList.update k v d"

definition ddel :: "'k \<Rightarrow> ('k, 'v) dict \<Rightarrow> ('k, 'v) dict" where
  "ddel k d = AList.delete k d"

definition dvalues :: "('k, 'v) dict \<Rightarrow> 'v list" where
  "dvalues d = map snd d"

definition dkeys :: "('k, 'v) dict \<Rightarrow> 'k set" where
  "dkeys d = fst ` set d"

text \<open>What every dictionary keeps: no key is there twice.\<close>

definition dict_ok :: "('k, 'v) dict \<Rightarrow> bool" where
  "dict_ok d \<longleftrightarrow> distinct (map fst d)"

text \<open>The laws a keyed store promises its clients.\<close>

locale keyed_store =
  fixes get :: "'s \<Rightarrow> 'k \<Rightarrow> 'v option"
    and put :: "'k \<Rightarrow> 'v \<Rightarrow> 's \<Rightarrow> 's"
    and del :: "'k \<Rightarrow> 's \<Rightarrow> 's"
    and ok :: "'s \<Rightarrow> bool"
  assumes get_put: "get (put k v s) k' = (if k' = k then Some v else get s k')"
    and get_del: "get (del k s) k' = (if k' = k then None else get s k')"
    and ok_put: "ok s \<Longrightarrow> ok (put k v s)"
    and ok_del: "ok s \<Longrightarrow> ok (del k s)"
begin

lemma get_put_same: "get (put k v s) k = Some v"
  by (simp add: get_put)

lemma get_put_other: "k' \<noteq> k \<Longrightarrow> get (put k v s) k' = get s k'"
  by (simp add: get_put)

lemma get_del_same: "get (del k s) k = None"
  by (simp add: get_del)

lemma get_del_other: "k' \<noteq> k \<Longrightarrow> get (del k s) k' = get s k'"
  by (simp add: get_del)

lemma get_del_put: "get s k = None \<Longrightarrow> get (del k (put k v s)) = get s"
  by (auto simp: get_put get_del)

lemma dom_put: "{k'. get (put k v s) k' \<noteq> None} = insert k {k'. get s k' \<noteq> None}"
  by (auto simp: get_put)

lemma dom_del: "{k'. get (del k s) k' \<noteq> None} = {k'. get s k' \<noteq> None} - {k}"
  by (auto simp: get_del)

end

interpretation pydict: keyed_store dget dset ddel dict_ok
  by unfold_locales
    (auto simp: dget_def dset_def ddel_def dict_ok_def update_conv' delete_conv'
      distinct_update distinct_delete)

lemmas dict_laws [simp] = pydict.get_put pydict.get_del pydict.ok_put pydict.ok_del

lemma dget_Nil [simp]: "dget [] k = None"
  by (simp add: dget_def)

lemma dict_ok_Nil [simp]: "dict_ok []"
  by (simp add: dict_ok_def)

lemma dkeys_Nil [simp]: "dkeys [] = {}"
  by (simp add: dkeys_def)

lemma dkeys_iff: "k \<in> dkeys d \<longleftrightarrow> dget d k \<noteq> None"
  by (force simp: dkeys_def dget_def map_of_eq_None_iff)

lemma dkeys_dset [simp]: "dkeys (dset k v d) = insert k (dkeys d)"
  by (auto simp: dkeys_iff split: if_splits)

lemma dkeys_ddel [simp]: "dkeys (ddel k d) = dkeys d - {k}"
  by (auto simp: dkeys_iff split: if_splits)

lemma dget_mem: "dget d k = Some v \<Longrightarrow> (k, v) \<in> set d"
  by (simp add: dget_def map_of_SomeD)

lemma mem_dget: "dict_ok d \<Longrightarrow> (k, v) \<in> set d \<Longrightarrow> dget d k = Some v"
  by (simp add: dget_def dict_ok_def)

lemma dget_iff: "dict_ok d \<Longrightarrow> dget d k = Some v \<longleftrightarrow> (k, v) \<in> set d"
  by (blast intro: dget_mem mem_dget)

lemma dset_fresh: "dget d k = None \<Longrightarrow> dset k v d = d @ [(k, v)]"
  by (induction d) (auto simp: dset_def dget_def split: if_splits)

lemma dset_Cons: "dset k v ((k', v') # d) = (if k' = k then (k, v) # d else (k', v') # dset k v d)"
  by (simp add: dset_def)

lemma ddel_absent: "dget d k = None \<Longrightarrow> ddel k d = d"
  by (simp add: dget_def ddel_def delete_id map_of_eq_None_iff)

lemma ddel_Cons: "ddel k ((k', v') # d) = (if k' = k then ddel k d else (k', v') # ddel k d)"
  by (simp add: ddel_def)

lemma dset_Nil: "dset k v [] = [(k, v)]"
  by (simp add: dset_def)

lemma ddel_Nil [simp]: "ddel k [] = []"
  by (simp add: ddel_def)

lemma dget_Cons: "dget ((k', v) # d) k = (if k' = k then Some v else dget d k)"
  by (simp add: dget_def)

lemmas dict_eval = dset_Cons dset_Nil ddel_Cons dget_Cons dvalues_def

lemma mem_dset: "(k', v') \<in> set (dset k v d) \<Longrightarrow> (k' = k \<and> v' = v) \<or> (k', v') \<in> set d"
  by (induction d) (auto simp: dset_Cons dset_Nil split: if_splits)

lemma mem_ddel: "(k', v') \<in> set (ddel k d) \<Longrightarrow> (k', v') \<in> set d"
  by (induction d) (auto simp: ddel_Cons split: if_splits)

subsection \<open>Sums over a dictionary\<close>

text \<open>The total of a quantity over the entries, used for resource accounting.\<close>

definition dsum :: "('k \<Rightarrow> 'v \<Rightarrow> int) \<Rightarrow> ('k, 'v) dict \<Rightarrow> int" where
  "dsum f d = (\<Sum>(k, v) \<leftarrow> d. f k v)"

lemma dsum_Nil [simp]: "dsum f [] = 0"
  by (simp add: dsum_def)

lemma dsum_Cons [simp]: "dsum f ((k, v) # d) = f k v + dsum f d"
  by (simp add: dsum_def)

lemma dsum_zero: "(\<And>k v. (k, v) \<in> set d \<Longrightarrow> f k v = 0) \<Longrightarrow> dsum f d = 0"
  by (induction d) auto

definition dpart :: "('k \<Rightarrow> 'v \<Rightarrow> int) \<Rightarrow> ('k, 'v) dict \<Rightarrow> 'k \<Rightarrow> int" where
  "dpart f d k = (case dget d k of None \<Rightarrow> 0 | Some v \<Rightarrow> f k v)"

lemma dsum_dset: "dict_ok d \<Longrightarrow> dsum f (dset k v d) = dsum f d - dpart f d k + f k v"
proof (induction d)
  case Nil
  then show ?case by (simp add: dset_Nil dpart_def)
next
  case (Cons p d)
  obtain k' v' where p: "p = (k', v')" by (cases p)
  from Cons.prems have ok: "dict_ok d" by (simp add: dict_ok_def)
  with Cons.IH show ?case by (auto simp: p dset_Cons dpart_def dget_Cons)
qed

lemma dsum_ddel: "dict_ok d \<Longrightarrow> dsum f (ddel k d) = dsum f d - dpart f d k"
proof (induction d)
  case Nil
  then show ?case by (simp add: dpart_def)
next
  case (Cons p d)
  obtain k' v' where p: "p = (k', v')" by (cases p)
  from Cons.prems have ok: "dict_ok d" and nk: "dget d k' = None"
    by (auto simp: dict_ok_def p dget_def map_of_eq_None_iff)
  with Cons.IH show ?case by (auto simp: p ddel_Cons dpart_def dget_Cons ddel_absent)
qed

section \<open>The text of integers\<close>

definition digit_char :: "nat \<Rightarrow> char" where
  "digit_char n = char_of (48 + n)"

fun nat_text :: "nat \<Rightarrow> string" where
  "nat_text n = (if n < 10 then [digit_char n] else nat_text (n div 10) @ [digit_char (n mod 10)])"

declare nat_text.simps [simp del]

text \<open>\<open>str(n)\<close>, and what an f-string puts for an integer.\<close>

definition int_text :: "int \<Rightarrow> string" where
  "int_text n = (if n < 0 then CHR ''-'' # nat_text (nat (- n)) else nat_text (nat n))"

definition is_digit :: "char \<Rightarrow> bool" where
  "is_digit c \<longleftrightarrow> 48 \<le> (of_char c :: nat) \<and> (of_char c :: nat) \<le> 57"

definition digit_value :: "char \<Rightarrow> nat" where
  "digit_value c = of_char c - 48"

text \<open>
  \<open>int(s)\<close>: surrounding white space is dropped, a sign may come first, and the rest is digits in
  which single underscores may separate two digits.  Anything else is a \<open>ValueError\<close>.
\<close>

definition is_space :: "char \<Rightarrow> bool" where
  "is_space c \<longleftrightarrow> (of_char c :: nat) \<in> {9, 10, 11, 12, 13, 28, 29, 30, 31, 32}"

definition py_strip :: "string \<Rightarrow> string" where
  "py_strip s = rev (dropWhile is_space (rev (dropWhile is_space s)))"

fun parse_digits :: "nat \<Rightarrow> string \<Rightarrow> nat option" where
  "parse_digits acc [] = Some acc"
| "parse_digits acc (c # cs) =
     (if is_digit c then parse_digits (10 * acc + digit_value c) cs
      else if c = CHR ''_''
      then (case cs of [] \<Rightarrow> None
            | c' # cs' \<Rightarrow> if is_digit c' then parse_digits (10 * acc + digit_value c') cs' else None)
      else None)"

definition parse_nat :: "string \<Rightarrow> nat option" where
  "parse_nat s = (case s of [] \<Rightarrow> None | c # cs \<Rightarrow> if is_digit c then parse_digits 0 s else None)"

definition int_of_text :: "string \<Rightarrow> int res" where
  "int_of_text s0 =
     (let s = py_strip s0;
          bad = Inl (ValueError ''invalid literal for int()'')
      in case s of [] \<Rightarrow> bad
         | c # cs \<Rightarrow>
             if c = CHR ''-'' then (case parse_nat cs of None \<Rightarrow> bad | Some n \<Rightarrow> Inr (- int n))
             else if c = CHR ''+'' then (case parse_nat cs of None \<Rightarrow> bad | Some n \<Rightarrow> Inr (int n))
             else (case parse_nat s of None \<Rightarrow> bad | Some n \<Rightarrow> Inr (int n)))"

lemma of_char_digit [simp]: "n < 10 \<Longrightarrow> (of_char (digit_char n) :: nat) = 48 + n"
  by (simp add: digit_char_def)

lemma digit_char_props:
  assumes "n < 10"
  shows "is_digit (digit_char n)" and "digit_value (digit_char n) = n"
    and "\<not> is_space (digit_char n)" and "digit_char n \<noteq> CHR ''#''"
    and "digit_char n \<noteq> CHR ''-''" and "digit_char n \<noteq> CHR ''+''" and "digit_char n \<noteq> CHR '':''"
proof -
  have code: "(of_char (digit_char n) :: nat) = 48 + n" using assms by simp
  show "is_digit (digit_char n)" "digit_value (digit_char n) = n" "\<not> is_space (digit_char n)"
    using assms by (auto simp: is_digit_def digit_value_def is_space_def)
  have "digit_char n \<noteq> c" if "(of_char c :: nat) < 48 \<or> 57 < (of_char c :: nat)" for c
    using that assms code by auto
  then show "digit_char n \<noteq> CHR ''#''" "digit_char n \<noteq> CHR ''-''" "digit_char n \<noteq> CHR ''+''"
    "digit_char n \<noteq> CHR '':''"
    by simp_all
qed

lemma nat_text_digits: "c \<in> set (nat_text n) \<Longrightarrow> \<exists>d < 10. c = digit_char d"
proof (induction n rule: nat_text.induct)
  case (1 n)
  show ?case
  proof (cases "n < 10")
    case True
    with 1 show ?thesis by (auto simp: nat_text.simps [of n])
  next
    case False
    with "1.prems" have "c \<in> set (nat_text (n div 10)) \<or> c = digit_char (n mod 10)"
      by (auto simp: nat_text.simps [of n])
    moreover have "n mod 10 < 10" by simp
    ultimately show ?thesis using "1.IH" [OF False] by blast
  qed
qed

lemma nat_text_chars:
  assumes "c \<in> set (nat_text n)"
  shows "is_digit c" and "\<not> is_space c" and "c \<noteq> CHR ''#''" and "c \<noteq> CHR ''-''"
    and "c \<noteq> CHR ''+''" and "c \<noteq> CHR '':''"
  using nat_text_digits [OF assms] by (auto simp: digit_char_props)

lemma nat_text_nonempty [simp]: "nat_text n \<noteq> []"
  by (subst nat_text.simps) simp

lemma parse_digits_append:
  "\<forall>c \<in> set s. is_digit c \<Longrightarrow> parse_digits acc (s @ t) =
     parse_digits (foldl (\<lambda>a c. 10 * a + digit_value c) acc s) t"
  by (induction s arbitrary: acc) auto

lemma foldl_nat_text: "foldl (\<lambda>a c. 10 * a + digit_value c) 0 (nat_text n) = n"
proof (induction n rule: nat_text.induct)
  case (1 n)
  then show ?case
    by (cases "n < 10") (simp_all add: nat_text.simps [of n] digit_char_props)
qed

lemma parse_digits_nat_text: "parse_digits 0 (nat_text n) = Some n"
  using parse_digits_append [of "nat_text n" 0 "[]"]
  by (simp add: foldl_nat_text nat_text_chars)

lemma parse_nat_text: "parse_nat (nat_text n) = Some n"
proof (cases "nat_text n")
  case Nil
  then show ?thesis by simp
next
  case (Cons c cs)
  then have "is_digit c" by (metis list.set_intros(1) nat_text_chars(1))
  with Cons show ?thesis using parse_digits_nat_text [of n] by (simp add: parse_nat_def)
qed

lemma py_strip_id: "\<forall>c \<in> set s. \<not> is_space c \<Longrightarrow> py_strip s = s"
proof -
  assume h: "\<forall>c \<in> set s. \<not> is_space c"
  have d: "dropWhile is_space t = t" if "\<forall>c \<in> set t. \<not> is_space c" for t
    using that by (cases t) auto
  from h show ?thesis using d [of s] d [of "rev s"] by (simp add: py_strip_def)
qed

lemma minus_not_space [simp]: "\<not> is_space (CHR ''-'')"
  by (simp add: is_space_def)

lemma int_text_chars:
  assumes "c \<in> set (int_text n)"
  shows "\<not> is_space c" and "c \<noteq> CHR ''#''" and "c \<noteq> CHR '':''"
  using assms by (auto simp: int_text_def dest: nat_text_chars split: if_splits)

lemma int_text_hash [simp]: "CHR ''#'' \<notin> set (int_text n)"
  using int_text_chars(2) by blast

lemma int_text_nonempty [simp]: "int_text n \<noteq> []"
  by (simp add: int_text_def)

text \<open>\<open>int(str(n)) == n\<close>.\<close>

lemma int_of_text_int_text [simp]: "int_of_text (int_text n) = Inr n"
proof (cases "n < 0")
  case True
  then have "py_strip (int_text n) = CHR ''-'' # nat_text (nat (- n))"
    by (subst py_strip_id) (auto simp: int_text_chars(1), simp add: int_text_def)
  with True show ?thesis by (simp add: int_of_text_def parse_nat_text)
next
  case False
  then have s: "py_strip (int_text n) = nat_text (nat n)"
    by (subst py_strip_id) (auto simp: int_text_chars(1), simp add: int_text_def)
  obtain c cs where c: "nat_text (nat n) = c # cs" by (cases "nat_text (nat n)") simp_all
  then have "c \<noteq> CHR ''-''" "c \<noteq> CHR ''+''"
    by (metis list.set_intros(1) nat_text_chars(4), metis list.set_intros(1) nat_text_chars(5))
  with False s c show ?thesis
    using parse_nat_text [of "nat n"] by (simp add: int_of_text_def)
qed

lemma int_text_inj [simp]: "int_text m = int_text n \<longleftrightarrow> m = n"
  by (metis int_of_text_int_text sum.inject(2))

section \<open>Reachable states\<close>

inductive reach :: "('s \<Rightarrow> bool) \<Rightarrow> ('s \<Rightarrow> 's \<Rightarrow> bool) \<Rightarrow> 's \<Rightarrow> bool" for init step where
  reach_init: "init s \<Longrightarrow> reach init step s"
| reach_step: "reach init step s \<Longrightarrow> step s t \<Longrightarrow> reach init step t"

text \<open>A run that goes on from a reachable state.\<close>

lemma reach_on:
  assumes "reach init step s" and "reach (\<lambda>s'. s' = s) step t"
  shows "reach init step t"
  using assms(2) by (induction rule: reach.induct) (use assms(1) in \<open>auto intro: reach_step\<close>)

locale safe_machine =
  fixes init :: "'s \<Rightarrow> bool"
    and step :: "'s \<Rightarrow> 's \<Rightarrow> bool"
    and safe :: "'s \<Rightarrow> bool"
  assumes init_safe: "init s \<Longrightarrow> safe s"
    and step_safe: "step s t \<Longrightarrow> safe s \<Longrightarrow> safe t"
begin

lemma reach_safe: "reach init step s \<Longrightarrow> safe s"
  by (induction rule: reach.induct) (auto intro: init_safe step_safe)

end

text \<open>
  A machine that, seen through \<open>view\<close>, does what a more abstract machine does or nothing.  The
  invariant of the concrete machine may be used for every step.
\<close>

locale stuttering_simulation = safe_machine init step safe
  for init :: "'s \<Rightarrow> bool" and step :: "'s \<Rightarrow> 's \<Rightarrow> bool" and safe :: "'s \<Rightarrow> bool" +
  fixes view :: "'s \<Rightarrow> 't"
    and init' :: "'t \<Rightarrow> bool"
    and step' :: "'t \<Rightarrow> 't \<Rightarrow> bool"
  assumes view_init: "init s \<Longrightarrow> init' (view s)"
    and view_step: "step s t \<Longrightarrow> safe s \<Longrightarrow> step' (view s) (view t) \<or> view t = view s"
begin

lemma reach_view: "reach init step s \<Longrightarrow> reach init' step' (view s)"
proof (induction rule: reach.induct)
  case (reach_init s)
  then show ?case by (intro reach.reach_init view_init)
next
  case (reach_step s t)
  from view_step [OF reach_step.hyps(2) reach_safe [OF reach_step.hyps(1)]] reach_step.IH
  show ?case by (auto intro: reach.reach_step)
qed

end

end
