(* ===== verification/Messages.thy ===== *)
theory Messages
  imports Prelude
begin

text \<open>
  The messages the processes exchange (\<open>src/protos/\<close>), one record per message with its fields.  A
  \<open>uint32\<close> or \<open>int64\<close> field is the Python \<open>int\<close> the code reads from it, a \<open>float\<close> the real number, a
  \<open>repeated\<close> field a list and a \<open>map\<close> field a dictionary.
\<close>

section \<open>The range of an unsigned field\<close>

text \<open>A \<open>uint32\<close> field takes only these integers: setting it to another one raises a \<open>ValueError\<close>.\<close>

definition uint32_ok :: "int \<Rightarrow> bool" where
  "uint32_ok n \<longleftrightarrow> 0 \<le> n \<and> n < 2 ^ 32"

definition out_of_range :: exn where
  "out_of_range = ValueError ''Value out of range''"

section \<open>Worker and head (\<open>headnode-service.proto\<close>)\<close>

record resource =
  res_num_cpus :: int
  res_num_gpus :: int

record register_request =
  rq_node_id :: int
  rq_node_address :: string
  rq_port :: string
  rq_state :: string
  rq_resource :: resource

record metrics_request =
  mr_worker_id :: int
  mr_replica_id :: int
  mr_avg_requests :: real
  mr_sent_time_stamp :: int
  mr_queue_size :: int

record replica_state =
  rst_replica_id :: int
  rst_deployment_id :: int
  rst_status :: string
  rst_replica_port :: string

record health_update =
  hu_worker_id :: int
  hu_worker_address :: string
  hu_replica_states :: "replica_state list"

record health_reply =
  hr_ack :: bool
  hr_is_alive :: string

section \<open>Routing updates (\<open>headnode-service.proto\<close>)\<close>

record replica_msg =
  rm_replica_id :: string
  rm_address :: string
  rm_state :: string

record deployment_msg =
  dp_deployment_id :: int
  dp_deployment_name :: string
  dp_version :: string
  dp_status :: string
  dp_replicas :: "replica_msg list"

record routing_update =
  ru_deployments :: "(int, deployment_msg) dict"
  ru_timestamp :: int

section \<open>Creation and registration of replicas (\<open>worker-service.proto\<close>)\<close>

record replica_content =
  rc_replica_id :: int
  rc_port :: string

record creation_request =
  cq_base_node_address :: string
  cq_deployment_id :: int
  cq_num_cpus :: int
  cq_num_gpus :: int
  cq_deployment_name :: string

record creation_reply =
  cr_worker_id :: int
  cr_replicas :: "replica_content list"
  cr_worker_address :: string
  cr_created :: bool

record replica_status =
  rs_state :: string
  rs_replica_id :: int
  rs_pid :: int
  rs_port :: string
  rs_deployment_id :: int
  rs_deployment_name :: string

section \<open>Prompts and their answers (\<open>replica_service.proto\<close>)\<close>

record replica_reply =
  rp_text :: string
  rp_is_error :: bool

end
