(* ===== verification/NodeInfo.thy ===== *)
theory NodeInfo
  imports Messages
begin

text \<open>
  \<open>src/lib/node_info.py\<close>: the head controller's cache of worker nodes and of the CPUs and GPUs in
  use on each.

  A gRPC channel is an address into \<open>ni_channels\<close> (\<open>True\<close> while it is open), so a channel that the
  code drops without closing is visible.  The stub that \<open>Node\<close> also holds is determined by its
  channel and is not a field.  The locale \<open>resource_ledger\<close> is what the deployment manager uses.
\<close>

record node =
  nd_id :: int
  nd_address :: string
  nd_channel :: nat
  nd_resource :: resource
  nd_used_cpus :: int
  nd_used_gpus :: int

record node_info =
  ni_map :: "(int, node) dict"
  ni_channels :: "bool list"

definition host_port :: "string \<Rightarrow> string \<Rightarrow> string" where
  "host_port host port = host @ '':'' @ port"

definition ni_init :: node_info where
  "ni_init = \<lparr>ni_map = [], ni_channels = []\<rparr>"

definition add_node :: "register_request \<Rightarrow> node_info \<Rightarrow> node_info" where
  "add_node rq ni =
     (let channel = length (ni_channels ni);
          nd = \<lparr>nd_id = rq_node_id rq, nd_address = host_port (rq_node_address rq) (rq_port rq),
                nd_channel = channel, nd_resource = rq_resource rq,
                nd_used_cpus = 0, nd_used_gpus = 0\<rparr>
      in ni\<lparr>ni_map := dset (rq_node_id rq) nd (ni_map ni), ni_channels := ni_channels ni @ [True]\<rparr>)"

definition update_resources :: "int \<Rightarrow> int \<Rightarrow> int \<Rightarrow> bool \<Rightarrow> node_info \<Rightarrow> unit res \<times> node_info" where
  "update_resources node_id num_cpus num_gpus add ni =
     (case dget (ni_map ni) node_id of
        None \<Rightarrow> (Inl KeyError, ni)
      | Some nd \<Rightarrow>
          (let nd' = (if add
                 then nd\<lparr>nd_used_cpus := nd_used_cpus nd + num_cpus,
                         nd_used_gpus := nd_used_gpus nd + num_gpus\<rparr>
                 else nd\<lparr>nd_used_cpus := nd_used_cpus nd - num_cpus,
                         nd_used_gpus := nd_used_gpus nd - num_gpus\<rparr>)
           in (Inr (), ni\<lparr>ni_map := dset node_id nd' (ni_map ni)\<rparr>)))"

definition remove_node :: "int \<Rightarrow> node_info \<Rightarrow> node_info" where
  "remove_node node_id ni =
     (case dget (ni_map ni) node_id of
        None \<Rightarrow> ni
      | Some nd \<Rightarrow> ni\<lparr>ni_map := ddel node_id (ni_map ni),
                       ni_channels := (ni_channels ni)[nd_channel nd := False]\<rparr>)"

definition get_node :: "int \<Rightarrow> node_info \<Rightarrow> node res" where
  "get_node node_id ni = (case dget (ni_map ni) node_id of None \<Rightarrow> Inl KeyError | Some nd \<Rightarrow> Inr nd)"

definition get_all_nodes :: "node_info \<Rightarrow> node list" where
  "get_all_nodes ni = dvalues (ni_map ni)"

section \<open>The ledger of used resources\<close>

text \<open>The CPUs and GPUs in use on a node, \<open>None\<close> for a node that is not registered.\<close>

definition used_on :: "node_info \<Rightarrow> int \<Rightarrow> (int \<times> int) option" where
  "used_on ni n = map_option (\<lambda>nd. (nd_used_cpus nd, nd_used_gpus nd)) (dget (ni_map ni) n)"

locale resource_ledger =
  fixes charge :: "int \<Rightarrow> int \<Rightarrow> int \<Rightarrow> bool \<Rightarrow> 's \<Rightarrow> unit res \<times> 's"
    and used :: "'s \<Rightarrow> int \<Rightarrow> (int \<times> int) option"
  assumes charge_known: "used s n = Some (c0, g0) \<Longrightarrow> \<exists>s'. charge n c g add s = (Inr (), s') \<and>
      used s' n = Some (if add then (c0 + c, g0 + g) else (c0 - c, g0 - g)) \<and>
      (\<forall>n'. n' \<noteq> n \<longrightarrow> used s' n' = used s n')"
    and charge_unknown: "used s n = None \<Longrightarrow> charge n c g add s = (Inl KeyError, s)"
begin

lemma charge_domain: "used (snd (charge n c g add s)) n' = None \<longleftrightarrow> used s n' = None"
proof (cases "used s n")
  case None
  then show ?thesis by (simp add: charge_unknown)
next
  case (Some p)
  then show ?thesis
    using charge_known [of s n "fst p" "snd p" c g add] by (cases "n' = n") auto
qed

lemma charge_ok_iff: "fst (charge n c g add s) = Inr () \<longleftrightarrow> used s n \<noteq> None"
  using charge_known [of s n _ _ c g add] charge_unknown [of s n c g add]
  by (cases "used s n") auto

lemma charge_release:
  assumes "used s n = Some u"
  shows "used (snd (charge n c g False (snd (charge n c g True s)))) = used s"
proof
  fix n'
  obtain c0 g0 where u: "u = (c0, g0)" by (cases u)
  obtain s1 where s1: "charge n c g True s = (Inr (), s1)" "used s1 n = Some (c0 + c, g0 + g)"
    "\<And>n'. n' \<noteq> n \<Longrightarrow> used s1 n' = used s n'"
    using charge_known [of s n c0 g0 c g True] assms u by auto
  obtain s2 where "charge n c g False s1 = (Inr (), s2)" "used s2 n = Some (c0, g0)"
    "\<And>n'. n' \<noteq> n \<Longrightarrow> used s2 n' = used s1 n'"
    using charge_known [OF s1(2), of c g False] by auto
  then show "used (snd (charge n c g False (snd (charge n c g True s)))) n' = used s n'"
    using s1 assms u by (cases "n' = n") auto
qed

end

interpretation ledger: resource_ledger update_resources used_on
  by unfold_locales (auto simp: update_resources_def used_on_def Let_def split: option.splits)

lemma used_on_init [simp]: "used_on ni_init n = None"
  by (simp add: used_on_def ni_init_def)

lemma used_on_add_node:
  "used_on (add_node rq ni) n = (if n = rq_node_id rq then Some (0, 0) else used_on ni n)"
  by (simp add: used_on_def add_node_def Let_def)

lemma used_on_update:
  "used_on (snd (update_resources n c g add ni)) n' =
     (case used_on ni n' of None \<Rightarrow> None
      | Some (c0, g0) \<Rightarrow> Some (if n' = n then if add then (c0 + c, g0 + g) else (c0 - c, g0 - g)
                               else (c0, g0)))"
  by (auto simp: used_on_def update_resources_def Let_def split: option.splits)

lemma get_node_registered: "get_node n ni = Inl KeyError \<longleftrightarrow> used_on ni n = None"
  by (auto simp: get_node_def used_on_def split: option.splits)

section \<open>Channels\<close>

text \<open>Channels held by a registered node, and channels that are open.\<close>

definition held_channels :: "node_info \<Rightarrow> nat set" where
  "held_channels ni = {nd_channel nd | n nd. dget (ni_map ni) n = Some nd}"

definition open_channels :: "node_info \<Rightarrow> nat set" where
  "open_channels ni = {a. a < length (ni_channels ni) \<and> ni_channels ni ! a}"

text \<open>Every registered node has a channel of its own, and it is open.\<close>

definition ni_ok :: "node_info \<Rightarrow> bool" where
  "ni_ok ni \<longleftrightarrow> dict_ok (ni_map ni) \<and>
     (\<forall>n nd. dget (ni_map ni) n = Some nd \<longrightarrow>
        nd_id nd = n \<and> nd_channel nd < length (ni_channels ni) \<and> ni_channels ni ! nd_channel nd) \<and>
     (\<forall>n n' nd nd'. dget (ni_map ni) n = Some nd \<and> dget (ni_map ni) n' = Some nd' \<and>
        nd_channel nd = nd_channel nd' \<longrightarrow> n = n')"

lemma ni_ok_init [simp]: "ni_ok ni_init"
  by (simp add: ni_ok_def ni_init_def)

lemma ni_okD:
  assumes "ni_ok ni" and "dget (ni_map ni) n = Some nd"
  shows "nd_id nd = n" and "nd_channel nd < length (ni_channels ni)"
    and "ni_channels ni ! nd_channel nd"
  using assms unfolding ni_ok_def by blast+

lemma ni_ok_own_channel:
  "\<lbrakk>ni_ok ni; dget (ni_map ni) n = Some nd; dget (ni_map ni) n' = Some nd';
    nd_channel nd = nd_channel nd'\<rbrakk> \<Longrightarrow> n = n'"
  unfolding ni_ok_def by blast

lemma ni_okI:
  assumes "dict_ok (ni_map ni)"
    and "\<And>n nd. dget (ni_map ni) n = Some nd \<Longrightarrow>
        nd_id nd = n \<and> nd_channel nd < length (ni_channels ni) \<and> ni_channels ni ! nd_channel nd"
    and "\<And>n n' nd nd'. \<lbrakk>dget (ni_map ni) n = Some nd; dget (ni_map ni) n' = Some nd';
        nd_channel nd = nd_channel nd'\<rbrakk> \<Longrightarrow> n = n'"
  shows "ni_ok ni"
  using assms unfolding ni_ok_def by blast

lemma ni_ok_add: "ni_ok ni \<Longrightarrow> ni_ok (add_node rq ni)"
proof (rule ni_okI)
  assume ok: "ni_ok ni"
  then show "dict_ok (ni_map (add_node rq ni))" by (simp add: ni_ok_def add_node_def Let_def)
  show "nd_id nd = n \<and> nd_channel nd < length (ni_channels (add_node rq ni)) \<and>
      ni_channels (add_node rq ni) ! nd_channel nd"
    if "dget (ni_map (add_node rq ni)) n = Some nd" for n nd
    using that ni_okD [OF ok, of n nd]
    by (auto simp: add_node_def Let_def nth_append split: if_splits)
  show "n = n'" if "dget (ni_map (add_node rq ni)) n = Some nd"
    "dget (ni_map (add_node rq ni)) n' = Some nd'" "nd_channel nd = nd_channel nd'" for n n' nd nd'
    using that ni_okD(2) [OF ok, of n nd] ni_okD(2) [OF ok, of n' nd']
      ni_ok_own_channel [OF ok, of n nd n' nd']
    by (auto simp: add_node_def Let_def split: if_splits)
qed

lemma ni_ok_update: "ni_ok ni \<Longrightarrow> ni_ok (snd (update_resources k c g add ni))"
proof (rule ni_okI)
  assume ok: "ni_ok ni"
  let ?ni = "snd (update_resources k c g add ni)"
  have old: "\<exists>nd0. dget (ni_map ni) n = Some nd0 \<and> nd_channel nd0 = nd_channel nd \<and>
      nd_id nd0 = nd_id nd \<and> ni_channels ?ni = ni_channels ni"
    if "dget (ni_map ?ni) n = Some nd" for n nd
    using that by (auto simp: update_resources_def Let_def split: option.splits if_splits)
  show "dict_ok (ni_map ?ni)"
    using ok by (simp add: ni_ok_def update_resources_def Let_def split: option.splits)
  show "nd_id nd = n \<and> nd_channel nd < length (ni_channels ?ni) \<and> ni_channels ?ni ! nd_channel nd"
    if "dget (ni_map ?ni) n = Some nd" for n nd
    using old [OF that] ni_okD [OF ok] by fastforce
  show "n = n'" if "dget (ni_map ?ni) n = Some nd" "dget (ni_map ?ni) n' = Some nd'"
    "nd_channel nd = nd_channel nd'" for n n' nd nd'
    using old [OF that(1)] old [OF that(2)] that(3) ni_ok_own_channel [OF ok] by metis
qed

lemma ni_ok_remove: "ni_ok ni \<Longrightarrow> ni_ok (remove_node k ni)"
proof (cases "dget (ni_map ni) k")
  case None
  then show "ni_ok ni \<Longrightarrow> ?thesis" by (simp add: remove_node_def)
next
  case (Some nd0)
  assume ok: "ni_ok ni"
  have eq: "ni_map (remove_node k ni) = ddel k (ni_map ni)"
    "ni_channels (remove_node k ni) = (ni_channels ni)[nd_channel nd0 := False]"
    using Some by (simp_all add: remove_node_def)
  show ?thesis
  proof (rule ni_okI)
    show "dict_ok (ni_map (remove_node k ni))" using ok by (simp add: eq ni_ok_def)
    show "nd_id nd = n \<and> nd_channel nd < length (ni_channels (remove_node k ni)) \<and>
        ni_channels (remove_node k ni) ! nd_channel nd"
      if d: "dget (ni_map (remove_node k ni)) n = Some nd" for n nd
    proof -
      have n: "n \<noteq> k" "dget (ni_map ni) n = Some nd" using d by (auto simp: eq split: if_splits)
      then have "nd_channel nd0 \<noteq> nd_channel nd" using ni_ok_own_channel [OF ok Some] by metis
      then show ?thesis using ni_okD [OF ok n(2)] by (simp add: eq)
    qed
    show "n = n'" if "dget (ni_map (remove_node k ni)) n = Some nd"
      "dget (ni_map (remove_node k ni)) n' = Some nd'" "nd_channel nd = nd_channel nd'" for n n' nd nd'
      using that ni_ok_own_channel [OF ok, of n nd n' nd'] by (auto simp: eq split: if_splits)
  qed
qed

text \<open>
  The node cache keeps, through \<open>add_node\<close>, \<open>update_resources\<close> and \<open>remove_node\<close>, that every
  registered node is stored under its own identifier and owns one open channel that no other node
  uses.
\<close>

datatype node_op = AddNode register_request | UpdateResources int int int bool | RemoveNode int

fun node_step :: "node_op \<Rightarrow> node_info \<Rightarrow> node_info" where
  "node_step (AddNode rq) ni = add_node rq ni"
| "node_step (UpdateResources n c g add) ni = snd (update_resources n c g add ni)"
| "node_step (RemoveNode n) ni = remove_node n ni"

lemma ni_ok_step: "ni_ok ni \<Longrightarrow> ni_ok (node_step x ni)"
  by (cases x) (simp_all add: ni_ok_add ni_ok_update ni_ok_remove)

lemma ni_ok_run: "ni_ok ni \<Longrightarrow> ni_ok (fold node_step ops ni)"
  by (induction ops arbitrary: ni) (simp_all add: ni_ok_step)

text \<open>
  Registering a node that is already there drops its old channel without closing it: the channel
  stays open and no node holds it.
\<close>

lemma re_register_leaks_channel:
  assumes "ni_ok ni" and "dget (ni_map ni) (rq_node_id rq) = Some nd"
  shows "nd_channel nd \<in> open_channels (add_node rq ni) - held_channels (add_node rq ni)"
proof -
  have "nd_channel nd \<in> open_channels (add_node rq ni)"
    using ni_okD [OF assms] by (simp add: open_channels_def add_node_def Let_def nth_append)
  moreover have "nd_channel nd' \<noteq> nd_channel nd"
    if "dget (ni_map (add_node rq ni)) n = Some nd'" for n nd'
    using that ni_okD(2) [OF assms] ni_ok_own_channel [OF assms, of n nd']
    by (auto simp: add_node_def Let_def split: if_splits)
  ultimately show ?thesis unfolding held_channels_def by fastforce
qed

end
