(* ===== verification/AutoScale.thy ===== *)
theory AutoScale
  imports Messages
begin

text \<open>
  \<open>src/lib/autoscale_manager.py\<close>: the head controller's book of what each replica was given and of
  the load it last reported.

  The code builds the key of a replica with an f-string from a worker and a replica identifier, each
  a \<open>str\<close> or an \<open>int\<close>.  Both are passed here as the text the f-string makes of them (\<open>int_text n\<close>
  for an \<open>int\<close>).  The locale \<open>allocation_book\<close> is what the deployment manager uses.
\<close>

record scaled_replica =
  sr_avg_requests :: real
  sr_sent_time_stamp :: int
  sr_num_cpus :: int
  sr_num_gpus :: int

type_synonym auto_scale = "(string, scaled_replica) dict"

text \<open>\<open>_replica_id\<close>, the same f-string in \<open>AutoScaleManager\<close> and \<open>DeploymentManager\<close>.\<close>

definition replica_key :: "string \<Rightarrow> string \<Rightarrow> string" where
  "replica_key worker_id replica_num = worker_id @ ''#'' @ replica_num"

definition load_metrics :: "metrics_request \<Rightarrow> auto_scale \<Rightarrow> auto_scale" where
  "load_metrics rq book =
     (let actual_id = replica_key (int_text (mr_worker_id rq)) (int_text (mr_replica_id rq))
      in case dget book actual_id of
           None \<Rightarrow> book
         | Some sr \<Rightarrow> dset actual_id
             (sr\<lparr>sr_avg_requests := mr_avg_requests rq, sr_sent_time_stamp := mr_sent_time_stamp rq\<rparr>) book)"

definition as_remove_replica :: "string \<Rightarrow> string \<Rightarrow> auto_scale \<Rightarrow> (int \<times> int) res \<times> auto_scale" where
  "as_remove_replica worker_id replica_id book =
     (let actual_id = replica_key worker_id replica_id
      in case dget book actual_id of
           None \<Rightarrow> (Inl KeyError, book)
         | Some sr \<Rightarrow> (Inr (sr_num_cpus sr, sr_num_gpus sr), ddel actual_id book))"

definition as_add_replica :: "string \<Rightarrow> string \<Rightarrow> int \<Rightarrow> int \<Rightarrow> auto_scale \<Rightarrow> auto_scale" where
  "as_add_replica worker_id replica_id num_cpus num_gpus book =
     dset (replica_key worker_id replica_id)
       \<lparr>sr_avg_requests = 0, sr_sent_time_stamp = 0, sr_num_cpus = num_cpus, sr_num_gpus = num_gpus\<rparr> book"

section \<open>Keys\<close>

text \<open>The worker part of a key: everything before the first \<open>#\<close>.\<close>

definition key_worker :: "string \<Rightarrow> string" where
  "key_worker k = takeWhile (\<lambda>c. c \<noteq> CHR ''#'') k"

lemma key_worker_replica_key [simp]:
  assumes "CHR ''#'' \<notin> set w"
  shows "key_worker (replica_key w r) = w"
proof -
  have "\<forall>c \<in> set w. c \<noteq> CHR ''#''" using assms by auto
  then show ?thesis by (simp add: key_worker_def replica_key_def takeWhile_append2)
qed

lemma replica_key_inj:
  assumes "CHR ''#'' \<notin> set w" and "CHR ''#'' \<notin> set w'"
  shows "replica_key w r = replica_key w' r' \<longleftrightarrow> w = w' \<and> r = r'"
  using assms by (metis append_eq_append_conv key_worker_replica_key replica_key_def same_append_eq)

lemma replica_key_int_inj [simp]:
  "replica_key (int_text w) (int_text r) = replica_key (int_text w') (int_text r') \<longleftrightarrow> w = w' \<and> r = r'"
  by (simp add: replica_key_inj)

section \<open>The book of allocations\<close>

definition allocated :: "auto_scale \<Rightarrow> string \<Rightarrow> (int \<times> int) option" where
  "allocated book k = map_option (\<lambda>sr. (sr_num_cpus sr, sr_num_gpus sr)) (dget book k)"

locale allocation_book =
  fixes book_in :: "string \<Rightarrow> string \<Rightarrow> int \<Rightarrow> int \<Rightarrow> 's \<Rightarrow> 's"
    and book_out :: "string \<Rightarrow> string \<Rightarrow> 's \<Rightarrow> (int \<times> int) res \<times> 's"
    and holds :: "'s \<Rightarrow> string \<Rightarrow> (int \<times> int) option"
  assumes book_in_holds:
      "holds (book_in w r c g s) k = (if k = replica_key w r then Some (c, g) else holds s k)"
    and book_out_present: "holds s (replica_key w r) = Some a \<Longrightarrow>
      \<exists>s'. book_out w r s = (Inr a, s') \<and>
        (\<forall>k. holds s' k = (if k = replica_key w r then None else holds s k))"
    and book_out_absent: "holds s (replica_key w r) = None \<Longrightarrow> book_out w r s = (Inl KeyError, s)"
begin

lemma book_in_out: "fst (book_out w r (book_in w r c g s)) = Inr (c, g)"
  using book_out_present [of "book_in w r c g s" w r "(c, g)"] by (auto simp: book_in_holds)

lemma book_in_out_holds:
  assumes "holds s (replica_key w r) = None"
  shows "holds (snd (book_out w r (book_in w r c g s))) = holds s"
proof
  fix k
  show "holds (snd (book_out w r (book_in w r c g s))) k = holds s k"
    using book_out_present [of "book_in w r c g s" w r "(c, g)"] assms by (auto simp: book_in_holds)
qed

lemma book_out_twice: "book_out w r (snd (book_out w r s)) = (Inl KeyError, snd (book_out w r s))"
  using book_out_present [of s w r] book_out_absent
  by (cases "holds s (replica_key w r)") auto

end

interpretation scale_book: allocation_book as_add_replica as_remove_replica allocated
  by unfold_locales
    (auto simp: as_add_replica_def as_remove_replica_def allocated_def Let_def split: option.splits)

lemma load_metrics_allocated [simp]: "allocated (load_metrics rq book) = allocated book"
  by (rule ext) (auto simp: load_metrics_def allocated_def Let_def split: option.splits)

lemma dict_ok_load_metrics: "dict_ok book \<Longrightarrow> dict_ok (load_metrics rq book)"
  by (simp add: load_metrics_def Let_def split: option.splits)

lemma dict_ok_as_add: "dict_ok book \<Longrightarrow> dict_ok (as_add_replica w r c g book)"
  by (simp add: as_add_replica_def)

lemma dict_ok_as_remove: "dict_ok book \<Longrightarrow> dict_ok (snd (as_remove_replica w r book))"
  by (simp add: as_remove_replica_def Let_def split: option.splits)

section \<open>Totals of a worker\<close>

definition booked_cpus :: "string \<Rightarrow> auto_scale \<Rightarrow> int" where
  "booked_cpus w book = dsum (\<lambda>k sr. if key_worker k = w then sr_num_cpus sr else 0) book"

definition booked_gpus :: "string \<Rightarrow> auto_scale \<Rightarrow> int" where
  "booked_gpus w book = dsum (\<lambda>k sr. if key_worker k = w then sr_num_gpus sr else 0) book"

lemma booked_add:
  assumes "dict_ok book" and "CHR ''#'' \<notin> set w" and "dget book (replica_key w r) = None"
  shows "booked_cpus w' (as_add_replica w r c g book) = booked_cpus w' book + (if w' = w then c else 0)"
    and "booked_gpus w' (as_add_replica w r c g book) = booked_gpus w' book + (if w' = w then g else 0)"
  using assms by (auto simp: booked_cpus_def booked_gpus_def as_add_replica_def dsum_dset dpart_def)

lemma booked_remove:
  assumes "dict_ok book" and "CHR ''#'' \<notin> set w"
    and "as_remove_replica w r book = (Inr (c, g), book')"
  shows "booked_cpus w' book' = booked_cpus w' book - (if w' = w then c else 0)"
    and "booked_gpus w' book' = booked_gpus w' book - (if w' = w then g else 0)"
  using assms by (auto simp: booked_cpus_def booked_gpus_def as_remove_replica_def dsum_ddel dpart_def
      Let_def split: option.splits)

text \<open>
  \<open>load_metrics\<close> stores the reported load and time stamp of a known replica and changes nothing
  else: no other entry, no allocation of CPUs or GPUs, no key; a report for an unknown replica
  (removed, or never added) is dropped.
\<close>

theorem load_metrics_effect:
  "let k = replica_key (int_text (mr_worker_id rq)) (int_text (mr_replica_id rq))
   in dget (load_metrics rq book) k' =
        (if k' = k then map_option (\<lambda>sr. sr\<lparr>sr_avg_requests := mr_avg_requests rq,
            sr_sent_time_stamp := mr_sent_time_stamp rq\<rparr>) (dget book k)
         else dget book k') \<and>
      allocated (load_metrics rq book) = allocated book \<and>
      dkeys (load_metrics rq book) = dkeys book"
proof -
  have "dkeys (load_metrics rq book) = dkeys book"
    by (auto simp: load_metrics_def Let_def dkeys_iff split: option.splits)
  then show ?thesis
    by (simp add: Let_def) (simp add: load_metrics_def Let_def split: option.splits)
qed

end
