(* ===== verification/DeploymentManager.thy ===== *)
theory DeploymentManager
  imports NodeInfo AutoScale
begin

text \<open>
  \<open>src/lib/deployment_manager.py\<close>: the head controller's table of deployments and their replicas.

  A \<open>ReplicaInfo\<close> object is shared: \<open>dep.replicas\<close> and \<open>replica_map\<close> hold the same object, and
  \<open>move_replica_state\<close> changes it through the map.  So the state has a heap \<open>dm_objs\<close> of these
  objects and both places hold addresses (indices).  \<open>dm_nodes\<close> and \<open>dm_scale\<close> are the two managers
  the constructor is given.

  The methods take \<open>_lock\<close> for their whole body and await only locks that are free, so each runs
  without interruption and is one function on the state.  A method that may raise returns the state
  it leaves behind beside the exception.  Worker and replica identifiers are passed as the text an
  f-string makes of them; \<open>int(worker_id)\<close> is \<open>int_of_text\<close>, which reads \<open>int_text n\<close> back as \<open>n\<close>.
\<close>

section \<open>Data\<close>

record replica_info =
  ri_replica_num :: string
  ri_address :: string
  ri_state :: string

record deployment =
  dh_name :: string
  dh_version :: string
  dh_num_cpus :: int
  dh_num_gpus :: int
  dh_replicas :: "nat list"

record dep_manager =
  dm_deployments :: "(int, deployment) dict"
  dm_replica_map :: "(string, nat) dict"
  dm_objs :: "replica_info list"
  dm_nodes :: node_info
  dm_scale :: auto_scale

definition dm_init :: "node_info \<Rightarrow> auto_scale \<Rightarrow> dep_manager" where
  "dm_init nodes book = \<lparr>dm_deployments = [], dm_replica_map = [], dm_objs = [],
     dm_nodes = nodes, dm_scale = book\<rparr>"

section \<open>Operations\<close>

definition add_or_update_deployment ::
  "int \<Rightarrow> string \<Rightarrow> string \<Rightarrow> int \<Rightarrow> int \<Rightarrow> dep_manager \<Rightarrow> dep_manager" where
  "add_or_update_deployment deployment_id name version num_cpus num_gpus dm =
     (case dget (dm_deployments dm) deployment_id of
        None \<Rightarrow> dm\<lparr>dm_deployments := dset deployment_id
          \<lparr>dh_name = name, dh_version = version, dh_num_cpus = num_cpus, dh_num_gpus = num_gpus,
           dh_replicas = []\<rparr> (dm_deployments dm)\<rparr>
      | Some dep \<Rightarrow> dm\<lparr>dm_deployments := dset deployment_id
          (dep\<lparr>dh_name := name, dh_version := version, dh_num_cpus := num_cpus,
           dh_num_gpus := num_gpus\<rparr>) (dm_deployments dm)\<rparr>)"

text \<open>
  \<open>remove_deployment\<close> pops the deployment and then reads \<open>r.worker_address\<close> of each replica, an
  attribute \<open>ReplicaInfo\<close> does not have.
\<close>

definition remove_deployment :: "int \<Rightarrow> dep_manager \<Rightarrow> bool res \<times> dep_manager" where
  "remove_deployment deployment_id dm =
     (case dget (dm_deployments dm) deployment_id of
        None \<Rightarrow> (Inr False, dm)
      | Some dep \<Rightarrow>
          (let dm' = dm\<lparr>dm_deployments := ddel deployment_id (dm_deployments dm)\<rparr>
           in case dh_replicas dep of
                [] \<Rightarrow> (Inr True, dm')
              | r # rs \<Rightarrow> (Inl (AttributeError ''worker_address''), dm')))"

definition append_replica :: "int \<Rightarrow> nat \<Rightarrow> (int, deployment) dict \<Rightarrow> (int, deployment) dict" where
  "append_replica deployment_id a deps =
     (case dget deps deployment_id of
        None \<Rightarrow> deps
      | Some dep \<Rightarrow> dset deployment_id (dep\<lparr>dh_replicas := dh_replicas dep @ [a]\<rparr>) deps)"

text \<open>One turn of the loop over \<open>replicas\<close>.\<close>

definition attach_replica ::
  "int \<Rightarrow> string \<Rightarrow> int \<Rightarrow> int \<Rightarrow> string \<Rightarrow> replica_content \<Rightarrow> dep_manager \<Rightarrow> dep_manager" where
  "attach_replica deployment_id worker_id num_cpus num_gpus worker_address replica dm =
     (let rid = replica_key worker_id (int_text (rc_replica_id replica));
          info = \<lparr>ri_replica_num = rid,
                  ri_address = host_port worker_address (rc_port replica), ri_state = ''RUNNING''\<rparr>;
          a = length (dm_objs dm)
      in dm\<lparr>dm_objs := dm_objs dm @ [info],
            dm_deployments := append_replica deployment_id a (dm_deployments dm),
            dm_replica_map := dset rid a (dm_replica_map dm),
            dm_scale := as_add_replica worker_id (int_text (rc_replica_id replica)) num_cpus num_gpus
              (dm_scale dm)\<rparr>)"

fun add_replica_loop ::
  "int \<Rightarrow> string \<Rightarrow> int \<Rightarrow> int \<Rightarrow> string \<Rightarrow> replica_content list \<Rightarrow> dep_manager \<Rightarrow> dep_manager" where
  "add_replica_loop deployment_id worker_id num_cpus num_gpus worker_address [] dm = dm"
| "add_replica_loop deployment_id worker_id num_cpus num_gpus worker_address (replica # rest) dm =
     add_replica_loop deployment_id worker_id num_cpus num_gpus worker_address rest
       (attach_replica deployment_id worker_id num_cpus num_gpus worker_address replica dm)"

text \<open>\<open>await self.node_info_cache.update_resources(int(worker_id), \<dots>)\<close>\<close>

definition charge_worker ::
  "string \<Rightarrow> int \<Rightarrow> int \<Rightarrow> bool \<Rightarrow> dep_manager \<Rightarrow> unit res \<times> dep_manager" where
  "charge_worker worker_id num_cpus num_gpus add dm =
     (case int_of_text worker_id of
        Inl e \<Rightarrow> (Inl e, dm)
      | Inr n \<Rightarrow>
          (case update_resources n num_cpus num_gpus add (dm_nodes dm) of
             (r, nodes) \<Rightarrow> (r, dm\<lparr>dm_nodes := nodes\<rparr>)))"

definition add_replica_to_deployment ::
  "int \<Rightarrow> string \<Rightarrow> replica_content list \<Rightarrow> int \<Rightarrow> int \<Rightarrow> string \<Rightarrow> dep_manager \<Rightarrow>
   bool res \<times> dep_manager" where
  "add_replica_to_deployment deployment_id worker_id replicas num_cpus num_gpus worker_address dm =
     (case dget (dm_deployments dm) deployment_id of
        None \<Rightarrow> (Inr False, dm)
      | Some dep \<Rightarrow>
          (case charge_worker worker_id num_cpus num_gpus True
              (add_replica_loop deployment_id worker_id num_cpus num_gpus worker_address replicas dm) of
             (Inl e, dm') \<Rightarrow> (Inl e, dm')
           | (Inr u, dm') \<Rightarrow> (Inr True, dm')))"

definition move_replica_state ::
  "int \<Rightarrow> string \<Rightarrow> string \<Rightarrow> string \<Rightarrow> dep_manager \<Rightarrow> bool \<times> dep_manager" where
  "move_replica_state deployment_id replica_num worker_id new_state dm =
     (case dget (dm_replica_map dm) (replica_key worker_id replica_num) of
        Some a \<Rightarrow> (True, dm\<lparr>dm_objs := (dm_objs dm)[a := (dm_objs dm ! a)\<lparr>ri_state := new_state\<rparr>]\<rparr>)
      | None \<Rightarrow> (False, dm))"

definition get_deployment :: "int \<Rightarrow> dep_manager \<Rightarrow> deployment option" where
  "get_deployment deployment_id dm = dget (dm_deployments dm) deployment_id"

text \<open>\<open>dep.replicas.remove(replica)\<close>: the first element equal to the object goes.\<close>

fun remove_first :: "('a \<Rightarrow> bool) \<Rightarrow> 'a list \<Rightarrow> 'a list" where
  "remove_first P [] = []"
| "remove_first P (x # xs) = (if P x then xs else x # remove_first P xs)"

definition remove_replica_from_deployment ::
  "int \<Rightarrow> string \<Rightarrow> string \<Rightarrow> dep_manager \<Rightarrow> bool res \<times> dep_manager" where
  "remove_replica_from_deployment deployment_id replica_id worker_id dm =
     (let rid = replica_key worker_id replica_id;
          found = dget (dm_replica_map dm) rid;
          dm1 = dm\<lparr>dm_replica_map := ddel rid (dm_replica_map dm)\<rparr>
      in case (found, dget (dm_deployments dm1) deployment_id) of
           (Some a, Some dep) \<Rightarrow>
             (let same = (\<lambda>b. dm_objs dm1 ! b = dm_objs dm1 ! a)
              in if \<exists>b \<in> set (dh_replicas dep). same b then
                   (let dm2 = dm1\<lparr>dm_deployments := dset deployment_id
                        (dep\<lparr>dh_replicas := remove_first same (dh_replicas dep)\<rparr>) (dm_deployments dm1)\<rparr>
                    in case as_remove_replica worker_id replica_id (dm_scale dm2) of
                         (Inl e, book) \<Rightarrow> (Inl e, dm2\<lparr>dm_scale := book\<rparr>)
                       | (Inr (num_cpus, num_gpus), book) \<Rightarrow>
                           (case charge_worker worker_id num_cpus num_gpus False (dm2\<lparr>dm_scale := book\<rparr>) of
                              (Inl e, dm3) \<Rightarrow> (Inl e, dm3)
                            | (Inr u, dm3) \<Rightarrow> (Inr True, dm3)))
                 else (Inr False, dm1))
         | _ \<Rightarrow> (Inr False, dm1))"

definition replica_to_msg :: "replica_info \<Rightarrow> replica_msg" where
  "replica_to_msg r =
     \<lparr>rm_replica_id = ri_replica_num r, rm_address = ri_address r, rm_state = ri_state r\<rparr>"

definition deployment_to_msg :: "replica_info list \<Rightarrow> int \<Rightarrow> deployment \<Rightarrow> deployment_msg" where
  "deployment_to_msg objs dep_id dep =
     \<lparr>dp_deployment_id = dep_id, dp_deployment_name = dh_name dep, dp_version = dh_version dep,
      dp_status = ''ACTIVE'', dp_replicas = map (\<lambda>a. replica_to_msg (objs ! a)) (dh_replicas dep)\<rparr>"

text \<open>\<open>now\<close> is \<open>time.time_ns()\<close>.\<close>

definition get_current_routing_table :: "int \<Rightarrow> dep_manager \<Rightarrow> routing_update" where
  "get_current_routing_table now dm =
     \<lparr>ru_deployments =
        map (\<lambda>(dep_id, dep). (dep_id, deployment_to_msg (dm_objs dm) dep_id dep)) (dm_deployments dm),
      ru_timestamp = now\<rparr>"

end
