(* ===== verification/DeploymentInvariants.thy ===== *)
theory DeploymentInvariants
  imports DeploymentManager
begin

text \<open>
  What the operations of the deployment manager keep and what they do.

  \<^item> \<open>dm_shape\<close>: the two places that hold a replica object agree.  Every address in a deployment is the
    one \<open>replica_map\<close> has for its identifier, every address in \<open>replica_map\<close> is in exactly one
    deployment, and the auto-scale book has an entry for exactly the same identifiers.
  \<^item> \<open>ledger_ok\<close>: what a registered node counts as in use is the sum over its replicas in the book.
  \<^item> \<open>routes\<close>: the table without addresses, and the operations on it that the code implements.
\<close>

definition live :: "dep_manager \<Rightarrow> int \<Rightarrow> nat \<Rightarrow> bool" where
  "live dm d a \<longleftrightarrow> (\<exists>dep. dget (dm_deployments dm) d = Some dep \<and> a \<in> set (dh_replicas dep))"

definition dm_shape :: "dep_manager \<Rightarrow> bool" where
  "dm_shape dm \<longleftrightarrow>
     dict_ok (dm_deployments dm) \<and> dict_ok (dm_replica_map dm) \<and> dict_ok (dm_scale dm) \<and>
     (\<forall>d dep. dget (dm_deployments dm) d = Some dep \<longrightarrow> distinct (dh_replicas dep)) \<and>
     (\<forall>d a. live dm d a \<longrightarrow> dget (dm_replica_map dm) (ri_replica_num (dm_objs dm ! a)) = Some a) \<and>
     (\<forall>rid a. dget (dm_replica_map dm) rid = Some a \<longrightarrow>
        a < length (dm_objs dm) \<and> ri_replica_num (dm_objs dm ! a) = rid \<and> (\<exists>d. live dm d a)) \<and>
     (\<forall>d d' a. live dm d a \<longrightarrow> live dm d' a \<longrightarrow> d = d') \<and>
     dkeys (dm_scale dm) = dkeys (dm_replica_map dm)"

definition ledger_ok :: "dep_manager \<Rightarrow> bool" where
  "ledger_ok dm \<longleftrightarrow> (\<forall>n c g. used_on (dm_nodes dm) n = Some (c, g) \<longrightarrow>
     c = booked_cpus (int_text n) (dm_scale dm) \<and> g = booked_gpus (int_text n) (dm_scale dm))"

named_theorems shape_facts

lemma shape_dicts [shape_facts]:
  assumes "dm_shape dm"
  shows "dict_ok (dm_deployments dm)" and "dict_ok (dm_replica_map dm)" and "dict_ok (dm_scale dm)"
  using assms by (simp_all add: dm_shape_def)

lemma shape_distinct: "dm_shape dm \<Longrightarrow> dget (dm_deployments dm) d = Some dep \<Longrightarrow> distinct (dh_replicas dep)"
  unfolding dm_shape_def by blast

lemma shape_live: "dm_shape dm \<Longrightarrow> live dm d a \<Longrightarrow>
    dget (dm_replica_map dm) (ri_replica_num (dm_objs dm ! a)) = Some a"
  unfolding dm_shape_def by blast

lemma shape_mapped:
  assumes "dm_shape dm" and "dget (dm_replica_map dm) rid = Some a"
  shows "a < length (dm_objs dm)" and "ri_replica_num (dm_objs dm ! a) = rid" and "\<exists>d. live dm d a"
  using assms unfolding dm_shape_def by blast+

lemma shape_live_bound: "dm_shape dm \<Longrightarrow> live dm d a \<Longrightarrow> a < length (dm_objs dm)"
  using shape_live shape_mapped(1) by blast

lemma shape_live_unique: "dm_shape dm \<Longrightarrow> live dm d a \<Longrightarrow> live dm d' a \<Longrightarrow> d = d'"
  unfolding dm_shape_def by blast

lemma shape_keys: "dm_shape dm \<Longrightarrow> dget (dm_scale dm) k = None \<longleftrightarrow> dget (dm_replica_map dm) k = None"
  by (metis dkeys_iff dm_shape_def)

text \<open>Two objects in the table that are equal are the same object.\<close>

lemma shape_same:
  assumes "dm_shape dm" and "live dm d a" and "live dm d' b"
    and "ri_replica_num (dm_objs dm ! a) = ri_replica_num (dm_objs dm ! b)"
  shows "a = b"
proof -
  have "Some a = Some b"
    using shape_live [OF assms(1,2)] shape_live [OF assms(1,3)] assms(4) by metis
  then show ?thesis by (rule option.inject [THEN iffD1])
qed

lemma dm_shapeI:
  assumes "dict_ok (dm_deployments dm)" and "dict_ok (dm_replica_map dm)" and "dict_ok (dm_scale dm)"
    and "\<And>d dep. dget (dm_deployments dm) d = Some dep \<Longrightarrow> distinct (dh_replicas dep)"
    and "\<And>d a. live dm d a \<Longrightarrow> dget (dm_replica_map dm) (ri_replica_num (dm_objs dm ! a)) = Some a"
    and "\<And>rid a. dget (dm_replica_map dm) rid = Some a \<Longrightarrow>
        a < length (dm_objs dm) \<and> ri_replica_num (dm_objs dm ! a) = rid \<and> (\<exists>d. live dm d a)"
    and "\<And>d d' a. live dm d a \<Longrightarrow> live dm d' a \<Longrightarrow> d = d'"
    and "dkeys (dm_scale dm) = dkeys (dm_replica_map dm)"
  shows "dm_shape dm"
  unfolding dm_shape_def by (intro conjI allI impI) (use assms in blast)+

lemma dm_shape_init [simp]: "dm_shape (dm_init nodes [])"
  by (rule dm_shapeI) (simp_all add: dm_init_def live_def)

lemma ledger_ok_init: "get_all_nodes nodes = [] \<Longrightarrow> ledger_ok (dm_init nodes [])"
  by (simp add: ledger_ok_def dm_init_def used_on_def get_all_nodes_def dvalues_def)

text \<open>The invariant does not look at the node cache.\<close>

lemma dm_shape_nodes [simp]: "dm_shape (dm\<lparr>dm_nodes := nodes\<rparr>) = dm_shape dm"
  by (simp add: dm_shape_def live_def)

lemma charge_worker_shape [simp]: "dm_shape (snd (charge_worker w c g add dm)) = dm_shape dm"
  by (simp add: charge_worker_def split: sum.splits prod.splits)

lemma charge_worker_frame [simp]:
  "dm_deployments (snd (charge_worker w c g add dm)) = dm_deployments dm"
  "dm_replica_map (snd (charge_worker w c g add dm)) = dm_replica_map dm"
  "dm_objs (snd (charge_worker w c g add dm)) = dm_objs dm"
  "dm_scale (snd (charge_worker w c g add dm)) = dm_scale dm"
  by (simp_all add: charge_worker_def split: sum.splits prod.splits)

section \<open>Adding\<close>

lemma dget_append_replica:
  "dget (append_replica d a deps) d' =
     (if d' = d then map_option (\<lambda>dep. dep\<lparr>dh_replicas := dh_replicas dep @ [a]\<rparr>) (dget deps d)
      else dget deps d')"
  by (auto simp: append_replica_def split: option.splits)

lemma live_attach:
  assumes "dget (dm_deployments dm) d = Some dep"
  shows "live (attach_replica d w c g addr rc dm) d' a \<longleftrightarrow>
    live dm d' a \<or> d' = d \<and> a = length (dm_objs dm)"
  using assms by (auto simp: live_def attach_replica_def Let_def dget_append_replica)

lemma dm_shape_attach:
  assumes ok: "dm_shape dm" and dep: "dget (dm_deployments dm) d = Some dep"
    and fresh: "dget (dm_replica_map dm) (replica_key w (int_text (rc_replica_id rc))) = None"
  shows "dm_shape (attach_replica d w c g addr rc dm)" (is "dm_shape ?dm")
proof -
  let ?rid = "replica_key w (int_text (rc_replica_id rc))" and ?n = "length (dm_objs dm)"
  have objs: "length (dm_objs ?dm) = Suc ?n" "a < ?n \<Longrightarrow> dm_objs ?dm ! a = dm_objs dm ! a"
    "ri_replica_num (dm_objs ?dm ! ?n) = ?rid" for a
    by (simp_all add: attach_replica_def Let_def nth_append)
  have rmap: "dget (dm_replica_map ?dm) k = (if k = ?rid then Some ?n else dget (dm_replica_map dm) k)" for k
    by (simp add: attach_replica_def Let_def)
  note lv = live_attach [OF dep, of w c g addr rc]
  note old = shape_live_bound [OF ok]
  have new: "\<not> live dm d' ?n" for d' using old [of d' ?n] by auto
  show ?thesis
  proof (rule dm_shapeI)
    show "dict_ok (dm_deployments ?dm)" "dict_ok (dm_replica_map ?dm)" "dict_ok (dm_scale ?dm)"
      using shape_dicts [OF ok]
      by (simp_all add: attach_replica_def Let_def append_replica_def dict_ok_as_add split: option.splits)
    show "distinct (dh_replicas dep')" if "dget (dm_deployments ?dm) d' = Some dep'" for d' dep'
      using that shape_distinct [OF ok] new [of d] dep
      by (auto simp: attach_replica_def Let_def dget_append_replica live_def split: if_splits)
    show "dget (dm_replica_map ?dm) (ri_replica_num (dm_objs ?dm ! a)) = Some a" if "live ?dm d' a" for d' a
    proof (cases "live dm d' a")
      case True
      then have "dget (dm_replica_map dm) (ri_replica_num (dm_objs dm ! a)) = Some a"
        using shape_live [OF ok] by blast
      with True fresh show ?thesis using old objs(2) rmap by auto
    next
      case False
      with that lv have "a = ?n" by simp
      with objs(3) rmap show ?thesis by simp
    qed
    show "a < length (dm_objs ?dm) \<and> ri_replica_num (dm_objs ?dm ! a) = rid \<and> (\<exists>d. live ?dm d a)"
      if "dget (dm_replica_map ?dm) rid = Some a" for rid a
    proof (cases "rid = ?rid")
      case True
      with that rmap have "a = ?n" by simp
      with True lv new objs show ?thesis by auto
    next
      case False
      with that rmap have "dget (dm_replica_map dm) rid = Some a" by simp
      with shape_mapped [OF ok this] lv objs show ?thesis by auto
    qed
    show "d1 = d2" if "live ?dm d1 a" "live ?dm d2 a" for d1 d2 a
      using that lv new shape_live_unique [OF ok, of d1 a d2] by auto
    show "dkeys (dm_scale ?dm) = dkeys (dm_replica_map ?dm)"
      using ok by (simp add: attach_replica_def Let_def as_add_replica_def dm_shape_def)
  qed
qed

section \<open>Removing and moving\<close>

lemma remove_first_eq_remove1:
  "\<forall>b \<in> set xs. P b \<longleftrightarrow> b = a \<Longrightarrow> remove_first P xs = remove1 a xs"
  by (induction xs) auto

text \<open>What \<open>remove_replica_from_deployment\<close> does in a well-shaped table, as one equation.\<close>

lemma remove_replica_found:
  assumes ok: "dm_shape dm" and a: "dget (dm_replica_map dm) (replica_key w r) = Some a"
    and dep: "dget (dm_deployments dm) d = Some dep" and mem: "a \<in> set (dh_replicas dep)"
  shows "\<exists>sr. dget (dm_scale dm) (replica_key w r) = Some sr \<and>
    remove_replica_from_deployment d r w dm =
      (case charge_worker w (sr_num_cpus sr) (sr_num_gpus sr) False
         (dm\<lparr>dm_replica_map := ddel (replica_key w r) (dm_replica_map dm),
             dm_deployments := dset d (dep\<lparr>dh_replicas := remove1 a (dh_replicas dep)\<rparr>) (dm_deployments dm),
             dm_scale := ddel (replica_key w r) (dm_scale dm)\<rparr>) of
         (Inl e, dm') \<Rightarrow> (Inl e, dm') | (Inr u, dm') \<Rightarrow> (Inr True, dm'))"
proof -
  have la: "live dm d a" using dep mem by (auto simp: live_def)
  have same: "dm_objs dm ! b = dm_objs dm ! a \<longleftrightarrow> b = a" if "b \<in> set (dh_replicas dep)" for b
  proof -
    have "live dm d b" using dep that by (auto simp: live_def)
    then show ?thesis using shape_same [OF ok _ la] by auto
  qed
  then have rf: "remove_first (\<lambda>b. dm_objs dm ! b = dm_objs dm ! a) (dh_replicas dep) =
      remove1 a (dh_replicas dep)"
    by (intro remove_first_eq_remove1) blast
  from shape_keys [OF ok, of "replica_key w r"] a obtain sr
    where sr: "dget (dm_scale dm) (replica_key w r) = Some sr" by (cases "dget (dm_scale dm) (replica_key w r)") auto
  show ?thesis
    using a dep mem sr rf
    by (auto simp: remove_replica_from_deployment_def Let_def as_remove_replica_def
        split: prod.splits sum.splits)
qed

lemma remove_replica_absent:
  assumes "dget (dm_replica_map dm) (replica_key w r) = None"
  shows "remove_replica_from_deployment d r w dm = (Inr False, dm)"
  using assms by (simp add: remove_replica_from_deployment_def Let_def ddel_absent)

definition detach :: "int \<Rightarrow> string \<Rightarrow> nat \<Rightarrow> deployment \<Rightarrow> dep_manager \<Rightarrow> dep_manager" where
  "detach d rid a dep dm = dm\<lparr>dm_replica_map := ddel rid (dm_replica_map dm),
     dm_deployments := dset d (dep\<lparr>dh_replicas := remove1 a (dh_replicas dep)\<rparr>) (dm_deployments dm),
     dm_scale := ddel rid (dm_scale dm)\<rparr>"

lemma live_detach:
  assumes ok: "dm_shape dm" and dep: "dget (dm_deployments dm) d = Some dep" and mem: "a \<in> set (dh_replicas dep)"
  shows "live (detach d rid a dep dm) d' b \<longleftrightarrow> live dm d' b \<and> b \<noteq> a"
proof -
  have la: "live dm d a" using dep mem by (auto simp: live_def)
  show ?thesis
    using dep shape_distinct [OF ok dep] shape_live_unique [OF ok la, of d'] la
    by (cases "d' = d") (auto simp: live_def detach_def)
qed

lemma dm_shape_detach:
  assumes ok: "dm_shape dm" and a: "dget (dm_replica_map dm) rid = Some a"
    and dep: "dget (dm_deployments dm) d = Some dep" and mem: "a \<in> set (dh_replicas dep)"
  shows "dm_shape (detach d rid a dep dm)" (is "dm_shape ?dm")
proof -
  have la: "live dm d a" using dep mem by (auto simp: live_def)
  note dist = shape_distinct [OF ok dep] and lv = live_detach [OF ok dep mem]
  have rmap: "dget (dm_replica_map ?dm) k = (if k = rid then None else dget (dm_replica_map dm) k)" for k
    by (simp add: detach_def)
  have objs: "dm_objs ?dm = dm_objs dm" by (simp add: detach_def)
  show ?thesis
  proof (rule dm_shapeI)
    show "dict_ok (dm_deployments ?dm)" "dict_ok (dm_replica_map ?dm)" "dict_ok (dm_scale ?dm)"
      using shape_dicts [OF ok] by (simp_all add: detach_def)
    show "distinct (dh_replicas dep')" if "dget (dm_deployments ?dm) d' = Some dep'" for d' dep'
      using that dist shape_distinct [OF ok] by (auto simp: detach_def split: if_splits)
    show "dget (dm_replica_map ?dm) (ri_replica_num (dm_objs ?dm ! b)) = Some b" if "live ?dm d' b" for d' b
      using that lv shape_live [OF ok, of d' b] shape_mapped(2) [OF ok a] a by (auto simp: rmap objs)
    show "b < length (dm_objs ?dm) \<and> ri_replica_num (dm_objs ?dm ! b) = k \<and> (\<exists>d. live ?dm d b)"
      if "dget (dm_replica_map ?dm) k = Some b" for k b
    proof -
      from that have k: "k \<noteq> rid" "dget (dm_replica_map dm) k = Some b" by (auto simp: rmap split: if_splits)
      with shape_mapped(2) [OF ok a] shape_mapped(2) [OF ok k(2)] have "b \<noteq> a" by auto
      with shape_mapped [OF ok k(2)] lv objs show ?thesis by auto
    qed
    show "d1 = d2" if "live ?dm d1 b" "live ?dm d2 b" for d1 d2 b
      using that lv shape_live_unique [OF ok, of d1 b d2] by auto
    show "dkeys (dm_scale ?dm) = dkeys (dm_replica_map ?dm)"
      using ok by (simp add: detach_def dm_shape_def)
  qed
qed

lemma live_move [simp]: "live (snd (move_replica_state d0 r w st dm)) d a = live dm d a"
  by (simp add: live_def move_replica_state_def split: option.splits)

lemma move_objs:
  assumes "dm_shape dm"
  shows "ri_replica_num (dm_objs (snd (move_replica_state d0 r w st dm)) ! a) = ri_replica_num (dm_objs dm ! a)"
    and "length (dm_objs (snd (move_replica_state d0 r w st dm))) = length (dm_objs dm)"
  using shape_mapped(1) [OF assms]
  by (auto simp: move_replica_state_def nth_list_update split: option.splits)

lemma dm_shape_move:
  assumes "dm_shape dm"
  shows "dm_shape (snd (move_replica_state d0 r w st dm))" (is "dm_shape ?dm")
proof -
  have fr: "dm_deployments ?dm = dm_deployments dm" "dm_replica_map ?dm = dm_replica_map dm"
    "dm_scale ?dm = dm_scale dm"
    by (simp_all add: move_replica_state_def split: option.splits)
  show ?thesis
  proof (rule dm_shapeI)
    show "dict_ok (dm_deployments ?dm)" "dict_ok (dm_replica_map ?dm)" "dict_ok (dm_scale ?dm)"
      using shape_dicts [OF assms] by (simp_all add: fr)
    show "dkeys (dm_scale ?dm) = dkeys (dm_replica_map ?dm)"
      using assms by (simp add: fr dm_shape_def)
  qed (simp_all add: fr move_objs [OF assms] shape_distinct [OF assms] shape_live [OF assms]
      shape_mapped [OF assms] shape_live_unique [OF assms])
qed

lemma dm_shape_update:
  assumes ok: "dm_shape dm"
  shows "dm_shape (add_or_update_deployment d name version c g dm)" (is "dm_shape ?dm")
proof -
  have lv: "live ?dm d' a = live dm d' a" for d' a
    by (auto simp: live_def add_or_update_deployment_def split: option.splits)
  have fr: "dm_replica_map ?dm = dm_replica_map dm" "dm_objs ?dm = dm_objs dm" "dm_scale ?dm = dm_scale dm"
    by (simp_all add: add_or_update_deployment_def split: option.splits)
  have "distinct (dh_replicas dep')" if "dget (dm_deployments ?dm) d' = Some dep'" for d' dep'
    using that shape_distinct [OF ok]
    by (auto simp: add_or_update_deployment_def split: option.splits if_splits)
  moreover have "dict_ok (dm_deployments ?dm)"
    using shape_dicts [OF ok] by (simp add: add_or_update_deployment_def split: option.splits)
  moreover have "dkeys (dm_scale ?dm) = dkeys (dm_replica_map ?dm)"
    using ok by (simp add: fr dm_shape_def)
  ultimately show ?thesis
    by (intro dm_shapeI) (simp_all add: fr lv shape_dicts [OF ok] shape_live [OF ok]
      shape_mapped [OF ok] shape_live_unique [OF ok])
qed

end
