(* ===== verification/DeploymentSpec.thy ===== *)
theory DeploymentSpec
  imports DeploymentInvariants
begin

text \<open>
  The abstract table of deployments (no addresses, no shared objects), the proof that each operation
  of the deployment manager implements its counterpart on it, the resource ledger, and the histories
  of the manager as a step relation.
\<close>

section \<open>The abstract table\<close>

type_synonym route_table = "int \<Rightarrow> (string \<times> string \<times> replica_info list) option"

definition routes :: "dep_manager \<Rightarrow> route_table" where
  "routes dm d = map_option (\<lambda>dep. (dh_name dep, dh_version dep, map (\<lambda>a. dm_objs dm ! a) (dh_replicas dep)))
     (dget (dm_deployments dm) d)"

definition spec_add :: "int \<Rightarrow> replica_info \<Rightarrow> route_table \<Rightarrow> route_table" where
  "spec_add d info m = m(d := map_option (\<lambda>(n, v, rs). (n, v, rs @ [info])) (m d))"

definition spec_remove :: "int \<Rightarrow> string \<Rightarrow> route_table \<Rightarrow> route_table" where
  "spec_remove d rid m =
     m(d := map_option (\<lambda>(n, v, rs). (n, v, filter (\<lambda>r. ri_replica_num r \<noteq> rid) rs)) (m d))"

definition spec_move :: "string \<Rightarrow> string \<Rightarrow> route_table \<Rightarrow> route_table" where
  "spec_move rid st m = (\<lambda>d. map_option (\<lambda>(n, v, rs).
     (n, v, map (\<lambda>r. if ri_replica_num r = rid then r\<lparr>ri_state := st\<rparr> else r) rs)) (m d))"

definition spec_update :: "int \<Rightarrow> string \<Rightarrow> string \<Rightarrow> route_table \<Rightarrow> route_table" where
  "spec_update d name version m =
     m(d := Some (name, version, case m d of None \<Rightarrow> [] | Some (n, v, rs) \<Rightarrow> rs))"

lemma routes_frame [simp]:
  "routes (snd (charge_worker w c g add dm)) = routes dm"
  "routes (dm\<lparr>dm_nodes := nodes\<rparr>) = routes dm"
  "routes (dm\<lparr>dm_scale := book\<rparr>) = routes dm"
  "routes (dm\<lparr>dm_replica_map := m\<rparr>) = routes dm"
  by (simp_all add: routes_def fun_eq_iff)

lemma live_deref:
  assumes "dm_shape dm" and "dget (dm_deployments dm) d = Some dep" and "a \<in> set (dh_replicas dep)"
  shows "a < length (dm_objs dm)"
  using shape_live_bound [OF assms(1), of d a] assms(2,3) by (auto simp: live_def)

lemma routes_attach:
  assumes "dm_shape dm" and "dget (dm_deployments dm) d = Some dep"
  shows "routes (attach_replica d w c g addr rc dm) = spec_add d
    \<lparr>ri_replica_num = replica_key w (int_text (rc_replica_id rc)),
     ri_address = host_port addr (rc_port rc), ri_state = ''RUNNING''\<rparr> (routes dm)"
proof
  fix d'
  have "map (\<lambda>a. (dm_objs dm @ xs) ! a) (dh_replicas dep') = map (\<lambda>a. dm_objs dm ! a) (dh_replicas dep')"
    if "dget (dm_deployments dm) d' = Some dep'" for dep' xs
    using live_deref [OF assms(1) that] by (simp add: nth_append)
  with assms(2) show "routes (attach_replica d w c g addr rc dm) d' = spec_add d
    \<lparr>ri_replica_num = replica_key w (int_text (rc_replica_id rc)),
     ri_address = host_port addr (rc_port rc), ri_state = ''RUNNING''\<rparr> (routes dm) d'"
    by (cases "dget (dm_deployments dm) d'")
      (auto simp: routes_def attach_replica_def spec_add_def Let_def dget_append_replica)
qed

lemma routes_detach:
  assumes ok: "dm_shape dm" and a: "dget (dm_replica_map dm) rid = Some a"
    and dep: "dget (dm_deployments dm) d = Some dep" and mem: "a \<in> set (dh_replicas dep)"
  shows "routes (detach d rid a dep dm) = spec_remove d rid (routes dm)"
proof
  fix d'
  have la: "live dm d a" using dep mem by (auto simp: live_def)
  have iff: "ri_replica_num (dm_objs dm ! b) = rid \<longleftrightarrow> b = a" if "b \<in> set (dh_replicas dep)" for b
  proof -
    have lb: "live dm d b" using dep that by (auto simp: live_def)
    show ?thesis using shape_same [OF ok lb la] shape_mapped(2) [OF ok a] by auto
  qed
  have "map (\<lambda>a. dm_objs dm ! a) (remove1 a (dh_replicas dep)) =
      filter (\<lambda>r. ri_replica_num r \<noteq> rid) (map (\<lambda>a. dm_objs dm ! a) (dh_replicas dep))"
    using iff distinct_remove1_removeAll [OF shape_distinct [OF ok dep], of a]
    by (auto simp: filter_map comp_def removeAll_filter_not_eq intro: arg_cong [where f = "map _"] filter_cong)
  with dep show "routes (detach d rid a dep dm) d' = spec_remove d rid (routes dm) d'"
    by (auto simp: routes_def detach_def spec_remove_def)
qed

lemma routes_move:
  assumes ok: "dm_shape dm"
  shows "routes (snd (move_replica_state d0 r w st dm)) =
    (if dget (dm_replica_map dm) (replica_key w r) = None then routes dm
     else spec_move (replica_key w r) st (routes dm))"
proof (cases "dget (dm_replica_map dm) (replica_key w r)")
  case None
  then show ?thesis by (simp add: move_replica_state_def)
next
  case (Some a)
  note m = shape_mapped [OF ok Some]
  have "(dm_objs dm)[a := (dm_objs dm ! a)\<lparr>ri_state := st\<rparr>] ! b =
      (if ri_replica_num (dm_objs dm ! b) = replica_key w r
       then (dm_objs dm ! b)\<lparr>ri_state := st\<rparr> else dm_objs dm ! b)"
    if "dget (dm_deployments dm) d = Some dep" "b \<in> set (dh_replicas dep)" for d dep b
  proof (cases "b = a")
    case True
    with m show ?thesis by simp
  next
    case False
    have lb: "live dm d b" using that by (auto simp: live_def)
    obtain d' where la: "live dm d' a" using m(3) by blast
    have "ri_replica_num (dm_objs dm ! b) \<noteq> replica_key w r"
      using shape_same [OF ok lb la] m(2) False by auto
    with False show ?thesis by simp
  qed
  then have "routes (snd (move_replica_state d0 r w st dm)) d = spec_move (replica_key w r) st (routes dm) d"
    for d
    using Some by (cases "dget (dm_deployments dm) d")
      (auto simp: routes_def move_replica_state_def spec_move_def)
  with Some show ?thesis by auto
qed

lemma routes_update: "routes (add_or_update_deployment d name version c g dm) =
    spec_update d name version (routes dm)"
  by (auto simp: routes_def add_or_update_deployment_def spec_update_def fun_eq_iff split: option.splits)

section \<open>The ledger\<close>

lemma charge_worker_int:
  "charge_worker (int_text n) c g add dm =
     (case update_resources n c g add (dm_nodes dm) of (r, nodes) \<Rightarrow> (r, dm\<lparr>dm_nodes := nodes\<rparr>))"
  by (simp add: charge_worker_def)

lemma charge_worker_registered:
  assumes "used_on (dm_nodes dm) n \<noteq> None"
  shows "charge_worker (int_text n) c g add dm =
    (Inr (), dm\<lparr>dm_nodes := snd (update_resources n c g add (dm_nodes dm))\<rparr>)"
proof -
  have "fst (update_resources n c g add (dm_nodes dm)) = Inr ()"
    using ledger.charge_ok_iff assms by blast
  then show ?thesis
    by (cases "update_resources n c g add (dm_nodes dm)") (simp add: charge_worker_int)
qed

lemma charge_worker_unregistered:
  "used_on (dm_nodes dm) n = None \<Longrightarrow> charge_worker (int_text n) c g add dm = (Inl KeyError, dm)"
  using ledger.charge_unknown [of "dm_nodes dm" n c g add] by (simp add: charge_worker_int)

lemma ledger_charge_add:
  assumes "ledger_ok dm" and "dict_ok (dm_scale dm)"
    and "dget (dm_scale dm) (replica_key (int_text n) r) = None"
    and "dm_nodes dm' = snd (update_resources n c g True (dm_nodes dm))"
    and "dm_scale dm' = as_add_replica (int_text n) r c g (dm_scale dm)"
  shows "ledger_ok dm'"
  using assms(1) booked_add [OF assms(2) int_text_hash assms(3)]
  by (auto simp: ledger_ok_def assms(4,5) used_on_update split: option.splits if_splits)

lemma ledger_charge_remove:
  assumes "ledger_ok dm" and "dict_ok (dm_scale dm)"
    and "as_remove_replica (int_text n) r (dm_scale dm) = (Inr (c, g), dm_scale dm')"
    and "dm_nodes dm' = snd (update_resources n c g False (dm_nodes dm))"
  shows "ledger_ok dm'"
  using assms(1) booked_remove [OF assms(2) int_text_hash assms(3)]
  by (auto simp: ledger_ok_def assms(4) used_on_update split: option.splits if_splits)

section \<open>The operations implement the abstract table\<close>

lemma add_one_replica:
  assumes "dm_shape dm" and "ledger_ok dm" and "routes dm d \<noteq> None"
    and "used_on (dm_nodes dm) n \<noteq> None"
    and "dget (dm_replica_map dm) (replica_key (int_text n) (int_text (rc_replica_id rc))) = None"
  shows "\<exists>dm'. add_replica_to_deployment d (int_text n) [rc] c g addr dm = (Inr True, dm') \<and>
    dm_shape dm' \<and> ledger_ok dm' \<and> routes dm' = spec_add d
      \<lparr>ri_replica_num = replica_key (int_text n) (int_text (rc_replica_id rc)),
       ri_address = host_port addr (rc_port rc), ri_state = ''RUNNING''\<rparr> (routes dm)"
proof -
  obtain dep where dep: "dget (dm_deployments dm) d = Some dep" using assms(3) by (auto simp: routes_def)
  let ?dm = "attach_replica d (int_text n) c g addr rc dm"
  let ?dm' = "?dm\<lparr>dm_nodes := snd (update_resources n c g True (dm_nodes ?dm))\<rparr>"
  have nodes: "dm_nodes ?dm = dm_nodes dm" and scale: "dm_scale ?dm = as_add_replica (int_text n)
      (int_text (rc_replica_id rc)) c g (dm_scale dm)"
    by (simp_all add: attach_replica_def Let_def)
  have run: "add_replica_to_deployment d (int_text n) [rc] c g addr dm = (Inr True, ?dm')"
    using dep assms(4) nodes by (simp add: add_replica_to_deployment_def charge_worker_registered)
  have "ledger_ok ?dm'"
    using ledger_charge_add [OF assms(2) shape_dicts(3) [OF assms(1)], of n "int_text (rc_replica_id rc)" ?dm' c g]
      shape_keys [OF assms(1)] assms(5) nodes scale by simp
  moreover have "dm_shape ?dm'" using dm_shape_attach [OF assms(1) dep assms(5)] by simp
  ultimately show ?thesis using run routes_attach [OF assms(1) dep] by simp
qed

text \<open>
  C25. \<open>add_replica_to_deployment\<close> with the one replica a scheduler reply carries: for a known
  deployment, a registered worker and an identifier that is not in use, it returns \<open>True\<close>, the
  table gains exactly that replica, \<open>RUNNING\<close>, at the end of the deployment's list, the agreement
  between \<open>deployments\<close>, \<open>replica_map\<close> and the auto-scale book is kept, and so is the ledger: the
  worker's resources in use equal the sum over its replicas.
\<close>

theorem add_replica_refines:
  assumes "dm_shape dm" and "ledger_ok dm" and "routes dm d \<noteq> None"
    and "used_on (dm_nodes dm) n \<noteq> None"
    and "dget (dm_replica_map dm) (replica_key (int_text n) (int_text (rc_replica_id rc))) = None"
  shows "\<exists>dm'. add_replica_to_deployment d (int_text n) [rc] c g addr dm = (Inr True, dm') \<and>
    dm_shape dm' \<and> ledger_ok dm' \<and> routes dm' = spec_add d
      \<lparr>ri_replica_num = replica_key (int_text n) (int_text (rc_replica_id rc)),
       ri_address = host_port addr (rc_port rc), ri_state = ''RUNNING''\<rparr> (routes dm)"
  using add_one_replica [OF assms] .

text \<open>A head controller's tables after two registrations and the three deployments it creates.\<close>

definition demo_node :: "int \<Rightarrow> register_request" where
  "demo_node n = \<lparr>rq_node_id = n, rq_node_address = ''10.0.0.'' @ int_text n, rq_port = ''50051'',
     rq_state = ''alive'', rq_resource = \<lparr>res_num_cpus = 4, res_num_gpus = 1\<rparr>\<rparr>"

definition demo_dm :: dep_manager where
  "demo_dm = add_or_update_deployment 2 ''/v1/chat/tinyllama'' ''1.0'' 2 1
     (add_or_update_deployment 1 ''/v1/chat/gpt2'' ''1.0'' 2 1
       (dm_init (add_node (demo_node 2) (add_node (demo_node 1) ni_init)) []))"

definition demo_rc :: "int \<Rightarrow> replica_content" where
  "demo_rc r = \<lparr>rc_replica_id = r, rc_port = int_text (50100 + r)\<rparr>"

lemma demo_dm_facts:
  "dm_shape demo_dm" "ledger_ok demo_dm" "routes demo_dm 2 = Some (''/v1/chat/tinyllama'', ''1.0'', [])"
  "used_on (dm_nodes demo_dm) 1 = Some (0, 0)" "dm_replica_map demo_dm = []"
proof -
  show "dm_shape demo_dm" unfolding demo_dm_def by (intro dm_shape_update dm_shape_init)
  have "dm_scale demo_dm = []" and
    "dm_nodes demo_dm = add_node (demo_node 2) (add_node (demo_node 1) ni_init)"
    by (simp_all add: demo_dm_def add_or_update_deployment_def dm_init_def split: option.splits)
  then show "ledger_ok demo_dm" "used_on (dm_nodes demo_dm) 1 = Some (0, 0)"
    by (auto simp: ledger_ok_def used_on_add_node booked_cpus_def booked_gpus_def demo_node_def
        split: if_splits)
  show "routes demo_dm 2 = Some (''/v1/chat/tinyllama'', ''1.0'', [])"
    by (simp add: demo_dm_def routes_update spec_update_def) (simp add: routes_def dm_init_def)
  show "dm_replica_map demo_dm = []"
    by (simp add: demo_dm_def add_or_update_deployment_def dm_init_def split: option.splits)
qed

theorem add_replica_refines_witness:
  "\<exists>dm'. add_replica_to_deployment 2 (int_text 1) [demo_rc 7] 2 1 ''10.0.0.1'' demo_dm = (Inr True, dm') \<and>
    ledger_ok dm' \<and> routes dm' 2 = Some (''/v1/chat/tinyllama'', ''1.0'',
      [\<lparr>ri_replica_num = replica_key (int_text 1) (int_text 7),
        ri_address = host_port ''10.0.0.1'' (int_text 50107), ri_state = ''RUNNING''\<rparr>])"
  using add_replica_refines [of demo_dm 2 1 "demo_rc 7" 2 1 "''10.0.0.1''"]
  by (auto simp: demo_dm_facts spec_add_def demo_rc_def)

text \<open>A table with the replica \<open>1#7\<close> of the deployment 2 in it.\<close>

definition demo_dm1 :: dep_manager where
  "demo_dm1 = snd (add_replica_to_deployment 2 (int_text 1) [demo_rc 7] 2 1 ''10.0.0.1'' demo_dm)"

lemma demo_dm1_facts:
  "dm_shape demo_dm1" "ledger_ok demo_dm1" "used_on (dm_nodes demo_dm1) 1 = Some (2, 1)"
  "dget (dm_replica_map demo_dm1) (replica_key (int_text 1) (int_text 7)) = Some 0" "live demo_dm1 2 0"
  "routes demo_dm1 2 = Some (''/v1/chat/tinyllama'', ''1.0'',
      [\<lparr>ri_replica_num = replica_key (int_text 1) (int_text 7),
        ri_address = host_port ''10.0.0.1'' (int_text 50107), ri_state = ''RUNNING''\<rparr>])"
proof -
  let ?at = "attach_replica 2 (int_text 1) 2 1 ''10.0.0.1'' (demo_rc 7) demo_dm"
  have dep: "\<exists>dep. dget (dm_deployments demo_dm) 2 = Some dep"
    using demo_dm_facts(3) by (auto simp: routes_def)
  have nodes: "dm_nodes ?at = dm_nodes demo_dm" by (simp add: attach_replica_def Let_def)
  have eq: "demo_dm1 = ?at\<lparr>dm_nodes := snd (update_resources 1 2 1 True (dm_nodes ?at))\<rparr>"
    using dep by (auto simp: demo_dm1_def add_replica_to_deployment_def charge_worker_registered
        nodes demo_dm_facts)
  have objs: "dm_objs demo_dm = []"
    by (simp add: demo_dm_def add_or_update_deployment_def dm_init_def split: option.splits)
  show "dm_shape demo_dm1" "ledger_ok demo_dm1" "routes demo_dm1 2 = Some (''/v1/chat/tinyllama'', ''1.0'',
      [\<lparr>ri_replica_num = replica_key (int_text 1) (int_text 7),
        ri_address = host_port ''10.0.0.1'' (int_text 50107), ri_state = ''RUNNING''\<rparr>])"
    using dm_shape_attach [of demo_dm 2 _ "int_text 1" "demo_rc 7" 2 1 "''10.0.0.1''"] dep
      routes_attach [of demo_dm 2 _ "int_text 1" 2 1 "''10.0.0.1''" "demo_rc 7"]
      ledger_charge_add [of demo_dm 1 "int_text 7" demo_dm1 2 1] shape_dicts(3) [OF demo_dm_facts(1)]
      shape_keys [OF demo_dm_facts(1)]
    by (auto simp: demo_dm_facts eq spec_add_def demo_rc_def attach_replica_def Let_def)
  show "used_on (dm_nodes demo_dm1) 1 = Some (2, 1)"
    by (simp add: eq nodes used_on_update demo_dm_facts)
  show "dget (dm_replica_map demo_dm1) (replica_key (int_text 1) (int_text 7)) = Some 0"
    by (simp add: eq attach_replica_def Let_def objs demo_rc_def)
  show "live demo_dm1 2 0"
    using dep live_attach [of demo_dm 2 _ "int_text 1" 2 1 "''10.0.0.1''" "demo_rc 7" 2 0]
    by (auto simp: eq objs live_def)
qed

end
