(* ===== verification/DeploymentProps.thy ===== *)
theory DeploymentProps
  imports DeploymentSpec
begin

text \<open>
  The remaining operations of the deployment manager against the abstract table, its error paths,
  and the histories of the manager as a step relation whose reachable states keep the agreement of
  the tables and the resource ledger.
\<close>

section \<open>Removing a replica\<close>

lemma remove_one_replica:
  assumes "dm_shape dm" and "ledger_ok dm" and "used_on (dm_nodes dm) n \<noteq> None"
    and "dget (dm_replica_map dm) (replica_key (int_text n) (int_text r)) = Some a" and "live dm d a"
  shows "\<exists>dm'. remove_replica_from_deployment d (int_text r) (int_text n) dm = (Inr True, dm') \<and>
    dm_shape dm' \<and> ledger_ok dm' \<and>
    routes dm' = spec_remove d (replica_key (int_text n) (int_text r)) (routes dm) \<and>
    dm_replica_map dm' = ddel (replica_key (int_text n) (int_text r)) (dm_replica_map dm) \<and>
    (\<forall>d' b. live dm' d' b \<longleftrightarrow> live dm d' b \<and> b \<noteq> a) \<and>
    (\<forall>n'. used_on (dm_nodes dm') n' = None \<longleftrightarrow> used_on (dm_nodes dm) n' = None)"
proof -
  let ?rid = "replica_key (int_text n) (int_text r)"
  obtain dep where dep: "dget (dm_deployments dm) d = Some dep" and mem: "a \<in> set (dh_replicas dep)"
    using assms(5) by (auto simp: live_def)
  obtain sr where sr: "dget (dm_scale dm) ?rid = Some sr" and
    run: "remove_replica_from_deployment d (int_text r) (int_text n) dm =
      (case charge_worker (int_text n) (sr_num_cpus sr) (sr_num_gpus sr) False (detach d ?rid a dep dm) of
         (Inl e, dm') \<Rightarrow> (Inl e, dm') | (Inr u, dm') \<Rightarrow> (Inr True, dm'))"
    using remove_replica_found [OF assms(1,4) dep mem] unfolding detach_def by blast
  let ?dm = "detach d ?rid a dep dm"
  let ?dm' = "?dm\<lparr>dm_nodes := snd (update_resources n (sr_num_cpus sr) (sr_num_gpus sr) False (dm_nodes ?dm))\<rparr>"
  have fr: "dm_nodes ?dm = dm_nodes dm" "dm_scale ?dm = ddel ?rid (dm_scale dm)"
    "dm_replica_map ?dm = ddel ?rid (dm_replica_map dm)"
    by (simp_all add: detach_def)
  have "ledger_ok ?dm'"
    by (rule ledger_charge_remove [OF assms(2) shape_dicts(3) [OF assms(1)], where r = "int_text r"])
      (simp_all add: as_remove_replica_def sr fr)
  moreover have "remove_replica_from_deployment d (int_text r) (int_text n) dm = (Inr True, ?dm')"
    using run assms(3) by (simp add: charge_worker_registered fr)
  moreover have "live ?dm' d' b \<longleftrightarrow> live dm d' b \<and> b \<noteq> a" for d' b
    using live_detach [OF assms(1) dep mem] by (simp add: live_def)
  ultimately show ?thesis
    using dm_shape_detach [OF assms(1,4) dep mem] routes_detach [OF assms(1,4) dep mem] fr
      ledger.charge_domain by simp
qed

text \<open>
  C26. \<open>remove_replica_from_deployment\<close>, called with the deployment that holds the replica: it returns
  \<open>True\<close>, exactly that replica leaves the table, \<open>replica_map\<close> and the auto-scale book, the CPUs and
  GPUs it was given are returned to its worker, and the agreement of the tables and the ledger are
  kept.
\<close>

theorem remove_replica_refines:
  assumes "dm_shape dm" and "ledger_ok dm" and "used_on (dm_nodes dm) n \<noteq> None"
    and "dget (dm_replica_map dm) (replica_key (int_text n) (int_text r)) = Some a" and "live dm d a"
  shows "\<exists>dm'. remove_replica_from_deployment d (int_text r) (int_text n) dm = (Inr True, dm') \<and>
    dm_shape dm' \<and> ledger_ok dm' \<and>
    routes dm' = spec_remove d (replica_key (int_text n) (int_text r)) (routes dm) \<and>
    dget (dm_replica_map dm') (replica_key (int_text n) (int_text r)) = None"
  using remove_one_replica [OF assms] by auto

theorem remove_replica_refines_witness:
  "\<exists>dm'. remove_replica_from_deployment 2 (int_text 7) (int_text 1) demo_dm1 = (Inr True, dm') \<and>
    ledger_ok dm' \<and> routes dm' 2 = Some (''/v1/chat/tinyllama'', ''1.0'', [])"
  using remove_replica_refines [of demo_dm1 1 7 0 2]
  by (auto simp: demo_dm1_facts spec_remove_def)

text \<open>
  A removal that names a deployment which does not hold the replica (a health report with the
  wrong \<open>deployment_id\<close>) returns \<open>False\<close>, yet takes the replica out of \<open>replica_map\<close> and leaves it in
  its own deployment.  From then on no removal reaches it: the right call returns \<open>False\<close> as well
  and the replica stays in the routing table.
\<close>

theorem remove_replica_wrong_deployment:
  assumes "dm_shape dm" and "dget (dm_replica_map dm) (replica_key w r) = Some a" and "live dm d a"
    and "d' \<noteq> d"
  shows "\<exists>dm'. remove_replica_from_deployment d' r w dm = (Inr False, dm') \<and> routes dm' = routes dm \<and>
    remove_replica_from_deployment d r w dm' = (Inr False, dm') \<and> live dm' d a"
proof -
  let ?dm = "dm\<lparr>dm_replica_map := ddel (replica_key w r) (dm_replica_map dm)\<rparr>"
  have no: "\<not> (\<exists>b \<in> set (dh_replicas dep). dm_objs dm ! b = dm_objs dm ! a)"
    if "dget (dm_deployments dm) d' = Some dep" for dep
  proof
    assume "\<exists>b \<in> set (dh_replicas dep). dm_objs dm ! b = dm_objs dm ! a"
    then obtain b where b0: "b \<in> set (dh_replicas dep)" and e: "dm_objs dm ! b = dm_objs dm ! a"
      by blast
    have b: "live dm d' b" using that b0 by (auto simp: live_def)
    with e have "b = a" using shape_same [OF assms(1) b assms(3)] by simp
    with b assms(3,4) show False using shape_live_unique [OF assms(1)] by blast
  qed
  have "remove_replica_from_deployment d' r w dm = (Inr False, ?dm)"
    using assms(2) no by (auto simp: remove_replica_from_deployment_def Let_def split: option.splits)
  moreover have "remove_replica_from_deployment d r w ?dm = (Inr False, ?dm)"
    by (rule remove_replica_absent) simp
  ultimately show ?thesis using assms(3) by (simp add: live_def)
qed

theorem remove_replica_wrong_deployment_witness:
  "\<exists>dm'. remove_replica_from_deployment 1 (int_text 7) (int_text 1) demo_dm1 = (Inr False, dm') \<and>
    remove_replica_from_deployment 2 (int_text 7) (int_text 1) dm' = (Inr False, dm') \<and> live dm' 2 0"
  using remove_replica_wrong_deployment [of demo_dm1 "int_text 1" "int_text 7" 0 2 1]
  by (auto simp: demo_dm1_facts)

section \<open>Changing the state of a replica\<close>

lemma move_one_replica:
  assumes "dm_shape dm" and "ledger_ok dm"
  shows "case move_replica_state d0 r w st dm of (known, dm') \<Rightarrow>
    known = (dget (dm_replica_map dm) (replica_key w r) \<noteq> None) \<and>
    routes dm' = (if known then spec_move (replica_key w r) st (routes dm) else routes dm) \<and>
    dm_shape dm' \<and> ledger_ok dm'"
proof -
  obtain known dm' where mv: "move_replica_state d0 r w st dm = (known, dm')"
    by (cases "move_replica_state d0 r w st dm")
  have known: "known = (dget (dm_replica_map dm) (replica_key w r) \<noteq> None)"
    and fr: "dm_nodes dm' = dm_nodes dm" "dm_scale dm' = dm_scale dm"
    using mv by (auto simp: move_replica_state_def split: option.splits)
  have "ledger_ok dm'" using assms(2) by (simp add: ledger_ok_def fr)
  then show ?thesis
    using mv known dm_shape_move [OF assms(1), of d0 r w st] routes_move [OF assms(1), of d0 r w st] by simp
qed

text \<open>
  \<open>move_replica_state\<close> writes through \<open>replica_map\<close>, and the routing table sees it: it answers
  whether the replica is known, and if so the new state shows on exactly that replica in its
  deployment, on no other replica, with the agreement of the tables and the ledger kept.
\<close>

theorem move_replica_refines:
  assumes "dm_shape dm" and "ledger_ok dm"
  shows "case move_replica_state d0 r w st dm of (known, dm') \<Rightarrow>
    known = (dget (dm_replica_map dm) (replica_key w r) \<noteq> None) \<and>
    routes dm' = (if known then spec_move (replica_key w r) st (routes dm) else routes dm) \<and>
    dm_shape dm' \<and> ledger_ok dm'"
  using move_one_replica [OF assms] .

theorem move_replica_refines_witness:
  "case move_replica_state 2 (int_text 7) (int_text 1) ''DRAINING'' demo_dm1 of (known, dm') \<Rightarrow>
    known \<and> dm_shape dm' \<and>
    routes dm' 2 = Some (''/v1/chat/tinyllama'', ''1.0'',
      [\<lparr>ri_replica_num = replica_key (int_text 1) (int_text 7),
        ri_address = host_port ''10.0.0.1'' (int_text 50107), ri_state = ''DRAINING''\<rparr>])"
  using move_replica_refines [OF demo_dm1_facts(1,2), where ?d0.0 = 2 and r = "int_text 7" and
      w = "int_text 1" and st = "''DRAINING''"]
  by (auto simp: demo_dm1_facts spec_move_def split: prod.splits)

section \<open>Error paths\<close>

text \<open>
  \<open>remove_deployment\<close> of a deployment that has a replica always raises \<open>AttributeError\<close> (it reads
  \<open>r.worker_address\<close>, which \<open>ReplicaInfo\<close> does not have), after the deployment is already gone: its
  replicas stay in \<open>replica_map\<close> and in the auto-scale book and their resources stay charged.  Only a
  deployment without replicas is removed cleanly.
\<close>

theorem remove_deployment_raises:
  assumes "dget (dm_deployments dm) d = Some dep"
  shows "\<exists>dm'. remove_deployment d dm =
      (if dh_replicas dep = [] then Inr True else Inl (AttributeError ''worker_address''), dm') \<and>
    dget (dm_deployments dm') d = None \<and> dm_replica_map dm' = dm_replica_map dm \<and>
    dm_scale dm' = dm_scale dm \<and> dm_nodes dm' = dm_nodes dm"
  using assms by (auto simp: remove_deployment_def Let_def split: list.splits)

theorem remove_deployment_raises_witness:
  "\<exists>dm'. remove_deployment 2 demo_dm1 = (Inl (AttributeError ''worker_address''), dm') \<and>
    \<not> dm_shape dm'"
proof -
  obtain dep where dep: "dget (dm_deployments demo_dm1) 2 = Some dep" "0 \<in> set (dh_replicas dep)"
    using demo_dm1_facts(5) by (auto simp: live_def)
  then have "dh_replicas dep \<noteq> []" by auto
  then obtain dm' where r: "remove_deployment 2 demo_dm1 = (Inl (AttributeError ''worker_address''), dm')"
    and fr: "dm_replica_map dm' = dm_replica_map demo_dm1"
    using remove_deployment_raises [OF dep(1)] by auto
  have "dm_deployments dm' = ddel 2 (dm_deployments demo_dm1)"
    using r dep by (auto simp: remove_deployment_def Let_def split: list.splits)
  moreover have "\<not> live demo_dm1 d 0" if "d \<noteq> 2" for d
    using that shape_live_unique [OF demo_dm1_facts(1) _ demo_dm1_facts(5)] by blast
  ultimately have "\<not> live dm' d 0" for d
    by (cases "d = 2") (auto simp: live_def)
  then have "\<not> dm_shape dm'"
    using shape_mapped(3) [of dm' "replica_key (int_text 1) (int_text 7)" 0] demo_dm1_facts(4) fr by auto
  with r show ?thesis by blast
qed

text \<open>
  \<open>add_replica_to_deployment\<close> for a worker that is not in the node cache raises \<open>KeyError\<close> only
  after the replica was entered: the exception reaches the caller while the deployment already lists
  the replica as \<open>RUNNING\<close>.
\<close>

theorem add_replica_unregistered:
  assumes "dm_shape dm" and "routes dm d \<noteq> None" and "used_on (dm_nodes dm) n = None"
  shows "\<exists>dm'. add_replica_to_deployment d (int_text n) [rc] c g addr dm = (Inl KeyError, dm') \<and>
    routes dm' = spec_add d \<lparr>ri_replica_num = replica_key (int_text n) (int_text (rc_replica_id rc)),
       ri_address = host_port addr (rc_port rc), ri_state = ''RUNNING''\<rparr> (routes dm)"
proof -
  obtain dep where dep: "dget (dm_deployments dm) d = Some dep" using assms(2) by (auto simp: routes_def)
  have "used_on (dm_nodes (attach_replica d (int_text n) c g addr rc dm)) n = None"
    using assms(3) by (simp add: attach_replica_def Let_def)
  then have "add_replica_to_deployment d (int_text n) [rc] c g addr dm =
      (Inl KeyError, attach_replica d (int_text n) c g addr rc dm)"
    using dep by (simp add: add_replica_to_deployment_def charge_worker_unregistered)
  then show ?thesis using routes_attach [OF assms(1) dep] by simp
qed

theorem add_replica_unregistered_witness:
  "\<exists>dm'. add_replica_to_deployment 2 (int_text 9) [demo_rc 7] 0 0 ''10.0.0.9'' demo_dm = (Inl KeyError, dm') \<and>
    routes dm' 2 \<noteq> routes demo_dm 2"
  using add_replica_unregistered [of demo_dm 2 9 "demo_rc 7" 0 0 "''10.0.0.9''"]
proof -
  have "used_on (dm_nodes demo_dm) 9 = None"
    by (simp add: demo_dm_def add_or_update_deployment_def dm_init_def used_on_add_node demo_node_def
        split: option.splits)
  then show ?thesis
    using add_replica_unregistered [of demo_dm 2 9 "demo_rc 7" 0 0 "''10.0.0.9''"]
    by (auto simp: demo_dm_facts spec_add_def)
qed

lemma charge_once:
  assumes "dm_shape dm" and "dget (dm_deployments dm) d = Some dep" and "used_on (dm_nodes dm) n = Some (c0, g0)"
  shows "\<exists>dm'. add_replica_to_deployment d (int_text n) rcs c g addr dm = (Inr True, dm') \<and>
    used_on (dm_nodes dm') n = Some (c0 + c, g0 + g) \<and>
    dm' = (add_replica_loop d (int_text n) c g addr rcs dm)\<lparr>dm_nodes := dm_nodes dm'\<rparr>"
proof -
  let ?dm = "add_replica_loop d (int_text n) c g addr rcs dm"
  have nodes: "dm_nodes (add_replica_loop d w c g addr rcs dm) = dm_nodes dm" for w
    by (induction rcs arbitrary: dm) (simp_all add: attach_replica_def Let_def)
  then show ?thesis
    using assms(2,3) by (simp add: add_replica_to_deployment_def charge_worker_registered used_on_update)
qed

lemma release_known:
  assumes ok: "dm_shape dm" and a: "dget (dm_replica_map dm) (replica_key (int_text n) (int_text r)) = Some a"
    and lv: "live dm d a" and used: "used_on (dm_nodes dm) n = Some (c0, g0)"
    and al: "allocated (dm_scale dm) (replica_key (int_text n) (int_text r)) = Some (c, g)"
  shows "\<exists>dep dm'. dget (dm_deployments dm) d = Some dep \<and>
    remove_replica_from_deployment d (int_text r) (int_text n) dm = (Inr True, dm') \<and>
    used_on (dm_nodes dm') n = Some (c0 - c, g0 - g) \<and>
    dm' = (detach d (replica_key (int_text n) (int_text r)) a dep dm)\<lparr>dm_nodes := dm_nodes dm'\<rparr>"
proof -
  obtain dep where dep: "dget (dm_deployments dm) d = Some dep" "a \<in> set (dh_replicas dep)"
    using lv by (auto simp: live_def)
  obtain sr where "dget (dm_scale dm) (replica_key (int_text n) (int_text r)) = Some sr" and
    run: "remove_replica_from_deployment d (int_text r) (int_text n) dm =
      (case charge_worker (int_text n) (sr_num_cpus sr) (sr_num_gpus sr) False
         (detach d (replica_key (int_text n) (int_text r)) a dep dm) of
         (Inl e, dm') \<Rightarrow> (Inl e, dm') | (Inr u, dm') \<Rightarrow> (Inr True, dm'))"
    using remove_replica_found [OF ok a dep] unfolding detach_def by blast
  moreover have "used_on (dm_nodes (detach d (replica_key (int_text n) (int_text r)) a dep dm)) n \<noteq> None"
    using used by (simp add: detach_def)
  ultimately show ?thesis
    using al dep used by (simp add: charge_worker_registered used_on_update allocated_def)
      (simp add: detach_def)
qed


lemma attached_facts:
  assumes ok: "dm_shape dm" and dep: "dget (dm_deployments dm) d = Some dep"
    and fresh: "dget (dm_replica_map dm) (replica_key w (int_text (rc_replica_id rc))) = None"
  shows "dm_shape (attach_replica d w c g addr rc dm)"
    and "dget (dm_replica_map (attach_replica d w c g addr rc dm)) k =
      (if k = replica_key w (int_text (rc_replica_id rc)) then Some (length (dm_objs dm))
       else dget (dm_replica_map dm) k)"
    and "allocated (dm_scale (attach_replica d w c g addr rc dm)) k =
      (if k = replica_key w (int_text (rc_replica_id rc)) then Some (c, g) else allocated (dm_scale dm) k)"
    and "\<exists>dep'. dget (dm_deployments (attach_replica d w c g addr rc dm)) d = Some dep'"
    and "dm_nodes (attach_replica d w c g addr rc dm) = dm_nodes dm"
  using dm_shape_attach [OF assms] dep
  by (simp_all add: attach_replica_def Let_def scale_book.book_in_holds dget_append_replica)

text \<open>
  The resources of a reply are charged once per call but released once per replica: if one reply
  carries two replicas of one worker, adding them and then removing both leaves the worker with
  \<open>num_cpus\<close> and \<open>num_gpus\<close> fewer in use than before, below zero for an idle worker.
\<close>

theorem two_replica_reply_overreleases:
  assumes "dm_shape dm" and "routes dm d \<noteq> None" and "used_on (dm_nodes dm) n = Some (c0, g0)"
    and "rc_replica_id rc1 \<noteq> rc_replica_id rc2"
    and "dget (dm_replica_map dm) (replica_key (int_text n) (int_text (rc_replica_id rc1))) = None"
    and "dget (dm_replica_map dm) (replica_key (int_text n) (int_text (rc_replica_id rc2))) = None"
  shows "\<exists>dm1 dm2 dm3.
    add_replica_to_deployment d (int_text n) [rc1, rc2] c g addr dm = (Inr True, dm1) \<and>
    remove_replica_from_deployment d (int_text (rc_replica_id rc1)) (int_text n) dm1 = (Inr True, dm2) \<and>
    remove_replica_from_deployment d (int_text (rc_replica_id rc2)) (int_text n) dm2 = (Inr True, dm3) \<and>
    used_on (dm_nodes dm3) n = Some (c0 - c, g0 - g)"
proof -
  let ?k1 = "replica_key (int_text n) (int_text (rc_replica_id rc1))"
    and ?k2 = "replica_key (int_text n) (int_text (rc_replica_id rc2))"
  let ?A = "attach_replica d (int_text n) c g addr rc1 dm"
  let ?B = "attach_replica d (int_text n) c g addr rc2 ?A"
  obtain dep where dep: "dget (dm_deployments dm) d = Some dep" using assms(2) by (auto simp: routes_def)
  note A = attached_facts [OF assms(1) dep assms(5), of c g addr]
  obtain depA where depA: "dget (dm_deployments ?A) d = Some depA" using A(4) by blast
  have fresh2: "dget (dm_replica_map ?A) ?k2 = None" using A(2) assms(4,6) by simp
  note B = attached_facts [OF A(1) depA fresh2, of c g addr]
  obtain dm1 where add: "add_replica_to_deployment d (int_text n) [rc1, rc2] c g addr dm = (Inr True, dm1)"
    and used1: "used_on (dm_nodes dm1) n = Some (c0 + c, g0 + g)"
    and dm1: "dm1 = ?B\<lparr>dm_nodes := dm_nodes dm1\<rparr>"
    using charge_once [OF assms(1) dep assms(3), of "[rc1, rc2]" c g addr] by auto
  have fr1: "dm_replica_map dm1 = dm_replica_map ?B" "dm_scale dm1 = dm_scale ?B"
    "\<And>d a. live dm1 d a = live ?B d a" and ok1: "dm_shape dm1"
    by (subst dm1, simp add: live_def B(1))+
  define a1 where "a1 = length (dm_objs dm)"
  define a2 where "a2 = length (dm_objs ?A)"
  have m1: "dget (dm_replica_map dm1) ?k1 = Some a1" "dget (dm_replica_map dm1) ?k2 = Some a2"
    using A(2) B(2) assms(4) fr1(1) by (simp_all add: a1_def a2_def)
  have l1: "live dm1 d a1" "live dm1 d a2"
    using live_attach [OF dep] live_attach [OF depA] fr1(3) by (simp_all add: a1_def a2_def)
  have al1: "allocated (dm_scale dm1) ?k1 = Some (c, g)" "allocated (dm_scale dm1) ?k2 = Some (c, g)"
    using A(3) B(3) assms(4) fr1(2) by simp_all
  obtain dep1 dm2 where dep1: "dget (dm_deployments dm1) d = Some dep1"
    and rem1: "remove_replica_from_deployment d (int_text (rc_replica_id rc1)) (int_text n) dm1 = (Inr True, dm2)"
    and used2: "used_on (dm_nodes dm2) n = Some (c0, g0)"
    and dm2: "dm2 = (detach d ?k1 a1 dep1 dm1)\<lparr>dm_nodes := dm_nodes dm2\<rparr>"
    using release_known [OF ok1 m1(1) l1(1) used1 al1(1)] by auto
  have mem: "a1 \<in> set (dh_replicas dep1)" "a2 \<in> set (dh_replicas dep1)" "a1 \<noteq> a2"
    using l1 dep1 m1 assms(4) shape_mapped(2) [OF ok1 m1(1)] shape_mapped(2) [OF ok1 m1(2)]
    by (auto simp: live_def)
  have ok2: "dm_shape dm2" by (subst dm2) (simp add: dm_shape_detach [OF ok1 m1(1) dep1 mem(1)])
  have m2: "dget (dm_replica_map dm2) ?k2 = Some a2"
    by (subst dm2) (use m1 assms(4) in \<open>simp add: detach_def\<close>)
  have l2: "live dm2 d a2" by (subst dm2) (use mem in \<open>simp add: live_def detach_def\<close>)
  have al2: "allocated (dm_scale dm2) ?k2 = Some (c, g)"
    by (subst dm2) (use al1 assms(4) in \<open>simp add: detach_def allocated_def\<close>)
  from release_known [OF ok2 m2 l2 used2 al2] add rem1 show ?thesis by blast
qed

theorem two_replica_reply_overreleases_witness:
  "\<exists>dm1 dm2 dm3.
    add_replica_to_deployment 2 (int_text 1) [demo_rc 7, demo_rc 8] 2 1 ''10.0.0.1'' demo_dm = (Inr True, dm1) \<and>
    remove_replica_from_deployment 2 (int_text 7) (int_text 1) dm1 = (Inr True, dm2) \<and>
    remove_replica_from_deployment 2 (int_text 8) (int_text 1) dm2 = (Inr True, dm3) \<and>
    used_on (dm_nodes dm3) 1 = Some (- 2, - 1)"
  using two_replica_reply_overreleases [of demo_dm 2 1 0 0 "demo_rc 7" "demo_rc 8" 2 1 "''10.0.0.1''"]
  by (simp add: demo_dm_facts) (simp add: demo_rc_def)

section \<open>The routing table\<close>

text \<open>
  The update the head publishes carries, for every deployment and nothing else, its name, its
  version and its replicas in order with identifier, address and current state, read through the
  shared objects; it is stamped with the time it was taken.
\<close>

theorem routing_table_faithful:
  "dget (ru_deployments (get_current_routing_table now dm)) d =
     map_option (\<lambda>(name, version, rs). \<lparr>dp_deployment_id = d, dp_deployment_name = name,
        dp_version = version, dp_status = ''ACTIVE'', dp_replicas = map replica_to_msg rs\<rparr>) (routes dm d) \<and>
   ru_timestamp (get_current_routing_table now dm) = now"
proof -
  have "dget (map (\<lambda>(k, v). (k, f k v)) xs) d = map_option (f d) (dget xs d)"
    for f :: "int \<Rightarrow> deployment \<Rightarrow> deployment_msg" and xs
    by (induction xs) (auto simp: dget_def)
  then show ?thesis
    by (cases "dget (dm_deployments dm) d")
      (simp_all add: get_current_routing_table_def routes_def deployment_to_msg_def comp_def)
qed

section \<open>Histories\<close>

text \<open>
  What the head controller does to the manager: a worker registers for the first time, a deployment
  is added or updated, a reply with one replica of a registered worker is entered under a new
  identifier, a replica changes its state, a replica is removed from its own deployment, an unknown
  one is removed, and metrics arrive.
\<close>

inductive dm_step :: "dep_manager \<Rightarrow> dep_manager \<Rightarrow> bool" where
  register: "used_on (dm_nodes dm) (rq_node_id rq) = None \<Longrightarrow>
    booked_cpus (int_text (rq_node_id rq)) (dm_scale dm) = 0 \<Longrightarrow>
    booked_gpus (int_text (rq_node_id rq)) (dm_scale dm) = 0 \<Longrightarrow>
    dm_step dm (dm\<lparr>dm_nodes := add_node rq (dm_nodes dm)\<rparr>)"
| update: "dm_step dm (add_or_update_deployment d name version c g dm)"
| add: "used_on (dm_nodes dm) n \<noteq> None \<Longrightarrow>
    dget (dm_replica_map dm) (replica_key (int_text n) (int_text (rc_replica_id rc))) = None \<Longrightarrow>
    dm_step dm (snd (add_replica_to_deployment d (int_text n) [rc] c g addr dm))"
| move: "dm_step dm (snd (move_replica_state d r w st dm))"
| remove: "used_on (dm_nodes dm) n \<noteq> None \<Longrightarrow>
    dget (dm_replica_map dm) (replica_key (int_text n) (int_text r)) = Some a \<Longrightarrow> live dm d a \<Longrightarrow>
    dm_step dm (snd (remove_replica_from_deployment d (int_text r) (int_text n) dm))"
| remove_unknown: "dget (dm_replica_map dm) (replica_key w r) = None \<Longrightarrow>
    dm_step dm (snd (remove_replica_from_deployment d r w dm))"
| metrics: "dm_step dm (dm\<lparr>dm_scale := load_metrics rq (dm_scale dm)\<rparr>)"

definition dm_start :: "dep_manager \<Rightarrow> bool" where
  "dm_start dm \<longleftrightarrow> dm = dm_init ni_init []"

lemma booked_load_metrics [simp]:
  assumes "dict_ok book"
  shows "booked_cpus w (load_metrics rq book) = booked_cpus w book"
    and "booked_gpus w (load_metrics rq book) = booked_gpus w book"
  using assms by (auto simp: booked_cpus_def booked_gpus_def load_metrics_def dsum_dset dpart_def Let_def
      split: option.splits)

lemma load_metrics_shape:
  assumes "dm_shape dm" and "ledger_ok dm"
  shows "dm_shape (dm\<lparr>dm_scale := load_metrics rq (dm_scale dm)\<rparr>) \<and>
    ledger_ok (dm\<lparr>dm_scale := load_metrics rq (dm_scale dm)\<rparr>)"
proof -
  have "dkeys (load_metrics rq (dm_scale dm)) = dkeys (dm_scale dm)"
    by (auto simp: load_metrics_def Let_def dkeys_iff split: option.splits)
  with assms show ?thesis
    using dict_ok_load_metrics [OF shape_dicts(3) [OF assms(1)], of rq] shape_dicts(3) [OF assms(1)]
    by (simp add: dm_shape_def live_def ledger_ok_def)
qed

lemma ledger_ok_register:
  assumes "ledger_ok dm" and "booked_cpus (int_text (rq_node_id rq)) (dm_scale dm) = 0"
    and "booked_gpus (int_text (rq_node_id rq)) (dm_scale dm) = 0"
  shows "ledger_ok (dm\<lparr>dm_nodes := add_node rq (dm_nodes dm)\<rparr>)"
  using assms by (auto simp: ledger_ok_def used_on_add_node split: if_splits)

lemma ledger_ok_same:
  "dm_nodes dm' = dm_nodes dm \<Longrightarrow> dm_scale dm' = dm_scale dm \<Longrightarrow> ledger_ok dm \<Longrightarrow> ledger_ok dm'"
  by (simp add: ledger_ok_def)

interpretation dm_machine: safe_machine dm_start dm_step "\<lambda>dm. dm_shape dm \<and> ledger_ok dm"
proof unfold_locales
  show "dm_shape s \<and> ledger_ok s" if "dm_start s" for s
    using that by (simp add: dm_start_def ledger_ok_init get_all_nodes_def ni_init_def dvalues_def)
  show "dm_shape t \<and> ledger_ok t" if "dm_step s t" "dm_shape s \<and> ledger_ok s" for s t
    using that
  proof (induction rule: dm_step.induct)
    case (add dm n rc d c g addr)
    then show ?case
      using add_one_replica [of dm d n rc c g addr]
      by (cases "routes dm d") (auto simp: routes_def add_replica_to_deployment_def)
  next
    case (remove dm n r a d)
    then show ?case using remove_one_replica [of dm n r a d] by auto
  next
    case (update dm d name version c g)
    have "dm_nodes (add_or_update_deployment d name version c g dm) = dm_nodes dm"
      "dm_scale (add_or_update_deployment d name version c g dm) = dm_scale dm"
      by (simp_all add: add_or_update_deployment_def split: option.splits)
    with update show ?case using dm_shape_update ledger_ok_same by blast
  next
    case (move dm d r w st)
    then show ?case using move_one_replica [where dm = dm and ?d0.0 = d and r = r and w = w and st = st] by (auto split: prod.splits)
  qed (auto simp: ledger_ok_register remove_replica_absent load_metrics_shape)
qed

text \<open>
  C5. In every state the deployment manager reaches from an empty controller by calls that keep three rules,
  the tables agree - each replica object is under its own identifier in \<open>replica_map\<close> and in exactly one
  deployment - and every worker's CPUs and GPUs in use are the sum over its replicas.  The rules: a worker
  registers that is not in the ledger and has nothing booked; a reply enters one replica, of a worker in the
  ledger, under an identifier that is not in \<open>replica_map\<close>; a removal names the deployment that holds the
  replica and a worker in the ledger, or a replica that is not in \<open>replica_map\<close>.  Deployments are added and
  changed, replicas moved and metrics recorded without any rule.  (Calls that break the rules:
  \<open>two_replica_reply_overreleases\<close>, \<open>add_replica_unregistered\<close>, \<open>remove_replica_wrong_deployment\<close>.)
\<close>

theorem dm_reachable_consistent:
  assumes "reach dm_start dm_step dm"
  shows "dm_shape dm \<and> ledger_ok dm"
  using dm_machine.reach_safe [OF assms] .

theorem dm_reachable_consistent_witness: "dm_shape demo_dm1 \<and> ledger_ok demo_dm1"
proof -
  let ?dm1 = "dm_init (add_node (demo_node 1) ni_init) []"
  let ?dm2 = "dm_init (add_node (demo_node 2) (add_node (demo_node 1) ni_init)) []"
  have s1: "dm_step (dm_init ni_init []) ?dm1"
    using dm_step.register [of "dm_init ni_init []" "demo_node 1"]
    by (simp add: dm_init_def booked_cpus_def booked_gpus_def)
  have s2: "dm_step ?dm1 ?dm2"
    using dm_step.register [of ?dm1 "demo_node 2"]
    by (simp add: dm_init_def booked_cpus_def booked_gpus_def used_on_add_node) (simp add: demo_node_def)
  have "reach dm_start dm_step (dm_init ni_init [])" by (rule reach_init) (simp add: dm_start_def)
  then have "reach dm_start dm_step ?dm2" using s1 s2 by (blast intro: reach_step)
  then have "reach dm_start dm_step demo_dm"
    unfolding demo_dm_def by (blast intro: reach_step dm_step.update)
  moreover have "dm_step demo_dm demo_dm1"
    unfolding demo_dm1_def by (rule dm_step.add) (simp_all add: demo_dm_facts)
  ultimately have "reach dm_start dm_step demo_dm1" by (rule reach_step)
  then show ?thesis by (rule dm_reachable_consistent)
qed

end
