(* ===== verification/RoutingPublisher.thy ===== *)
theory RoutingPublisher
  imports DeploymentProps
begin

text \<open>
  The state of \<open>HeadController\<close> (\<open>src/components/headNode/head_controller.py\<close>) and the part of it
  that publishes routing tables: \<open>_on_deployment_change\<close> and the generator
  \<open>SubscribeToRoutingUpdates\<close>.

  Every proxy connection runs its own generator, here a \<open>subscriber\<close>.  Between two of its awaits it
  is in one of four phases: \<open>Sending u\<close> (suspended at \<open>yield u\<close>, while gRPC writes the message),
  \<open>Waiting\<close> (suspended in \<open>_routing_update_event.wait()\<close>), \<open>Woken\<close> (the event was set while it
  waited, and it will run next) and \<open>Ended\<close>.  \<open>_on_deployment_change\<close> sets the event and clears it
  with no suspension in between, so it wakes exactly the generators that are waiting at that moment
  and the event is never found set by a later \<open>wait()\<close>.  The locks are free whenever they are taken,
  so each operation below runs uninterrupted.
\<close>

datatype sub_phase = Sending routing_update | Waiting | Woken | Ended

record subscriber =
  sb_last :: int
  sb_phase :: sub_phase
  sb_sent :: "routing_update list"

text \<open>
  \<open>replica_queue\<close> holds whatever was put into it; the loop that reads it checks for a pair.
  \<open>hc_unfinished\<close> is the queue's count of items put and not yet marked done, \<open>hc_in_hand\<close> the item
  the loop has taken out, \<open>hc_spawned\<close> the creation tasks it has started, in order, and
  \<open>hc_heartbeats\<close> the number of \<open>send_heartbeat\<close> tasks started.
\<close>

datatype queue_item = QPair string int | QOther

record head_state =
  hc_head_node_address :: string
  hc_dm :: dep_manager
  hc_snapshot :: "routing_update option"
  hc_subs :: "(nat, subscriber) dict"
  hc_replica_queue :: "queue_item list"
  hc_in_hand :: "queue_item option"
  hc_unfinished :: nat
  hc_spawned :: "(string \<times> int) list"
  hc_pending :: "int list"
  hc_heartbeats :: nat

section \<open>Publishing\<close>

definition wake :: "subscriber \<Rightarrow> subscriber" where
  "wake sb = (case sb_phase sb of Waiting \<Rightarrow> sb\<lparr>sb_phase := Woken\<rparr> | _ \<Rightarrow> sb)"

definition on_deployment_change :: "int \<Rightarrow> head_state \<Rightarrow> head_state" where
  "on_deployment_change now hc =
     hc\<lparr>hc_snapshot := Some (get_current_routing_table now (hc_dm hc)),
        hc_subs := map (\<lambda>(i, sb). (i, wake sb)) (hc_subs hc)\<rparr>"

text \<open>
  The first part of \<open>SubscribeToRoutingUpdates\<close>: a heartbeat task is started, and the table of this moment becomes the latest
  snapshot and is yielded.
\<close>

definition subscribe :: "nat \<Rightarrow> int \<Rightarrow> head_state \<Rightarrow> head_state" where
  "subscribe i now hc =
     (let initial = get_current_routing_table now (hc_dm hc)
      in hc\<lparr>hc_snapshot := Some initial,
            hc_heartbeats := Suc (hc_heartbeats hc),
            hc_subs := dset i \<lparr>sb_last = 0, sb_phase = Sending initial, sb_sent = [initial]\<rparr> (hc_subs hc)\<rparr>)"

text \<open>The generator runs from one suspension to the next.\<close>

definition run_subscriber :: "routing_update option \<Rightarrow> subscriber \<Rightarrow> subscriber" where
  "run_subscriber snapshot sb =
     (case sb_phase sb of
        Sending u \<Rightarrow> sb\<lparr>sb_last := ru_timestamp u, sb_phase := Waiting\<rparr>
      | Woken \<Rightarrow>
          (case snapshot of
             None \<Rightarrow> sb\<lparr>sb_phase := Waiting\<rparr>
           | Some u \<Rightarrow>
               if sb_last sb < ru_timestamp u
               then sb\<lparr>sb_phase := Sending u, sb_sent := sb_sent sb @ [u]\<rparr>
               else sb\<lparr>sb_phase := Waiting\<rparr>)
      | _ \<Rightarrow> sb)"

definition resume :: "nat \<Rightarrow> head_state \<Rightarrow> head_state" where
  "resume i hc =
     (case dget (hc_subs hc) i of
        None \<Rightarrow> hc
      | Some sb \<Rightarrow> hc\<lparr>hc_subs := dset i (run_subscriber (hc_snapshot hc) sb) (hc_subs hc)\<rparr>)"

text \<open>The client disconnects: the generator is cancelled and ends.\<close>

definition disconnect :: "nat \<Rightarrow> head_state \<Rightarrow> head_state" where
  "disconnect i hc =
     (case dget (hc_subs hc) i of
        None \<Rightarrow> hc
      | Some sb \<Rightarrow> hc\<lparr>hc_subs := dset i (sb\<lparr>sb_phase := Ended\<rparr>) (hc_subs hc)\<rparr>)"

section \<open>What a subscriber has been sent\<close>

definition sb_ok :: "subscriber \<Rightarrow> bool" where
  "sb_ok sb \<longleftrightarrow> sb_sent sb \<noteq> [] \<and> sorted_wrt (<) (map ru_timestamp (sb_sent sb)) \<and>
     (case sb_phase sb of
        Sending u \<Rightarrow> u = last (sb_sent sb)
      | Waiting \<Rightarrow> sb_last sb = ru_timestamp (last (sb_sent sb))
      | Woken \<Rightarrow> sb_last sb = ru_timestamp (last (sb_sent sb))
      | Ended \<Rightarrow> True)"

definition subs_ok :: "head_state \<Rightarrow> bool" where
  "subs_ok hc \<longleftrightarrow> (\<forall>i sb. dget (hc_subs hc) i = Some sb \<longrightarrow> sb_ok sb)"

lemma sorted_wrt_snoc_last:
  assumes "xs \<noteq> []" and "sorted_wrt (<) (map f xs)" and "f (last xs) < (f y :: int)"
  shows "sorted_wrt (<) (map f (xs @ [y]))"
proof -
  have "f x \<le> f (last xs)" if "x \<in> set xs" for x
    using that assms(1,2)
  proof (induction xs)
    case (Cons a xs)
    then show ?case by (cases "xs = []") (auto intro: less_imp_le)
  qed simp
  with assms(2,3) show ?thesis by (force simp: sorted_wrt_append)
qed

lemma sb_ok_wake: "sb_ok sb \<Longrightarrow> sb_ok (wake sb)"
  by (cases "sb_phase sb") (auto simp: sb_ok_def wake_def)

lemma sb_ok_run: "sb_ok sb \<Longrightarrow> sb_ok (run_subscriber snapshot sb)"
  using sorted_wrt_snoc_last [of "sb_sent sb" ru_timestamp]
  by (cases "sb_phase sb")
    (auto simp: sb_ok_def run_subscriber_def split: option.splits)

lemma dget_map_values: "dget (map (\<lambda>(k, v). (k, f v)) d) k = map_option f (dget d k)"
  by (induction d) (auto simp: dget_def)

lemma subs_publish:
  "dget (hc_subs (on_deployment_change now hc)) i = map_option wake (dget (hc_subs hc) i)"
  by (simp add: on_deployment_change_def dget_map_values)

lemma subs_resume:
  "dget (hc_subs (resume i hc)) j = (if j = i then map_option (run_subscriber (hc_snapshot hc))
     (dget (hc_subs hc) i) else dget (hc_subs hc) j)"
  by (auto simp: resume_def split: option.splits)

lemma subs_ok_publish: "subs_ok hc \<Longrightarrow> subs_ok (on_deployment_change now hc)"
  by (auto simp: subs_ok_def subs_publish sb_ok_wake)

lemma subs_ok_resume: "subs_ok hc \<Longrightarrow> subs_ok (resume i hc)"
  by (auto simp: subs_ok_def subs_resume sb_ok_run split: if_splits)

lemma subs_ok_subscribe: "subs_ok hc \<Longrightarrow> subs_ok (subscribe i now hc)"
  by (auto simp: subs_ok_def subscribe_def sb_ok_def Let_def split: if_splits)

lemma subs_ok_disconnect: "subs_ok hc \<Longrightarrow> subs_ok (disconnect i hc)"
  by (auto simp: subs_ok_def disconnect_def sb_ok_def split: option.splits if_splits)

lemma subs_ok_dm [simp]: "subs_ok (hc\<lparr>hc_dm := dm\<rparr>) = subs_ok hc"
  by (simp add: subs_ok_def)

text \<open>
  The publisher as a machine: deployments change and are published, proxies subscribe, run and
  disconnect, in any order.
\<close>

inductive publisher_step :: "head_state \<Rightarrow> head_state \<Rightarrow> bool" where
  change: "publisher_step hc (hc\<lparr>hc_dm := dm\<rparr>)"
| publish: "publisher_step hc (on_deployment_change now hc)"
| subscribed: "dget (hc_subs hc) i = None \<Longrightarrow> publisher_step hc (subscribe i now hc)"
| resumed: "publisher_step hc (resume i hc)"
| disconnected: "publisher_step hc (disconnect i hc)"

definition no_subscribers :: "head_state \<Rightarrow> bool" where
  "no_subscribers hc \<longleftrightarrow> hc_subs hc = []"

interpretation publisher: safe_machine no_subscribers publisher_step subs_ok
proof unfold_locales
  show "subs_ok s" if "no_subscribers s" for s
    using that by (simp add: no_subscribers_def subs_ok_def)
  show "subs_ok t" if "publisher_step s t" "subs_ok s" for s t
    using that
    by (induction rule: publisher_step.induct)
      (simp_all add: subs_ok_publish subs_ok_resume subs_ok_subscribe subs_ok_disconnect)
qed

section \<open>A sample run\<close>

definition demo_head :: head_state where
  "demo_head = \<lparr>hc_head_node_address = ''localhost:50052'', hc_dm = demo_dm1, hc_snapshot = None,
     hc_subs = [], hc_replica_queue = [], hc_in_hand = None, hc_unfinished = 0, hc_spawned = [],
     hc_pending = [], hc_heartbeats = 0\<rparr>"

lemma table_timestamp [simp]: "ru_timestamp (get_current_routing_table now dm) = now"
  by (simp add: get_current_routing_table_def)

lemma demo_subscribed:
  "dget (hc_subs (subscribe 0 5 demo_head)) 0 = Some
     \<lparr>sb_last = 0, sb_phase = Sending (get_current_routing_table 5 demo_dm1),
      sb_sent = [get_current_routing_table 5 demo_dm1]\<rparr>"
  by (simp add: subscribe_def Let_def demo_head_def)

lemma demo_waiting:
  "dget (hc_subs (resume 0 (subscribe 0 5 demo_head))) 0 = Some
     \<lparr>sb_last = 5, sb_phase = Waiting, sb_sent = [get_current_routing_table 5 demo_dm1]\<rparr>"
  by (simp add: subs_resume demo_subscribed run_subscriber_def)

lemma demo_dm_kept: "hc_dm (resume 0 (subscribe 0 5 demo_head)) = demo_dm1"
  by (simp add: resume_def demo_subscribed) (simp add: subscribe_def Let_def demo_head_def)

lemma demo_reached:
  "reach no_subscribers publisher_step
     (resume 0 (on_deployment_change 9 (resume 0 (subscribe 0 5 demo_head))))"
proof -
  have "reach no_subscribers publisher_step demo_head"
    by (rule reach_init) (simp add: no_subscribers_def demo_head_def)
  moreover have "publisher_step demo_head (subscribe 0 5 demo_head)"
    by (rule publisher_step.subscribed) (simp add: demo_head_def)
  ultimately have "reach no_subscribers publisher_step (subscribe 0 5 demo_head)"
    by (rule reach_step)
  moreover have "publisher_step (subscribe 0 5 demo_head) (resume 0 (subscribe 0 5 demo_head))"
    by (rule publisher_step.resumed)
  ultimately have "reach no_subscribers publisher_step (resume 0 (subscribe 0 5 demo_head))"
    by (rule reach_step)
  moreover have "publisher_step (resume 0 (subscribe 0 5 demo_head))
      (on_deployment_change 9 (resume 0 (subscribe 0 5 demo_head)))"
    by (rule publisher_step.publish)
  ultimately have "reach no_subscribers publisher_step
      (on_deployment_change 9 (resume 0 (subscribe 0 5 demo_head)))"
    by (rule reach_step)
  moreover have "publisher_step (on_deployment_change 9 (resume 0 (subscribe 0 5 demo_head)))
      (resume 0 (on_deployment_change 9 (resume 0 (subscribe 0 5 demo_head))))"
    by (rule publisher_step.resumed)
  ultimately show ?thesis by (rule reach_step)
qed

section \<open>Properties\<close>

text \<open>
  C24. No proxy is ever sent a routing table older than one it already has, nor the same one twice:
  in every reachable state the time stamps of the updates sent on one subscription are strictly
  increasing, whatever the clock, the changes and the interleaving of publications, subscriptions
  and generator steps.
\<close>

theorem updates_strictly_newer:
  assumes "reach no_subscribers publisher_step hc" and "dget (hc_subs hc) i = Some sb"
  shows "sorted_wrt (<) (map ru_timestamp (sb_sent sb))"
  using publisher.reach_safe [OF assms(1)] assms(2) by (simp add: subs_ok_def sb_ok_def)

theorem updates_strictly_newer_witness:
  "sorted_wrt (<) (map ru_timestamp [get_current_routing_table 5 demo_dm1,
     get_current_routing_table 9 demo_dm1])"
proof -
  have "dget (hc_subs (resume 0 (on_deployment_change 9 (resume 0 (subscribe 0 5 demo_head))))) 0 = Some
    \<lparr>sb_last = 5, sb_phase = Sending (get_current_routing_table 9 demo_dm1),
     sb_sent = [get_current_routing_table 5 demo_dm1, get_current_routing_table 9 demo_dm1]\<rparr>"
    unfolding subs_resume [of _ "on_deployment_change 9 _"] subs_publish demo_waiting
    by (simp add: wake_def run_subscriber_def on_deployment_change_def demo_dm_kept)
  from updates_strictly_newer [OF demo_reached this] show ?thesis by simp
qed

text \<open>
  A proxy that is waiting when the deployments change gets the new table: after
  \<open>_on_deployment_change\<close> at a time later than the last update it was sent, the next run of its
  generator sends it exactly the table of that moment.
\<close>

theorem publish_reaches_waiting:
  assumes "dget (hc_subs hc) i = Some sb" and "sb_phase sb = Waiting" and "sb_last sb < now"
  shows "\<exists>sb'. dget (hc_subs (resume i (on_deployment_change now hc))) i = Some sb' \<and>
    sb_phase sb' = Sending (get_current_routing_table now (hc_dm hc)) \<and>
    sb_sent sb' = sb_sent sb @ [get_current_routing_table now (hc_dm hc)]"
proof -
  have "hc_snapshot (on_deployment_change now hc) = Some (get_current_routing_table now (hc_dm hc))"
    by (simp add: on_deployment_change_def)
  then show ?thesis
    using assms by (simp add: subs_resume subs_publish wake_def run_subscriber_def)
qed

theorem publish_reaches_waiting_witness:
  "\<exists>sb'. dget (hc_subs (resume 0 (on_deployment_change 9 (resume 0 (subscribe 0 5 demo_head))))) 0 = Some sb' \<and>
    sb_phase sb' = Sending (get_current_routing_table 9 demo_dm1)"
  using publish_reaches_waiting [OF demo_waiting, of 9, unfolded demo_dm_kept] by force

text \<open>
  A change published while a proxy's generator is still suspended in \<open>yield\<close> is lost for that
  proxy: the generator then goes to \<open>wait()\<close> on an event that is already cleared, having sent
  nothing new, and no further run of it changes that; the proxy keeps the old table until some later
  change is published.
\<close>

theorem publish_lost_while_sending:
  assumes "dget (hc_subs hc) i = Some sb" and "sb_phase sb = Sending u"
  shows "\<exists>sb'. dget (hc_subs (resume i (on_deployment_change now hc))) i = Some sb' \<and>
    sb_phase sb' = Waiting \<and> sb_sent sb' = sb_sent sb \<and>
    dget (hc_subs (resume i (resume i (on_deployment_change now hc)))) i = Some sb'"
  using assms by (simp add: subs_resume subs_publish wake_def run_subscriber_def)

theorem publish_lost_while_sending_witness:
  "\<exists>sb'. dget (hc_subs (resume 0 (on_deployment_change 9 (subscribe 0 5 demo_head)))) 0 = Some sb' \<and>
    sb_phase sb' = Waiting \<and> map ru_timestamp (sb_sent sb') = [5]"
  using publish_lost_while_sending [OF demo_subscribed, of _ 9] by fastforce

end
