(* ===== verification/HealthManager.thy ===== *)
theory HealthManager
  imports RoutingPublisher
begin

text \<open>
  \<open>src/lib/health_manager.py\<close>: what the head does with a worker's health report, and the loop that
  pings the workers.

  \<open>worker_id\<close> and \<open>replica_id\<close> are numbers of the message; the deployment manager gets their text.
  An exception of \<open>remove_replica_from_deployment\<close> leaves the handler: the replicas already removed
  stay removed and nothing is published.
\<close>

section \<open>Operations\<close>

text \<open>The loop over \<open>request.replica_states\<close>; the result is \<open>change_detected\<close>.\<close>

fun remove_dead :: "int \<Rightarrow> replica_state list \<Rightarrow> bool \<Rightarrow> dep_manager \<Rightarrow> bool res \<times> dep_manager" where
  "remove_dead worker_id [] change_detected dm = (Inr change_detected, dm)"
| "remove_dead worker_id (rs # rest) change_detected dm =
     (if rst_status rs = ''DEAD''
      then case remove_replica_from_deployment (rst_deployment_id rs) (int_text (rst_replica_id rs))
             (int_text worker_id) dm of
             (Inl e, dm') \<Rightarrow> (Inl e, dm')
           | (Inr b, dm') \<Rightarrow> remove_dead worker_id rest True dm'
      else remove_dead worker_id rest change_detected dm)"

definition hm_send_health_status ::
  "int \<Rightarrow> health_update \<Rightarrow> head_state \<Rightarrow> health_reply res \<times> head_state" where
  "hm_send_health_status now rq hc =
     (case remove_dead (hu_worker_id rq) (hu_replica_states rq) False (hc_dm hc) of
        (Inl e, dm) \<Rightarrow> (Inl e, hc\<lparr>hc_dm := dm\<rparr>)
      | (Inr change_detected, dm) \<Rightarrow>
          (Inr \<lparr>hr_ack = True, hr_is_alive = ''true''\<rparr>,
           if change_detected then on_deployment_change now (hc\<lparr>hc_dm := dm\<rparr>)
           else hc\<lparr>hc_dm := dm\<rparr>))"

text \<open>
  One round of \<open>ping_workers\<close>.  The locals are \<open>is_alive\<close>, set at the start of the round, and
  \<open>alive\<close>, which the failure branches assign; \<open>pl_doomed\<close> collects the nodes for which the branch
  \<open>if not is_alive\<close> is taken, where the code is a placeholder.
\<close>

record ping_locals =
  pl_is_alive :: bool
  pl_alive :: "bool option"
  pl_doomed :: "int list"

definition ping_node :: "(node \<Rightarrow> bool res) \<Rightarrow> node \<Rightarrow> ping_locals \<Rightarrow> ping_locals" where
  "ping_node ping nd l =
     (let l' = (case ping nd of
                  Inr acknowledged \<Rightarrow> if acknowledged then l else l\<lparr>pl_alive := Some False\<rparr>
                | Inl e \<Rightarrow> l\<lparr>pl_alive := Some False\<rparr>)
      in if pl_is_alive l' then l' else l'\<lparr>pl_doomed := pl_doomed l' @ [nd_id nd]\<rparr>)"

definition ping_round :: "(node \<Rightarrow> bool res) \<Rightarrow> node_info \<Rightarrow> ping_locals" where
  "ping_round ping ni =
     fold (ping_node ping) (get_all_nodes ni) \<lparr>pl_is_alive = True, pl_alive = None, pl_doomed = []\<rparr>"

section \<open>What a report removes\<close>

definition dead_ones :: "health_update \<Rightarrow> replica_state list" where
  "dead_ones rq = filter (\<lambda>rs. rst_status rs = ''DEAD'') (hu_replica_states rq)"

definition state_key :: "int \<Rightarrow> replica_state \<Rightarrow> string" where
  "state_key w rs = replica_key (int_text w) (int_text (rst_replica_id rs))"

definition spec_remove_all :: "int \<Rightarrow> replica_state list \<Rightarrow> route_table \<Rightarrow> route_table" where
  "spec_remove_all w rss m = fold (\<lambda>rs. spec_remove (rst_deployment_id rs) (state_key w rs)) rss m"

text \<open>A report names the deployment of every dead replica that the head still knows.\<close>

definition placed :: "int \<Rightarrow> replica_state list \<Rightarrow> dep_manager \<Rightarrow> bool" where
  "placed w rss dm \<longleftrightarrow> (\<forall>rs \<in> set rss. rst_status rs = ''DEAD'' \<longrightarrow>
     (\<forall>a. dget (dm_replica_map dm) (state_key w rs) = Some a \<longrightarrow> live dm (rst_deployment_id rs) a))"

lemma routes_remove_absent:
  assumes ok: "dm_shape dm" and no: "dget (dm_replica_map dm) rid = None"
  shows "spec_remove d rid (routes dm) = routes dm"
proof
  fix d'
  show "spec_remove d rid (routes dm) d' = routes dm d'"
  proof (cases "dget (dm_deployments dm) d'")
    case None
    then show ?thesis by (auto simp: spec_remove_def routes_def)
  next
    case (Some dep)
    have "ri_replica_num (dm_objs dm ! a) \<noteq> rid" if "a \<in> set (dh_replicas dep)" for a
      using shape_live [OF ok, of d' a] no Some that by (auto simp: live_def)
    then have "filter (\<lambda>r. ri_replica_num r \<noteq> rid) (map (\<lambda>a. dm_objs dm ! a) (dh_replicas dep)) =
        map (\<lambda>a. dm_objs dm ! a) (dh_replicas dep)"
      by (intro filter_True) auto
    with Some show ?thesis by (auto simp: spec_remove_def routes_def)
  qed
qed

text \<open>One dead replica, known to the head or not.\<close>

lemma remove_one_dead:
  assumes ok: "dm_shape dm" "ledger_ok dm" "used_on (dm_nodes dm) w \<noteq> None"
    and pl: "placed w (rs # rest) dm" and dead: "rst_status rs = ''DEAD''"
  shows "\<exists>b dm'. remove_replica_from_deployment (rst_deployment_id rs) (int_text (rst_replica_id rs))
      (int_text w) dm = (Inr b, dm') \<and> dm_shape dm' \<and> ledger_ok dm' \<and>
    used_on (dm_nodes dm') w \<noteq> None \<and> placed w rest dm' \<and>
    routes dm' = spec_remove (rst_deployment_id rs) (state_key w rs) (routes dm) \<and>
    dm_replica_map dm' = ddel (state_key w rs) (dm_replica_map dm)"
proof (cases "dget (dm_replica_map dm) (state_key w rs)")
  case None
  moreover have "placed w rest dm" using pl by (simp add: placed_def)
  ultimately show ?thesis
    using ok routes_remove_absent [OF ok(1) None] remove_replica_absent [of dm "int_text w"]
    by (auto simp: state_key_def ddel_absent)
next
  case (Some a)
  have lv: "live dm (rst_deployment_id rs) a" using pl dead Some by (simp add: placed_def)
  obtain dm' where r: "remove_replica_from_deployment (rst_deployment_id rs) (int_text (rst_replica_id rs))
      (int_text w) dm = (Inr True, dm')" "dm_shape dm'" "ledger_ok dm'"
    "routes dm' = spec_remove (rst_deployment_id rs) (state_key w rs) (routes dm)"
    and m: "dm_replica_map dm' = ddel (state_key w rs) (dm_replica_map dm)"
    and l: "\<And>d' b. live dm' d' b \<longleftrightarrow> live dm d' b \<and> b \<noteq> a"
    and u: "\<And>n'. used_on (dm_nodes dm') n' = None \<longleftrightarrow> used_on (dm_nodes dm) n' = None"
    using remove_one_replica [OF ok Some [unfolded state_key_def] lv] unfolding state_key_def by metis
  have "live dm' (rst_deployment_id rs') b"
    if "rs' \<in> set rest" "rst_status rs' = ''DEAD''"
      "dget (dm_replica_map dm') (state_key w rs') = Some b" for rs' b
  proof -
    have b: "dget (dm_replica_map dm) (state_key w rs') = Some b" "state_key w rs' \<noteq> state_key w rs"
      using that(3) m by (auto split: if_splits)
    then have "b \<noteq> a" using shape_mapped(2) [OF ok(1) b(1)] shape_mapped(2) [OF ok(1) Some] by auto
    with b that pl l show ?thesis by (simp add: placed_def)
  qed
  then have "placed w rest dm'" by (simp add: placed_def)
  moreover have "used_on (dm_nodes dm') w \<noteq> None" using u [of w] ok(3) by simp
  ultimately show ?thesis using r m by (intro exI conjI)
qed

lemma remove_dead_effect:
  assumes "dm_shape dm" "ledger_ok dm" "used_on (dm_nodes dm) w \<noteq> None" "placed w rss dm"
  shows "\<exists>dm'. remove_dead w rss ch dm =
      (Inr (ch \<or> filter (\<lambda>rs. rst_status rs = ''DEAD'') rss \<noteq> []), dm') \<and> dm_shape dm' \<and> ledger_ok dm' \<and>
    (filter (\<lambda>rs. rst_status rs = ''DEAD'') rss = [] \<longrightarrow> dm' = dm) \<and>
    routes dm' = spec_remove_all w (filter (\<lambda>rs. rst_status rs = ''DEAD'') rss) (routes dm) \<and>
    dkeys (dm_replica_map dm') = dkeys (dm_replica_map dm) -
      state_key w ` {rs \<in> set rss. rst_status rs = ''DEAD''}"
  using assms
proof (induction rss arbitrary: ch dm)
  case Nil
  then show ?case by (simp add: spec_remove_all_def)
next
  case (Cons rs rest)
  show ?case
  proof (cases "rst_status rs = ''DEAD''")
    case False
    moreover have "placed w rest dm" using Cons.prems(4) by (simp add: placed_def)
    moreover have "{rs' \<in> set (rs # rest). rst_status rs' = ''DEAD''} = {rs' \<in> set rest. rst_status rs' = ''DEAD''}"
      using False by auto
    ultimately show ?thesis using Cons.IH [of dm ch] Cons.prems by simp
  next
    case True
    obtain b dm1 where r: "remove_replica_from_deployment (rst_deployment_id rs) (int_text (rst_replica_id rs))
        (int_text w) dm = (Inr b, dm1)" "dm_shape dm1" "ledger_ok dm1" "used_on (dm_nodes dm1) w \<noteq> None"
      "placed w rest dm1" "routes dm1 = spec_remove (rst_deployment_id rs) (state_key w rs) (routes dm)"
      "dm_replica_map dm1 = ddel (state_key w rs) (dm_replica_map dm)"
      using remove_one_dead [OF Cons.prems True] by blast
    have "{rs' \<in> set (rs # rest). rst_status rs' = ''DEAD''} = insert rs {rs' \<in> set rest. rst_status rs' = ''DEAD''}"
      using True by auto
    then show ?thesis
      using Cons.IH [OF r(2-5), of True] r(1,6,7) True by (auto simp: spec_remove_all_def)
  qed
qed

text \<open>The report of the sample table's worker: its replica 7 is dead, an unknown one too.\<close>

definition demo_report :: health_update where
  "demo_report = \<lparr>hu_worker_id = 1, hu_worker_address = ''10.0.0.1'', hu_replica_states =
     [\<lparr>rst_replica_id = 7, rst_deployment_id = 2, rst_status = ''DEAD'', rst_replica_port = ''50107''\<rparr>,
      \<lparr>rst_replica_id = 8, rst_deployment_id = 2, rst_status = ''RUNNING'', rst_replica_port = ''50108''\<rparr>,
      \<lparr>rst_replica_id = 9, rst_deployment_id = 1, rst_status = ''DEAD'', rst_replica_port = ''50109''\<rparr>]\<rparr>"

lemma demo_map: "dget (dm_replica_map demo_dm1) k =
    (if k = replica_key (int_text 1) (int_text 7) then Some 0 else None)"
proof -
  obtain dep where dep: "dget (dm_deployments demo_dm) 2 = Some dep"
    using demo_dm_facts(3) by (auto simp: routes_def)
  let ?at = "attach_replica 2 (int_text 1) 2 1 ''10.0.0.1'' (demo_rc 7) demo_dm"
  have nodes: "dm_nodes ?at = dm_nodes demo_dm" by (simp add: attach_replica_def Let_def)
  have eq: "demo_dm1 = ?at\<lparr>dm_nodes := snd (update_resources 1 2 1 True (dm_nodes ?at))\<rparr>"
    using dep by (auto simp: demo_dm1_def add_replica_to_deployment_def charge_worker_registered
        nodes demo_dm_facts)
  have "dm_objs demo_dm = []"
    by (simp add: demo_dm_def add_or_update_deployment_def dm_init_def split: option.splits)
  moreover have "int_text (rc_replica_id (demo_rc 7)) = int_text 7" by (simp add: demo_rc_def)
  ultimately have "dm_replica_map demo_dm1 = dset (replica_key (int_text 1) (int_text 7)) 0 []"
    unfolding eq by (simp add: attach_replica_def Let_def demo_dm_facts)
  then show ?thesis by simp
qed

lemma demo_report_placed: "placed 1 (hu_replica_states demo_report) demo_dm1"
  by (simp add: placed_def demo_report_def demo_map state_key_def demo_dm1_facts)

section \<open>Properties\<close>

text \<open>
  A health report that names the right deployments is applied exactly: the handler acknowledges,
  every replica it reports \<open>DEAD\<close>, and no other, leaves the routing table and \<open>replica_map\<close>, the
  agreement of the tables and the ledger are kept, and if there was one the table without them is
  published; a report without a dead replica changes nothing.
\<close>

theorem health_report_applied:
  assumes "dm_shape (hc_dm hc)" and "ledger_ok (hc_dm hc)"
    and "used_on (dm_nodes (hc_dm hc)) (hu_worker_id rq) \<noteq> None"
    and "placed (hu_worker_id rq) (hu_replica_states rq) (hc_dm hc)"
  shows "\<exists>hc'. hm_send_health_status now rq hc = (Inr \<lparr>hr_ack = True, hr_is_alive = ''true''\<rparr>, hc') \<and>
    dm_shape (hc_dm hc') \<and> ledger_ok (hc_dm hc') \<and>
    routes (hc_dm hc') = spec_remove_all (hu_worker_id rq) (dead_ones rq) (routes (hc_dm hc)) \<and>
    dkeys (dm_replica_map (hc_dm hc')) = dkeys (dm_replica_map (hc_dm hc)) -
      state_key (hu_worker_id rq) ` set (dead_ones rq) \<and>
    (if dead_ones rq = [] then hc' = hc
     else hc_snapshot hc' = Some (get_current_routing_table now (hc_dm hc')))"
proof -
  obtain dm' where dm': "remove_dead (hu_worker_id rq) (hu_replica_states rq) False (hc_dm hc) =
      (Inr (dead_ones rq \<noteq> []), dm')" "dm_shape dm'" "ledger_ok dm'" "dead_ones rq = [] \<longrightarrow> dm' = hc_dm hc"
    "routes dm' = spec_remove_all (hu_worker_id rq) (dead_ones rq) (routes (hc_dm hc))"
    "dkeys (dm_replica_map dm') = dkeys (dm_replica_map (hc_dm hc)) -
      state_key (hu_worker_id rq) ` set (dead_ones rq)"
    using remove_dead_effect [OF assms, of False] by (auto simp: dead_ones_def)
  then show ?thesis
    by (cases "dead_ones rq = []") (auto simp: hm_send_health_status_def on_deployment_change_def)
qed

theorem health_report_applied_witness:
  "\<exists>hc'. hm_send_health_status 9 demo_report demo_head = (Inr \<lparr>hr_ack = True, hr_is_alive = ''true''\<rparr>, hc') \<and>
    routes (hc_dm hc') 2 = Some (''/v1/chat/tinyllama'', ''1.0'', []) \<and>
    hc_snapshot hc' = Some (get_current_routing_table 9 (hc_dm hc'))"
proof -
  have dm: "hc_dm demo_head = demo_dm1" "hu_worker_id demo_report = 1" "dead_ones demo_report \<noteq> []"
    by (simp_all add: demo_head_def demo_report_def dead_ones_def)
  have "spec_remove_all 1 (dead_ones demo_report) (routes demo_dm1) 2 =
      Some (''/v1/chat/tinyllama'', ''1.0'', [])"
    by (simp add: spec_remove_all_def dead_ones_def demo_report_def spec_remove_def state_key_def demo_dm1_facts)
  then show ?thesis
    using health_report_applied [of demo_head demo_report 9] demo_dm1_facts(1-3) demo_report_placed dm
    by auto
qed

text \<open>
  A round of \<open>ping_workers\<close> never takes the branch for a dead node: the failure paths assign
  \<open>alive\<close> while the test reads \<open>is_alive\<close>.  So whatever the nodes answer, no node is singled out,
  although the round did notice (in the unused local) exactly when some node failed to acknowledge.
\<close>

theorem ping_round_dooms_nobody:
  "pl_doomed (ping_round ping ni) = [] \<and> pl_is_alive (ping_round ping ni) \<and>
   (pl_alive (ping_round ping ni) = Some False \<longleftrightarrow> (\<exists>nd \<in> set (get_all_nodes ni). ping nd \<noteq> Inr True))"
proof -
  have "pl_is_alive l \<Longrightarrow> pl_is_alive (fold (ping_node ping) nds l) \<and>
      pl_doomed (fold (ping_node ping) nds l) = pl_doomed l \<and>
      (pl_alive (fold (ping_node ping) nds l) = Some False \<longleftrightarrow>
        pl_alive l = Some False \<or> (\<exists>nd \<in> set nds. ping nd \<noteq> Inr True))" for nds l
  proof (induction nds arbitrary: l)
    case (Cons nd nds)
    have "pl_is_alive (ping_node ping nd l) \<and> pl_doomed (ping_node ping nd l) = pl_doomed l \<and>
        (pl_alive (ping_node ping nd l) = Some False \<longleftrightarrow> pl_alive l = Some False \<or> ping nd \<noteq> Inr True)"
      using Cons.prems by (cases "ping nd") (auto simp: ping_node_def Let_def)
    then show ?case using Cons.IH [of "ping_node ping nd l"] by auto
  qed simp
  from this [of "\<lparr>pl_is_alive = True, pl_alive = None, pl_doomed = []\<rparr>" "get_all_nodes ni"]
  show ?thesis by (simp add: ping_round_def)
qed

end
