(* ===== verification/Helpers.thy ===== *)
theory Helpers
  imports Prelude
begin

text \<open>
  \<open>src/lib/helpers.py\<close>, \<open>src/lib/utils.py\<close> and \<open>send_with_retries_async\<close> of
  \<open>src/components/add_replica_vllm.py\<close>: the four retry loops of the system and the address look-ups.

  A call that is retried is a function \<open>'s \<Rightarrow> 'a res \<times> 's\<close> on the state of everything it can change,
  so a second attempt sees what the first one did.  The sleeps of a loop are returned as a list.
  \<open>attempts\<close> is the specification the four loops share; the locale \<open>retrying\<close> holds what follows
  from it, and each loop is an interpretation.
\<close>

section \<open>What a retry loop returns\<close>

text \<open>
  \<open>try_send_with_retries\<close> returns the reply, or the last exception \<^emph>\<open>as a value\<close>, or \<open>None\<close>.
\<close>

datatype 'a sent = Got 'a | GotExn exn | GotNone

fun sent_last :: "exn option \<Rightarrow> 'a sent" where
  "sent_last None = GotNone"
| "sent_last (Some e) = GotExn e"

section \<open>The loops, as the code has them\<close>

text \<open>
  \<open>for attempt in range(1, num_attempts + 1)\<close> is a recursion over the list of attempt numbers.
  \<open>draw attempt d\<close> stands for \<open>random.uniform(0, d)\<close> at that attempt.
\<close>

fun try_send_loop ::
  "('s \<Rightarrow> 'a res \<times> 's) \<Rightarrow> (nat \<Rightarrow> real \<Rightarrow> real) \<Rightarrow> bool \<Rightarrow> real \<Rightarrow> real \<Rightarrow> nat \<Rightarrow>
   nat list \<Rightarrow> real \<Rightarrow> exn option \<Rightarrow> 's \<Rightarrow> 'a sent \<times> real list \<times> 's" where
  "try_send_loop call draw jitter factor max_delay num [] delay prev s = (sent_last prev, [], s)"
| "try_send_loop call draw jitter factor max_delay num (attempt # rest) delay prev s =
     (case call s of
        (Inr v, s') \<Rightarrow> (Got v, [], s')
      | (Inl e, s') \<Rightarrow>
          if attempt < num then
            (let backoff = delay + (if jitter then draw attempt delay else 0);
                 delay' = min (delay * factor) max_delay;
                 (r, sleeps, s'') =
                   try_send_loop call draw jitter factor max_delay num rest delay' (Some e) s'
             in (r, backoff # sleeps, s''))
          else try_send_loop call draw jitter factor max_delay num rest delay (Some e) s')"

definition try_send_with_retries ::
  "('s \<Rightarrow> 'a res \<times> 's) \<Rightarrow> (nat \<Rightarrow> real \<Rightarrow> real) \<Rightarrow> nat \<Rightarrow> real \<Rightarrow> real \<Rightarrow> real \<Rightarrow> bool \<Rightarrow>
   's \<Rightarrow> 'a sent \<times> real list \<times> 's" where
  "try_send_with_retries call draw num_attempts delay_seconds backoff_factor max_delay jitter s =
     try_send_loop call draw jitter backoff_factor max_delay num_attempts
       [1..<Suc num_attempts] delay_seconds None s"

text \<open>The keyword defaults: \<open>delay_seconds=3, backoff_factor=2, max_delay=10, jitter=True\<close>.\<close>

definition try_send_default ::
  "('s \<Rightarrow> 'a res \<times> 's) \<Rightarrow> (nat \<Rightarrow> real \<Rightarrow> real) \<Rightarrow> nat \<Rightarrow> real \<Rightarrow> 's \<Rightarrow> 'a sent \<times> real list \<times> 's" where
  "try_send_default call draw num_attempts delay_seconds s =
     try_send_with_retries call draw num_attempts delay_seconds 2 10 True s"

text \<open>
  \<open>try_send_with_retries_sync\<close>: only \<open>grpc.RpcError\<close> is retried, any other exception leaves the
  function (\<open>Inl\<close>); when every attempt failed the result is \<open>None\<close>, not the exception.
\<close>

fun try_send_sync_loop ::
  "('s \<Rightarrow> 'a res \<times> 's) \<Rightarrow> real \<Rightarrow> nat \<Rightarrow> nat list \<Rightarrow> 's \<Rightarrow> 'a sent res \<times> real list \<times> 's" where
  "try_send_sync_loop call delay num [] s = (Inr GotNone, [], s)"
| "try_send_sync_loop call delay num (attempt # rest) s =
     (case call s of
        (Inr v, s') \<Rightarrow> (Inr (Got v), [], s')
      | (Inl e, s') \<Rightarrow>
          if is_rpc_error e then
            (let (r, sleeps, s'') = try_send_sync_loop call delay num rest s'
             in (r, if attempt < num then delay # sleeps else sleeps, s''))
          else (Inl e, [], s'))"

definition try_send_with_retries_sync ::
  "('s \<Rightarrow> 'a res \<times> 's) \<Rightarrow> nat \<Rightarrow> real \<Rightarrow> 's \<Rightarrow> 'a sent res \<times> real list \<times> 's" where
  "try_send_with_retries_sync call num_attempts delay_seconds s =
     try_send_sync_loop call delay_seconds num_attempts [1..<Suc num_attempts] s"

text \<open>\<open>send_with_delay\<close> is the same loop without the \<open>timeout\<close> argument of the call.\<close>

definition send_with_delay ::
  "('s \<Rightarrow> 'a res \<times> 's) \<Rightarrow> nat \<Rightarrow> real \<Rightarrow> 's \<Rightarrow> 'a sent res \<times> real list \<times> 's" where
  "send_with_delay call num_attempts delay_seconds s =
     try_send_sync_loop call delay_seconds num_attempts [1..<Suc num_attempts] s"

text \<open>
  \<open>ReplicaManager.send_with_retries_async\<close>: as above, but when the attempts are used up the
  process sends itself \<open>SIGTERM\<close> (the Boolean) before it returns \<open>None\<close>.
\<close>

definition send_with_retries_async ::
  "('s \<Rightarrow> 'a res \<times> 's) \<Rightarrow> nat \<Rightarrow> real \<Rightarrow> 's \<Rightarrow> 'a sent res \<times> bool \<times> real list \<times> 's" where
  "send_with_retries_async call num_attempts delay_seconds s =
     (let (r, sleeps, s') = try_send_sync_loop call delay_seconds num_attempts
            [1..<Suc num_attempts] s
      in (r, r = Inr GotNone, sleeps, s'))"

section \<open>The specification of a retry loop\<close>

datatype 'a tried = Succeeded 'a | Escaped exn | Exhausted "exn option"

text \<open>
  Call until the first reply, the first exception that is not caught, or the end of the budget;
  also count the calls.
\<close>

fun attempts ::
  "(exn \<Rightarrow> bool) \<Rightarrow> ('s \<Rightarrow> 'a res \<times> 's) \<Rightarrow> nat \<Rightarrow> exn option \<Rightarrow> 's \<Rightarrow> 'a tried \<times> nat \<times> 's" where
  "attempts caught call 0 prev s = (Exhausted prev, 0, s)"
| "attempts caught call (Suc n) prev s =
     (case call s of
        (Inr v, s') \<Rightarrow> (Succeeded v, 1, s')
      | (Inl e, s') \<Rightarrow>
          if caught e then
            (let (r, k, s'') = attempts caught call n (Some e) s' in (r, Suc k, s''))
          else (Escaped e, 1, s'))"

text \<open>The state after \<open>k\<close> calls, whatever they returned.\<close>

fun after_calls :: "('s \<Rightarrow> 'a res \<times> 's) \<Rightarrow> nat \<Rightarrow> 's \<Rightarrow> 's" where
  "after_calls call 0 s = s"
| "after_calls call (Suc k) s = after_calls call k (snd (call s))"

lemma after_calls_Suc: "after_calls call (Suc k) s = snd (call (after_calls call k s))"
  by (induction k arbitrary: s) simp_all

lemma attempts_bound: "attempts caught call n prev s = (r, k, s') \<Longrightarrow> k \<le> n"
  by (induction n arbitrary: prev s r k s')
    (fastforce split: prod.splits sum.splits if_splits)+

lemma attempts_state:
  "attempts caught call n prev s = (r, k, s') \<Longrightarrow> s' = after_calls call k s"
proof (induction n arbitrary: prev s r k s')
  case 0
  then show ?case by simp
next
  case (Suc n)
  obtain x s1 where c: "call s = (x, s1)" by (cases "call s")
  show ?case
  proof (cases x)
    case (Inl e)
    obtain r1 k1 s2 where rec: "attempts caught call n (Some e) s1 = (r1, k1, s2)"
      by (cases "attempts caught call n (Some e) s1") auto
    from Suc.IH [OF rec] Suc.prems c Inl rec show ?thesis by (auto split: if_splits)
  next
    case (Inr v)
    with Suc.prems c show ?thesis by auto
  qed
qed

lemma attempts_all_fail:
  assumes "\<And>j. j < n \<Longrightarrow> \<exists>e. fst (call (after_calls call j s)) = Inl e \<and> caught e"
  shows "\<exists>prev_out. attempts caught call n prev s = (Exhausted prev_out, n, after_calls call n s) \<and>
    (if n = 0 then prev_out = prev
     else \<exists>e. prev_out = Some e \<and> fst (call (after_calls call (n - 1) s)) = Inl e)"
  using assms
proof (induction n arbitrary: prev s)
  case 0
  then show ?case by simp
next
  case (Suc n)
  obtain x s1 where c: "call s = (x, s1)" by (cases "call s")
  from Suc.prems [of 0] c obtain e where e: "x = Inl e" "caught e" by auto
  have "\<exists>e. fst (call (after_calls call j s1)) = Inl e \<and> caught e" if "j < n" for j
    using Suc.prems [of "Suc j"] that c by simp
  then obtain l where l: "attempts caught call n (Some e) s1 = (Exhausted l, n, after_calls call n s1)"
    and prev: "if n = 0 then l = Some e
       else \<exists>e. l = Some e \<and> fst (call (after_calls call (n - 1) s1)) = Inl e"
    using Suc.IH by blast
  show ?case
    using l prev c e by (cases n) (auto simp: after_calls_Suc)
qed

lemma attempts_first_success:
  assumes "k < n" and "fst (call (after_calls call k s)) = Inr v"
    and "\<And>j. j < k \<Longrightarrow> \<exists>e. fst (call (after_calls call j s)) = Inl e \<and> caught e"
  shows "attempts caught call n prev s = (Succeeded v, Suc k, after_calls call (Suc k) s)"
  using assms
proof (induction k arbitrary: n prev s)
  case 0
  then show ?case by (cases n) (auto split: prod.splits)
next
  case (Suc k)
  obtain m where n: "n = Suc m" using Suc.prems(1) by (cases n) auto
  obtain x s1 where c: "call s = (x, s1)" by (cases "call s")
  from Suc.prems(3) [of 0] c obtain e where e: "x = Inl e" "caught e" by auto
  have "attempts caught call m (Some e) s1 = (Succeeded v, Suc k, after_calls call (Suc k) s1)"
  proof (rule Suc.IH)
    show "k < m" using Suc.prems(1) n by simp
    show "fst (call (after_calls call k s1)) = Inr v" using Suc.prems(2) c by simp
    show "\<exists>e. fst (call (after_calls call j s1)) = Inl e \<and> caught e" if "j < k" for j
      using Suc.prems(3) [of "Suc j"] that c by simp
  qed
  with n c e show ?case by simp
qed

section \<open>The contract of a retry loop\<close>

text \<open>
  \<open>run n call s\<close> is a loop with a budget of \<open>n\<close> attempts, \<open>caught\<close> the exceptions it retries and
  \<open>view\<close> how it presents the outcome.
\<close>

locale retrying =
  fixes run :: "nat \<Rightarrow> ('s \<Rightarrow> 'a res \<times> 's) \<Rightarrow> 's \<Rightarrow> 'o \<times> 's"
    and caught :: "exn \<Rightarrow> bool"
    and view :: "'a tried \<Rightarrow> 'o"
  assumes run_attempts:
    "run n call s = (case attempts caught call n None s of (r, k, s') \<Rightarrow> (view r, s'))"
begin

lemma run_first_success:
  assumes "k < n" and "fst (call (after_calls call k s)) = Inr v"
    and "\<And>j. j < k \<Longrightarrow> \<exists>e. fst (call (after_calls call j s)) = Inl e \<and> caught e"
  shows "run n call s = (view (Succeeded v), after_calls call (Suc k) s)"
  using attempts_first_success [where call = call and s = s and k = k and n = n and v = v and
      caught = caught and prev = None, OF assms]
  by (simp add: run_attempts)

lemma run_exhausted:
  assumes "\<And>j. j < n \<Longrightarrow> \<exists>e. fst (call (after_calls call j s)) = Inl e \<and> caught e"
  shows "\<exists>l. run n call s = (view (Exhausted l), after_calls call n s) \<and>
    (0 < n \<longrightarrow> (\<exists>e. l = Some e \<and> fst (call (after_calls call (n - 1) s)) = Inl e))"
  using attempts_all_fail [where call = call and s = s and n = n and
      caught = caught and prev = None, OF assms]
  by (auto simp: run_attempts)

lemma run_at_most: "\<exists>k \<le> n. snd (run n call s) = after_calls call k s"
proof -
  obtain r k s' where a: "attempts caught call n None s = (r, k, s')"
    by (cases "attempts caught call n None s") auto
  from attempts_bound [OF a] attempts_state [OF a] a show ?thesis
    by (auto simp: run_attempts)
qed

lemma run_keeps:
  assumes "\<And>s. P s \<Longrightarrow> P (snd (call s))" and "P s"
  shows "P (snd (run n call s))"
proof -
  have "P (after_calls call k s)" for k
    using assms by (induction k) (simp_all add: after_calls_Suc del: after_calls.simps(2))
  then show ?thesis using run_at_most [of n call s] by auto
qed

end

section \<open>The four loops meet the contract\<close>

fun view_async :: "'a tried \<Rightarrow> 'a sent" where
  "view_async (Succeeded v) = Got v"
| "view_async (Escaped e) = GotExn e"
| "view_async (Exhausted l) = sent_last l"

fun view_sync :: "'a tried \<Rightarrow> 'a sent res" where
  "view_sync (Succeeded v) = Inr (Got v)"
| "view_sync (Escaped e) = Inl e"
| "view_sync (Exhausted l) = Inr GotNone"

lemma try_send_loop_attempts:
  "(case try_send_loop call draw jitter factor md num xs delay prev s of (r, sl, s') \<Rightarrow> (r, s')) =
   (case attempts (\<lambda>_. True) call (length xs) prev s of (r, k, s') \<Rightarrow> (view_async r, s'))"
  by (induction xs arbitrary: delay prev s)
    (force split: prod.splits sum.splits)+

lemma try_send_sync_loop_attempts:
  "(case try_send_sync_loop call delay num xs s of (r, sl, s') \<Rightarrow> (r, s')) =
   (case attempts is_rpc_error call (length xs) prev s of (r, k, s') \<Rightarrow> (view_sync r, s'))"
  by (induction xs arbitrary: prev s)
    (force split: prod.splits sum.splits)+

definition run_async ::
  "(nat \<Rightarrow> real \<Rightarrow> real) \<Rightarrow> real \<Rightarrow> real \<Rightarrow> real \<Rightarrow> bool \<Rightarrow> nat \<Rightarrow> ('s \<Rightarrow> 'a res \<times> 's) \<Rightarrow> 's \<Rightarrow> 'a sent \<times> 's"
  where
  "run_async draw delay factor md jitter n call s =
     (case try_send_with_retries call draw n delay factor md jitter s of (r, sl, s') \<Rightarrow> (r, s'))"

definition run_sync :: "real \<Rightarrow> nat \<Rightarrow> ('s \<Rightarrow> 'a res \<times> 's) \<Rightarrow> 's \<Rightarrow> 'a sent res \<times> 's" where
  "run_sync delay n call s =
     (case try_send_with_retries_sync call n delay s of (r, sl, s') \<Rightarrow> (r, s'))"

definition run_with_delay :: "real \<Rightarrow> nat \<Rightarrow> ('s \<Rightarrow> 'a res \<times> 's) \<Rightarrow> 's \<Rightarrow> 'a sent res \<times> 's" where
  "run_with_delay delay n call s = (case send_with_delay call n delay s of (r, sl, s') \<Rightarrow> (r, s'))"

definition run_replica :: "real \<Rightarrow> nat \<Rightarrow> ('s \<Rightarrow> 'a res \<times> 's) \<Rightarrow> 's \<Rightarrow> ('a sent res \<times> bool) \<times> 's" where
  "run_replica delay n call s =
     (case send_with_retries_async call n delay s of (r, killed, sl, s') \<Rightarrow> ((r, killed), s'))"

interpretation async_retry: retrying "run_async draw delay factor md jitter" "\<lambda>_. True" view_async
proof unfold_locales
  fix n call s
  show "run_async draw delay factor md jitter n call s =
    (case attempts (\<lambda>_. True) call n None s of (r, k, s') \<Rightarrow> (view_async r, s'))"
    using try_send_loop_attempts [of call draw jitter factor md n "[1..<Suc n]" delay None s]
    by (simp add: run_async_def try_send_with_retries_def del: upt_Suc)
qed

lemma sync_loop_view:
  "(case try_send_sync_loop call delay n [1..<Suc n] s of (r, sl, s') \<Rightarrow> (r, s')) =
   (case attempts is_rpc_error call n None s of (r, k, s') \<Rightarrow> (view_sync r, s'))"
  using try_send_sync_loop_attempts [of call delay n "[1..<Suc n]" s None]
  by (simp del: upt_Suc)

interpretation sync_retry: retrying "run_sync delay" is_rpc_error view_sync
  by unfold_locales (simp only: run_sync_def try_send_with_retries_sync_def sync_loop_view)

interpretation delay_retry: retrying "run_with_delay delay" is_rpc_error view_sync
  by unfold_locales (simp only: run_with_delay_def send_with_delay_def sync_loop_view)

interpretation replica_retry: retrying "run_replica delay" is_rpc_error
  "\<lambda>r. (view_sync r, view_sync r = Inr GotNone)"
proof unfold_locales
  fix n call s
  obtain r sl s' where l: "try_send_sync_loop call delay n [1..<Suc n] s = (r, sl, s')"
    by (cases "try_send_sync_loop call delay n [1..<Suc n] s") auto
  with sync_loop_view [of call delay n s]
  show "run_replica delay n call s = (case attempts is_rpc_error call n None s of
    (r, k, s') \<Rightarrow> ((view_sync r, view_sync r = Inr GotNone), s'))"
    by (auto simp: run_replica_def send_with_retries_async_def simp del: upt_Suc split: prod.splits)
qed


section \<open>The sleeps between attempts\<close>

text \<open>The delay before jitter after \<open>i\<close> failures: doubled and capped each time, the first one not capped.\<close>

definition next_delay :: "real \<Rightarrow> real \<Rightarrow> real \<Rightarrow> real" where
  "next_delay factor md d = min (d * factor) md"

definition backoff_base :: "real \<Rightarrow> real \<Rightarrow> real \<Rightarrow> nat \<Rightarrow> real" where
  "backoff_base factor md delay i = (if i = 0 then delay else min (delay * factor ^ i) md)"

lemma iterate_next_delay:
  assumes "1 \<le> factor" and "0 \<le> md" and "0 \<le> delay"
  shows "(next_delay factor md ^^ i) delay = backoff_base factor md delay i"
proof (induction i)
  case 0
  then show ?case by (simp add: backoff_base_def)
next
  case (Suc i)
  have grow: "md \<le> md * factor" using assms mult_left_mono [of 1 factor md] by simp
  have "(next_delay factor md ^^ Suc i) delay = min (backoff_base factor md delay i * factor) md"
    by (simp add: Suc.IH next_delay_def)
  also have "\<dots> = min (delay * factor ^ i * factor) md"
  proof (cases "i = 0 \<or> delay * factor ^ i \<le> md")
    case True
    then show ?thesis by (auto simp: backoff_base_def)
  next
    case False
    then have md: "md < delay * factor ^ i" and "i \<noteq> 0" by auto
    have "delay * factor ^ i \<le> delay * factor ^ i * factor"
      using assms mult_left_mono [of 1 factor "delay * factor ^ i"] by simp
    with md grow \<open>i \<noteq> 0\<close> show ?thesis by (simp add: backoff_base_def)
  qed
  finally show ?case by (simp add: backoff_base_def ac_simps)
qed

lemma backoff_base_nonneg:
  "\<lbrakk>0 \<le> factor; 0 \<le> md; 0 \<le> delay\<rbrakk> \<Longrightarrow> 0 \<le> backoff_base factor md delay i"
  by (simp add: backoff_base_def)

lemma try_send_loop_sleeps:
  assumes "try_send_loop call draw jitter factor md num [a..<b] delay prev s = (r, sleeps, s')"
    and "b \<le> Suc num"
  shows "length sleeps \<le> num - a" and "i < length sleeps \<Longrightarrow>
    sleeps ! i = (let d = (next_delay factor md ^^ i) delay in d + (if jitter then draw (a + i) d else 0))"
proof -
  have "length sleeps \<le> num - a \<and> (\<forall>i < length sleeps.
    sleeps ! i = (let d = (next_delay factor md ^^ i) delay in d + (if jitter then draw (a + i) d else 0)))"
    using assms
  proof (induction "b - a" arbitrary: a delay prev s r sleeps s')
    case 0
    then show ?case by simp
  next
    case (Suc m)
    then have lt: "a < b" and m: "m = b - Suc a" by auto
    obtain x s1 where c: "call s = (x, s1)" by (cases "call s")
    show ?case
    proof (cases x)
      case (Inr v)
      with Suc.prems c lt show ?thesis by (simp add: upt_conv_Cons)
    next
      case (Inl e)
      define d1 where "d1 = (if a < num then next_delay factor md delay else delay)"
      obtain r2 sl2 s2 where rec:
        "try_send_loop call draw jitter factor md num [Suc a..<b] d1 (Some e) s1 = (r2, sl2, s2)"
        by (metis prod_cases3)
      note IH = Suc.hyps(1) [OF m rec Suc.prems(2)]
      show ?thesis
      proof (cases "a < num")
        case True
        then have sl: "sleeps = (delay + (if jitter then draw a delay else 0)) # sl2"
          using Suc.prems(1) c Inl lt rec
          by (simp add: upt_conv_Cons d1_def next_delay_def)
        show ?thesis
          using IH True unfolding sl d1_def
          by (auto simp: nth_Cons Let_def funpow_Suc_right simp del: funpow.simps(2) split: nat.splits)
      next
        case False
        then have "Suc a = b" using lt Suc.prems(2) by simp
        with False have "sleeps = []"
          using Suc.prems(1) c Inl lt by (simp add: upt_conv_Cons)
        then show ?thesis by simp
      qed
    qed
  qed
  then show "length sleeps \<le> num - a" and "i < length sleeps \<Longrightarrow>
    sleeps ! i = (let d = (next_delay factor md ^^ i) delay in d + (if jitter then draw (a + i) d else 0))"
    by auto
qed

lemma try_send_sleeps:
  assumes "try_send_with_retries call draw n delay factor md jitter s = (r, sleeps, s')"
    and "1 \<le> factor" and "0 \<le> md" and "0 \<le> delay"
  shows "length sleeps \<le> n - 1" and "i < length sleeps \<Longrightarrow> sleeps ! i =
    backoff_base factor md delay i +
    (if jitter then draw (Suc i) (backoff_base factor md delay i) else 0)"
  using try_send_loop_sleeps(1) [OF assms(1) [unfolded try_send_with_retries_def]]
    try_send_loop_sleeps(2) [OF assms(1) [unfolded try_send_with_retries_def], of i]
  by (simp_all add: iterate_next_delay [OF assms(2-4)] Let_def)

section \<open>The address of this machine\<close>

text \<open>
  \<open>get_gcp_internal_ip\<close>, \<open>get_aws_internal_ip\<close> and \<open>get_local_ip\<close> (\<open>src/lib/utils.py\<close>).  The
  arguments are what the queries yield: the text of the answer, or the exception of the request (for
  AWS first the token, then the address asked for with it).  Only the library's own error classes are
  caught by the first two.
\<close>

definition get_gcp_internal_ip :: "string res \<Rightarrow> string res" where
  "get_gcp_internal_ip answer =
     (case answer of
        Inr internal_ip \<Rightarrow> Inr internal_ip
      | Inl e \<Rightarrow> if e = RequestError then Inr ''localhost'' else Inl e)"

definition get_aws_internal_ip :: "string res \<Rightarrow> (string \<Rightarrow> string res) \<Rightarrow> string res" where
  "get_aws_internal_ip token_answer ip_answer =
     (case (case token_answer of Inl e \<Rightarrow> Inl e | Inr token \<Rightarrow> ip_answer token) of
        Inr private_ip \<Rightarrow> Inr private_ip
      | Inl e \<Rightarrow> if e = URLError then Inr ''localhost'' else Inl e)"

definition get_local_ip :: "string res \<Rightarrow> string" where
  "get_local_ip answer = (case answer of Inr ip \<Rightarrow> ip | Inl e \<Rightarrow> ''127.0.0.1'')"

section \<open>Properties of the retry helper\<close>

text \<open>
  \<open>try_send_with_retries\<close> returns the reply of the first call that succeeds within its budget:
  if the first \<open>k < num_attempts\<close> calls raise (any exception) and the next one returns \<open>v\<close>, the
  result is \<open>v\<close>, exactly \<open>k + 1\<close> calls were made and no further one is.
\<close>

theorem try_send_first_success:
  assumes "k < num_attempts"
    and "fst (call (after_calls call k s)) = Inr v"
    and "\<And>j. j < k \<Longrightarrow> \<exists>e. fst (call (after_calls call j s)) = Inl e"
  shows "\<exists>sleeps. try_send_with_retries call draw num_attempts delay factor md jitter s =
    (Got v, sleeps, after_calls call (Suc k) s)"
  using async_retry.run_first_success [where k = k and n = num_attempts and call = call and s = s and
      v = v and draw = draw and delay = delay and factor = factor and md = md and jitter = jitter] assms
  by (auto simp: run_async_def split: prod.splits)

text \<open>A call that fails twice and then answers, as a function of the number of calls so far.\<close>

definition flaky :: "nat \<Rightarrow> string res \<times> nat" where
  "flaky c = (if c < 2 then Inl (RpcError ''UNAVAILABLE'') else Inr ''pong'', Suc c)"

theorem try_send_first_success_witness:
  "\<exists>sleeps. try_send_with_retries flaky (\<lambda>_ _. 1) 3 3 2 10 True 0 = (Got ''pong'', sleeps, 3)"
proof -
  have "\<exists>sleeps. try_send_with_retries flaky (\<lambda>_ _. 1) 3 3 2 10 True 0 =
    (Got ''pong'', sleeps, after_calls flaky (Suc 2) 0)"
    by (rule try_send_first_success)
      (auto simp: flaky_def numeral_2_eq_2 less_Suc_eq)
  then show ?thesis by (simp add: flaky_def numeral_2_eq_2 numeral_3_eq_3)
qed

text \<open>
  When every attempt fails, \<open>try_send_with_retries\<close> makes exactly \<open>num_attempts\<close> calls and
  \<^emph>\<open>returns\<close> the exception of the last one as a value; it raises nothing, whatever the exceptions were.
\<close>

theorem try_send_exhausted:
  assumes "0 < num_attempts"
    and "\<And>j. j < num_attempts \<Longrightarrow> \<exists>e. fst (call (after_calls call j s)) = Inl e"
  shows "\<exists>e sleeps. try_send_with_retries call draw num_attempts delay factor md jitter s =
      (GotExn e, sleeps, after_calls call num_attempts s) \<and>
    fst (call (after_calls call (num_attempts - 1) s)) = Inl e"
  using async_retry.run_exhausted [where n = num_attempts and call = call and s = s and
      draw = draw and delay = delay and factor = factor and md = md and jitter = jitter] assms
  by (force simp: run_async_def split: prod.splits)

theorem try_send_exhausted_witness:
  "\<exists>e sleeps. try_send_with_retries flaky (\<lambda>_ _. 0) 2 3 2 10 True 0 = (GotExn e, sleeps, 2) \<and>
    e = RpcError ''UNAVAILABLE''"
proof -
  have "\<exists>e sleeps. try_send_with_retries flaky (\<lambda>_ _. 0) 2 3 2 10 True 0 =
      (GotExn e, sleeps, after_calls flaky 2 0) \<and> fst (flaky (after_calls flaky (2 - 1) 0)) = Inl e"
    by (rule try_send_exhausted) (auto simp: flaky_def numeral_2_eq_2 less_Suc_eq)
  then show ?thesis by (auto simp: flaky_def numeral_2_eq_2)
qed

text \<open>
  C40. The sleeps of \<open>try_send_with_retries\<close>, for a \<open>backoff_factor\<close> of at least 1, a \<open>delay_seconds\<close> and a
  \<open>max_delay\<close> that are not negative, and a jitter between 0 and the base of the sleep, as \<open>random.uniform\<close>
  draws it (or none): at most \<open>num_attempts - 1\<close> of them, the \<open>i\<close>-th (from 0) between \<open>b\<close> and \<open>2 * b\<close>
  where \<open>b\<close> is \<open>delay_seconds\<close> for \<open>i = 0\<close> and \<open>min (delay_seconds * backoff_factor ^ i) max_delay\<close> after
  that; so no sleep but the first can exceed twice \<open>max_delay\<close>.
\<close>

theorem try_send_backoff_bounds:
  assumes "try_send_with_retries call draw num_attempts delay factor md jitter s = (r, sleeps, s')"
    and "1 \<le> factor" and "0 \<le> md" and "0 \<le> delay"
    and "\<And>a d. 0 \<le> d \<Longrightarrow> 0 \<le> draw a d \<and> draw a d \<le> d"
  shows "length sleeps \<le> num_attempts - 1 \<and>
    (\<forall>i < length sleeps. backoff_base factor md delay i \<le> sleeps ! i \<and>
       sleeps ! i \<le> 2 * backoff_base factor md delay i \<and> (0 < i \<longrightarrow> sleeps ! i \<le> 2 * md))"
proof -
  have "0 \<le> factor" using assms(2) by simp
  note b = backoff_base_nonneg [OF this assms(3,4)]
  note sl = try_send_sleeps [OF assms(1-4)]
  have cap: "backoff_base factor md delay i \<le> md" if "0 < i" for i
    using that by (simp add: backoff_base_def)
  have bnd: "backoff_base factor md delay i \<le> sleeps ! i"
    "sleeps ! i \<le> 2 * backoff_base factor md delay i" if "i < length sleeps" for i
    using sl(2) [OF that] b assms(5) [of "backoff_base factor md delay i" "Suc i"] by auto
  have "sleeps ! i \<le> 2 * md" if "i < length sleeps" "0 < i" for i
    using bnd(2) [OF that(1)] cap [OF that(2)] by linarith
  with sl(1) bnd show ?thesis by blast
qed

lemma three_attempts: "[1..<Suc 3] = [1, 2, 3]"
  by code_simp

theorem try_send_backoff_bounds_witness:
  "\<exists>r sleeps s'. try_send_with_retries flaky (\<lambda>_ d. d / 2) 3 3 2 10 True 0 = (r, sleeps, s') \<and>
    sleeps = [9 / 2, 9] \<and> sleeps ! 0 \<le> 2 * backoff_base 2 10 3 0 \<and> sleeps ! 1 \<le> 2 * 10"
proof -
  have run: "try_send_with_retries flaky (\<lambda>_ d. d / 2) 3 3 2 10 True 0 = (Got ''pong'', [9 / 2, 9], 3)"
    unfolding try_send_with_retries_def three_attempts by (simp add: flaky_def)
  then show ?thesis using try_send_backoff_bounds [OF run] by auto
qed

end
