(* ===== verification/HeadController.thy ===== *)
theory HeadController
  imports HealthManager Helpers
begin

text \<open>
  \<open>src/components/headNode/head_controller.py\<close> without the publisher: the start of the controller, the
  RPC handlers, the loop that starts replica creations, the creation itself and the creation of the
  worker VMs.

  \<open>create_replica\<close> awaits the RPC between looking the deployment up and using the reply, so it is two
  operations, \<open>create_replica_request\<close> and \<open>create_replica_finish\<close>, and anything may happen between;
  \<open>create_replica\<close> composes them with the retry helper for a run that nothing interleaves with.
  The queue loop has two suspension points as well (\<open>get\<close> and the sleep of 3 seconds).
\<close>

record vm_request =
  vq_scheduler_id :: int
  vq_name :: string
  vq_model_id :: string
  vq_head_controller_address :: string
  vq_head_controller_port :: int

section \<open>Start\<close>

definition create_deployments :: "dep_manager \<Rightarrow> dep_manager" where
  "create_deployments dm =
     add_or_update_deployment 3 ''/v1/chat/phi2'' ''1.0'' 2 1
       (add_or_update_deployment 2 ''/v1/chat/tinyllama'' ''1.0'' 2 1
         (add_or_update_deployment 1 ''/v1/chat/gpt2'' ''1.0'' 2 1 dm))"

definition head_init :: "string \<Rightarrow> int \<Rightarrow> head_state" where
  "head_init host_address node_port =
     \<lparr>hc_head_node_address = host_port host_address (int_text node_port),
      hc_dm = create_deployments (dm_init ni_init []), hc_snapshot = None, hc_subs = [],
      hc_replica_queue = [], hc_in_hand = None, hc_unfinished = 0, hc_spawned = [], hc_pending = [],
      hc_heartbeats = 0\<rparr>"

text \<open>\<open>main\<close>: the controller is made with the address the metadata server gives.\<close>

definition head_main :: "string res \<Rightarrow> (string \<Rightarrow> string res) \<Rightarrow> int \<Rightarrow> head_state res" where
  "head_main token_answer ip_answer node_port =
     (case get_aws_internal_ip token_answer ip_answer of
        Inl e \<Rightarrow> Inl e
      | Inr host_address \<Rightarrow> Inr (head_init host_address node_port))"

section \<open>Handlers\<close>

definition head_send_health_status ::
  "int \<Rightarrow> health_update \<Rightarrow> head_state \<Rightarrow> health_reply res \<times> head_state" where
  "head_send_health_status now rq hc = hm_send_health_status now rq hc"

text \<open>\<open>load_metrics\<close> has no path that raises, so the reply always acknowledges.\<close>

definition record_metrics :: "metrics_request \<Rightarrow> head_state \<Rightarrow> bool \<times> head_state" where
  "record_metrics rq hc =
     (True, hc\<lparr>hc_dm := (hc_dm hc)\<lparr>dm_scale := load_metrics rq (dm_scale (hc_dm hc))\<rparr>\<rparr>)"

definition queue_put :: "queue_item \<Rightarrow> head_state \<Rightarrow> head_state" where
  "queue_put item hc = hc\<lparr>hc_replica_queue := hc_replica_queue hc @ [item],
     hc_unfinished := Suc (hc_unfinished hc)\<rparr>"

definition register_node :: "register_request \<Rightarrow> head_state \<Rightarrow> bool \<times> head_state" where
  "register_node rq hc =
     (let hc1 = hc\<lparr>hc_dm := (hc_dm hc)\<lparr>dm_nodes := add_node rq (dm_nodes (hc_dm hc))\<rparr>\<rparr>;
          worker_address = host_port (rq_node_address rq) (rq_port rq)
      in (True, queue_put (QPair worker_address 2) hc1))"

section \<open>The creation loop\<close>

text \<open>\<open>replica_info = await self.replica_queue.get()\<close>\<close>

definition creation_get :: "head_state \<Rightarrow> head_state" where
  "creation_get hc =
     (case (hc_in_hand hc, hc_replica_queue hc) of
        (None, item # rest) \<Rightarrow> hc\<lparr>hc_in_hand := Some item, hc_replica_queue := rest\<rparr>
      | _ \<Rightarrow> hc)"

text \<open>
  The rest of the turn, after the sleep.  \<open>task_done\<close> raises \<open>ValueError\<close> when nothing is unfinished;
  the loop catches it and goes on.
\<close>

definition creation_spawn :: "head_state \<Rightarrow> head_state" where
  "creation_spawn hc =
     (case hc_in_hand hc of
        None \<Rightarrow> hc
      | Some QOther \<Rightarrow> hc\<lparr>hc_in_hand := None\<rparr>
      | Some (QPair address deployment_id) \<Rightarrow>
          hc\<lparr>hc_in_hand := None, hc_spawned := hc_spawned hc @ [(address, deployment_id)],
             hc_unfinished := hc_unfinished hc - 1\<rparr>)"

section \<open>Creating a replica\<close>

definition create_replica_request :: "int \<Rightarrow> int \<Rightarrow> int \<Rightarrow> head_state \<Rightarrow> creation_request option" where
  "create_replica_request deployment_id num_cpus num_gpus hc =
     map_option (\<lambda>dep. \<lparr>cq_base_node_address = hc_head_node_address hc, cq_deployment_id = deployment_id,
         cq_num_cpus = num_cpus, cq_num_gpus = num_gpus, cq_deployment_name = dh_name dep\<rparr>)
       (get_deployment deployment_id (hc_dm hc))"

definition put_pending :: "int \<Rightarrow> head_state \<Rightarrow> head_state" where
  "put_pending deployment_id hc = hc\<lparr>hc_pending := hc_pending hc @ [deployment_id]\<rparr>"

text \<open>
  When the retries are exhausted \<open>response\<close> is the exception object itself (or \<open>None\<close>), reading its
  \<open>created\<close> raises \<open>AttributeError\<close>, and that is what leads to the \<open>except\<close> branch.
\<close>

definition create_replica_finish ::
  "int \<Rightarrow> int \<Rightarrow> int \<Rightarrow> int \<Rightarrow> creation_reply sent \<Rightarrow> head_state \<Rightarrow> creation_reply option \<times> head_state" where
  "create_replica_finish now deployment_id num_cpus num_gpus answer hc =
     (case answer of
        GotExn e \<Rightarrow> (None, put_pending deployment_id hc)
      | GotNone \<Rightarrow> (None, put_pending deployment_id hc)
      | Got response \<Rightarrow>
          if cr_created response then
            (case add_replica_to_deployment deployment_id (int_text (cr_worker_id response))
                (cr_replicas response) num_cpus num_gpus (cr_worker_address response) (hc_dm hc) of
               (Inl e, dm) \<Rightarrow> (None, put_pending deployment_id (hc\<lparr>hc_dm := dm\<rparr>))
             | (Inr b, dm) \<Rightarrow> (Some response, on_deployment_change now (hc\<lparr>hc_dm := dm\<rparr>)))
          else (Some response, hc))"

definition create_replica ::
  "(creation_request \<Rightarrow> 's \<Rightarrow> creation_reply res \<times> 's) \<Rightarrow> (nat \<Rightarrow> real \<Rightarrow> real) \<Rightarrow> int \<Rightarrow> int \<Rightarrow> int \<Rightarrow> int \<Rightarrow>
   head_state \<Rightarrow> 's \<Rightarrow> creation_reply option \<times> head_state \<times> 's" where
  "create_replica stub draw now deployment_id num_cpus num_gpus hc s =
     (case create_replica_request deployment_id num_cpus num_gpus hc of
        None \<Rightarrow> (None, hc, s)
      | Some request \<Rightarrow>
          (case try_send_default (stub request) draw 3 2 s of
             (answer, sleeps, s') \<Rightarrow>
               (case create_replica_finish now deployment_id num_cpus num_gpus answer hc of
                  (r, hc') \<Rightarrow> (r, hc', s'))))"

section \<open>Creating the VMs\<close>

text \<open>\<open>create_vm\<close> runs in a thread; what it raises is printed and the loop goes on.\<close>

fun create_vm_loop ::
  "(vm_request \<Rightarrow> 's \<Rightarrow> 'b res \<times> 's) \<Rightarrow> string \<Rightarrow> int \<Rightarrow> nat list \<Rightarrow> 's \<Rightarrow> vm_request list \<times> 's" where
  "create_vm_loop create_vm host_address node_port [] s = ([], s)"
| "create_vm_loop create_vm host_address node_port (i # rest) s =
     (let request = \<lparr>vq_scheduler_id = int (i + 1), vq_name = ''scheduler-'' @ int_text (int (i + 1)),
            vq_model_id = ''small'', vq_head_controller_address = host_address,
            vq_head_controller_port = node_port\<rparr>;
          s' = snd (create_vm request s);
          (requests, s'') = create_vm_loop create_vm host_address node_port rest s'
      in (request # requests, s''))"

definition create_vm_in_thread ::
  "(vm_request \<Rightarrow> 's \<Rightarrow> 'b res \<times> 's) \<Rightarrow> string \<Rightarrow> int \<Rightarrow> 's \<Rightarrow> vm_request list \<times> 's" where
  "create_vm_in_thread create_vm host_address node_port s =
     create_vm_loop create_vm host_address node_port [0..<4] s"

section \<open>The table that has been published\<close>

definition table_of :: "dep_manager \<Rightarrow> (int, deployment_msg) dict" where
  "table_of dm = ru_deployments (get_current_routing_table 0 dm)"

lemma table_now [simp]: "ru_deployments (get_current_routing_table now dm) = table_of dm"
  by (simp add: table_of_def get_current_routing_table_def)

lemma table_frame [simp]:
  "table_of (dm\<lparr>dm_nodes := nodes\<rparr>) = table_of dm"
  "table_of (dm\<lparr>dm_scale := book\<rparr>) = table_of dm"
  by (simp_all add: table_of_def get_current_routing_table_def)

definition published :: "head_state \<Rightarrow> bool" where
  "published hc \<longleftrightarrow> (case hc_snapshot hc of None \<Rightarrow> True | Some u \<Rightarrow> ru_deployments u = table_of (hc_dm hc))"

text \<open>The creation tasks of a state: started, taken out of the queue, waiting, in that order.\<close>

definition pipeline :: "head_state \<Rightarrow> queue_item list" where
  "pipeline hc = map (\<lambda>(a, d). QPair a d) (hc_spawned hc) @
     (case hc_in_hand hc of None \<Rightarrow> [] | Some item \<Rightarrow> [item]) @ hc_replica_queue hc"

definition queue_counted :: "head_state \<Rightarrow> bool" where
  "queue_counted hc \<longleftrightarrow> hc_unfinished hc =
     length (hc_replica_queue hc) + (case hc_in_hand hc of None \<Rightarrow> 0 | Some item \<Rightarrow> 1)"

text \<open>Nothing was ever charged to a worker or booked for a replica.\<close>

definition free_book :: "auto_scale \<Rightarrow> bool" where
  "free_book book \<longleftrightarrow> (\<forall>(k, sr) \<in> set book. sr_num_cpus sr = 0 \<and> sr_num_gpus sr = 0)"

definition uncharged :: "dep_manager \<Rightarrow> bool" where
  "uncharged dm \<longleftrightarrow> (\<forall>n. used_on (dm_nodes dm) n \<in> {None, Some (0, 0)}) \<and> free_book (dm_scale dm)"

lemma uncharged_used: "uncharged dm \<Longrightarrow> used_on (dm_nodes dm) n = Some p \<Longrightarrow> p = (0, 0)"
  unfolding uncharged_def by (metis insertE option.distinct(1) option.inject singletonD)

lemma uncharged_ledger:
  assumes "uncharged dm"
  shows "ledger_ok dm"
proof -
  have "booked_cpus w (dm_scale dm) = 0" "booked_gpus w (dm_scale dm) = 0" for w
    using assms unfolding booked_cpus_def booked_gpus_def
    by (auto intro!: dsum_zero simp: uncharged_def free_book_def)
  moreover have "used_on (dm_nodes dm) n = Some (c, g) \<Longrightarrow> c = 0 \<and> g = 0" for n c g
    using uncharged_used [OF assms, of n "(c, g)"] by simp
  ultimately show ?thesis by (simp add: ledger_ok_def)
qed

lemma free_book_ops:
  assumes "free_book book"
  shows "free_book (as_add_replica w r 0 0 book)" and "free_book (ddel k book)"
    and "free_book (load_metrics rq book)"
    and "dget book k = Some sr \<Longrightarrow> sr_num_cpus sr = 0 \<and> sr_num_gpus sr = 0"
proof -
  show "free_book (as_add_replica w r 0 0 book)" "free_book (ddel k book)"
    using assms by (fastforce simp: free_book_def as_add_replica_def dest!: mem_dset mem_ddel)+
  show get: "sr_num_cpus sr = 0 \<and> sr_num_gpus sr = 0" if "dget book k = Some sr" for k sr
    using assms dget_mem [OF that] by (auto simp: free_book_def)
  then show "free_book (load_metrics rq book)"
    using assms by (fastforce simp: free_book_def load_metrics_def Let_def split: option.splits dest!: mem_dset)
qed

lemma uncharged_charge:
  assumes "uncharged dm"
  shows "uncharged (snd (charge_worker w 0 0 add dm))"
proof (cases "int_of_text w")
  case (Inr n)
  have "used_on (snd (update_resources n 0 0 add (dm_nodes dm))) k \<in> {None, Some (0, 0)}" for k
    using uncharged_used [OF assms, of n] uncharged_used [OF assms, of k]
    by (cases "used_on (dm_nodes dm) n"; cases "used_on (dm_nodes dm) k") (auto simp: used_on_update)
  then show ?thesis
    using assms Inr by (simp add: charge_worker_def uncharged_def split: prod.splits) (metis snd_conv)
qed (use assms in \<open>simp add: charge_worker_def\<close>)

lemma uncharged_add:
  assumes "uncharged dm"
  shows "uncharged (snd (add_replica_to_deployment d w rcs 0 0 addr dm))"
proof -
  have "uncharged (add_replica_loop d w 0 0 addr rcs dm)" for rcs
    using assms
  proof (induction rcs arbitrary: dm)
    case (Cons rc rcs)
    have "uncharged (attach_replica d w 0 0 addr rc dm)"
      using Cons.prems free_book_ops(1) by (simp add: uncharged_def attach_replica_def Let_def)
    then show ?case by (simp add: Cons.IH)
  qed simp
  from uncharged_charge [OF this] assms show ?thesis
    by (simp add: add_replica_to_deployment_def split: option.splits sum.splits prod.splits)
      (metis snd_conv)
qed

lemma uncharged_remove:
  assumes "uncharged dm"
  shows "uncharged (snd (remove_replica_from_deployment d r w dm))"
proof -
  have skip: "uncharged (dm\<lparr>dm_replica_map := m, dm_deployments := deps\<rparr>)" for m deps
    using assms by (simp add: uncharged_def)
  have skip': "uncharged (dm\<lparr>dm_replica_map := m\<rparr>)" for m
    using assms by (simp add: uncharged_def)
  show ?thesis
  proof (cases "dget (dm_scale dm) (replica_key w r)")
    case None
    with skip skip' show ?thesis
      by (auto simp: remove_replica_from_deployment_def Let_def as_remove_replica_def split: option.splits)
  next
    case (Some sr)
    have z: "sr_num_cpus sr = 0" "sr_num_gpus sr = 0"
      using free_book_ops(4) [OF _ Some] assms by (simp_all add: uncharged_def)
    have c: "uncharged (snd (charge_worker w 0 0 False
        (dm\<lparr>dm_replica_map := m, dm_deployments := deps, dm_scale := ddel (replica_key w r) (dm_scale dm)\<rparr>)))"
      for m deps
      using assms free_book_ops(2) by (intro uncharged_charge) (simp add: uncharged_def)
    show ?thesis
      using skip' Some z c
      by (auto simp: remove_replica_from_deployment_def Let_def as_remove_replica_def
          split: option.splits sum.splits prod.splits) (metis snd_conv)+
  qed
qed

lemma uncharged_remove_dead: "uncharged dm \<Longrightarrow> uncharged (snd (remove_dead w rss ch dm))"
proof (induction rss arbitrary: ch dm)
  case (Cons rs rest)
  then show ?case
    using uncharged_remove [OF Cons.prems, of "rst_deployment_id rs" "int_text (rst_replica_id rs)" "int_text w"]
    by (auto split: sum.splits prod.splits)
qed simp
end
