(* ===== verification/HeadProps.thy ===== *)
theory HeadProps
  imports HeadController
begin

text \<open>
  The head controller as a machine: its handlers, its creation loop and its publisher in any order,
  what every reachable state satisfies, and what a reply, a failed creation and the VM loop do.

  A creation reply is one the schedulers of this program send: it carries one replica, of a worker
  that is registered, under an identifier not in use (\<open>answer_ok\<close>); a health report names the
  deployment of each dead replica that the head knows (\<open>placed\<close>).
\<close>

definition answer_ok :: "creation_reply sent \<Rightarrow> dep_manager \<Rightarrow> bool" where
  "answer_ok answer dm = (case answer of
     Got r \<Rightarrow> cr_created r \<longrightarrow> (\<exists>rc. cr_replicas r = [rc] \<and> used_on (dm_nodes dm) (cr_worker_id r) \<noteq> None \<and>
       dget (dm_replica_map dm) (replica_key (int_text (cr_worker_id r)) (int_text (rc_replica_id rc))) = None)
   | _ \<Rightarrow> True)"

inductive head_step :: "head_state \<Rightarrow> head_state \<Rightarrow> bool" where
  register: "head_step hc (snd (register_node rq hc))"
| get_item: "head_step hc (creation_get hc)"
| spawn: "head_step hc (creation_spawn hc)"
| created: "(address, d) \<in> set (hc_spawned hc) \<Longrightarrow> create_replica_request d 0 0 hc \<noteq> None \<Longrightarrow>
    answer_ok answer (hc_dm hc) \<Longrightarrow> head_step hc (snd (create_replica_finish now d 0 0 answer hc))"
| health: "used_on (dm_nodes (hc_dm hc)) (hu_worker_id rq) \<noteq> None \<Longrightarrow>
    placed (hu_worker_id rq) (hu_replica_states rq) (hc_dm hc) \<Longrightarrow>
    head_step hc (snd (head_send_health_status now rq hc))"
| metrics: "head_step hc (snd (record_metrics mq hc))"
| subscribed: "dget (hc_subs hc) i = None \<Longrightarrow> head_step hc (subscribe i now hc)"
| resumed: "head_step hc (resume i hc)"
| disconnected: "head_step hc (disconnect i hc)"

definition head_start :: "head_state \<Rightarrow> bool" where
  "head_start hc \<longleftrightarrow> (\<exists>host node_port. hc = head_init host node_port)"

definition first_routes :: route_table where
  "first_routes = routes (create_deployments (dm_init ni_init []))"

text \<open>
  The deployments stay the three that were created, under their names, and every replica object has an
  identifier of the form \<open>w#r\<close> and an address.
\<close>

definition dep_names :: "dep_manager \<Rightarrow> (int \<times> string) list" where
  "dep_names dm = map (\<lambda>(d, dep). (d, dh_name dep)) (dm_deployments dm)"

definition first_names :: "(int \<times> string) list" where
  "first_names = [(1, ''/v1/chat/gpt2''), (2, ''/v1/chat/tinyllama''), (3, ''/v1/chat/phi2'')]"

definition static_ok :: "dep_manager \<Rightarrow> bool" where
  "static_ok dm \<longleftrightarrow> dep_names dm = first_names \<and>
     (\<forall>r \<in> set (dm_objs dm). CHR ''#'' \<in> set (ri_replica_num r) \<and> ri_address r \<noteq> [])"

definition head_ok :: "head_state \<Rightarrow> bool" where
  "head_ok hc \<longleftrightarrow> dm_shape (hc_dm hc) \<and> uncharged (hc_dm hc) \<and> static_ok (hc_dm hc) \<and> subs_ok hc \<and> published hc \<and>
     queue_counted hc \<and> (\<forall>item \<in> set (pipeline hc). \<exists>a. item = QPair a 2) \<and>
     (\<forall>d. d \<noteq> 2 \<longrightarrow> routes (hc_dm hc) d = first_routes d)"

lemma first_routes_eq:
  "first_routes 1 = Some (''/v1/chat/gpt2'', ''1.0'', [])"
  "first_routes 2 = Some (''/v1/chat/tinyllama'', ''1.0'', [])"
  "first_routes 3 = Some (''/v1/chat/phi2'', ''1.0'', [])"
  by (simp_all add: first_routes_def create_deployments_def routes_update spec_update_def)
    (simp_all add: routes_def dm_init_def)

section \<open>Frames\<close>

text \<open>What each operation leaves alone, in the parts that \<open>head_ok\<close> looks at.\<close>

lemmas head_parts = published_def pipeline_def queue_counted_def subs_ok_def

lemma publish_frame [simp]:
  "hc_dm (on_deployment_change now hc) = hc_dm hc"
  "pipeline (on_deployment_change now hc) = pipeline hc"
  "queue_counted (on_deployment_change now hc) = queue_counted hc"
  "published (on_deployment_change now hc)"
  "hc_pending (on_deployment_change now hc) = hc_pending hc"
  by (simp_all add: on_deployment_change_def pipeline_def queue_counted_def published_def)

lemma dm_update_frame [simp]:
  "pipeline (hc\<lparr>hc_dm := dm\<rparr>) = pipeline hc"
  "queue_counted (hc\<lparr>hc_dm := dm\<rparr>) = queue_counted hc"
  by (simp_all add: pipeline_def queue_counted_def)

lemma put_pending_frame [simp]:
  "hc_dm (put_pending d hc) = hc_dm hc" "pipeline (put_pending d hc) = pipeline hc"
  "queue_counted (put_pending d hc) = queue_counted hc" "published (put_pending d hc) = published hc"
  "subs_ok (put_pending d hc) = subs_ok hc"
  by (simp_all add: put_pending_def head_parts split: option.splits)

lemma subscriber_frame [simp]:
  "hc_dm (subscribe i now hc) = hc_dm hc" "pipeline (subscribe i now hc) = pipeline hc"
  "queue_counted (subscribe i now hc) = queue_counted hc" "published (subscribe i now hc)"
  "hc_pending (subscribe i now hc) = hc_pending hc"
  "hc_dm (resume i hc) = hc_dm hc" "pipeline (resume i hc) = pipeline hc"
  "queue_counted (resume i hc) = queue_counted hc" "published (resume i hc) = published hc"
  "hc_pending (resume i hc) = hc_pending hc"
  "hc_dm (disconnect i hc) = hc_dm hc" "pipeline (disconnect i hc) = pipeline hc"
  "queue_counted (disconnect i hc) = queue_counted hc" "published (disconnect i hc) = published hc"
  "hc_pending (disconnect i hc) = hc_pending hc"
  by (auto simp add: subscribe_def resume_def disconnect_def head_parts Let_def split: option.splits)

lemma loop_frame [simp]:
  "hc_dm (creation_get hc) = hc_dm hc" "pipeline (creation_get hc) = pipeline hc"
  "published (creation_get hc) = published hc" "subs_ok (creation_get hc) = subs_ok hc"
  "hc_pending (creation_get hc) = hc_pending hc"
  "hc_dm (creation_spawn hc) = hc_dm hc"
  "published (creation_spawn hc) = published hc" "subs_ok (creation_spawn hc) = subs_ok hc"
  "hc_pending (creation_spawn hc) = hc_pending hc"
  by (simp_all add: creation_get_def creation_spawn_def head_parts split: option.splits list.splits queue_item.splits)

lemma pipeline_spawn: "hc_in_hand hc \<noteq> Some QOther \<Longrightarrow> pipeline (creation_spawn hc) = pipeline hc"
  by (auto simp: creation_spawn_def pipeline_def split: option.splits queue_item.splits)

lemma counted_get: "queue_counted hc \<Longrightarrow> queue_counted (creation_get hc)"
  by (auto simp: creation_get_def queue_counted_def split: option.splits list.splits)

lemma counted_spawn:
  "hc_in_hand hc \<noteq> Some QOther \<Longrightarrow> queue_counted hc \<Longrightarrow> queue_counted (creation_spawn hc)"
  by (auto simp: creation_spawn_def queue_counted_def split: option.splits queue_item.splits)

lemma register_frame [simp]:
  "hc_dm (snd (register_node rq hc)) = (hc_dm hc)\<lparr>dm_nodes := add_node rq (dm_nodes (hc_dm hc))\<rparr>"
  "pipeline (snd (register_node rq hc)) = pipeline hc @ [QPair (host_port (rq_node_address rq) (rq_port rq)) 2]"
  "queue_counted (snd (register_node rq hc)) = queue_counted hc"
  "published (snd (register_node rq hc)) = published hc"
  "subs_ok (snd (register_node rq hc)) = subs_ok hc"
  "hc_pending (snd (register_node rq hc)) = hc_pending hc"
  by (simp_all add: register_node_def queue_put_def head_parts Let_def split: option.splits)

lemma uncharged_register:
  assumes "uncharged dm"
  shows "uncharged (dm\<lparr>dm_nodes := add_node rq (dm_nodes dm)\<rparr>)"
  using assms by (simp add: uncharged_def used_on_add_node)

lemma static_frame [simp]:
  "static_ok (dm\<lparr>dm_nodes := nodes\<rparr>) = static_ok dm" "static_ok (dm\<lparr>dm_scale := book\<rparr>) = static_ok dm"
  "static_ok (snd (charge_worker w c g add dm)) = static_ok dm"
  by (simp_all add: static_ok_def dep_names_def)

lemma names_dset:
  "dget deps k = Some v0 \<Longrightarrow> dh_name v = dh_name v0 \<Longrightarrow>
   map (\<lambda>(d, dep). (d, dh_name dep)) (dset k v deps) = map (\<lambda>(d, dep). (d, dh_name dep)) deps"
  by (induction deps) (auto simp: dget_Cons dset_Cons)

lemma snd_charge:
  "snd (case charge_worker w c g add dm of (Inl e, dm') \<Rightarrow> (Inl e, dm') | (Inr u, dm') \<Rightarrow> (Inr True, dm')) =
   snd (charge_worker w c g add dm)"
  by (simp split: prod.split sum.split)

lemma static_add:
  assumes "static_ok dm"
  shows "static_ok (snd (add_replica_to_deployment d w rcs c g addr dm))"
proof -
  have "static_ok (add_replica_loop d w c g addr rcs dm)"
    using assms
  proof (induction rcs arbitrary: dm)
    case (Cons rc rcs)
    have "dep_names (attach_replica d w c g addr rc dm) = dep_names dm"
      by (cases "dget (dm_deployments dm) d")
        (simp_all add: dep_names_def attach_replica_def append_replica_def Let_def names_dset)
    then have "static_ok (attach_replica d w c g addr rc dm)"
      using Cons.prems by (auto simp: static_ok_def attach_replica_def Let_def replica_key_def host_port_def)
    then show ?case by (simp add: Cons.IH)
  qed simp
  then have "static_ok (snd (charge_worker w c g True (add_replica_loop d w c g addr rcs dm)))" by simp
  then show ?thesis
    using assms by (cases "dget (dm_deployments dm) d") (simp_all add: add_replica_to_deployment_def snd_charge)
qed

lemma static_remove:
  assumes "static_ok dm"
  shows "static_ok (snd (remove_replica_from_deployment d r w dm))"
proof -
  let ?m = "ddel (replica_key w r) (dm_replica_map dm)"
  have map: "static_ok (dm\<lparr>dm_replica_map := ?m\<rparr>)"
    using assms by (simp add: static_ok_def dep_names_def)
  show ?thesis
  proof (cases "dget (dm_replica_map dm) (replica_key w r)")
    case None
    then show ?thesis using map by (simp add: remove_replica_from_deployment_def Let_def)
  next
    case (Some a)
    show ?thesis
    proof (cases "dget (dm_deployments dm) d")
      case None
      with Some show ?thesis using map by (simp add: remove_replica_from_deployment_def Let_def)
    next
      case (Some dep)
      then have dep: "static_ok (dm\<lparr>dm_replica_map := ?m,
          dm_deployments := dset d (dep\<lparr>dh_replicas := rs\<rparr>) (dm_deployments dm)\<rparr>)" for rs
        using assms by (simp add: static_ok_def dep_names_def names_dset)
      show ?thesis
        using \<open>dget (dm_replica_map dm) _ = Some a\<close> Some map dep
        by (cases "dget (dm_scale dm) (replica_key w r)")
          (simp_all add: remove_replica_from_deployment_def Let_def as_remove_replica_def snd_charge)
    qed
  qed
qed

lemma static_remove_dead: "static_ok dm \<Longrightarrow> static_ok (snd (remove_dead w rss ch dm))"
proof (induction rss arbitrary: ch dm)
  case (Cons rs rest)
  then show ?case
    using static_remove [OF Cons.prems, of "rst_deployment_id rs" "int_text (rst_replica_id rs)" "int_text w"]
    by (auto split: sum.splits prod.splits)
qed simp

section \<open>A creation reply\<close>

lemma finish_created:
  assumes "dm_shape (hc_dm hc)" and "ledger_ok (hc_dm hc)" and "create_replica_request d c g hc \<noteq> None"
    and "answer_ok (Got r) (hc_dm hc)" and "cr_created r"
  shows "\<exists>rc dm'. cr_replicas r = [rc] \<and>
    create_replica_finish now d c g (Got r) hc = (Some r, on_deployment_change now (hc\<lparr>hc_dm := dm'\<rparr>)) \<and>
    dm_shape dm' \<and> ledger_ok dm' \<and> routes dm' = spec_add d
      \<lparr>ri_replica_num = replica_key (int_text (cr_worker_id r)) (int_text (rc_replica_id rc)),
       ri_address = host_port (cr_worker_address r) (rc_port rc), ri_state = ''RUNNING''\<rparr> (routes (hc_dm hc)) \<and>
    snd (add_replica_to_deployment d (int_text (cr_worker_id r)) (cr_replicas r) c g (cr_worker_address r)
      (hc_dm hc)) = dm'"
proof -
  obtain rc where rc: "cr_replicas r = [rc]" "used_on (dm_nodes (hc_dm hc)) (cr_worker_id r) \<noteq> None"
    "dget (dm_replica_map (hc_dm hc))
      (replica_key (int_text (cr_worker_id r)) (int_text (rc_replica_id rc))) = None"
    using assms(4,5) by (auto simp: answer_ok_def)
  have "routes (hc_dm hc) d \<noteq> None"
    using assms(3) by (auto simp: create_replica_request_def get_deployment_def routes_def)
  from add_one_replica [OF assms(1,2) this rc(2,3), of c g "cr_worker_address r"] rc(1) assms(5)
  show ?thesis by (auto simp: create_replica_finish_def)
qed

lemma spec_add_other: "d' \<noteq> d \<Longrightarrow> spec_add d info m d' = m d'"
  by (simp add: spec_add_def)

lemma spec_remove_empty: "m d' = Some (n, v, []) \<Longrightarrow> spec_remove d rid m d' = m d'"
  by (auto simp: spec_remove_def)

text \<open>Deployments without replicas are untouched by any removal.\<close>

lemma spec_remove_all_empty:
  "m d' \<in> {None, Some (n, v, [])} \<Longrightarrow> spec_remove_all w rss m d' = m d'"
proof (induction rss arbitrary: m)
  case (Cons rs rss)
  have "spec_remove (rst_deployment_id rs) (state_key w rs) m d' = m d'"
    using Cons.prems by (auto simp: spec_remove_def)
  with Cons.IH [of "spec_remove (rst_deployment_id rs) (state_key w rs) m"] Cons.prems
  show ?case by (simp add: spec_remove_all_def)
qed (simp add: spec_remove_all_def)

lemma first_routes_empty: "d \<noteq> 2 \<Longrightarrow> \<exists>n v. first_routes d \<in> {None, Some (n, v, [])}"
  by (simp add: first_routes_def create_deployments_def routes_update spec_update_def)
    (simp add: routes_def dm_init_def)

section \<open>The invariant\<close>

lemma head_ok_init: "head_ok (head_init host node_port)"
proof -
  have "dm_shape (create_deployments (dm_init ni_init []))"
    unfolding create_deployments_def by (intro dm_shape_update dm_shape_init)
  moreover have "uncharged (create_deployments (dm_init ni_init []))"
    by (simp add: uncharged_def create_deployments_def add_or_update_deployment_def dm_init_def
        free_book_def split: option.splits)
  moreover have "static_ok (create_deployments (dm_init ni_init []))"
    by (simp add: static_ok_def dep_names_def first_names_def create_deployments_def
        add_or_update_deployment_def dm_init_def dict_eval)
  ultimately show ?thesis
    by (simp add: head_ok_def head_init_def head_parts first_routes_def)
qed

lemma head_ok_created:
  assumes ok: "head_ok hc" and sp: "(address, d) \<in> set (hc_spawned hc)"
    and rq: "create_replica_request d 0 0 hc \<noteq> None" and ans: "answer_ok answer (hc_dm hc)"
  shows "head_ok (snd (create_replica_finish now d 0 0 answer hc))"
proof -
  have "QPair address d \<in> set (pipeline hc)" using sp by (force simp: pipeline_def)
  with ok have d: "d = 2" by (auto simp: head_ok_def)
  have l: "ledger_ok (hc_dm hc)" using ok uncharged_ledger by (auto simp: head_ok_def)
  show ?thesis
  proof (cases "\<exists>r. answer = Got r \<and> cr_created r")
    case True
    then obtain r where r: "answer = Got r" "cr_created r" by blast
    have s: "dm_shape (hc_dm hc)" using ok by (simp add: head_ok_def)
    have a: "answer_ok (Got r) (hc_dm hc)" using ans r by simp
    obtain dm' where f: "create_replica_finish now d 0 0 answer hc =
        (Some r, on_deployment_change now (hc\<lparr>hc_dm := dm'\<rparr>))" "dm_shape dm'"
      and rt: "\<exists>info. routes dm' = spec_add d info (routes (hc_dm hc))"
      and dm': "snd (add_replica_to_deployment d (int_text (cr_worker_id r)) (cr_replicas r) 0 0
        (cr_worker_address r) (hc_dm hc)) = dm'"
      using finish_created [OF s l rq a r(2), of now] unfolding r(1) by blast
    have "uncharged dm'" using uncharged_add ok unfolding dm' [symmetric] head_ok_def by blast
    moreover have "static_ok dm'" using static_add ok unfolding dm' [symmetric] head_ok_def by blast
    moreover have "subs_ok (on_deployment_change now (hc\<lparr>hc_dm := dm'\<rparr>))"
      using ok by (intro subs_ok_publish) (simp add: head_ok_def)
    ultimately show ?thesis
      using f rt ok d spec_add_other [of _ d] by (auto simp: head_ok_def)
  next
    case False
    then show ?thesis
      using ok by (cases answer) (auto simp: create_replica_finish_def head_ok_def)
  qed
qed

lemma head_ok_health:
  assumes ok: "head_ok hc" and used: "used_on (dm_nodes (hc_dm hc)) (hu_worker_id rq) \<noteq> None"
    and pl: "placed (hu_worker_id rq) (hu_replica_states rq) (hc_dm hc)"
  shows "head_ok (snd (head_send_health_status now rq hc))"
proof -
  have l: "ledger_ok (hc_dm hc)" and s: "dm_shape (hc_dm hc)"
    using ok uncharged_ledger by (auto simp: head_ok_def)
  obtain dm' where dm': "remove_dead (hu_worker_id rq) (hu_replica_states rq) False (hc_dm hc) =
      (Inr (dead_ones rq \<noteq> []), dm')" "dm_shape dm'" "dead_ones rq = [] \<longrightarrow> dm' = hc_dm hc"
    "routes dm' = spec_remove_all (hu_worker_id rq) (dead_ones rq) (routes (hc_dm hc))"
    using remove_dead_effect [OF s l used pl, of False] by (auto simp: dead_ones_def)
  have u: "uncharged dm'"
    using uncharged_remove_dead [of "hc_dm hc" "hu_worker_id rq" "hu_replica_states rq" False] ok dm'(1)
    by (simp add: head_ok_def)
  have st: "static_ok dm'"
    using static_remove_dead [of "hc_dm hc" "hu_worker_id rq" "hu_replica_states rq" False] ok dm'(1)
    by (simp add: head_ok_def)
  have r: "routes dm' d = first_routes d" if "d \<noteq> 2" for d
    using spec_remove_all_empty [of "routes (hc_dm hc)" d] first_routes_empty [OF that] ok that dm'(4)
    by (auto simp: head_ok_def)
  show ?thesis
    using ok dm'(1-3) u st r subs_ok_publish [of "hc\<lparr>hc_dm := dm'\<rparr>" now]
    by (auto simp: head_send_health_status_def hm_send_health_status_def head_ok_def)
qed

interpretation head_machine: safe_machine head_start head_step head_ok
proof unfold_locales
  show "head_ok s" if "head_start s" for s
    using that head_ok_init by (auto simp: head_start_def)
  show "head_ok t" if "head_step s t" "head_ok s" for s t
    using that
  proof (induction rule: head_step.induct)
    case (register hc rq)
    then show ?case using uncharged_register by (auto simp: head_ok_def)
  next
    case (spawn hc)
    have "hc_in_hand hc \<noteq> Some QOther" using spawn by (auto simp: head_ok_def pipeline_def)
    with spawn show ?case by (simp add: head_ok_def pipeline_spawn counted_spawn)
  next
    case (metrics hc mq)
    then show ?case
      using load_metrics_shape [OF _ uncharged_ledger, of "hc_dm hc" mq] free_book_ops(3)
      by (auto simp: head_ok_def record_metrics_def published_def uncharged_def split: option.splits)
  next
    case (created address d hc answer now)
    then show ?case by (intro head_ok_created)
  next
    case (health hc rq now)
    then show ?case by (intro head_ok_health)
  qed (auto simp: head_ok_def counted_get subs_ok_subscribe subs_ok_resume subs_ok_disconnect)
qed

section \<open>Properties\<close>

definition demo_start :: head_state where
  "demo_start = head_init ''10.0.0.100'' 50052"

text \<open>A worker registers, its creation task starts and a proxy subscribes.\<close>

definition demo_serving :: head_state where
  "demo_serving = resume 0 (subscribe 0 5 (creation_spawn (creation_get
     (snd (register_node (demo_node 1) demo_start)))))"

definition demo_reply :: creation_reply where
  "demo_reply = \<lparr>cr_worker_id = 1, cr_replicas = [demo_rc 7], cr_worker_address = ''10.0.0.1'', cr_created = True\<rparr>"

definition demo_routed :: head_state where
  "demo_routed = snd (create_replica_finish 9 2 0 0 (Got demo_reply) demo_serving)"

lemma demo_serving_facts:
  "reach head_start head_step demo_serving"
  "hc_spawned demo_serving = [(host_port (rq_node_address (demo_node 1)) (rq_port (demo_node 1)), 2)]"
  "dm_replica_map (hc_dm demo_serving) = []"
  "used_on (dm_nodes (hc_dm demo_serving)) 1 = Some (0, 0)"
  "create_replica_request 2 0 0 demo_serving \<noteq> None"
  "\<exists>sb. dget (hc_subs demo_serving) 0 = Some sb \<and> sb_phase sb = Waiting \<and> sb_last sb = 5"
  "routes (hc_dm demo_serving) = first_routes"
proof -
  let ?h1 = "snd (register_node (demo_node 1) demo_start)"
  let ?h2 = "creation_get ?h1"
  let ?h3 = "creation_spawn ?h2"
  let ?h4 = "subscribe 0 5 ?h3"
  have subs: "hc_subs ?h3 = []"
    by (simp add: creation_spawn_def creation_get_def register_node_def queue_put_def demo_start_def
        head_init_def Let_def)
  have "reach head_start head_step demo_start"
    by (rule reach_init) (auto simp: head_start_def demo_start_def)
  from reach_step [OF this head_step.register] have "reach head_start head_step ?h1" .
  from reach_step [OF this head_step.get_item] have "reach head_start head_step ?h2" .
  from reach_step [OF this head_step.spawn] have "reach head_start head_step ?h3" .
  from reach_step [OF this head_step.subscribed] have "reach head_start head_step ?h4"
    using subs by simp
  from reach_step [OF this head_step.resumed] show "reach head_start head_step demo_serving"
    unfolding demo_serving_def .
  show "hc_spawned demo_serving = [(host_port (rq_node_address (demo_node 1)) (rq_port (demo_node 1)), 2)]"
  proof -
    have "hc_spawned demo_serving = hc_spawned ?h3"
      by (simp add: demo_serving_def resume_def subscribe_def Let_def)
    also have "\<dots> = [(host_port (rq_node_address (demo_node 1)) (rq_port (demo_node 1)), 2)]"
      by (simp add: creation_spawn_def creation_get_def register_node_def queue_put_def demo_start_def
          head_init_def Let_def)
    finally show ?thesis .
  qed
  have dm: "hc_dm demo_serving = (hc_dm demo_start)\<lparr>dm_nodes := add_node (demo_node 1) ni_init\<rparr>"
    by (simp add: demo_serving_def)
      (simp add: demo_start_def head_init_def create_deployments_def add_or_update_deployment_def dm_init_def
        split: option.splits)
  then show "used_on (dm_nodes (hc_dm demo_serving)) 1 = Some (0, 0)"
    by (simp add: used_on_add_node demo_node_def)
  show rt: "routes (hc_dm demo_serving) = first_routes"
    by (simp add: dm) (simp add: demo_start_def head_init_def first_routes_def)
  show "dm_replica_map (hc_dm demo_serving) = []"
    by (simp add: dm)
      (simp add: demo_start_def head_init_def create_deployments_def add_or_update_deployment_def dm_init_def
        split: option.splits)
  have "routes (hc_dm demo_serving) 2 \<noteq> None" by (simp add: rt first_routes_eq)
  then show "create_replica_request 2 0 0 demo_serving \<noteq> None"
    by (auto simp: create_replica_request_def get_deployment_def routes_def)
  show "\<exists>sb. dget (hc_subs demo_serving) 0 = Some sb \<and> sb_phase sb = Waiting \<and> sb_last sb = 5"
    by (simp add: demo_serving_def subs_resume)
      (simp add: subscribe_def Let_def run_subscriber_def)
qed

lemma demo_answer_ok: "answer_ok (Got demo_reply) (hc_dm demo_serving)"
  by (simp add: answer_ok_def demo_reply_def demo_serving_facts)

lemma demo_routed_reach: "reach head_start head_step demo_routed"
proof -
  have "head_step demo_serving demo_routed"
    unfolding demo_routed_def using demo_serving_facts(2,5) demo_answer_ok
    by (intro head_step.created) auto
  with demo_serving_facts(1) show ?thesis by (rule reach_step)
qed

text \<open>
  C23. The published table is never stale: in every reachable state of the head controller (workers
  registering, creation tasks starting and finishing, health reports, metrics and proxies coming and
  going in any order) the latest snapshot, once there is one, lists exactly the deployments and
  replicas the deployment manager has at that moment, and the manager's tables agree.
\<close>

theorem head_snapshot_current:
  assumes "reach head_start head_step hc"
  shows "(case hc_snapshot hc of None \<Rightarrow> True
      | Some u \<Rightarrow> ru_deployments u = ru_deployments (get_current_routing_table now (hc_dm hc))) \<and>
    dm_shape (hc_dm hc) \<and> ledger_ok (hc_dm hc)"
  using head_machine.reach_safe [OF assms] uncharged_ledger
  by (simp add: head_ok_def published_def split: option.splits)

theorem head_snapshot_current_witness:
  "(case hc_snapshot demo_routed of None \<Rightarrow> False
      | Some u \<Rightarrow> ru_deployments u = ru_deployments (get_current_routing_table 9 (hc_dm demo_routed)))"
proof -
  obtain dm' where "create_replica_finish 9 2 0 0 (Got demo_reply) demo_serving =
      (Some demo_reply, on_deployment_change 9 (demo_serving\<lparr>hc_dm := dm'\<rparr>))"
    using finish_created [OF _ uncharged_ledger demo_serving_facts(5) demo_answer_ok]
      head_machine.reach_safe [OF demo_serving_facts(1)]
    by (auto simp: head_ok_def demo_reply_def)
  then have "hc_snapshot demo_routed \<noteq> None" by (simp add: demo_routed_def on_deployment_change_def)
  with head_snapshot_current [OF demo_routed_reach, of 9] show ?thesis
    by (auto split: option.splits)
qed

text \<open>
  A worker that registers comes into service.  When the reply to the creation request arrives
  with one new replica, in any reachable state, it is returned, and a proxy that is waiting for
  updates next receives a table in which the deployment has its old replicas followed by the new one,
  \<open>RUNNING\<close> at the worker's address and the replica's port; no other deployment changes.
\<close>

theorem created_replica_reaches_proxy:
  assumes "reach head_start head_step hc" and "create_replica_request d c g hc \<noteq> None"
    and "answer_ok (Got r) (hc_dm hc)" and "cr_created r"
    and "dget (hc_subs hc) i = Some sb" and "sb_phase sb = Waiting" and "sb_last sb < now"
  shows "\<exists>rc hc' sb' u. cr_replicas r = [rc] \<and>
    create_replica_finish now d c g (Got r) hc = (Some r, hc') \<and>
    dget (hc_subs (resume i hc')) i = Some sb' \<and> sb_sent sb' = sb_sent sb @ [u] \<and>
    u = get_current_routing_table now (hc_dm hc') \<and>
    routes (hc_dm hc') = spec_add d
      \<lparr>ri_replica_num = replica_key (int_text (cr_worker_id r)) (int_text (rc_replica_id rc)),
       ri_address = host_port (cr_worker_address r) (rc_port rc), ri_state = ''RUNNING''\<rparr>
      (routes (hc_dm hc))"
proof -
  have "dm_shape (hc_dm hc)" "ledger_ok (hc_dm hc)"
    using head_machine.reach_safe [OF assms(1)] uncharged_ledger by (simp_all add: head_ok_def)
  from finish_created [OF this assms(2-4), of now] obtain rc dm' where
    f: "cr_replicas r = [rc]" "create_replica_finish now d c g (Got r) hc =
      (Some r, on_deployment_change now (hc\<lparr>hc_dm := dm'\<rparr>))"
    and rt: "routes dm' = spec_add d
      \<lparr>ri_replica_num = replica_key (int_text (cr_worker_id r)) (int_text (rc_replica_id rc)),
       ri_address = host_port (cr_worker_address r) (rc_port rc), ri_state = ''RUNNING''\<rparr> (routes (hc_dm hc))"
    by blast
  let ?hc = "on_deployment_change now (hc\<lparr>hc_dm := dm'\<rparr>)"
  have "hc_snapshot ?hc = Some (get_current_routing_table now dm')"
    by (simp add: on_deployment_change_def)
  then have "dget (hc_subs (resume i ?hc)) i = Some (sb\<lparr>sb_phase := Sending (get_current_routing_table now dm'),
      sb_sent := sb_sent sb @ [get_current_routing_table now dm']\<rparr>)"
    using assms(5-7) by (simp add: subs_resume subs_publish wake_def run_subscriber_def)
  then show ?thesis using f rt by auto
qed

theorem created_replica_reaches_proxy_witness:
  "\<exists>u. dget (hc_subs (resume 0 demo_routed)) 0 \<noteq> None \<and>
    u = get_current_routing_table 9 (hc_dm demo_routed) \<and>
    (\<exists>sb'. dget (hc_subs (resume 0 demo_routed)) 0 = Some sb' \<and> u \<in> set (sb_sent sb')) \<and>
    routes (hc_dm demo_routed) 2 = Some (''/v1/chat/tinyllama'', ''1.0'',
      [\<lparr>ri_replica_num = replica_key (int_text 1) (int_text 7),
        ri_address = host_port ''10.0.0.1'' (int_text 50107), ri_state = ''RUNNING''\<rparr>])"
proof -
  obtain sb where sb: "dget (hc_subs demo_serving) 0 = Some sb" "sb_phase sb = Waiting" "sb_last sb < 9"
    using demo_serving_facts(6) by force
  have cr: "cr_created demo_reply" by (simp add: demo_reply_def)
  from created_replica_reaches_proxy [OF demo_serving_facts(1,5) demo_answer_ok cr sb]
  show ?thesis
    by (auto simp: demo_routed_def demo_serving_facts(7) spec_add_def first_routes_eq demo_reply_def demo_rc_def)
qed

text \<open>
  Only one of the three deployments is ever served: in every reachable state all creation tasks
  started, in hand or queued are for the deployment 2, and the deployments 1 and 3, which the
  controller also declares and routes, have no replica.
\<close>

theorem head_serves_one_deployment:
  assumes "reach head_start head_step hc"
  shows "(\<forall>(a, d) \<in> set (hc_spawned hc). d = 2) \<and> (\<forall>item \<in> set (hc_replica_queue hc). \<exists>a. item = QPair a 2) \<and>
    routes (hc_dm hc) 1 = Some (''/v1/chat/gpt2'', ''1.0'', []) \<and>
    routes (hc_dm hc) 3 = Some (''/v1/chat/phi2'', ''1.0'', [])"
proof -
  have ok: "\<forall>item \<in> set (pipeline hc). \<exists>a. item = QPair a 2"
    and r: "\<forall>d. d \<noteq> 2 \<longrightarrow> routes (hc_dm hc) d = first_routes d"
    using head_machine.reach_safe [OF assms] by (simp_all add: head_ok_def)
  have "d = 2" if "(a, d) \<in> set (hc_spawned hc)" for a d
  proof -
    have "QPair a d \<in> set (pipeline hc)" using that by (force simp: pipeline_def)
    with ok show ?thesis by auto
  qed
  moreover have "\<forall>item \<in> set (hc_replica_queue hc). \<exists>a. item = QPair a 2"
    using ok by (simp add: pipeline_def)
  ultimately show ?thesis using r by (auto simp: first_routes_eq)
qed

theorem head_serves_one_deployment_witness:
  "routes (hc_dm demo_routed) 1 = Some (''/v1/chat/gpt2'', ''1.0'', [])"
  using head_serves_one_deployment [OF demo_routed_reach] by blast

text \<open>
  The resource ledger is never used: replicas are created with the defaults
  \<open>_num_cpus = 0, _num_gpus = 0\<close>, so although each deployment asks for 2 CPUs and a GPU, in every
  reachable state every registered worker counts 0 CPUs and 0 GPUs in use.
\<close>

theorem head_never_charges:
  assumes "reach head_start head_step hc"
  shows "used_on (dm_nodes (hc_dm hc)) n \<in> {None, Some (0, 0)}"
  using head_machine.reach_safe [OF assms] by (simp add: head_ok_def uncharged_def)

theorem head_never_charges_witness:
  "used_on (dm_nodes (hc_dm demo_routed)) 1 \<in> {None, Some (0, 0)}"
  by (rule head_never_charges [OF demo_routed_reach])

text \<open>
  A creation that fails is given up.  When the three attempts of the request all fail,
  \<open>create_replica\<close> returns \<open>None\<close> after exactly three calls, having changed nothing but
  \<open>pending_replicas\<close>, which gains the deployment.
\<close>

theorem create_replica_gives_up:
  assumes "create_replica_request d c g hc = Some request"
    and "\<And>j. j < 3 \<Longrightarrow> \<exists>e. fst (stub request (after_calls (stub request) j s)) = Inl e"
  shows "create_replica stub draw now d c g hc s =
    (None, hc\<lparr>hc_pending := hc_pending hc @ [d]\<rparr>, after_calls (stub request) 3 s)"
proof -
  obtain r sleeps s' where t: "try_send_with_retries (stub request) draw 3 2 2 10 True s = (r, sleeps, s')"
    by (cases "try_send_with_retries (stub request) draw 3 2 2 10 True s") auto
  obtain e where "r = GotExn e \<and> s' = after_calls (stub request) 3 s"
    using async_retry.run_exhausted [where n = 3 and call = "stub request" and s = s and draw = draw and
        delay = 2 and factor = 2 and md = 10 and jitter = True] assms(2) t
    by (force simp: run_async_def)
  with t assms(1) show ?thesis
    by (simp add: create_replica_def try_send_default_def create_replica_finish_def put_pending_def)
qed

definition down :: "creation_request \<Rightarrow> nat \<Rightarrow> creation_reply res \<times> nat" where
  "down rq n = (Inl (RpcError ''UNAVAILABLE''), Suc n)"

theorem create_replica_gives_up_witness:
  "\<exists>hc'. create_replica down (\<lambda>_ _. 0) 9 2 0 0 demo_serving (0 :: nat) = (None, hc', 3) \<and>
    hc_pending hc' = hc_pending demo_serving @ [2]"
proof -
  obtain request where rq: "create_replica_request 2 0 0 demo_serving = Some request"
    using demo_serving_facts(5) by auto
  have "create_replica down (\<lambda>_ _. 0) 9 2 0 0 demo_serving (0 :: nat) =
      (None, demo_serving\<lparr>hc_pending := hc_pending demo_serving @ [2]\<rparr>, after_calls (down request) 3 0)"
    by (rule create_replica_gives_up [OF rq]) (simp add: down_def)
  then show ?thesis by (simp add: down_def numeral_3_eq_3)
qed

text \<open>
  Nothing takes a pending replica up again: every step of the controller keeps
  \<open>pending_replicas\<close> as a prefix of the new one, and in a reachable state the list of creation tasks
  (started, in hand, queued) grows only when a worker registers, by that worker.
\<close>

theorem pending_never_retried:
  assumes "reach head_start head_step hc" and "head_step hc hc'"
  shows "(\<exists>ds. hc_pending hc' = hc_pending hc @ ds) \<and>
    (pipeline hc' = pipeline hc \<or> (\<exists>rq. hc' = snd (register_node rq hc) \<and>
      pipeline hc' = pipeline hc @ [QPair (host_port (rq_node_address rq) (rq_port rq)) 2]))"
proof -
  have nq: "hc_in_hand hc \<noteq> Some QOther"
    using head_machine.reach_safe [OF assms(1)] by (auto simp: head_ok_def pipeline_def)
  show ?thesis
    using assms(2) nq
  proof (cases rule: head_step.cases)
    case (register rq)
    then show ?thesis by auto
  next
    case (created address d answer now)
    then show ?thesis
      by (auto simp: create_replica_finish_def split: sent.splits sum.splits prod.splits)
        (simp_all add: put_pending_def)
  next
    case (health rq now)
    then show ?thesis
      by (auto simp: head_send_health_status_def hm_send_health_status_def split: sum.splits prod.splits)
  next
    case spawn
    then show ?thesis using pipeline_spawn [OF nq] by simp
  next
    case (metrics mq)
    then show ?thesis by (simp add: record_metrics_def)
  qed simp_all
qed

theorem pending_never_retried_witness:
  "\<exists>ds. hc_pending demo_routed = hc_pending demo_serving @ ds"
proof -
  have "head_step demo_serving demo_routed"
    unfolding demo_routed_def using demo_serving_facts(2,5) demo_answer_ok
    by (intro head_step.created) auto
  from pending_never_retried [OF demo_serving_facts(1) this] show ?thesis by blast
qed

text \<open>
  The controller asks for exactly four worker VMs, with the identifiers 1 to 4 and the names
  \<open>scheduler-1\<close> to \<open>scheduler-4\<close>, in this order and all with its own address, whatever any of the
  creations returns or raises.
\<close>

theorem four_vms_requested:
  "fst (create_vm_in_thread create_vm host node_port s) =
     map (\<lambda>i. \<lparr>vq_scheduler_id = i, vq_name = ''scheduler-'' @ int_text i, vq_model_id = ''small'',
        vq_head_controller_address = host, vq_head_controller_port = node_port\<rparr>) [1, 2, 3, 4]"
proof -
  have l: "fst (create_vm_loop create_vm host node_port is s) =
      map (\<lambda>i. \<lparr>vq_scheduler_id = int (i + 1), vq_name = ''scheduler-'' @ int_text (int (i + 1)),
        vq_model_id = ''small'', vq_head_controller_address = host, vq_head_controller_port = node_port\<rparr>) is"
    for "is"
    by (induction "is" arbitrary: s) (simp_all add: Let_def case_prod_unfold)
  have u: "[0..<4] = [0, 1, 2, 3 :: nat]" by (simp add: upt_rec)
  show ?thesis unfolding create_vm_in_thread_def u l by simp
qed

end
