(* ===== verification/FutureManager.thy ===== *)
theory FutureManager
  imports Prelude
begin

text \<open>
  \<open>src/lib/future_manager.py\<close>: the table of \<open>asyncio.Future\<close>s through which the worker's
  \<open>CreateReplica\<close> waits for \<open>RegisterReplica\<close>.

  A future outlives its table entry: the coroutine that awaits it holds a reference.  So the state
  keeps a heap of all futures made (\<open>fm_heap\<close>, the address is the index) beside the dictionary
  \<open>_futures\<close> from keys to addresses.  The locale \<open>completion_table\<close> is what the scheduler relies on.
\<close>

datatype 'v future = Pending | Result 'v | Raised exn | Cancelled

record ('k, 'v) future_manager =
  fm_heap :: "'v future list"
  fm_futures :: "('k, nat) dict"

definition fm_init :: "('k, 'v) future_manager" where
  "fm_init = \<lparr>fm_heap = [], fm_futures = []\<rparr>"

definition create_future ::
  "'k \<Rightarrow> ('k, 'v) future_manager \<Rightarrow> nat res \<times> ('k, 'v) future_manager" where
  "create_future key fm =
     (case dget (fm_futures fm) key of
        Some a \<Rightarrow> (Inl (RuntimeError ''Future already exists for key''), fm)
      | None \<Rightarrow>
          (let a = length (fm_heap fm)
           in (Inr a, fm\<lparr>fm_heap := fm_heap fm @ [Pending], fm_futures := dset key a (fm_futures fm)\<rparr>)))"

definition get_future :: "'k \<Rightarrow> ('k, 'v) future_manager \<Rightarrow> nat option" where
  "get_future key fm = dget (fm_futures fm) key"

definition has_future :: "'k \<Rightarrow> ('k, 'v) future_manager \<Rightarrow> bool" where
  "has_future key fm \<longleftrightarrow> key \<in> dkeys (fm_futures fm)"

definition pop_future :: "'k \<Rightarrow> ('k, 'v) future_manager \<Rightarrow> nat option \<times> ('k, 'v) future_manager" where
  "pop_future key fm = (dget (fm_futures fm) key, fm\<lparr>fm_futures := ddel key (fm_futures fm)\<rparr>)"

text \<open>\<open>if fut and not fut.done(): \<dots>\<close>, shared by the three ways to settle a future.\<close>

definition settle :: "nat \<Rightarrow> 'v future \<Rightarrow> 'v future list \<Rightarrow> 'v future list" where
  "settle a outcome heap = (if a < length heap \<and> heap ! a = Pending then heap[a := outcome] else heap)"

definition settle_key ::
  "'k \<Rightarrow> 'v future \<Rightarrow> ('k, 'v) future_manager \<Rightarrow> ('k, 'v) future_manager" where
  "settle_key key outcome fm =
     (case pop_future key fm of
        (None, fm') \<Rightarrow> fm'
      | (Some a, fm') \<Rightarrow> fm'\<lparr>fm_heap := settle a outcome (fm_heap fm')\<rparr>)"

definition set_result :: "'k \<Rightarrow> 'v \<Rightarrow> ('k, 'v) future_manager \<Rightarrow> ('k, 'v) future_manager" where
  "set_result key v fm = settle_key key (Result v) fm"

definition set_exception :: "'k \<Rightarrow> exn \<Rightarrow> ('k, 'v) future_manager \<Rightarrow> ('k, 'v) future_manager" where
  "set_exception key e fm = settle_key key (Raised e) fm"

definition cancel_future :: "'k \<Rightarrow> ('k, 'v) future_manager \<Rightarrow> ('k, 'v) future_manager" where
  "cancel_future key fm = settle_key key Cancelled fm"

text \<open>What awaiting the future at an address sees: \<open>None\<close> if there is none.\<close>

definition peek :: "('k, 'v) future_manager \<Rightarrow> nat \<Rightarrow> 'v future option" where
  "peek fm a = (if a < length (fm_heap fm) then Some (fm_heap fm ! a) else None)"

text \<open>
  The table is well formed: every entry points to a future, and no future has two keys.
\<close>

definition fm_ok :: "('k, 'v) future_manager \<Rightarrow> bool" where
  "fm_ok fm \<longleftrightarrow> dict_ok (fm_futures fm) \<and>
     (\<forall>k a. dget (fm_futures fm) k = Some a \<longrightarrow> a < length (fm_heap fm)) \<and>
     (\<forall>k k' a. dget (fm_futures fm) k = Some a \<and> dget (fm_futures fm) k' = Some a \<longrightarrow> k = k')"

section \<open>What the operations keep\<close>

lemmas future_defs = create_future_def get_future_def has_future_def pop_future_def settle_key_def
  set_result_def set_exception_def cancel_future_def peek_def settle_def

lemma fm_ok_init [simp]: "fm_ok fm_init"
  by (simp add: fm_ok_def fm_init_def)

lemma fm_ok_create: "fm_ok fm \<Longrightarrow> fm_ok (snd (create_future k fm))"
  by (force simp: fm_ok_def create_future_def Let_def less_Suc_eq split: option.splits if_splits)

lemma fm_ok_pop: "fm_ok fm \<Longrightarrow> fm_ok (snd (pop_future k fm))"
  by (auto simp: fm_ok_def pop_future_def split: if_splits)

lemma fm_ok_settle_key: "fm_ok fm \<Longrightarrow> fm_ok (settle_key k x fm)"
  by (auto simp: fm_ok_def settle_key_def pop_future_def settle_def split: option.splits if_splits)

lemma peek_settle_key:
  "fm_ok fm \<Longrightarrow> peek (settle_key k x fm) a =
     (if dget (fm_futures fm) k = Some a \<and> peek fm a = Some Pending then Some x else peek fm a)"
  by (auto simp: fm_ok_def settle_key_def pop_future_def peek_def settle_def nth_list_update
      split: option.splits)

lemma get_settle_key:
  "get_future k' (settle_key k x fm) = (if k' = k then None else get_future k' fm)"
  by (auto simp: get_future_def settle_key_def pop_future_def split: option.splits)

section \<open>The contract the scheduler uses\<close>

locale completion_table =
  fixes mk :: "'k \<Rightarrow> 's \<Rightarrow> nat res \<times> 's"
    and fulfil :: "'k \<Rightarrow> 'v \<Rightarrow> 's \<Rightarrow> 's"
    and owner :: "'k \<Rightarrow> 's \<Rightarrow> nat option"
    and look :: "'s \<Rightarrow> nat \<Rightarrow> 'v future option"
    and ok :: "'s \<Rightarrow> bool"
  assumes mk_fresh: "owner k s = None \<Longrightarrow> ok s \<Longrightarrow> \<exists>a s'. mk k s = (Inr a, s') \<and> ok s' \<and>
      owner k s' = Some a \<and> look s a = None \<and> look s' a = Some Pending \<and>
      (\<forall>k'. k' \<noteq> k \<longrightarrow> owner k' s' = owner k' s) \<and> (\<forall>a'. a' \<noteq> a \<longrightarrow> look s' a' = look s a')"
    and mk_taken: "owner k s = Some a \<Longrightarrow> \<exists>m. mk k s = (Inl (RuntimeError m), s)"
    and fulfil_look: "ok s \<Longrightarrow> look (fulfil k v s) a =
      (if owner k s = Some a \<and> look s a = Some Pending then Some (Result v) else look s a)"
    and fulfil_owner: "owner k' (fulfil k v s) = (if k' = k then None else owner k' s)"
    and fulfil_ok: "ok s \<Longrightarrow> ok (fulfil k v s)"
begin

lemma answered:
  assumes "ok s" and "owner k s = None"
  shows "\<exists>a s'. mk k s = (Inr a, s') \<and> look (fulfil k v s') a = Some (Result v)"
  using mk_fresh [OF assms(2,1)] fulfil_look by fastforce

lemma settled_stays: "ok s \<Longrightarrow> look s a = Some x \<Longrightarrow> x \<noteq> Pending \<Longrightarrow> look (fulfil k v s) a = Some x"
  by (simp add: fulfil_look)

lemma first_answer_wins:
  assumes "ok s" and "owner k s = Some a" and "look s a = Some Pending"
  shows "look (fulfil k w (fulfil k v s)) a = Some (Result v)"
  using assms by (simp add: fulfil_look fulfil_ok)

lemma answer_needs_owner: "ok s \<Longrightarrow> owner k s = None \<Longrightarrow> look (fulfil k v s) = look s"
  by (auto simp: fulfil_look)

lemma answers_separate:
  assumes "ok s" and "owner k s = Some a" and "k' \<noteq> k" and "owner k' s \<noteq> Some a"
  shows "look (fulfil k' v s) a = look s a" and "owner k (fulfil k' v s) = Some a"
  using assms by (auto simp: fulfil_look fulfil_owner)

end

interpretation futures: completion_table create_future set_result get_future peek fm_ok
proof (unfold_locales, goal_cases)
  case (1 k s)
  then have "fm_ok (snd (create_future k s))" by (simp add: fm_ok_create)
  with 1 show ?case
    by (auto simp: create_future_def get_future_def peek_def Let_def nth_append less_Suc_eq)
next
  case (2 k s a)
  then show ?case by (simp add: create_future_def get_future_def)
next
  case (3 s k v a)
  then show ?case by (simp add: set_result_def peek_settle_key get_future_def)
next
  case (4 k' k v s)
  then show ?case by (simp add: set_result_def get_settle_key)
next
  case (5 s k v)
  then show ?case by (simp add: set_result_def fm_ok_settle_key)
qed

section \<open>Runs of the manager\<close>

text \<open>
  Everything the program and its clients can do to the table, including the cancellation of the
  coroutine that awaits a future, which cancels the future but leaves its entry.
\<close>

datatype ('k, 'v) future_op =
    Create 'k | SetResult 'k 'v | SetException 'k exn | Cancel 'k | Pop 'k | AwaiterCancelled nat

fun future_step :: "('k, 'v) future_op \<Rightarrow> ('k, 'v) future_manager \<Rightarrow> ('k, 'v) future_manager" where
  "future_step (Create k) fm = snd (create_future k fm)"
| "future_step (SetResult k v) fm = set_result k v fm"
| "future_step (SetException k e) fm = set_exception k e fm"
| "future_step (Cancel k) fm = cancel_future k fm"
| "future_step (Pop k) fm = snd (pop_future k fm)"
| "future_step (AwaiterCancelled a) fm = fm\<lparr>fm_heap := settle a Cancelled (fm_heap fm)\<rparr>"

definition future_run :: "('k, 'v) future_op list \<Rightarrow> ('k, 'v) future_manager \<Rightarrow> ('k, 'v) future_manager"
  where "future_run ops fm = fold future_step ops fm"

lemma fm_ok_await_cancelled: "fm_ok fm \<Longrightarrow> fm_ok (fm\<lparr>fm_heap := settle a x (fm_heap fm)\<rparr>)"
  by (auto simp: fm_ok_def settle_def)

lemma fm_ok_step: "fm_ok fm \<Longrightarrow> fm_ok (future_step x fm)"
  by (cases x) (simp_all add: fm_ok_create fm_ok_pop fm_ok_settle_key set_result_def
      set_exception_def cancel_future_def fm_ok_await_cancelled)

lemma fm_ok_run: "fm_ok fm \<Longrightarrow> fm_ok (future_run ops fm)"
  by (induction ops arbitrary: fm) (simp_all add: future_run_def fm_ok_step)

lemma settled_step:
  assumes "peek fm a = Some x" and "x \<noteq> Pending"
  shows "peek (future_step y fm) a = Some x"
  using assms by (cases y)
    (auto simp: future_defs Let_def nth_append nth_list_update split: option.splits if_splits)

lemma settled_run:
  assumes "peek fm a = Some x" and "x \<noteq> Pending"
  shows "peek (future_run ops fm) a = Some x"
  using assms by (induction ops arbitrary: fm) (simp_all add: future_run_def settled_step)

text \<open>The operations that settle the future \<open>a\<close> of a key or take it out of the table.\<close>

fun settles :: "'k \<Rightarrow> nat \<Rightarrow> ('k, 'v) future_op \<Rightarrow> bool" where
  "settles key a (Create k) = False"
| "settles key a (SetResult k v) = (k = key)"
| "settles key a (SetException k e) = (k = key)"
| "settles key a (Cancel k) = (k = key)"
| "settles key a (Pop k) = (k = key)"
| "settles key a (AwaiterCancelled b) = (b = a)"

definition open_at :: "'k \<Rightarrow> nat \<Rightarrow> ('k, 'v) future_manager \<Rightarrow> bool" where
  "open_at key a fm \<longleftrightarrow> fm_ok fm \<and> get_future key fm = Some a \<and> peek fm a = Some Pending"

lemma open_create:
  assumes "fm_ok fm" and "create_future key fm = (Inr a, fm1)"
  shows "open_at key a fm1"
proof -
  have "get_future key fm = None" using assms(2) by (simp add: create_future_def get_future_def split: option.splits)
  from futures.mk_fresh [OF this assms(1)] assms(2) show ?thesis by (auto simp: open_at_def)
qed

lemma open_step:
  assumes "open_at key a fm" and "\<not> settles key a x"
  shows "open_at key a (future_step x fm)"
proof -
  have sep: "get_future k fm \<noteq> Some a" if "k \<noteq> key" for k
    using assms(1) that unfolding open_at_def fm_ok_def get_future_def by metis
  have ok: "fm_ok (future_step x fm)" using assms(1) by (simp add: open_at_def fm_ok_step)
  have "get_future key (future_step x fm) = Some a \<and> peek (future_step x fm) a = Some Pending"
  proof (cases x)
    case (AwaiterCancelled b)
    with assms show ?thesis by (auto simp: open_at_def get_future_def peek_def settle_def nth_list_update split: if_splits)
  next
    case (Create k)
    with assms(1) show ?thesis
      by (auto simp: open_at_def get_future_def peek_def create_future_def Let_def nth_append split: option.splits if_splits)
  next
    case (Pop k)
    with assms show ?thesis by (auto simp: open_at_def get_future_def peek_def pop_future_def split: if_splits)
  qed (use assms sep in \<open>auto simp: open_at_def set_result_def set_exception_def cancel_future_def peek_settle_key get_settle_key
      get_future_def [symmetric]\<close>)
  with ok show ?thesis by (simp add: open_at_def)
qed

lemma open_run: "open_at key a fm \<Longrightarrow> list_all (\<lambda>x. \<not> settles key a x) ops \<Longrightarrow> open_at key a (future_run ops fm)"
  by (induction ops arbitrary: fm) (simp_all add: future_run_def open_step)

text \<open>
  C35. The answer to a key reaches the waiter.  When a future was created for a key, then whatever the
  program does to the table next, as long as nobody settles, takes out or stops awaiting this future, it
  is pending, and a second \<open>create_future\<close> for the key raises \<open>RuntimeError\<close> and changes nothing.  Then
  \<open>set_result\<close>, \<open>set_exception\<close> or \<open>cancel_future\<close> of the key gives the waiter exactly this outcome, for good,
  whatever is done to the table later; the key is free again and no other key is touched.
\<close>

theorem future_delivers:
  assumes "fm_ok fm" and "create_future key fm = (Inr a, fm1)" and "list_all (\<lambda>x. \<not> settles key a x) ops"
    and "fm2 = future_run ops fm1"
  shows "peek fm2 a = Some Pending \<and> (\<exists>m. create_future key fm2 = (Inl (RuntimeError m), fm2)) \<and>
    peek (future_run later (set_result key v fm2)) a = Some (Result v) \<and>
    peek (future_run later (set_exception key e fm2)) a = Some (Raised e) \<and>
    peek (future_run later (cancel_future key fm2)) a = Some Cancelled \<and>
    get_future k (set_result key v fm2) = (if k = key then None else get_future k fm2) \<and>
    get_future k (set_exception key e fm2) = (if k = key then None else get_future k fm2) \<and>
    get_future k (cancel_future key fm2) = (if k = key then None else get_future k fm2)"
proof -
  have o: "fm_ok fm2" "get_future key fm2 = Some a" "peek fm2 a = Some Pending"
    using open_run [OF open_create [OF assms(1,2)] assms(3)] by (simp_all add: open_at_def assms(4))
  have p: "peek (settle_key key x fm2) a = Some x" for x
    using o by (simp add: peek_settle_key get_future_def)
  have "peek (future_run later (settle_key key x fm2)) a = Some x" if "x \<noteq> Pending" for x
    by (rule settled_run [OF p that])
  moreover have "\<exists>m. create_future key fm2 = (Inl (RuntimeError m), fm2)" by (rule futures.mk_taken [OF o(2)])
  ultimately show ?thesis
    using o(3) by (simp add: set_result_def set_exception_def cancel_future_def get_settle_key)
qed

theorem future_delivers_witness:
  "peek (future_run [SetResult 7 ''c'', Cancel 7] (set_result 7 ''b'' (future_run [Create 8, SetResult 8 ''a'', Create 7]
     (snd (create_future (7 :: nat) fm_init))))) 0 = Some (Result ''b'')"
proof -
  have "create_future (7 :: nat) fm_init = (Inr 0, snd (create_future 7 (fm_init :: (nat, string) future_manager)))"
    by (simp add: create_future_def fm_init_def dict_eval)
  from future_delivers [OF fm_ok_init this, of "[Create 8, SetResult 8 ''a'', Create 7]", OF _ refl] show ?thesis by simp
qed

end
