(* ===== verification/Scheduler.thy ===== *)
theory Scheduler
  imports Helpers FutureManager Messages
begin

text \<open>
  The worker process: \<open>src/components/scheduler.py\<close> and the handle \<open>Replica\<close> of \<open>src/lib/replica.py\<close>
  that it stores per replica.

  The module globals \<open>replica_num\<close>, \<open>replica_registry\<close> and \<open>replica_futures\<close> are fields of the state.
  \<open>replica_lock\<close> is never held across a suspension, so it is free whenever it is taken, and
  \<open>StartReplicaCpp\<close> contains no \<open>await\<close>; hence \<open>RegisterReplica\<close>, and \<open>CreateReplica\<close> up to
  \<open>await fut\<close>, run without interruption.  A process that is started is its argument list, logged in
  \<open>sc_launched\<close>; whether starting it raises is the argument \<open>failure\<close>.
\<close>

section \<open>The state\<close>

record replica_handle =
  rh_pid :: int
  rh_replica_id :: int
  rh_worker_id :: int
  rh_status :: string
  rh_deployment_id :: int
  rh_active_requests :: int
  rh_port :: string

record scheduler =
  sc_worker_id :: int
  sc_node_address :: string
  sc_node_port :: int
  sc_head :: string
  sc_replica_num :: int
  sc_registry :: "(int, replica_handle) dict"
  sc_futures :: "(int, creation_reply) future_manager"
  sc_launched :: "string list list"
  sc_killed :: "int list"
  sc_stopped :: bool

text \<open>\<open>Replica.__init__\<close>\<close>

definition replica_init :: "int \<Rightarrow> int \<Rightarrow> int \<Rightarrow> int \<Rightarrow> string \<Rightarrow> replica_handle" where
  "replica_init pid replica_id worker_id deployment_id port =
     \<lparr>rh_pid = pid, rh_replica_id = replica_id, rh_worker_id = worker_id, rh_status = ''idle'',
      rh_deployment_id = deployment_id, rh_active_requests = 0, rh_port = port\<rparr>"

definition sched_init :: "int \<Rightarrow> string \<Rightarrow> int \<Rightarrow> string \<Rightarrow> string \<Rightarrow> scheduler" where
  "sched_init node_id node_address node_port head_address head_port =
     \<lparr>sc_worker_id = node_id, sc_node_address = node_address, sc_node_port = node_port,
      sc_head = head_address @ '':'' @ head_port, sc_replica_num = 0, sc_registry = [],
      sc_futures = fm_init, sc_launched = [], sc_killed = [], sc_stopped = False\<rparr>"

section \<open>Starting and registering replicas\<close>

definition replica_command :: "int \<Rightarrow> string \<Rightarrow> string \<Rightarrow> string \<Rightarrow> string \<Rightarrow> string list" where
  "replica_command replica_id replica_port deployment_name deployment_id node_port =
     [''/usr/local/bin/replica_server'', ''--port'', replica_port, ''--replica_id'', int_text replica_id,
      ''--parent_port'', node_port, ''--deployment_name'', deployment_name,
      ''--deployment_id'', deployment_id, ''--metrics_port'', int_text (9000 + replica_id),
      ''--num_cpus'', int_text 1, ''--num_gpus'', int_text 1]"

definition start_replica_cpp ::
  "int \<Rightarrow> string \<Rightarrow> string \<Rightarrow> string \<Rightarrow> exn option \<Rightarrow> scheduler \<Rightarrow> unit res \<times> scheduler" where
  "start_replica_cpp replica_id replica_port deployment_name deployment_id failure sc =
     (case failure of
        Some e \<Rightarrow> (Inl e, sc)
      | None \<Rightarrow> (Inr (), sc\<lparr>sc_launched := sc_launched sc @
          [replica_command replica_id replica_port deployment_name deployment_id (int_text (sc_node_port sc))]\<rparr>))"

text \<open>
  \<open>CreateReplica\<close> up to its answer: \<open>Inl\<close> is the error reply, \<open>Inr a\<close> means that the call now awaits
  the future at \<open>a\<close>; an exception leaves the handler (outer \<open>Inl\<close>).
\<close>

definition create_replica_rpc ::
  "creation_request \<Rightarrow> exn option \<Rightarrow> scheduler \<Rightarrow> (creation_reply + nat) res \<times> scheduler" where
  "create_replica_rpc request failure sc =
     (let replica_id = sc_replica_num sc + 1;
          replica_port = 50100 + replica_id;
          sc1 = sc\<lparr>sc_replica_num := replica_id\<rparr>
      in case start_replica_cpp replica_id (int_text replica_port) (cq_deployment_name request)
               (int_text (cq_deployment_id request)) failure sc1 of
           (Inl e, sc2) \<Rightarrow>
             (let error_reply = \<lparr>cr_worker_id = sc_worker_id sc,
                    cr_replicas = [\<lparr>rc_replica_id = replica_id, rc_port = int_text replica_port\<rparr>],
                    cr_worker_address = sc_node_address sc, cr_created = False\<rparr>
              in (Inr (Inl error_reply),
                  sc2\<lparr>sc_futures := set_result replica_id error_reply (sc_futures sc2)\<rparr>))
         | (Inr u, sc2) \<Rightarrow>
             (case create_future replica_id (sc_futures sc2) of
                (Inl e, fm) \<Rightarrow> (Inl e, sc2\<lparr>sc_futures := fm\<rparr>)
              | (Inr a, fm) \<Rightarrow> (Inr (Inr a), sc2\<lparr>sc_futures := fm\<rparr>)))"

definition registration_reply :: "replica_status \<Rightarrow> scheduler \<Rightarrow> creation_reply" where
  "registration_reply request sc =
     \<lparr>cr_worker_id = sc_worker_id sc,
      cr_replicas = [\<lparr>rc_replica_id = rs_replica_id request, rc_port = rs_port request\<rparr>],
      cr_worker_address = sc_node_address sc, cr_created = True\<rparr>"

definition register_replica_rpc :: "replica_status \<Rightarrow> scheduler \<Rightarrow> bool \<times> scheduler" where
  "register_replica_rpc request sc =
     (if rs_replica_id request \<in> dkeys (sc_registry sc) then (True, sc)
      else
        (let handle = replica_init (rs_pid request) (rs_replica_id request) (sc_worker_id sc)
               (rs_deployment_id request) (rs_port request)
         in (True, sc\<lparr>sc_registry := dset (rs_replica_id request) handle (sc_registry sc),
               sc_futures := set_result (rs_replica_id request) (registration_reply request sc)
                 (sc_futures sc)\<rparr>)))"

text \<open>\<open>Ping\<close>, from the head.\<close>

definition ping_rpc :: "scheduler \<Rightarrow> bool \<times> scheduler" where
  "ping_rpc sc = (True, sc)"

text \<open>\<open>Replica.status\<close> is set when the handle runs a task.\<close>

definition replica_processing :: "int \<Rightarrow> scheduler \<Rightarrow> scheduler" where
  "replica_processing replica_id sc =
     (case dget (sc_registry sc) replica_id of
        None \<Rightarrow> sc
      | Some h \<Rightarrow> sc\<lparr>sc_registry := dset replica_id (h\<lparr>rh_status := ''processing''\<rparr>) (sc_registry sc)\<rparr>)"

section \<open>Health updates\<close>

definition cleanup_replicas :: "scheduler \<Rightarrow> scheduler" where
  "cleanup_replicas sc = sc\<lparr>sc_registry := filter (\<lambda>(k, h). rh_status h \<noteq> ''DEAD'') (sc_registry sc)\<rparr>"

text \<open>\<open>os.kill\<close> of each replica, its errors ignored, then of the scheduler itself.\<close>

definition send_kill_signal :: "scheduler \<Rightarrow> scheduler" where
  "send_kill_signal sc =
     sc\<lparr>sc_killed := sc_killed sc @ map (\<lambda>(k, h). rh_pid h) (sc_registry sc), sc_stopped := True\<rparr>"

definition health_report :: "scheduler \<Rightarrow> health_update" where
  "health_report sc =
     \<lparr>hu_worker_id = sc_worker_id sc, hu_worker_address = sc_node_address sc,
      hu_replica_states = map (\<lambda>(k, h). \<lparr>rst_replica_id = k, rst_deployment_id = rh_deployment_id h,
        rst_status = rh_status h, rst_replica_port = rh_port h\<rparr>) (sc_registry sc)\<rparr>"

text \<open>The rest of a round of \<open>_send_health_updates\<close>; the result is whether the loop goes on.\<close>

definition health_round_finish :: "health_reply sent \<Rightarrow> scheduler \<Rightarrow> bool \<times> scheduler" where
  "health_round_finish output sc =
     (case output of
        GotExn e \<Rightarrow> (False, send_kill_signal sc)
      | GotNone \<Rightarrow> (False, send_kill_signal sc)
      | Got reply \<Rightarrow>
          if \<not> hr_ack reply then (False, send_kill_signal sc) else (True, cleanup_replicas sc))"

text \<open>
  A whole round in which no handler interleaves: the report is sent with three attempts, two seconds
  apart at first.
\<close>

definition health_round ::
  "(health_update \<Rightarrow> 's \<Rightarrow> health_reply res \<times> 's) \<Rightarrow> (nat \<Rightarrow> real \<Rightarrow> real) \<Rightarrow> scheduler \<Rightarrow> 's \<Rightarrow>
   bool \<times> scheduler \<times> 's" where
  "health_round stub draw sc s =
     (case try_send_default (stub (health_report sc)) draw 3 2 s of
        (answer, sleeps, s') \<Rightarrow> (case health_round_finish answer sc of (on, sc') \<Rightarrow> (on, sc', s')))"

section \<open>The heartbeat loop\<close>

text \<open>
  \<open>Replica\<close> has no attribute \<open>deployment_name\<close>; the arguments of \<open>StartReplicaCpp\<close> are evaluated
  before the call.
\<close>

definition handle_deployment_name :: "replica_handle \<Rightarrow> string res" where
  "handle_deployment_name h = Inl (AttributeError ''deployment_name'')"

text \<open>\<open>not (output is None or isinstance(output, Exception))\<close>\<close>

fun answered :: "'a sent \<Rightarrow> bool" where
  "answered (Got v) = True"
| "answered (GotExn e) = False"
| "answered GotNone = False"

text \<open>
  One round over the snapshot.  The third component lists the replicas that were pinged; the second
  the restarts: the arguments \<open>(replica_id, port, deployment_id, deployment_name)\<close> in this order.
\<close>

fun heartbeat_round ::
  "(int \<Rightarrow> bool sent) \<Rightarrow> (int \<times> replica_handle) list \<Rightarrow>
   unit res \<times> (int \<times> string \<times> string \<times> string) list \<times> int list" where
  "heartbeat_round ping [] = (Inr (), [], [])"
| "heartbeat_round ping ((replica_id, h) # rest) =
     (if rh_status h = ''DEAD'' then heartbeat_round ping rest
      else if answered (ping replica_id) then
        (case heartbeat_round ping rest of (r, restarts, pinged) \<Rightarrow> (r, restarts, replica_id # pinged))
      else
        (case handle_deployment_name h of
           Inl e \<Rightarrow> (Inl e, [], [replica_id])
         | Inr name \<Rightarrow>
             (case heartbeat_round ping rest of (r, restarts, pinged) \<Rightarrow>
                (r, (replica_id, rh_port h, int_text (rh_deployment_id h), name) # restarts,
                 replica_id # pinged))))"

section \<open>Starting the scheduler\<close>

datatype registration = Registered | NotAcknowledged | SchedulerKilled

text \<open>
  \<open>_register_node\<close>.  The conversions \<open>int(\<dots>)\<close> and the two messages, whose \<open>uint32\<close> fields take no
  other numbers, are outside the \<open>try\<close>.  When the retries are exhausted
  the helper returns \<open>None\<close>, reading \<open>response.ack\<close> in the last branch raises \<open>AttributeError\<close>, and
  the \<open>except\<close> branch kills the scheduler; so does any exception of the call.
\<close>

definition sched_register_request ::
  "string \<Rightarrow> string \<Rightarrow> string \<Rightarrow> string \<Rightarrow> string \<Rightarrow> register_request res" where
  "sched_register_request worker_id node_address node_port num_cpus num_gpus =
     (case int_of_text num_cpus of Inl e \<Rightarrow> Inl e | Inr c \<Rightarrow>
     (case int_of_text num_gpus of Inl e \<Rightarrow> Inl e | Inr g \<Rightarrow>
      if \<not> (uint32_ok c \<and> uint32_ok g) then Inl out_of_range else
     (case int_of_text worker_id of Inl e \<Rightarrow> Inl e | Inr w \<Rightarrow>
      if \<not> uint32_ok w then Inl out_of_range else
        Inr \<lparr>rq_node_id = w, rq_node_address = node_address, rq_port = node_port, rq_state = ''alive'',
             rq_resource = \<lparr>res_num_cpus = c, res_num_gpus = g\<rparr>\<rparr>)))"

definition sched_register_node ::
  "(register_request \<Rightarrow> 's \<Rightarrow> bool res \<times> 's) \<Rightarrow> string \<Rightarrow> string \<Rightarrow> string \<Rightarrow> string \<Rightarrow> string \<Rightarrow> 's \<Rightarrow>
   registration res \<times> 's" where
  "sched_register_node stub worker_id node_address node_port num_cpus num_gpus s =
     (case sched_register_request worker_id node_address node_port num_cpus num_gpus of
        Inl e \<Rightarrow> (Inl e, s)
      | Inr request \<Rightarrow>
          (case try_send_with_retries_sync (stub request) 3 1 s of
             (answer, sleeps, s') \<Rightarrow>
               (case answer of
                  Inl e \<Rightarrow> Inr SchedulerKilled
                | Inr (Got ack) \<Rightarrow> Inr (if ack then Registered else NotAcknowledged)
                | Inr other \<Rightarrow> Inr SchedulerKilled, s')))"

text \<open>
  \<open>main\<close> and \<open>serve\<close>: the environment, registration, and the state the server starts with.  The
  defaults of \<open>NUM_CPUS\<close> and \<open>NUM_GPUS\<close> are what the machine reports.
\<close>

definition sched_main ::
  "(string \<Rightarrow> string option) \<Rightarrow> int \<Rightarrow> int \<Rightarrow> string \<Rightarrow> (register_request \<Rightarrow> 's \<Rightarrow> bool res \<times> 's) \<Rightarrow> 's \<Rightarrow>
   scheduler option res \<times> 's" where
  "sched_main env cpu_count device_count local_ip stub s =
     (let scheduler_id = (case env ''SCHEDULER_ID'' of None \<Rightarrow> ''1'' | Some v \<Rightarrow> v);
          head_port = (case env ''HEAD_PORT'' of None \<Rightarrow> ''None'' | Some v \<Rightarrow> v);
          head_address = (case env ''HEAD_HOST'' of None \<Rightarrow> ''None'' | Some v \<Rightarrow> v);
          num_cpus = (case env ''NUM_CPUS'' of None \<Rightarrow> int_text cpu_count | Some v \<Rightarrow> v);
          num_gpus = (case env ''NUM_GPUS'' of None \<Rightarrow> int_text device_count | Some v \<Rightarrow> v)
      in case sched_register_node stub scheduler_id local_ip (int_text 50051) num_cpus num_gpus s of
           (Inl e, s') \<Rightarrow> (Inl e, s')
         | (Inr SchedulerKilled, s') \<Rightarrow> (Inr None, s')
         | (Inr registration, s') \<Rightarrow>
             (case int_of_text scheduler_id of
                Inl e \<Rightarrow> (Inl e, s')
              | Inr node_id \<Rightarrow>
                  (Inr (Some (sched_init node_id local_ip 50051 head_address head_port)), s')))"

end
