(* ===== verification/SchedulerProps.thy ===== *)
theory SchedulerProps
  imports Scheduler
begin

text \<open>
  The scheduler as a machine: creations, registrations, cancelled calls and health rounds in any
  order; the identifiers, ports and answers it gives out; what its heartbeat and health loops do.
\<close>

section \<open>The machine\<close>

definition await_cancelled :: "nat \<Rightarrow> scheduler \<Rightarrow> scheduler" where
  "await_cancelled a sc = sc\<lparr>sc_futures := future_step (AwaiterCancelled a) (sc_futures sc)\<rparr>"

inductive sched_step :: "scheduler \<Rightarrow> scheduler \<Rightarrow> bool" where
  create: "sched_step sc (snd (create_replica_rpc request failure sc))"
| register: "sched_step sc (snd (register_replica_rpc status sc))"
| ping: "sched_step sc (snd (ping_rpc sc))"
| processing: "sched_step sc (replica_processing k sc)"
| cancelled: "sched_step sc (await_cancelled a sc)"
| health: "sched_step sc (snd (health_round_finish output sc))"

definition sched_start :: "scheduler \<Rightarrow> bool" where
  "sched_start sc \<longleftrightarrow> (\<exists>node_id node_address node_port head_address head_port.
     sc = sched_init node_id node_address node_port head_address head_port)"

text \<open>
  \<open>ids\<close> are the identifiers of the processes started: strictly increasing, none above \<open>replica_num\<close>,
  each with its own port, metrics port and log of arguments.
\<close>

definition launched_ids :: "scheduler \<Rightarrow> int list \<Rightarrow> bool" where
  "launched_ids sc ids \<longleftrightarrow> sorted_wrt (<) ids \<and> (\<forall>i \<in> set ids. 1 \<le> i \<and> i \<le> sc_replica_num sc) \<and>
     list_all2 (\<lambda>i cmd. \<exists>name dep. cmd =
       replica_command i (int_text (50100 + i)) name dep (int_text (sc_node_port sc))) ids (sc_launched sc)"

definition sched_ok :: "scheduler \<Rightarrow> bool" where
  "sched_ok sc \<longleftrightarrow> fm_ok (sc_futures sc) \<and> 0 \<le> sc_replica_num sc \<and>
     (\<forall>k. get_future k (sc_futures sc) \<noteq> None \<longrightarrow> 1 \<le> k \<and> k \<le> sc_replica_num sc) \<and>
     (\<forall>(k, h) \<in> set (sc_registry sc). rh_status h \<noteq> ''DEAD'') \<and> (\<exists>ids. launched_ids sc ids)"

lemma sched_ok_init: "sched_ok (sched_init node_id node_address node_port head_address head_port)"
  by (auto simp: sched_ok_def sched_init_def launched_ids_def get_future_def fm_init_def fm_ok_def
      intro: exI [of _ "[]"])

lemma launched_mono:
  assumes "launched_ids sc ids" and "sc_launched sc' = sc_launched sc"
    and "sc_replica_num sc \<le> sc_replica_num sc'" and "sc_node_port sc' = sc_node_port sc"
  shows "launched_ids sc' ids"
  using assms by (auto simp: launched_ids_def)

lemma launched_snoc:
  assumes "launched_ids sc ids"
  shows "launched_ids (sc\<lparr>sc_replica_num := sc_replica_num sc + 1, sc_launched := sc_launched sc @
    [replica_command (sc_replica_num sc + 1) (int_text (50100 + (sc_replica_num sc + 1))) name dep
      (int_text (sc_node_port sc))]\<rparr>) (ids @ [sc_replica_num sc + 1]) \<or> sc_replica_num sc < 0"
  using assms by (force simp: launched_ids_def sorted_wrt_append list_all2_append1 list_all2_lengthD)

text \<open>What \<open>CreateReplica\<close> does when the process starts: a new future, a new command.\<close>

lemma create_started:
  assumes "sched_ok sc"
  shows "\<exists>a fm. create_future (sc_replica_num sc + 1) (sc_futures sc) = (Inr a, fm) \<and> fm_ok fm \<and>
    peek fm a = Some Pending \<and> peek (sc_futures sc) a = None \<and>
    (\<forall>k. get_future k fm = (if k = sc_replica_num sc + 1 then Some a else get_future k (sc_futures sc))) \<and>
    (\<forall>a'. a' \<noteq> a \<longrightarrow> peek fm a' = peek (sc_futures sc) a') \<and>
    create_replica_rpc request None sc = (Inr (Inr a),
      sc\<lparr>sc_replica_num := sc_replica_num sc + 1, sc_launched := sc_launched sc @
        [replica_command (sc_replica_num sc + 1) (int_text (50100 + (sc_replica_num sc + 1)))
          (cq_deployment_name request) (int_text (cq_deployment_id request)) (int_text (sc_node_port sc))],
        sc_futures := fm\<rparr>)"
proof -
  have none: "get_future (sc_replica_num sc + 1) (sc_futures sc) = None" and ok: "fm_ok (sc_futures sc)"
    using assms by (force simp: sched_ok_def)+
  obtain a fm where f: "create_future (sc_replica_num sc + 1) (sc_futures sc) = (Inr a, fm)" "fm_ok fm"
    "get_future (sc_replica_num sc + 1) fm = Some a" "peek (sc_futures sc) a = None" "peek fm a = Some Pending"
    "\<forall>k'. k' \<noteq> sc_replica_num sc + 1 \<longrightarrow> get_future k' fm = get_future k' (sc_futures sc)"
    "\<forall>a'. a' \<noteq> a \<longrightarrow> peek fm a' = peek (sc_futures sc) a'"
    using futures.mk_fresh [OF none ok] by blast
  have "create_replica_rpc request None sc = (Inr (Inr a),
      sc\<lparr>sc_replica_num := sc_replica_num sc + 1, sc_launched := sc_launched sc @
        [replica_command (sc_replica_num sc + 1) (int_text (50100 + (sc_replica_num sc + 1)))
          (cq_deployment_name request) (int_text (cq_deployment_id request)) (int_text (sc_node_port sc))],
        sc_futures := fm\<rparr>)"
    using f(1) by (simp add: create_replica_rpc_def start_replica_cpp_def Let_def)
  with f show ?thesis by (intro exI [of _ a] exI [of _ fm]) auto
qed

lemma create_failed:
  assumes "sched_ok sc"
  shows "create_replica_rpc request (Some e) sc =
    (Inr (Inl \<lparr>cr_worker_id = sc_worker_id sc,
       cr_replicas = [\<lparr>rc_replica_id = sc_replica_num sc + 1, rc_port = int_text (50100 + (sc_replica_num sc + 1))\<rparr>],
       cr_worker_address = sc_node_address sc, cr_created = False\<rparr>),
     sc\<lparr>sc_replica_num := sc_replica_num sc + 1\<rparr>)"
proof -
  have "get_future (sc_replica_num sc + 1) (sc_futures sc) = None"
    using assms by (force simp: sched_ok_def)
  then have "set_result (sc_replica_num sc + 1) v (sc_futures sc) = sc_futures sc" for v
    by (simp add: set_result_def settle_key_def pop_future_def get_future_def ddel_absent)
  then show ?thesis by (simp add: create_replica_rpc_def start_replica_cpp_def Let_def)
qed

lemma sched_ok_create: "sched_ok sc \<Longrightarrow> sched_ok (snd (create_replica_rpc request failure sc))"
proof (cases failure)
  case None
  assume ok: "sched_ok sc"
  then obtain ids where ids: "launched_ids sc ids" and n: "0 \<le> sc_replica_num sc" by (auto simp: sched_ok_def)
  obtain a fm where c: "fm_ok fm"
    "\<forall>k. get_future k fm = (if k = sc_replica_num sc + 1 then Some a else get_future k (sc_futures sc))"
    "create_replica_rpc request None sc = (Inr (Inr a),
      sc\<lparr>sc_replica_num := sc_replica_num sc + 1, sc_launched := sc_launched sc @
        [replica_command (sc_replica_num sc + 1) (int_text (50100 + (sc_replica_num sc + 1)))
          (cq_deployment_name request) (int_text (cq_deployment_id request)) (int_text (sc_node_port sc))],
        sc_futures := fm\<rparr>)"
    using create_started [OF ok, of request] by blast
  have "\<exists>ids. launched_ids (snd (create_replica_rpc request None sc)) ids"
    using launched_snoc [OF ids, of "cq_deployment_name request" "int_text (cq_deployment_id request)"] n
    by (intro exI [of _ "ids @ [sc_replica_num sc + 1]"]) (auto simp: c(3) launched_ids_def)
  with ok c n None show ?thesis by (force simp: sched_ok_def)
next
  case (Some e)
  assume ok: "sched_ok sc"
  then obtain ids where "launched_ids sc ids" by (auto simp: sched_ok_def)
  then have "launched_ids (sc\<lparr>sc_replica_num := sc_replica_num sc + 1\<rparr>) ids"
    by (rule launched_mono) simp_all
  with ok Some create_failed [OF ok, of request e] show ?thesis by (force simp: sched_ok_def)
qed

lemma launched_frame [simp]:
  "launched_ids (sc\<lparr>sc_registry := r\<rparr>) = launched_ids sc"
  "launched_ids (sc\<lparr>sc_futures := f\<rparr>) = launched_ids sc"
  "launched_ids (sc\<lparr>sc_killed := ks, sc_stopped := b\<rparr>) = launched_ids sc"
  by (simp_all add: launched_ids_def fun_eq_iff)

lemma sched_ok_register: "sched_ok sc \<Longrightarrow> sched_ok (snd (register_replica_rpc status sc))"
  by (auto simp: sched_ok_def register_replica_rpc_def Let_def replica_init_def futures.fulfil_ok
      futures.fulfil_owner split: if_splits dest!: mem_dset)

lemma sched_ok_processing: "sched_ok sc \<Longrightarrow> sched_ok (replica_processing k sc)"
  by (auto simp: sched_ok_def replica_processing_def split: option.splits dest!: mem_dset)

lemma sched_ok_cancelled: "sched_ok sc \<Longrightarrow> sched_ok (await_cancelled a sc)"
  by (simp add: sched_ok_def await_cancelled_def fm_ok_await_cancelled) (simp add: get_future_def)

lemma cleanup_nothing: "sched_ok sc \<Longrightarrow> cleanup_replicas sc = sc"
  by (simp add: sched_ok_def cleanup_replicas_def filter_id_conv)

lemma sched_ok_kill: "sched_ok sc \<Longrightarrow> sched_ok (send_kill_signal sc)"
  by (simp add: sched_ok_def send_kill_signal_def)

lemma sched_ok_health: "sched_ok sc \<Longrightarrow> sched_ok (snd (health_round_finish output sc))"
  by (cases "output") (auto simp: health_round_finish_def cleanup_nothing sched_ok_kill)

interpretation sched_machine: safe_machine sched_start sched_step sched_ok
proof unfold_locales
  show "sched_ok s" if "sched_start s" for s
    using that sched_ok_init by (auto simp: sched_start_def)
  show "sched_ok t" if "sched_step s t" "sched_ok s" for s t
    using that
    by (induction rule: sched_step.induct)
      (simp_all add: sched_ok_create sched_ok_register sched_ok_processing sched_ok_cancelled
        sched_ok_health ping_rpc_def)
qed


section \<open>A sample scheduler\<close>

definition demo_sched :: scheduler where
  "demo_sched = sched_init 1 ''10.0.0.1'' 50051 ''10.0.0.100'' ''50052''"

definition demo_creation :: creation_request where
  "demo_creation = \<lparr>cq_base_node_address = ''10.0.0.100:50052'', cq_deployment_id = 2, cq_num_cpus = 0,
     cq_num_gpus = 0, cq_deployment_name = ''/v1/chat/tinyllama''\<rparr>"

definition demo_status :: replica_status where
  "demo_status = \<lparr>rs_state = ''idle'', rs_replica_id = 1, rs_pid = 4711, rs_port = ''50101'',
     rs_deployment_id = 2, rs_deployment_name = ''/v1/chat/tinyllama''\<rparr>"

definition demo_waiting_sched :: scheduler where
  "demo_waiting_sched = snd (create_replica_rpc demo_creation None demo_sched)"

definition demo_registered :: scheduler where
  "demo_registered = snd (register_replica_rpc demo_status demo_waiting_sched)"

lemma demo_sched_reach: "reach sched_start sched_step demo_sched"
  unfolding demo_sched_def by (rule reach_init) (unfold sched_start_def, blast)

lemma demo_waiting_reach: "reach sched_start sched_step demo_waiting_sched"
  unfolding demo_waiting_sched_def by (rule reach_step [OF demo_sched_reach sched_step.create])

lemma demo_registered_reach: "reach sched_start sched_step demo_registered"
  unfolding demo_registered_def by (rule reach_step [OF demo_waiting_reach sched_step.register])

lemma demo_waiting_facts:
  "sc_registry demo_waiting_sched = []" "sc_worker_id demo_waiting_sched = 1"
  "sc_node_address demo_waiting_sched = ''10.0.0.1''"
  "get_future 1 (sc_futures demo_waiting_sched) = Some 0"
  "peek (sc_futures demo_waiting_sched) 0 = Some Pending"
  by (simp_all add: demo_waiting_sched_def create_replica_rpc_def start_replica_cpp_def demo_sched_def
      sched_init_def Let_def create_future_def fm_init_def get_future_def peek_def)

section \<open>Properties\<close>

text \<open>
  C18. Every creation gets an identifier and ports of its own.  In every reachable state of a scheduler, a
  \<open>CreateReplica\<close> call whose process can be started takes the identifier \<open>replica_num + 1\<close> and awaits a new
  pending future under it (it never meets the \<open>RuntimeError\<close> of a key in use); it appends exactly one command
  line, that of this identifier \<open>k\<close> with the port \<open>50100 + k\<close> and the deployment asked for, and every process
  started before was started with the command line of a smaller identifier \<open>i\<close> and the port \<open>50100 + i\<close>.
\<close>

theorem creations_have_own_ports:
  assumes "reach sched_start sched_step sc"
  shows "\<exists>a sc'. create_replica_rpc request None sc = (Inr (Inr a), sc') \<and>
    get_future (sc_replica_num sc') (sc_futures sc') = Some a \<and> peek (sc_futures sc') a = Some Pending \<and>
    peek (sc_futures sc) a = None \<and> sc_replica_num sc' = sc_replica_num sc + 1 \<and>
    sc_launched sc' = sc_launched sc @ [replica_command (sc_replica_num sc')
      (int_text (50100 + sc_replica_num sc')) (cq_deployment_name request)
      (int_text (cq_deployment_id request)) (int_text (sc_node_port sc))] \<and>
    (\<forall>cmd \<in> set (sc_launched sc). \<exists>i name dep. i < sc_replica_num sc' \<and>
      cmd = replica_command i (int_text (50100 + i)) name dep (int_text (sc_node_port sc)))"
proof -
  have ok: "sched_ok sc" using sched_machine.reach_safe [OF assms] .
  then obtain ids where ids: "launched_ids sc ids" by (auto simp: sched_ok_def)
  have "\<exists>i name dep. i < sc_replica_num sc + 1 \<and>
      cmd = replica_command i (int_text (50100 + i)) name dep (int_text (sc_node_port sc))"
    if cmd: "cmd \<in> set (sc_launched sc)" for cmd
  proof -
    from ids have l: "list_all2 (\<lambda>i cmd. \<exists>name dep. cmd =
        replica_command i (int_text (50100 + i)) name dep (int_text (sc_node_port sc))) ids (sc_launched sc)"
      and b: "\<forall>i \<in> set ids. i \<le> sc_replica_num sc" by (auto simp: launched_ids_def)
    from cmd obtain j where j: "j < length (sc_launched sc)" "sc_launched sc ! j = cmd"
      by (auto simp: in_set_conv_nth)
    with l have "j < length ids" by (simp add: list_all2_lengthD)
    then have "ids ! j \<le> sc_replica_num sc" using b by simp
    then show ?thesis using list_all2_nthD2 [OF l j(1)] j(2) by fastforce
  qed
  with create_started [OF ok, of request] show ?thesis by fastforce
qed

theorem creations_have_own_ports_witness:
  "\<exists>a sc'. create_replica_rpc demo_creation None demo_waiting_sched = (Inr (Inr a), sc') \<and>
    sc_replica_num sc' = 2 \<and> peek (sc_futures sc') a = Some Pending \<and> length (sc_launched sc') = 2"
proof -
  have "sc_replica_num demo_waiting_sched = 1" "length (sc_launched demo_waiting_sched) = 1"
    by (simp_all add: demo_waiting_sched_def create_replica_rpc_def start_replica_cpp_def demo_sched_def
        sched_init_def Let_def create_future_def fm_init_def)
  with creations_have_own_ports [OF demo_waiting_reach, of demo_creation] show ?thesis by fastforce
qed

text \<open>
  C19. The creation that waits for a replica gets exactly that replica's registration.  In every
  reachable state, when the replica \<open>k\<close> registers for the first time and a \<open>CreateReplica\<close> call waits
  for \<open>k\<close>, this call's future gets the reply \<open>created\<close> with the worker's number and address, the
  identifier \<open>k\<close> and the reported port, no other call's future changes, and the replica is in the
  registry with the reported process, port and deployment.
\<close>

theorem registration_answers_creation:
  assumes "reach sched_start sched_step sc" and "rs_replica_id status \<notin> dkeys (sc_registry sc)"
    and "get_future (rs_replica_id status) (sc_futures sc) = Some a" and "peek (sc_futures sc) a = Some Pending"
  shows "\<exists>sc'. register_replica_rpc status sc = (True, sc') \<and>
    peek (sc_futures sc') a = Some (Result \<lparr>cr_worker_id = sc_worker_id sc,
      cr_replicas = [\<lparr>rc_replica_id = rs_replica_id status, rc_port = rs_port status\<rparr>],
      cr_worker_address = sc_node_address sc, cr_created = True\<rparr>) \<and>
    (\<forall>a'. a' \<noteq> a \<longrightarrow> peek (sc_futures sc') a' = peek (sc_futures sc) a') \<and>
    (\<exists>h. dget (sc_registry sc') (rs_replica_id status) = Some h \<and> rh_pid h = rs_pid status \<and>
      rh_port h = rs_port status \<and> rh_deployment_id h = rs_deployment_id status)"
proof -
  have "fm_ok (sc_futures sc)" using sched_machine.reach_safe [OF assms(1)] by (simp add: sched_ok_def)
  with assms(2-4) show ?thesis
    by (simp add: register_replica_rpc_def Let_def replica_init_def futures.fulfil_look registration_reply_def)
qed

theorem registration_answers_creation_witness:
  "peek (sc_futures demo_registered) 0 = Some (Result \<lparr>cr_worker_id = 1,
      cr_replicas = [\<lparr>rc_replica_id = 1, rc_port = ''50101''\<rparr>], cr_worker_address = ''10.0.0.1'', cr_created = True\<rparr>)"
proof -
  have "rs_replica_id demo_status = 1" "rs_port demo_status = ''50101''" by (simp_all add: demo_status_def)
  then show ?thesis
    using registration_answers_creation [OF demo_waiting_reach, of demo_status 0]
    by (auto simp: demo_waiting_facts demo_registered_def)
qed

text \<open>
  A process that cannot be started is reported at once: \<open>CreateReplica\<close> answers \<open>created = False\<close>
  with the identifier and port it had chosen, uses the identifier up, and changes neither the
  registry nor the future of any call that waits.
\<close>

theorem creation_failure_reported:
  assumes "reach sched_start sched_step sc"
  shows "create_replica_rpc request (Some e) sc =
    (Inr (Inl \<lparr>cr_worker_id = sc_worker_id sc, cr_replicas =
        [\<lparr>rc_replica_id = sc_replica_num sc + 1, rc_port = int_text (50100 + (sc_replica_num sc + 1))\<rparr>],
        cr_worker_address = sc_node_address sc, cr_created = False\<rparr>),
     sc\<lparr>sc_replica_num := sc_replica_num sc + 1\<rparr>)"
  by (rule create_failed) (rule sched_machine.reach_safe [OF assms])

theorem creation_failure_reported_witness:
  "\<exists>reply sc'. create_replica_rpc demo_creation (Some (GenericError ''no such file'')) demo_waiting_sched =
     (Inr (Inl reply), sc') \<and> \<not> cr_created reply \<and> sc_futures sc' = sc_futures demo_waiting_sched"
  using creation_failure_reported [OF demo_waiting_reach, of demo_creation "GenericError ''no such file''"]
  by simp

text \<open>
  A dead replica is never reported.  In every reachable state of the scheduler no replica has the
  status \<open>DEAD\<close> (nothing in the program ever assigns it), so no health report ever lists a dead
  replica and the clean-up after a report removes nothing.
\<close>

theorem never_reports_dead:
  assumes "reach sched_start sched_step sc"
  shows "(\<forall>rs \<in> set (hu_replica_states (health_report sc)). rst_status rs \<noteq> ''DEAD'') \<and>
    cleanup_replicas sc = sc"
  using sched_machine.reach_safe [OF assms] cleanup_nothing [of sc]
  by (auto simp: sched_ok_def health_report_def)

theorem never_reports_dead_witness:
  "map rst_replica_id (hu_replica_states (health_report demo_registered)) = [1] \<and>
   (\<forall>rs \<in> set (hu_replica_states (health_report demo_registered)). rst_status rs \<noteq> ''DEAD'')"
proof -
  have "sc_registry demo_registered = [(1, replica_init 4711 1 1 2 ''50101'')]"
    by (simp add: demo_registered_def register_replica_rpc_def demo_waiting_facts demo_status_def Let_def dict_eval)
  then show ?thesis using never_reports_dead [OF demo_registered_reach] by (simp add: health_report_def)
qed

text \<open>
  The heartbeat loop does not survive a replica that is down.  A round over live replicas returns
  normally only if all of them answer; otherwise it raises \<open>AttributeError\<close> at the first that does
  not (the handle has no \<open>deployment_name\<close>), which ends the loop: the replicas after it are not
  pinged and in no case is a process restarted.
\<close>

theorem heartbeat_dies_on_first_failure:
  assumes "\<forall>r \<in> set regs. rh_status (snd r) \<noteq> ''DEAD''"
  shows "heartbeat_round ping regs =
    (if \<forall>r \<in> set regs. answered (ping (fst r)) then (Inr (), [], map fst regs)
     else (Inl (AttributeError ''deployment_name''), [],
       map fst (takeWhile (\<lambda>r. answered (ping (fst r))) regs) @
       [fst (hd (dropWhile (\<lambda>r. answered (ping (fst r))) regs))]))"
  using assms by (induction regs) (force simp: handle_deployment_name_def)+

theorem heartbeat_dies_on_first_failure_witness:
  "heartbeat_round (\<lambda>k. if k = 2 then GotExn (RpcError ''UNAVAILABLE'') else Got True)
     [(1, replica_init 11 1 1 2 ''50101''), (2, replica_init 12 2 1 2 ''50102''),
      (3, replica_init 13 3 1 2 ''50103'')] = (Inl (AttributeError ''deployment_name''), [], [1, 2])"
  by (subst heartbeat_dies_on_first_failure) (auto simp: replica_init_def)

text \<open>
  A scheduler that loses its head node stops and takes its replicas with it: when the three
  attempts to deliver a health report all fail, exactly three calls were made, a kill signal goes to
  the process of every registered replica and then to the scheduler itself, and the loop ends.
\<close>

theorem lost_head_kills_all:
  assumes "\<And>j. j < 3 \<Longrightarrow> \<exists>e. fst (stub (health_report sc) (after_calls (stub (health_report sc)) j s)) = Inl e"
  shows "health_round stub draw sc s =
    (False, sc\<lparr>sc_killed := sc_killed sc @ map rh_pid (dvalues (sc_registry sc)), sc_stopped := True\<rparr>,
     after_calls (stub (health_report sc)) 3 s)"
proof -
  let ?call = "stub (health_report sc)"
  obtain r sleeps s' where t: "try_send_with_retries ?call draw 3 2 2 10 True s = (r, sleeps, s')"
    by (cases "try_send_with_retries ?call draw 3 2 2 10 True s") auto
  obtain e where "r = GotExn e \<and> s' = after_calls ?call 3 s"
    using async_retry.run_exhausted [where n = 3 and call = ?call and s = s and draw = draw and
        delay = 2 and factor = 2 and md = 10 and jitter = True] assms t
    by (force simp: run_async_def)
  with t show ?thesis
    by (simp add: health_round_def try_send_default_def health_round_finish_def send_kill_signal_def
        dvalues_def comp_def case_prod_unfold)
qed

definition lost :: "health_update \<Rightarrow> nat \<Rightarrow> health_reply res \<times> nat" where
  "lost rq n = (Inl (RpcError ''UNAVAILABLE''), Suc n)"

theorem lost_head_kills_all_witness:
  "\<exists>sc'. health_round lost (\<lambda>_ _. 0) demo_registered (0 :: nat) = (False, sc', 3) \<and>
    sc_killed sc' = [4711] \<and> sc_stopped sc'"
proof -
  have reg: "dvalues (sc_registry demo_registered) = [replica_init 4711 1 1 2 ''50101'']"
    "sc_killed demo_registered = []"
    by (simp_all add: demo_registered_def register_replica_rpc_def demo_waiting_facts demo_status_def
        Let_def dict_eval) (simp add: demo_waiting_sched_def create_replica_rpc_def start_replica_cpp_def
        demo_sched_def sched_init_def Let_def create_future_def fm_init_def)
  have "after_calls (lost rq) 3 0 = 3" for rq by (simp add: lost_def numeral_3_eq_3)
  moreover have "health_round lost (\<lambda>_ _. 0) demo_registered (0 :: nat) =
    (False, demo_registered\<lparr>sc_killed := sc_killed demo_registered @ map rh_pid (dvalues (sc_registry demo_registered)),
       sc_stopped := True\<rparr>, after_calls (lost (health_report demo_registered)) 3 0)"
    by (rule lost_head_kills_all) (simp add: lost_def)
  ultimately show ?thesis by (simp add: reg replica_init_def)
qed

text \<open>
  Start-up registration either gets through or ends the scheduler.  When the three attempts are
  all refused with a gRPC error, exactly three calls were made and the scheduler is killed; when
  one of the first three calls is acknowledged and those before it were refused, it is registered.
\<close>

theorem register_node_outcomes:
  assumes "sched_register_request worker_id node_address node_port num_cpus num_gpus = Inr request"
    and "\<And>j. j < k \<Longrightarrow> \<exists>e. fst (stub request (after_calls (stub request) j s)) = Inl e \<and> is_rpc_error e"
    and "k \<le> 3" and "k < 3 \<Longrightarrow> fst (stub request (after_calls (stub request) k s)) = Inr True"
  shows "sched_register_node stub worker_id node_address node_port num_cpus num_gpus s =
    (if k = 3 then (Inr SchedulerKilled, after_calls (stub request) 3 s)
     else (Inr Registered, after_calls (stub request) (Suc k) s))"
proof -
  obtain r sl s' where t: "try_send_with_retries_sync (stub request) 3 1 s = (r, sl, s')"
    by (cases "try_send_with_retries_sync (stub request) 3 1 s") auto
  then have run: "run_sync 1 3 (stub request) s = (r, s')" by (simp add: run_sync_def)
  show ?thesis
  proof (cases "k = 3")
    case True
    then have "r = Inr GotNone \<and> s' = after_calls (stub request) 3 s"
      using sync_retry.run_exhausted [where n = 3 and call = "stub request" and s = s and delay = 1]
        assms(2) run by auto
    with t True assms(1) show ?thesis by (simp add: sched_register_node_def)
  next
    case False
    then have "r = Inr (Got True) \<and> s' = after_calls (stub request) (Suc k) s"
      using sync_retry.run_first_success [where n = 3 and k = k and call = "stub request" and s = s and
          delay = 1 and v = True] assms(2-4) run by simp
    with t False assms(1) show ?thesis by (simp add: sched_register_node_def)
  qed
qed

definition refusing :: "nat \<Rightarrow> register_request \<Rightarrow> nat \<Rightarrow> bool res \<times> nat" where
  "refusing n rq c = (if c < n then Inl (RpcError ''UNAVAILABLE'') else Inr True, Suc c)"

theorem register_node_outcomes_witness:
  "sched_register_node (refusing 1) (int_text 1) ''10.0.0.1'' ''50051'' (int_text 4) (int_text 1) 0 =
    (Inr Registered, 2)"
proof -
  let ?rq = "\<lparr>rq_node_id = 1, rq_node_address = ''10.0.0.1'', rq_port = ''50051'', rq_state = ''alive'',
    rq_resource = \<lparr>res_num_cpus = 4, res_num_gpus = 1\<rparr>\<rparr>"
  have "sched_register_request (int_text 1) ''10.0.0.1'' ''50051'' (int_text 4) (int_text 1) = Inr ?rq"
    by (simp add: sched_register_request_def uint32_ok_def)
  from register_node_outcomes [OF this, of 1 "refusing 1" 0] show ?thesis
    by (simp add: refusing_def numeral_2_eq_2)
qed

end
