(* ===== verification/Cluster.thy ===== *)
theory Cluster
  imports HeadProps SchedulerProps
begin

text \<open>
  The control plane as one machine: the head controller, the schedulers of the workers, and the
  \<open>CreateReplica\<close> calls between them.  A step is one handler of one process; the messages it sends are
  the ones the receiving handler gets, so nothing is assumed about replies and reports here.

  Assumed of the environment: every scheduler identifier starts once (\<open>boot\<close>; the controller starts
  one VM for each of four identifiers), and a process that registers with a scheduler reports the
  identifier, the port and the deployment it was started with (\<open>from_launch\<close>).  Calls may be lost at
  any time, registrations may come late, twice or never.  \<open>attempt_lost\<close> is a call that the retry helper
  repeats (\<open>call\<close> is enabled again), \<open>lost\<close> the last failed attempt of a task.
\<close>

text \<open>A call that awaits the future \<open>ca_future\<close> of its scheduler; \<open>ca_replica\<close> is the replica it started.\<close>

record call =
  ca_worker :: int
  ca_deployment :: int
  ca_replica :: int
  ca_future :: nat

record cluster =
  cl_head :: head_state
  cl_workers :: "(int, scheduler) dict"
  cl_calls :: "call list"

definition from_launch :: "replica_status \<Rightarrow> scheduler \<Rightarrow> bool" where
  "from_launch status sc \<longleftrightarrow> (\<exists>name. replica_command (rs_replica_id status) (rs_port status) name
     (int_text (rs_deployment_id status)) (int_text (sc_node_port sc)) \<in> set (sc_launched sc))"

definition set_worker :: "int \<Rightarrow> scheduler \<Rightarrow> cluster \<Rightarrow> cluster" where
  "set_worker w sc cl = cl\<lparr>cl_workers := dset w sc (cl_workers cl)\<rparr>"

definition grpc_address :: "scheduler \<Rightarrow> string" where
  "grpc_address sc = host_port (sc_node_address sc) (int_text (sc_node_port sc))"

inductive cluster_step :: "cluster \<Rightarrow> cluster \<Rightarrow> bool" where
  boot: "dget (cl_workers cl) w = None \<Longrightarrow>
    sched_register_request (int_text w) address (int_text port) num_cpus num_gpus = Inr rq \<Longrightarrow>
    cluster_step cl (set_worker w (sched_init w address port head_address head_port)
      (cl\<lparr>cl_head := snd (register_node rq (cl_head cl))\<rparr>))"
| queue_get: "cluster_step cl (cl\<lparr>cl_head := creation_get (cl_head cl)\<rparr>)"
| queue_spawn: "cluster_step cl (cl\<lparr>cl_head := creation_spawn (cl_head cl)\<rparr>)"
| metrics: "cluster_step cl (cl\<lparr>cl_head := snd (record_metrics mq (cl_head cl))\<rparr>)"
| subscribed: "dget (hc_subs (cl_head cl)) i = None \<Longrightarrow> cluster_step cl (cl\<lparr>cl_head := subscribe i now (cl_head cl)\<rparr>)"
| resumed: "cluster_step cl (cl\<lparr>cl_head := resume i (cl_head cl)\<rparr>)"
| disconnected: "cluster_step cl (cl\<lparr>cl_head := disconnect i (cl_head cl)\<rparr>)"
| call: "dget (cl_workers cl) w = Some sc \<Longrightarrow> (grpc_address sc, d) \<in> set (hc_spawned (cl_head cl)) \<Longrightarrow>
    create_replica_request d 0 0 (cl_head cl) = Some request \<Longrightarrow>
    create_replica_rpc request None sc = (Inr (Inr a), sc') \<Longrightarrow>
    cluster_step cl (set_worker w sc' (cl\<lparr>cl_calls := cl_calls cl @
      [\<lparr>ca_worker = w, ca_deployment = d, ca_replica = sc_replica_num sc', ca_future = a\<rparr>]\<rparr>))"
| call_fails: "dget (cl_workers cl) w = Some sc \<Longrightarrow> (grpc_address sc, d) \<in> set (hc_spawned (cl_head cl)) \<Longrightarrow>
    create_replica_request d 0 0 (cl_head cl) = Some request \<Longrightarrow>
    create_replica_rpc request (Some e) sc = (Inr (Inl error_reply), sc') \<Longrightarrow>
    cluster_step cl (set_worker w sc'
      (cl\<lparr>cl_head := snd (create_replica_finish now d 0 0 (Got error_reply) (cl_head cl))\<rparr>))"
| registers: "dget (cl_workers cl) w = Some sc \<Longrightarrow> from_launch status sc \<Longrightarrow>
    cluster_step cl (set_worker w (snd (register_replica_rpc status sc)) cl)"
| works: "dget (cl_workers cl) w = Some sc \<Longrightarrow> cluster_step cl (set_worker w (replica_processing k sc) cl)"
| cancelled: "dget (cl_workers cl) w = Some sc \<Longrightarrow> cluster_step cl (set_worker w (await_cancelled a sc) cl)"
| answer: "ca \<in> set (cl_calls cl) \<Longrightarrow> dget (cl_workers cl) (ca_worker ca) = Some sc \<Longrightarrow>
    peek (sc_futures sc) (ca_future ca) = Some (Result reply) \<Longrightarrow>
    cluster_step cl (cl\<lparr>cl_head := snd (create_replica_finish now (ca_deployment ca) 0 0 (Got reply) (cl_head cl)),
      cl_calls := remove1 ca (cl_calls cl)\<rparr>)"
| lost: "ca \<in> set (cl_calls cl) \<Longrightarrow> failed \<in> {GotExn e, GotNone} \<Longrightarrow>
    cluster_step cl (cl\<lparr>cl_head := snd (create_replica_finish now (ca_deployment ca) 0 0 failed (cl_head cl)),
      cl_calls := remove1 ca (cl_calls cl)\<rparr>)"
| attempt_lost: "ca \<in> set (cl_calls cl) \<Longrightarrow> cluster_step cl (cl\<lparr>cl_calls := remove1 ca (cl_calls cl)\<rparr>)"
| reports: "dget (cl_workers cl) w = Some sc \<Longrightarrow>
    cluster_step cl (cl\<lparr>cl_head := snd (head_send_health_status now (health_report sc) (cl_head cl))\<rparr>)"
| report_ends: "dget (cl_workers cl) w = Some sc \<Longrightarrow>
    cluster_step cl (set_worker w (snd (health_round_finish acknowledgement sc)) cl)"

definition cluster_start :: "cluster \<Rightarrow> bool" where
  "cluster_start cl \<longleftrightarrow> head_start (cl_head cl) \<and> cl_workers cl = [] \<and> cl_calls cl = []"

section \<open>The invariant\<close>

definition serves :: "dep_manager \<Rightarrow> int \<Rightarrow> replica_info \<Rightarrow> bool" where
  "serves dm d info \<longleftrightarrow> (\<exists>n v rs. routes dm d = Some (n, v, rs) \<and> info \<in> set rs)"

text \<open>A routed replica that a scheduler has in its registry, for this deployment, at this address.\<close>

definition backed :: "(int, scheduler) dict \<Rightarrow> int \<Rightarrow> replica_info \<Rightarrow> bool" where
  "backed workers d info \<longleftrightarrow> (\<exists>w sc k h. dget workers w = Some sc \<and> dget (sc_registry sc) k = Some h \<and>
     rh_deployment_id h = d \<and> info = \<lparr>ri_replica_num = replica_key (int_text w) (int_text k),
       ri_address = host_port (sc_node_address sc) (rh_port h), ri_state = ''RUNNING''\<rparr>)"

definition launched_for :: "scheduler \<Rightarrow> int \<Rightarrow> int \<Rightarrow> bool" where
  "launched_for sc k d \<longleftrightarrow> (\<exists>port name. replica_command k port name (int_text d)
     (int_text (sc_node_port sc)) \<in> set (sc_launched sc))"

definition worker_ok :: "int \<Rightarrow> scheduler \<Rightarrow> bool" where
  "worker_ok w sc \<longleftrightarrow> sched_ok sc \<and> sc_worker_id sc = w \<and>
     (\<forall>k h. dget (sc_registry sc) k = Some h \<longrightarrow> k \<le> sc_replica_num sc)"

definition call_ok :: "scheduler \<Rightarrow> call \<Rightarrow> bool" where
  "call_ok sc ca \<longleftrightarrow> ca_replica ca \<le> sc_replica_num sc \<and> launched_for sc (ca_replica ca) (ca_deployment ca) \<and>
     peek (sc_futures sc) (ca_future ca) \<noteq> None \<and>
     (peek (sc_futures sc) (ca_future ca) = Some Pending \<longrightarrow>
        get_future (ca_replica ca) (sc_futures sc) = Some (ca_future ca)) \<and>
     (\<forall>r. peek (sc_futures sc) (ca_future ca) = Some (Result r) \<longrightarrow>
        (\<exists>h. dget (sc_registry sc) (ca_replica ca) = Some h \<and> rh_deployment_id h = ca_deployment ca \<and>
          r = \<lparr>cr_worker_id = sc_worker_id sc,
            cr_replicas = [\<lparr>rc_replica_id = ca_replica ca, rc_port = rh_port h\<rparr>],
            cr_worker_address = sc_node_address sc, cr_created = True\<rparr>))"

definition call_key :: "call \<Rightarrow> string" where
  "call_key ca = replica_key (int_text (ca_worker ca)) (int_text (ca_replica ca))"

definition calls_ok :: "dep_manager \<Rightarrow> (int, scheduler) dict \<Rightarrow> call list \<Rightarrow> bool" where
  "calls_ok dm workers calls \<longleftrightarrow> distinct (map call_key calls) \<and>
     (\<forall>ca \<in> set calls. ca_deployment ca = 2 \<and>
        (\<exists>sc. dget workers (ca_worker ca) = Some sc \<and> call_ok sc ca) \<and>
        dget (dm_replica_map dm) (call_key ca) = None)"

definition cluster_ok :: "cluster \<Rightarrow> bool" where
  "cluster_ok cl \<longleftrightarrow> head_ok (cl_head cl) \<and>
     (\<forall>w sc. dget (cl_workers cl) w = Some sc \<longrightarrow>
        worker_ok w sc \<and> used_on (dm_nodes (hc_dm (cl_head cl))) w \<noteq> None) \<and>
     calls_ok (hc_dm (cl_head cl)) (cl_workers cl) (cl_calls cl) \<and>
     (cl_calls cl \<noteq> [] \<longrightarrow> hc_spawned (cl_head cl) \<noteq> []) \<and>
     (\<forall>d info. serves (hc_dm (cl_head cl)) d info \<longrightarrow> backed (cl_workers cl) d info)"

lemma cluster_okD:
  assumes "cluster_ok cl"
  shows "head_ok (cl_head cl)" and "dget (cl_workers cl) w = Some sc \<Longrightarrow> worker_ok w sc"
    and "dget (cl_workers cl) w = Some sc \<Longrightarrow> used_on (dm_nodes (hc_dm (cl_head cl))) w \<noteq> None"
    and "calls_ok (hc_dm (cl_head cl)) (cl_workers cl) (cl_calls cl)"
    and "cl_calls cl \<noteq> [] \<Longrightarrow> hc_spawned (cl_head cl) \<noteq> []"
    and "serves (hc_dm (cl_head cl)) d info \<Longrightarrow> backed (cl_workers cl) d info"
  using assms unfolding cluster_ok_def by blast+

lemma cluster_okI:
  assumes "head_ok (cl_head cl)" and "\<And>w sc. dget (cl_workers cl) w = Some sc \<Longrightarrow> worker_ok w sc"
    and "\<And>w sc. dget (cl_workers cl) w = Some sc \<Longrightarrow> used_on (dm_nodes (hc_dm (cl_head cl))) w \<noteq> None"
    and "calls_ok (hc_dm (cl_head cl)) (cl_workers cl) (cl_calls cl)"
    and "cl_calls cl \<noteq> [] \<Longrightarrow> hc_spawned (cl_head cl) \<noteq> []"
    and "\<And>d info. serves (hc_dm (cl_head cl)) d info \<Longrightarrow> backed (cl_workers cl) d info"
  shows "cluster_ok cl"
  using assms unfolding cluster_ok_def by blast

text \<open>The identifiers the head knows are those of the replicas it routes.\<close>

lemma serves_live: "serves dm d info \<longleftrightarrow> (\<exists>a. live dm d a \<and> info = dm_objs dm ! a)"
proof
  assume "serves dm d info"
  then obtain dep where "dget (dm_deployments dm) d = Some dep" "info \<in> (\<lambda>a. dm_objs dm ! a) ` set (dh_replicas dep)"
    by (auto simp: serves_def routes_def)
  then show "\<exists>a. live dm d a \<and> info = dm_objs dm ! a" by (auto simp: live_def)
qed (auto simp: serves_def routes_def live_def)

lemma known_serves:
  assumes "dm_shape dm"
  shows "dget (dm_replica_map dm) rid \<noteq> None \<longleftrightarrow> (\<exists>d info. serves dm d info \<and> ri_replica_num info = rid)"
proof
  assume "dget (dm_replica_map dm) rid \<noteq> None"
  then obtain a where a: "dget (dm_replica_map dm) rid = Some a" by blast
  then show "\<exists>d info. serves dm d info \<and> ri_replica_num info = rid"
    using shape_mapped [OF assms a] by (auto simp: serves_live)
next
  assume "\<exists>d info. serves dm d info \<and> ri_replica_num info = rid"
  then obtain d a where "live dm d a" "ri_replica_num (dm_objs dm ! a) = rid" by (auto simp: serves_live)
  then show "dget (dm_replica_map dm) rid \<noteq> None" using shape_live [OF assms] by auto
qed

lemma serves_add:
  assumes "routes dm' = spec_add d0 i (routes dm)" and "routes dm d0 \<noteq> None"
  shows "serves dm' d info \<longleftrightarrow> serves dm d info \<or> d = d0 \<and> info = i"
  using assms by (auto simp: serves_def spec_add_def)

lemma serves_routes: "routes dm' = routes dm \<Longrightarrow> serves dm' = serves dm"
  by (simp add: serves_def fun_eq_iff)

section \<open>Steps of a scheduler\<close>

text \<open>What no step of a scheduler takes away.\<close>

definition extends :: "scheduler \<Rightarrow> scheduler \<Rightarrow> bool" where
  "extends sc sc' \<longleftrightarrow> sc_worker_id sc' = sc_worker_id sc \<and> sc_node_address sc' = sc_node_address sc \<and>
     sc_node_port sc' = sc_node_port sc \<and> sc_replica_num sc \<le> sc_replica_num sc' \<and>
     set (sc_launched sc) \<subseteq> set (sc_launched sc') \<and>
     (\<forall>k h. dget (sc_registry sc) k = Some h \<longrightarrow> (\<exists>h'. dget (sc_registry sc') k = Some h' \<and>
        rh_port h' = rh_port h \<and> rh_deployment_id h' = rh_deployment_id h))"

lemma extendsD:
  assumes "extends sc sc'"
  shows "sc_worker_id sc' = sc_worker_id sc" and "sc_node_address sc' = sc_node_address sc"
    and "sc_node_port sc' = sc_node_port sc" and "sc_replica_num sc \<le> sc_replica_num sc'"
    and "set (sc_launched sc) \<subseteq> set (sc_launched sc')"
    and "dget (sc_registry sc) k = Some h \<Longrightarrow> \<exists>h'. dget (sc_registry sc') k = Some h' \<and>
      rh_port h' = rh_port h \<and> rh_deployment_id h' = rh_deployment_id h"
  using assms unfolding extends_def by blast+

lemma launched_for_extends: "extends sc sc' \<Longrightarrow> launched_for sc k d \<Longrightarrow> launched_for sc' k d"
  using extendsD(3,5) [of sc sc'] by (auto simp: launched_for_def)

lemma backed_extends:
  assumes "dget workers w = Some sc" and "extends sc sc'" and "backed workers d info"
  shows "backed (dset w sc' workers) d info"
proof -
  obtain w0 sc0 k h where b: "dget workers w0 = Some sc0" "dget (sc_registry sc0) k = Some h"
    "rh_deployment_id h = d" "info = \<lparr>ri_replica_num = replica_key (int_text w0) (int_text k),
       ri_address = host_port (sc_node_address sc0) (rh_port h), ri_state = ''RUNNING''\<rparr>"
    using assms(3) unfolding backed_def by blast
  show ?thesis
  proof (cases "w0 = w")
    case True
    with b(1) assms(1) have "sc0 = sc" by simp
    with b(2) assms(2) obtain h' where "dget (sc_registry sc') k = Some h'" "rh_port h' = rh_port h"
      "rh_deployment_id h' = rh_deployment_id h" "sc_node_address sc' = sc_node_address sc"
      unfolding extends_def by blast
    with b True \<open>sc0 = sc\<close> show ?thesis unfolding backed_def by (intro exI [of _ w] exI [of _ sc'] exI [of _ k]) auto
  next
    case False
    with b show ?thesis unfolding backed_def by (intro exI [of _ w0] exI [of _ sc0] exI [of _ k]) auto
  qed
qed

lemma cluster_ok_worker:
  assumes ok: "cluster_ok cl" and w: "dget (cl_workers cl) w = Some sc" and ok': "worker_ok w sc'"
    and ext: "extends sc sc'"
    and calls: "\<And>ca. ca \<in> set (cl_calls cl) \<Longrightarrow> ca_worker ca = w \<Longrightarrow> call_ok sc ca \<Longrightarrow> call_ok sc' ca"
  shows "cluster_ok (set_worker w sc' cl)"
proof (rule cluster_okI)
  note d = cluster_okD [OF ok]
  show "calls_ok (hc_dm (cl_head (set_worker w sc' cl))) (cl_workers (set_worker w sc' cl))
      (cl_calls (set_worker w sc' cl))"
    using d(4) calls w by (fastforce simp: calls_ok_def set_worker_def)
qed (use cluster_okD [OF ok] w ok' backed_extends [OF w ext] in \<open>auto simp: set_worker_def split: if_splits\<close>)

lemma call_ok_same:
  assumes "call_ok sc ca" and "extends sc sc'"
    and "peek (sc_futures sc') (ca_future ca) = peek (sc_futures sc) (ca_future ca)"
    and "peek (sc_futures sc) (ca_future ca) = Some Pending \<Longrightarrow>
      get_future (ca_replica ca) (sc_futures sc') = get_future (ca_replica ca) (sc_futures sc)"
  shows "call_ok sc' ca"
proof -
  have "\<exists>h. dget (sc_registry sc') (ca_replica ca) = Some h \<and> rh_deployment_id h = ca_deployment ca \<and>
      r = \<lparr>cr_worker_id = sc_worker_id sc', cr_replicas = [\<lparr>rc_replica_id = ca_replica ca, rc_port = rh_port h\<rparr>],
        cr_worker_address = sc_node_address sc', cr_created = True\<rparr>"
    if r: "peek (sc_futures sc') (ca_future ca) = Some (Result r)" for r
  proof -
    obtain h where h: "dget (sc_registry sc) (ca_replica ca) = Some h" "rh_deployment_id h = ca_deployment ca"
      "r = \<lparr>cr_worker_id = sc_worker_id sc, cr_replicas = [\<lparr>rc_replica_id = ca_replica ca, rc_port = rh_port h\<rparr>],
        cr_worker_address = sc_node_address sc, cr_created = True\<rparr>"
      using assms(1,3) r unfolding call_ok_def by auto
    obtain h' where "dget (sc_registry sc') (ca_replica ca) = Some h'" "rh_port h' = rh_port h"
      "rh_deployment_id h' = rh_deployment_id h"
      using extendsD(6) [OF assms(2) h(1)] by blast
    with h extendsD(1,2) [OF assms(2)] show ?thesis by auto
  qed
  moreover have "launched_for sc' (ca_replica ca) (ca_deployment ca)"
    using assms(1) launched_for_extends [OF assms(2)] by (simp add: call_ok_def)
  moreover have "ca_replica ca \<le> sc_replica_num sc'"
    using assms(1) extendsD(4) [OF assms(2)] by (simp add: call_ok_def)
  ultimately show ?thesis using assms(1,3,4) unfolding call_ok_def by auto
qed

lemma call_ok_futures:
  "call_ok sc ca \<Longrightarrow> extends sc sc' \<Longrightarrow> sc_futures sc' = sc_futures sc \<Longrightarrow> call_ok sc' ca"
  by (rule call_ok_same) simp_all

lemma launched_at:
  assumes "launched_ids sc ids" and "replica_command k port name dep np \<in> set (sc_launched sc)"
  shows "\<exists>j < length ids. ids ! j = k \<and> sc_launched sc ! j = replica_command k port name dep np"
proof -
  have l: "list_all2 (\<lambda>i cmd. \<exists>name dep. cmd =
      replica_command i (int_text (50100 + i)) name dep (int_text (sc_node_port sc))) ids (sc_launched sc)"
    using assms(1) by (simp add: launched_ids_def)
  obtain j where j: "j < length (sc_launched sc)" "sc_launched sc ! j = replica_command k port name dep np"
    using assms(2) by (auto simp: in_set_conv_nth)
  then have "j < length ids" using l by (simp add: list_all2_lengthD)
  moreover from list_all2_nthD2 [OF l j(1)] j(2) have "ids ! j = k" by (auto simp: replica_command_def)
  ultimately show ?thesis using j(2) by blast
qed

lemma launched_unique:
  assumes "sched_ok sc" and "launched_for sc k d" and "launched_for sc k d'"
  shows "d = d'"
proof -
  obtain ids where ids: "launched_ids sc ids" using assms(1) by (auto simp: sched_ok_def)
  then have dist: "distinct ids" by (simp add: launched_ids_def strict_sorted_iff)
  obtain port name port' name' where
    "replica_command k port name (int_text d) (int_text (sc_node_port sc)) \<in> set (sc_launched sc)"
    "replica_command k port' name' (int_text d') (int_text (sc_node_port sc)) \<in> set (sc_launched sc)"
    using assms(2,3) unfolding launched_for_def by blast
  from launched_at [OF ids this(1)] launched_at [OF ids this(2)] obtain j j' where
    "j < length ids" "j' < length ids" "ids ! j = ids ! j'"
    "sc_launched sc ! j = replica_command k port name (int_text d) (int_text (sc_node_port sc))"
    "sc_launched sc ! j' = replica_command k port' name' (int_text d') (int_text (sc_node_port sc))"
    by metis
  moreover from this dist have "j = j'" by (simp add: nth_eq_iff_index_eq)
  ultimately have "replica_command k port name (int_text d) (int_text (sc_node_port sc)) =
      replica_command k port' name' (int_text d') (int_text (sc_node_port sc))" by simp
  then show ?thesis by (simp add: replica_command_def)
qed

text \<open>A registration that is not a repeated one.\<close>

lemma register_new:
  assumes "rs_replica_id status \<notin> dkeys (sc_registry sc)"
  shows "snd (register_replica_rpc status sc) = sc\<lparr>
    sc_registry := dset (rs_replica_id status) (replica_init (rs_pid status) (rs_replica_id status)
      (sc_worker_id sc) (rs_deployment_id status) (rs_port status)) (sc_registry sc),
    sc_futures := set_result (rs_replica_id status) (registration_reply status sc) (sc_futures sc)\<rparr>"
  using assms by (simp add: register_replica_rpc_def Let_def)

lemma extends_register: "extends sc (snd (register_replica_rpc status sc))"
  by (auto simp: extends_def register_replica_rpc_def Let_def dkeys_iff)

lemma worker_ok_register:
  assumes "worker_ok w sc" and "from_launch status sc"
  shows "worker_ok w (snd (register_replica_rpc status sc))"
proof -
  obtain ids where ids: "launched_ids sc ids" using assms(1) by (auto simp: worker_ok_def sched_ok_def)
  obtain name where "replica_command (rs_replica_id status) (rs_port status) name
      (int_text (rs_deployment_id status)) (int_text (sc_node_port sc)) \<in> set (sc_launched sc)"
    using assms(2) by (auto simp: from_launch_def)
  from launched_at [OF ids this] obtain j where "j < length ids" "ids ! j = rs_replica_id status" by blast
  then have "rs_replica_id status \<in> set ids" using nth_mem by metis
  then have "rs_replica_id status \<le> sc_replica_num sc" using ids by (simp add: launched_ids_def)
  with assms(1) sched_ok_register [of sc status] show ?thesis
    by (auto simp: worker_ok_def register_replica_rpc_def Let_def split: if_splits)
qed

lemma call_ok_register:
  assumes ok: "worker_ok w sc" and fr: "from_launch status sc" and ca: "call_ok sc ca"
  shows "call_ok (snd (register_replica_rpc status sc)) ca"
proof (cases "rs_replica_id status \<in> dkeys (sc_registry sc)")
  case True
  with ca show ?thesis by (simp add: register_replica_rpc_def)
next
  case False
  let ?sc = "snd (register_replica_rpc status sc)" and ?k = "rs_replica_id status"
  have fm: "fm_ok (sc_futures sc)" and sok: "sched_ok sc" using ok by (auto simp: worker_ok_def sched_ok_def)
  have pk: "peek (sc_futures ?sc) b = (if get_future ?k (sc_futures sc) = Some b \<and>
      peek (sc_futures sc) b = Some Pending then Some (Result (registration_reply status sc)) else peek (sc_futures sc) b)"
    "get_future k' (sc_futures ?sc) = (if k' = ?k then None else get_future k' (sc_futures sc))" for b k'
    using fm by (simp_all add: register_new [OF False] futures.fulfil_look futures.fulfil_owner)
  show ?thesis
  proof (cases "ca_replica ca = ?k \<and> peek (sc_futures sc) (ca_future ca) = Some Pending")
    case True
    then have own: "get_future ?k (sc_futures sc) = Some (ca_future ca)" using ca by (auto simp: call_ok_def)
    have "launched_for sc ?k (rs_deployment_id status)" using fr by (auto simp: from_launch_def launched_for_def)
    then have dep: "rs_deployment_id status = ca_deployment ca"
      using launched_unique [OF sok] ca True by (auto simp: call_ok_def)
    show ?thesis
      using ca True own dep pk
      by (auto simp: call_ok_def register_new [OF False] registration_reply_def replica_init_def launched_for_def)
  next
    case False
    then have "get_future ?k (sc_futures sc) \<noteq> Some (ca_future ca) \<or> peek (sc_futures sc) (ca_future ca) \<noteq> Some Pending"
      using ca fm unfolding call_ok_def fm_ok_def get_future_def by metis
    with False show ?thesis by (intro call_ok_same [OF ca extends_register]) (auto simp: pk)
  qed
qed

lemma extends_refl: "extends sc sc"
  by (simp add: extends_def)

text \<open>The other steps change neither the registry's addresses nor the futures of live calls.\<close>

lemma worker_step_processing:
  assumes "worker_ok w sc"
  shows "worker_ok w (replica_processing k sc)" and "extends sc (replica_processing k sc)"
    and "call_ok sc ca \<Longrightarrow> call_ok (replica_processing k sc) ca"
proof -
  show ext: "extends sc (replica_processing k sc)"
    by (auto simp: extends_def replica_processing_def split: option.splits)
  show "worker_ok w (replica_processing k sc)"
    using assms sched_ok_processing [of sc k]
    by (auto simp: worker_ok_def replica_processing_def split: option.splits if_splits)
  have "sc_futures (replica_processing k sc) = sc_futures sc"
    by (simp add: replica_processing_def split: option.splits)
  then show "call_ok sc ca \<Longrightarrow> call_ok (replica_processing k sc) ca"
    using call_ok_futures [OF _ ext] by simp
qed

lemma worker_step_cancelled:
  assumes "worker_ok w sc"
  shows "worker_ok w (await_cancelled a sc)" and "extends sc (await_cancelled a sc)"
    and "call_ok sc ca \<Longrightarrow> call_ok (await_cancelled a sc) ca"
proof -
  show ext: "extends sc (await_cancelled a sc)" by (simp add: extends_def await_cancelled_def)
  show "worker_ok w (await_cancelled a sc)"
    using assms sched_ok_cancelled [of sc a] by (auto simp: worker_ok_def await_cancelled_def)
  assume ca: "call_ok sc ca"
  have pk: "peek (sc_futures (await_cancelled a sc)) b = (if a = b \<and> peek (sc_futures sc) b = Some Pending
      then Some Cancelled else peek (sc_futures sc) b)"
    "get_future k (sc_futures (await_cancelled a sc)) = get_future k (sc_futures sc)" for b k
    by (auto simp: await_cancelled_def peek_def settle_def get_future_def nth_list_update)
  show "call_ok (await_cancelled a sc) ca"
  proof (cases "a = ca_future ca \<and> peek (sc_futures sc) (ca_future ca) = Some Pending")
    case True
    then show ?thesis
      using ca pk launched_for_extends [OF ext] extendsD(4) [OF ext] by (auto simp: call_ok_def)
  next
    case False
    then show ?thesis by (intro call_ok_same [OF ca ext]) (auto simp: pk)
  qed
qed

lemma worker_step_health:
  assumes "worker_ok w sc"
  shows "worker_ok w (snd (health_round_finish answer sc))" and "extends sc (snd (health_round_finish answer sc))"
    and "call_ok sc ca \<Longrightarrow> call_ok (snd (health_round_finish answer sc)) ca"
proof -
  have "cleanup_replicas sc = sc" using assms cleanup_nothing by (simp add: worker_ok_def)
  then have same: "snd (health_round_finish answer sc) \<in> {sc, send_kill_signal sc}"
    by (auto simp: health_round_finish_def split: sent.splits)
  have ext: "extends sc (send_kill_signal sc)" by (simp add: extends_def send_kill_signal_def)
  show "extends sc (snd (health_round_finish answer sc))" using same ext extends_refl by auto
  show "worker_ok w (snd (health_round_finish answer sc))"
    using same assms sched_ok_kill [of sc] by (auto simp: worker_ok_def send_kill_signal_def)
  have "call_ok sc ca \<Longrightarrow> call_ok (send_kill_signal sc) ca"
    using call_ok_futures [OF _ ext] by (simp add: send_kill_signal_def)
  then show "call_ok sc ca \<Longrightarrow> call_ok (snd (health_round_finish answer sc)) ca" using same by auto
qed

lemma worker_step_create:
  assumes ok: "worker_ok w sc" and run: "create_replica_rpc request None sc = (Inr (Inr a), sc')"
    and d: "cq_deployment_id request = d"
  shows "worker_ok w sc'" and "extends sc sc'" and "call_ok sc ca \<Longrightarrow> call_ok sc' ca"
    and "sc_replica_num sc' = sc_replica_num sc + 1"
    and "call_ok sc' \<lparr>ca_worker = w, ca_deployment = d, ca_replica = sc_replica_num sc', ca_future = a\<rparr>"
proof -
  have sok: "sched_ok sc" using ok by (simp add: worker_ok_def)
  from create_started [OF this, of request] run obtain fm where fm: "fm_ok fm"
    "peek fm a = Some Pending" "peek (sc_futures sc) a = None"
    "\<And>k. get_future k fm = (if k = sc_replica_num sc + 1 then Some a else get_future k (sc_futures sc))"
    "\<And>a'. a' \<noteq> a \<Longrightarrow> peek fm a' = peek (sc_futures sc) a'"
    and sc': "sc' = sc\<lparr>sc_replica_num := sc_replica_num sc + 1, sc_launched := sc_launched sc @
        [replica_command (sc_replica_num sc + 1) (int_text (50100 + (sc_replica_num sc + 1)))
          (cq_deployment_name request) (int_text (cq_deployment_id request)) (int_text (sc_node_port sc))],
        sc_futures := fm\<rparr>"
    by auto
  show ext: "extends sc sc'" by (auto simp: extends_def sc')
  have "sched_ok sc'" using sched_ok_create [OF sok, of request None] run by simp
  then show "worker_ok w sc'" using ok by (fastforce simp: worker_ok_def sc')
  show num: "sc_replica_num sc' = sc_replica_num sc + 1" by (simp add: sc')
  show "call_ok sc' ca" if ca: "call_ok sc ca"
  proof (rule call_ok_same [OF ca ext])
    have "ca_future ca \<noteq> a" "ca_replica ca \<noteq> sc_replica_num sc + 1" using ca fm(3) by (auto simp: call_ok_def)
    then show "peek (sc_futures sc') (ca_future ca) = peek (sc_futures sc) (ca_future ca)"
      "get_future (ca_replica ca) (sc_futures sc') = get_future (ca_replica ca) (sc_futures sc)"
      using fm(4,5) by (simp_all add: sc')
  qed
  show "call_ok sc' \<lparr>ca_worker = w, ca_deployment = d, ca_replica = sc_replica_num sc', ca_future = a\<rparr>"
    using fm(2,4) d by (auto simp: call_ok_def launched_for_def sc')
qed

lemma worker_step_create_fails:
  assumes ok: "worker_ok w sc" and run: "create_replica_rpc request (Some e) sc = (Inr (Inl r), sc')"
  shows "worker_ok w sc'" and "extends sc sc'" and "call_ok sc ca \<Longrightarrow> call_ok sc' ca" and "\<not> cr_created r"
proof -
  have sok: "sched_ok sc" using ok by (simp add: worker_ok_def)
  from create_failed [OF this, of request e] run
  have sc': "sc' = sc\<lparr>sc_replica_num := sc_replica_num sc + 1\<rparr>" and "\<not> cr_created r" by auto
  then show "\<not> cr_created r" by simp
  show ext: "extends sc sc'" by (simp add: extends_def sc')
  have "sched_ok sc'" using sched_ok_create [OF sok, of request "Some e"] run by simp
  then show "worker_ok w sc'" using ok by (fastforce simp: worker_ok_def sc')
  show "call_ok sc ca \<Longrightarrow> call_ok sc' ca" using call_ok_futures [OF _ ext] by (simp add: sc')
qed

section \<open>Steps of the head\<close>

lemma calls_ok_serves:
  assumes "dm_shape dm" and "dm_shape dm'" and "serves dm' = serves dm"
  shows "calls_ok dm' workers calls = calls_ok dm workers calls"
proof -
  have "dget (dm_replica_map dm') k = None \<longleftrightarrow> dget (dm_replica_map dm) k = None" for k
    using known_serves [OF assms(1), of k] known_serves [OF assms(2), of k] assms(3) by metis
  then show ?thesis by (simp add: calls_ok_def)
qed

lemma cluster_ok_head:
  assumes ok: "cluster_ok cl" and hc: "head_ok hc" and r: "routes (hc_dm hc) = routes (hc_dm (cl_head cl))"
    and u: "\<And>w. used_on (dm_nodes (hc_dm (cl_head cl))) w \<noteq> None \<Longrightarrow> used_on (dm_nodes (hc_dm hc)) w \<noteq> None"
    and sp: "hc_spawned (cl_head cl) \<noteq> [] \<Longrightarrow> hc_spawned hc \<noteq> []"
  shows "cluster_ok (cl\<lparr>cl_head := hc\<rparr>)"
proof -
  note d = cluster_okD [OF ok]
  have s: "serves (hc_dm hc) = serves (hc_dm (cl_head cl))" using r by (rule serves_routes)
  have "calls_ok (hc_dm hc) (cl_workers cl) (cl_calls cl)"
    using calls_ok_serves [OF _ _ s] hc d(1,4) by (simp add: head_ok_def)
  then show ?thesis using d(2,3,5,6) hc u sp s by (intro cluster_okI) auto
qed

lemma spawned_frame [simp]:
  "hc_spawned (creation_get hc) = hc_spawned hc" "hc_spawned (snd (record_metrics mq hc)) = hc_spawned hc"
  "hc_spawned (subscribe i now hc) = hc_spawned hc" "hc_spawned (resume i hc) = hc_spawned hc"
  "hc_spawned (disconnect i hc) = hc_spawned hc" "hc_spawned (snd (register_node rq hc)) = hc_spawned hc"
  "hc_spawned (on_deployment_change now hc) = hc_spawned hc" "hc_spawned (put_pending d hc) = hc_spawned hc"
  by (simp_all add: creation_get_def record_metrics_def subscribe_def resume_def disconnect_def
      register_node_def queue_put_def on_deployment_change_def put_pending_def Let_def
      split: option.splits list.splits)

lemma spawned_spawn: "hc_spawned hc \<noteq> [] \<Longrightarrow> hc_spawned (creation_spawn hc) \<noteq> []"
  by (simp add: creation_spawn_def split: option.splits queue_item.splits)

lemma nodes_add:
  "used_on (dm_nodes (snd (add_replica_to_deployment d w rcs c g addr dm))) n = None \<longleftrightarrow>
   used_on (dm_nodes dm) n = None"
proof -
  have loop: "dm_nodes (add_replica_loop d w c g addr rcs dm) = dm_nodes dm"
    by (induction rcs arbitrary: dm) (simp_all add: attach_replica_def Let_def)
  have "used_on (dm_nodes (snd (charge_worker w c g True dm1))) n = None \<longleftrightarrow> used_on (dm_nodes dm1) n = None" for dm1
    by (auto simp: charge_worker_def case_prod_unfold used_on_update split: sum.splits option.splits)
  then show ?thesis
    by (cases "dget (dm_deployments dm) d") (simp_all add: add_replica_to_deployment_def snd_charge loop)
qed

lemma head_requests: "head_ok hc \<Longrightarrow> create_replica_request 2 0 0 hc \<noteq> None"
proof -
  assume "head_ok hc"
  then have "map fst (dep_names (hc_dm hc)) = [1, 2, 3]"
    by (simp add: head_ok_def static_ok_def first_names_def)
  then have "map fst (dm_deployments (hc_dm hc)) = [1, 2, 3]"
    by (simp add: dep_names_def comp_def case_prod_unfold)
  then have "2 \<in> fst ` set (dm_deployments (hc_dm hc))" by (metis image_set list.set_intros)
  then have "dget (dm_deployments (hc_dm hc)) 2 \<noteq> None" by (metis dkeys_def dkeys_iff)
  then show ?thesis by (auto simp: create_replica_request_def get_deployment_def)
qed

lemma request_deployment: "create_replica_request d c g hc = Some rq \<Longrightarrow> cq_deployment_id rq = d"
  by (auto simp: create_replica_request_def)

lemma spawned_two: "head_ok hc \<Longrightarrow> (address, d) \<in> set (hc_spawned hc) \<Longrightarrow> d = 2"
  by (force simp: head_ok_def pipeline_def)

lemma spawned_some:
  assumes "cluster_ok cl" and "ca \<in> set (cl_calls cl)"
  shows "\<exists>address. (address, 2) \<in> set (hc_spawned (cl_head cl))"
proof -
  have "hc_spawned (cl_head cl) \<noteq> []" using cluster_okD(5) [OF assms(1)] assms(2) by fastforce
  then obtain address d where "(address, d) \<in> set (hc_spawned (cl_head cl))"
    by (cases "hc_spawned (cl_head cl)") auto
  with spawned_two [OF cluster_okD(1) [OF assms(1)] this] show ?thesis by blast
qed

text \<open>A report of a scheduler without dead replicas changes nothing at the head.\<close>

lemma remove_dead_none:
  "\<forall>rs \<in> set rss. rst_status rs \<noteq> ''DEAD'' \<Longrightarrow> remove_dead w rss b dm = (Inr b, dm)"
  by (induction rss) simp_all

lemma report_ignored:
  assumes "worker_ok w sc"
  shows "head_send_health_status now (health_report sc) hc = (Inr \<lparr>hr_ack = True, hr_is_alive = ''true''\<rparr>, hc)"
proof -
  have "\<forall>rs \<in> set (hu_replica_states (health_report sc)). rst_status rs \<noteq> ''DEAD''"
    using assms by (auto simp: worker_ok_def sched_ok_def health_report_def)
  then show ?thesis
    by (simp add: head_send_health_status_def hm_send_health_status_def remove_dead_none)
qed

text \<open>The answer to a call is one the head can apply.\<close>

lemma answer_applies:
  assumes ok: "cluster_ok cl" and ca: "ca \<in> set (cl_calls cl)" and w: "dget (cl_workers cl) (ca_worker ca) = Some sc"
    and r: "peek (sc_futures sc) (ca_future ca) = Some (Result reply)"
  shows "\<exists>h. dget (sc_registry sc) (ca_replica ca) = Some h \<and> rh_deployment_id h = ca_deployment ca \<and>
      reply = \<lparr>cr_worker_id = ca_worker ca, cr_replicas = [\<lparr>rc_replica_id = ca_replica ca, rc_port = rh_port h\<rparr>],
        cr_worker_address = sc_node_address sc, cr_created = True\<rparr>"
    and "answer_ok (Got reply) (hc_dm (cl_head cl))" and "cr_created reply" and "ca_deployment ca = 2"
proof -
  note d = cluster_okD [OF ok]
  have c: "call_ok sc ca" "dget (dm_replica_map (hc_dm (cl_head cl))) (call_key ca) = None" "ca_deployment ca = 2"
    using d(4) ca w by (auto simp: calls_ok_def)
  have "sc_worker_id sc = ca_worker ca" using d(2) [OF w] by (simp add: worker_ok_def)
  with c(1) r show *: "\<exists>h. dget (sc_registry sc) (ca_replica ca) = Some h \<and> rh_deployment_id h = ca_deployment ca \<and>
      reply = \<lparr>cr_worker_id = ca_worker ca, cr_replicas = [\<lparr>rc_replica_id = ca_replica ca, rc_port = rh_port h\<rparr>],
        cr_worker_address = sc_node_address sc, cr_created = True\<rparr>"
    by (auto simp: call_ok_def)
  then show "answer_ok (Got reply) (hc_dm (cl_head cl))" "cr_created reply"
    using c(2) d(3) [OF w] by (auto simp: answer_ok_def call_key_def)
  show "ca_deployment ca = 2" by (rule c(3))
qed

section \<open>Every step\<close>

text \<open>The head's part of a step is a step of the head machine or nothing.\<close>

lemma cluster_step_head:
  assumes "cluster_step cl cl'" and ok: "cluster_ok cl"
  shows "head_step (cl_head cl) (cl_head cl') \<or> cl_head cl' = cl_head cl"
  using assms
proof (induction rule: cluster_step.induct)
  case (call_fails cl w sc d request e error_reply sc' now)
  have "worker_ok w sc" using cluster_okD(2) [OF call_fails.prems call_fails.hyps(1)] .
  from worker_step_create_fails(4) [OF this call_fails.hyps(4)]
  have "create_replica_finish now d 0 0 (Got error_reply) (cl_head cl) = (Some error_reply, cl_head cl)"
    by (simp add: create_replica_finish_def)
  then show ?case by (simp add: set_worker_def)
next
  case (answer ca cl sc reply now)
  note a = answer_applies [OF answer.prems answer.hyps]
  obtain address where "(address, 2) \<in> set (hc_spawned (cl_head cl))"
    using spawned_some [OF answer.prems answer.hyps(1)] by blast
  with a(2,4) head_requests [OF cluster_okD(1) [OF answer.prems]] show ?case by (auto intro!: head_step.created)
next
  case (lost ca cl failed e now)
  obtain address where "(address, 2) \<in> set (hc_spawned (cl_head cl))"
    using spawned_some [OF lost.prems lost.hyps(1)] by blast
  moreover have "ca_deployment ca = 2" using cluster_okD(4) [OF lost.prems] lost.hyps(1) by (simp add: calls_ok_def)
  ultimately show ?case
    using lost.hyps(2) head_requests [OF cluster_okD(1) [OF lost.prems]]
    by (auto intro!: head_step.created simp: answer_ok_def)
next
  case (reports cl w sc now)
  then show ?case using report_ignored [OF cluster_okD(2) [OF reports.prems reports.hyps(1)]] by simp
qed (auto simp: set_worker_def intro: head_step.intros)

lemma cluster_ok_start: "cluster_start cl \<Longrightarrow> cluster_ok cl"
proof -
  assume s: "cluster_start cl"
  then have ok: "head_ok (cl_head cl)" and "cl_workers cl = []" "cl_calls cl = []"
    using head_ok_init by (auto simp: cluster_start_def head_start_def)
  moreover have "\<not> serves (hc_dm (cl_head cl)) d info" for d info
  proof -
    have "routes (hc_dm (cl_head cl)) = first_routes"
      using s by (auto simp: cluster_start_def head_start_def head_init_def first_routes_def)
    then show ?thesis
      using first_routes_empty [of d] first_routes_eq(2) by (cases "d = 2") (auto simp: serves_def)
  qed
  ultimately show ?thesis by (intro cluster_okI) (simp_all add: calls_ok_def)
qed

lemma cluster_ok_answer:
  assumes ok: "cluster_ok cl" and ca: "ca \<in> set (cl_calls cl)" and w: "dget (cl_workers cl) (ca_worker ca) = Some sc"
    and r: "peek (sc_futures sc) (ca_future ca) = Some (Result reply)"
  shows "\<exists>h dm'. dget (sc_registry sc) (ca_replica ca) = Some h \<and>
      create_replica_finish now (ca_deployment ca) 0 0 (Got reply) (cl_head cl) =
        (Some reply, on_deployment_change now ((cl_head cl)\<lparr>hc_dm := dm'\<rparr>)) \<and>
      routes dm' = spec_add (ca_deployment ca) \<lparr>ri_replica_num = call_key ca,
        ri_address = host_port (sc_node_address sc) (rh_port h), ri_state = ''RUNNING''\<rparr>
        (routes (hc_dm (cl_head cl)))"
    and "cluster_ok (cl\<lparr>cl_head := snd (create_replica_finish now (ca_deployment ca) 0 0 (Got reply) (cl_head cl)),
      cl_calls := remove1 ca (cl_calls cl)\<rparr>)"
proof -
  let ?dm = "hc_dm (cl_head cl)" and ?calls = "remove1 ca (cl_calls cl)"
  note d = cluster_okD [OF ok] and a = answer_applies [OF ok ca w r]
  obtain h where h: "dget (sc_registry sc) (ca_replica ca) = Some h" "rh_deployment_id h = ca_deployment ca"
    "reply = \<lparr>cr_worker_id = ca_worker ca, cr_replicas = [\<lparr>rc_replica_id = ca_replica ca, rc_port = rh_port h\<rparr>],
      cr_worker_address = sc_node_address sc, cr_created = True\<rparr>"
    using a(1) by blast
  let ?i = "\<lparr>ri_replica_num = call_key ca, ri_address = host_port (sc_node_address sc) (rh_port h),
    ri_state = ''RUNNING''\<rparr>"
  have rq: "create_replica_request (ca_deployment ca) 0 0 (cl_head cl) \<noteq> None"
    using head_requests [OF d(1)] a(4) by simp
  have sh: "dm_shape ?dm" "ledger_ok ?dm" using d(1) uncharged_ledger by (auto simp: head_ok_def)
  obtain dm' where fin: "create_replica_finish now (ca_deployment ca) 0 0 (Got reply) (cl_head cl) =
      (Some reply, on_deployment_change now ((cl_head cl)\<lparr>hc_dm := dm'\<rparr>))" "dm_shape dm'"
    and rt: "routes dm' = spec_add (ca_deployment ca) ?i (routes ?dm)"
    and dm': "snd (add_replica_to_deployment (ca_deployment ca) (int_text (cr_worker_id reply)) (cr_replicas reply)
      0 0 (cr_worker_address reply) ?dm) = dm'"
    using finish_created [OF sh rq a(2,3), of now] by (auto simp: h(3) call_key_def)
  then show "\<exists>h dm'. dget (sc_registry sc) (ca_replica ca) = Some h \<and>
      create_replica_finish now (ca_deployment ca) 0 0 (Got reply) (cl_head cl) =
        (Some reply, on_deployment_change now ((cl_head cl)\<lparr>hc_dm := dm'\<rparr>)) \<and>
      routes dm' = spec_add (ca_deployment ca) \<lparr>ri_replica_num = call_key ca,
        ri_address = host_port (sc_node_address sc) (rh_port h), ri_state = ''RUNNING''\<rparr> (routes ?dm)"
    using h(1) by blast
  have "routes ?dm (ca_deployment ca) \<noteq> None"
    using rq by (auto simp: create_replica_request_def get_deployment_def routes_def)
  note sv = serves_add [OF rt this]
  have "backed (cl_workers cl) (ca_deployment ca) ?i"
    using w h by (auto simp: backed_def call_key_def)
  then have bk: "serves dm' d info \<Longrightarrow> backed (cl_workers cl) d info" for d info using sv d(6) by auto
  have keys: "dget (dm_replica_map dm') k = None" if "dget (dm_replica_map ?dm) k = None" "k \<noteq> call_key ca" for k
    using that known_serves [OF sh(1), of k] known_serves [OF fin(2), of k] sv by (metis replica_info.select_convs(1))
  have "distinct (map call_key (cl_calls cl))" using d(4) by (simp add: calls_ok_def)
  then have dist: "distinct (map call_key ?calls)" "call_key ca \<notin> call_key ` set ?calls"
    using ca by (auto simp: distinct_map distinct_remove1 inj_on_def set_remove1_eq)
  have calls: "calls_ok dm' (cl_workers cl) ?calls"
    using d(4) dist keys notin_set_remove1 unfolding calls_ok_def by (metis image_eqI notin_set_remove1)
  have st: "head_ok (snd (create_replica_finish now (ca_deployment ca) 0 0 (Got reply) (cl_head cl)))"
    using cluster_step_head [OF cluster_step.answer [OF ca w r, of now] ok] d(1) head_machine.step_safe by auto
  show "cluster_ok (cl\<lparr>cl_head := snd (create_replica_finish now (ca_deployment ca) 0 0 (Got reply) (cl_head cl)),
      cl_calls := ?calls\<rparr>)"
  proof (rule cluster_okI, goal_cases)
    case 5
    then have "cl_calls cl \<noteq> []" by (cases "cl_calls cl = []") auto
    then show ?case using d(5) fin(1) by simp
  qed (use st d(2,3) fin(1) calls bk in \<open>auto simp: dm' [symmetric] nodes_add\<close>)
qed

text \<open>A call is gone; a call is new; a scheduler is new.\<close>

lemma cluster_ok_drop: "cluster_ok cl \<Longrightarrow> cluster_ok (cl\<lparr>cl_calls := remove1 ca (cl_calls cl)\<rparr>)"
proof -
  assume ok: "cluster_ok cl"
  note d = cluster_okD [OF ok]
  have "calls_ok (hc_dm (cl_head cl)) (cl_workers cl) (remove1 ca (cl_calls cl))"
    using d(4) notin_set_remove1 [of _ "cl_calls cl" ca]
    by (auto simp: calls_ok_def distinct_map distinct_remove1 inj_on_def)
  moreover have "hc_spawned (cl_head cl) \<noteq> []" if "remove1 ca (cl_calls cl) \<noteq> []"
    using d(5) that by (cases "cl_calls cl = []") auto
  ultimately show ?thesis using d(1-3,6) by (intro cluster_okI) auto
qed

lemma cluster_ok_call:
  assumes ok: "cluster_ok cl" and w: "dget (cl_workers cl) w = Some sc"
    and sp: "(grpc_address sc, d) \<in> set (hc_spawned (cl_head cl))"
    and rq: "create_replica_request d 0 0 (cl_head cl) = Some request"
    and run: "create_replica_rpc request None sc = (Inr (Inr a), sc')"
  shows "cluster_ok (set_worker w sc' (cl\<lparr>cl_calls := cl_calls cl @
      [\<lparr>ca_worker = w, ca_deployment = d, ca_replica = sc_replica_num sc', ca_future = a\<rparr>]\<rparr>))"
proof -
  let ?ca = "\<lparr>ca_worker = w, ca_deployment = d, ca_replica = sc_replica_num sc', ca_future = a\<rparr>"
  have dep: "cq_deployment_id request = d" using rq by (rule request_deployment)
  note wk = cluster_okD(2) [OF ok w] and f = worker_step_create [OF cluster_okD(2) [OF ok w] run dep]
  note d' = cluster_okD [OF cluster_ok_worker [OF ok w f(1,2,3)]]
  have calls: "calls_ok (hc_dm (cl_head cl)) (dset w sc' (cl_workers cl)) (cl_calls cl)"
    using d'(4) by (simp add: set_worker_def)
  have new: "call_key ?ca \<noteq> call_key ca" if "ca \<in> set (cl_calls cl)" for ca
  proof -
    have "call_ok sc ca" if "ca_worker ca = w"
      using cluster_okD(4) [OF ok] \<open>ca \<in> _\<close> w that by (auto simp: calls_ok_def)
    then show ?thesis using f(4) by (auto simp: call_key_def call_ok_def)
  qed
  have "dget (dm_replica_map (hc_dm (cl_head cl))) (call_key ?ca) = None"
  proof (rule ccontr)
    assume "dget (dm_replica_map (hc_dm (cl_head cl))) (call_key ?ca) \<noteq> None"
    then obtain d0 info where "serves (hc_dm (cl_head cl)) d0 info" "ri_replica_num info = call_key ?ca"
      using known_serves [of "hc_dm (cl_head cl)"] cluster_okD(1) [OF ok] by (auto simp: head_ok_def)
    with cluster_okD(6) [OF ok this(1)] w obtain h where "dget (sc_registry sc) (sc_replica_num sc') = Some h"
      by (auto simp: backed_def call_key_def)
    then show False using wk f(4) by (auto simp: worker_ok_def)
  qed
  moreover have "d = 2" using spawned_two [OF cluster_okD(1) [OF ok] sp] .
  ultimately have "calls_ok (hc_dm (cl_head cl)) (dset w sc' (cl_workers cl)) (cl_calls cl @ [?ca])"
    using calls new f(5) by (auto simp: calls_ok_def)
  then show ?thesis using d'(1,2,3,6) sp by (intro cluster_okI) (auto simp: set_worker_def)
qed

lemma worker_ok_boot: "worker_ok w (sched_init w address port head_address head_port)"
  using sched_ok_init by (simp add: worker_ok_def) (simp add: sched_init_def)

lemma cluster_ok_boot:
  assumes ok: "cluster_ok cl" and fresh: "dget (cl_workers cl) w = None"
    and rq: "sched_register_request (int_text w) address (int_text port) num_cpus num_gpus = Inr rq"
    and hd: "head_ok (snd (register_node rq (cl_head cl)))"
  shows "cluster_ok (set_worker w (sched_init w address port head_address head_port)
      (cl\<lparr>cl_head := snd (register_node rq (cl_head cl))\<rparr>))"
proof -
  let ?cl = "cl\<lparr>cl_head := snd (register_node rq (cl_head cl))\<rparr>"
  let ?sc = "sched_init w address port head_address head_port"
  have id: "rq_node_id rq = w" using rq by (auto simp: sched_register_request_def split: sum.splits if_splits)
  have "cluster_ok ?cl" using ok hd by (intro cluster_ok_head) (auto simp: used_on_add_node)
  note d = cluster_okD [OF this]
  have other: "dget (dset w ?sc (cl_workers cl)) w' = dget (cl_workers cl) w'" if "dget (cl_workers cl) w' \<noteq> None" for w'
    using that fresh by auto
  have calls: "calls_ok (hc_dm (cl_head ?cl)) (dset w ?sc (cl_workers cl)) (cl_calls cl)"
    using d(4) other by (fastforce simp: calls_ok_def)
  have bk: "backed (dset w ?sc (cl_workers cl)) e info" if "backed (cl_workers cl) e info" for e info
    using that other unfolding backed_def by (metis option.distinct(1))
  have used: "used_on (dm_nodes (hc_dm (cl_head ?cl))) w' \<noteq> None"
    if "dget (dset w ?sc (cl_workers cl)) w' = Some sc" for w' sc
    using that d(3) [of w' sc] id by (cases "w' = w") (simp_all add: used_on_add_node)
  show ?thesis
    using d(1,2,5,6) calls bk used worker_ok_boot
    by (intro cluster_okI) (auto simp: set_worker_def split: if_splits)
qed

lemma cluster_ok_step:
  assumes "cluster_step cl cl'" and ok: "cluster_ok cl"
  shows "cluster_ok cl'"
proof -
  have hd: "head_ok (cl_head cl')"
    using cluster_step_head [OF assms] cluster_okD(1) [OF ok] head_machine.step_safe by auto
  show ?thesis
    using assms hd
  proof (induction rule: cluster_step.induct)
    case (call cl w sc d request a sc')
    show ?case by (rule cluster_ok_call [OF call.prems(1) call.hyps])
  next
    case (boot cl w address port num_cpus num_gpus rq head_address head_port)
    show ?case by (rule cluster_ok_boot [OF boot.prems(1) boot.hyps]) (use boot.prems(2) in \<open>simp add: set_worker_def\<close>)
  next
    case (call_fails cl w sc d request e error_reply sc' now)
    note wk = cluster_okD(2) [OF call_fails.prems(1) call_fails.hyps(1)]
    note f = worker_step_create_fails [OF wk call_fails.hyps(4)]
    then have "create_replica_finish now d 0 0 (Got error_reply) (cl_head cl) = (Some error_reply, cl_head cl)"
      by (simp add: create_replica_finish_def)
    then show ?case
      using cluster_ok_worker [OF call_fails.prems(1) call_fails.hyps(1) f(1,2)] f(3) by (simp add: set_worker_def)
  next
    case (registers cl w sc status)
    note wk = cluster_okD(2) [OF registers.prems(1) registers.hyps(1)]
    show ?case
      using worker_ok_register [OF wk registers.hyps(2)] call_ok_register [OF wk registers.hyps(2)]
      by (intro cluster_ok_worker [OF registers.prems(1) registers.hyps(1)]) (simp_all add: extends_register)
  next
    case (works cl w sc k)
    note f = worker_step_processing [OF cluster_okD(2) [OF works.prems(1) works.hyps(1)]]
    show ?case using f by (intro cluster_ok_worker [OF works.prems(1) works.hyps(1)]) simp_all
  next
    case (cancelled cl w sc a)
    note f = worker_step_cancelled [OF cluster_okD(2) [OF cancelled.prems(1) cancelled.hyps(1)]]
    show ?case using f by (intro cluster_ok_worker [OF cancelled.prems(1) cancelled.hyps(1)]) simp_all
  next
    case (report_ends cl w sc answer)
    note f = worker_step_health [OF cluster_okD(2) [OF report_ends.prems(1) report_ends.hyps(1)]]
    show ?case using f by (intro cluster_ok_worker [OF report_ends.prems(1) report_ends.hyps(1)]) simp_all
  next
    case (answer ca cl sc reply now)
    show ?case using cluster_ok_answer(2) [OF answer.prems(1) answer.hyps] .
  next
    case (lost ca cl failed e now)
    have "create_replica_finish now (ca_deployment ca) 0 0 failed (cl_head cl) =
        (None, put_pending (ca_deployment ca) (cl_head cl))"
      using lost.hyps(2) by (auto simp: create_replica_finish_def)
    moreover have "cluster_ok (cl\<lparr>cl_head := put_pending (ca_deployment ca) (cl_head cl)\<rparr>)"
      using lost.prems calculation by (intro cluster_ok_head) simp_all
    ultimately show ?case
      using cluster_ok_drop [of "cl\<lparr>cl_head := put_pending (ca_deployment ca) (cl_head cl)\<rparr>" ca] by simp
  next
    case (attempt_lost ca cl)
    then show ?case by (intro cluster_ok_drop)
  next
    case (reports cl w sc now)
    then show ?case using report_ignored [OF cluster_okD(2) [OF reports.prems(1) reports.hyps(1)]] by simp
  next
    case (queue_spawn cl)
    then show ?case using spawned_spawn [of "cl_head cl"] by (intro cluster_ok_head) simp_all
  next
    case (metrics cl mq)
    then show ?case by (intro cluster_ok_head) (simp_all add: record_metrics_def)
  qed (simp_all add: cluster_ok_head)
qed

interpretation cluster_machine: safe_machine cluster_start cluster_step cluster_ok
  by unfold_locales (auto intro: cluster_ok_start cluster_ok_step)

interpretation head_view: stuttering_simulation cluster_start cluster_step cluster_ok cl_head head_start head_step
  by unfold_locales (use cluster_step_head in \<open>auto simp: cluster_start_def\<close>)

end
