(* ===== verification/ClusterProps.thy ===== *)
theory ClusterProps
  imports Cluster
begin

text \<open>
  What holds in every reachable state of the control plane: the head sees only replies it can apply,
  every routed replica is registered with the scheduler of its worker, an answered call routes its
  replica, a lost call leaves its replica unrouted for good, and nothing is ever taken out of the table.
\<close>

section \<open>A run\<close>

text \<open>A worker boots and its creation task starts; the call is made, the replica registers, the answer arrives.\<close>

definition demo_rq :: register_request where
  "demo_rq = \<lparr>rq_node_id = 1, rq_node_address = ''10.0.0.1'', rq_port = int_text 50051, rq_state = ''alive'',
     rq_resource = \<lparr>res_num_cpus = 4, res_num_gpus = 1\<rparr>\<rparr>"

definition run_head :: head_state where
  "run_head = creation_spawn (creation_get (snd (register_node demo_rq demo_start)))"

definition run_request :: creation_request where
  "run_request = the (create_replica_request 2 0 0 run_head)"

definition run_waiting :: scheduler where
  "run_waiting = snd (create_replica_rpc run_request None demo_sched)"

definition run_status :: replica_status where
  "run_status = \<lparr>rs_state = ''idle'', rs_replica_id = 1, rs_pid = 4711, rs_port = int_text 50101,
     rs_deployment_id = 2, rs_deployment_name = ''/v1/chat/tinyllama''\<rparr>"

definition run_call :: call where
  "run_call = \<lparr>ca_worker = 1, ca_deployment = 2, ca_replica = 1, ca_future = 0\<rparr>"

definition run_called :: cluster where
  "run_called = \<lparr>cl_head = run_head, cl_workers = [(1, run_waiting)], cl_calls = [run_call]\<rparr>"

definition run_registered :: cluster where
  "run_registered = set_worker 1 (snd (register_replica_rpc run_status run_waiting)) run_called"

definition run_reply :: creation_reply where
  "run_reply = \<lparr>cr_worker_id = 1, cr_replicas = [\<lparr>rc_replica_id = 1, rc_port = int_text 50101\<rparr>],
     cr_worker_address = ''10.0.0.1'', cr_created = True\<rparr>"

definition run_answered :: cluster where
  "run_answered = run_registered\<lparr>cl_head := snd (create_replica_finish 9 2 0 0 (Got run_reply) run_head), cl_calls := []\<rparr>"

lemma run_facts:
  "head_step demo_start (snd (register_node demo_rq demo_start))"
  "hc_spawned run_head = [(host_port ''10.0.0.1'' (int_text 50051), 2)]"
  "create_replica_request 2 0 0 run_head = Some run_request" "cq_deployment_id run_request = 2"
  "routes (hc_dm run_head) = first_routes"
  "grpc_address demo_sched = host_port ''10.0.0.1'' (int_text 50051)"
  "create_replica_rpc run_request None demo_sched = (Inr (Inr 0), run_waiting)"
  "sc_replica_num run_waiting = 1" "from_launch run_status run_waiting"
  "peek (sc_futures (snd (register_replica_rpc run_status run_waiting))) 0 = Some (Result run_reply)"
  "get_future 1 (sc_futures run_waiting) = Some 0" "sc_registry run_waiting = []"
  "sc_node_address run_waiting = ''10.0.0.1''" "sc_worker_id run_waiting = 1"
proof -
  show "head_step demo_start (snd (register_node demo_rq demo_start))" by (rule head_step.register)
  show "hc_spawned run_head = [(host_port ''10.0.0.1'' (int_text 50051), 2)]"
    by (simp add: run_head_def creation_spawn_def creation_get_def register_node_def queue_put_def demo_start_def
        head_init_def Let_def demo_rq_def)
  have dm: "hc_dm run_head = (hc_dm demo_start)\<lparr>dm_nodes := add_node demo_rq (dm_nodes (hc_dm demo_start))\<rparr>"
    by (simp add: run_head_def)
  then show rt: "routes (hc_dm run_head) = first_routes"
    by (simp add: demo_start_def head_init_def first_routes_def)
  have "routes (hc_dm run_head) 2 \<noteq> None" by (simp add: rt first_routes_eq)
  then show rq: "create_replica_request 2 0 0 run_head = Some run_request"
    by (auto simp: run_request_def create_replica_request_def get_deployment_def routes_def)
  then show dep: "cq_deployment_id run_request = 2" by (rule request_deployment)
  show "grpc_address demo_sched = host_port ''10.0.0.1'' (int_text 50051)"
    by (simp add: grpc_address_def demo_sched_def sched_init_def)
  show "create_replica_rpc run_request None demo_sched = (Inr (Inr 0), run_waiting)" "sc_replica_num run_waiting = 1"
    "from_launch run_status run_waiting" "get_future 1 (sc_futures run_waiting) = Some 0" "sc_registry run_waiting = []"
    "sc_node_address run_waiting = ''10.0.0.1''" "sc_worker_id run_waiting = 1"
    using dep by (auto simp: run_waiting_def create_replica_rpc_def start_replica_cpp_def demo_sched_def
      sched_init_def Let_def create_future_def fm_init_def get_future_def from_launch_def run_status_def)
  show "peek (sc_futures (snd (register_replica_rpc run_status run_waiting))) 0 = Some (Result run_reply)"
    by (simp add: run_waiting_def create_replica_rpc_def start_replica_cpp_def demo_sched_def sched_init_def
        Let_def create_future_def fm_init_def register_replica_rpc_def run_status_def run_reply_def
        registration_reply_def set_result_def settle_key_def pop_future_def settle_def peek_def dict_eval dkeys_iff)
qed

lemma run_called_reach: "reach cluster_start cluster_step run_called"
proof -
  let ?c0 = "\<lparr>cl_head = demo_start, cl_workers = [], cl_calls = []\<rparr>"
  let ?c1 = "set_worker 1 demo_sched (?c0\<lparr>cl_head := snd (register_node demo_rq demo_start)\<rparr>)"
  have "reach cluster_start cluster_step ?c0"
    by (rule reach_init) (auto simp: cluster_start_def head_start_def demo_start_def)
  moreover have "cluster_step ?c0 ?c1"
    using cluster_step.boot [of ?c0 1 "''10.0.0.1''" 50051 "int_text 4" "int_text 1" demo_rq "''10.0.0.100''" "''50052''"]
    by (simp add: demo_sched_def sched_register_request_def uint32_ok_def) (simp add: demo_rq_def)
  ultimately have "reach cluster_start cluster_step ?c1" by (rule reach_step)
  from reach_step [OF this cluster_step.queue_get] have
    "reach cluster_start cluster_step (?c1\<lparr>cl_head := creation_get (cl_head ?c1)\<rparr>)" .
  from reach_step [OF this cluster_step.queue_spawn]
  have "reach cluster_start cluster_step \<lparr>cl_head = run_head, cl_workers = [(1, demo_sched)], cl_calls = []\<rparr>"
    by (simp add: set_worker_def run_head_def dict_eval)
  moreover have "cluster_step \<lparr>cl_head = run_head, cl_workers = [(1, demo_sched)], cl_calls = []\<rparr> run_called"
    using cluster_step.call [of "\<lparr>cl_head = run_head, cl_workers = [(1, demo_sched)], cl_calls = []\<rparr>" 1 demo_sched 2
        run_request 0 run_waiting] run_facts(2,3,6,7,8)
    by (simp add: set_worker_def dict_eval run_called_def run_call_def)
  ultimately show ?thesis by (rule reach_step)
qed

lemma run_registered_reach: "reach cluster_start cluster_step run_registered"
  unfolding run_registered_def
  by (rule reach_step [OF run_called_reach cluster_step.registers])
    (simp_all add: run_called_def dict_eval run_facts)

lemma run_registered_facts:
  "cl_calls run_registered = [run_call]" "cl_head run_registered = run_head"
  "dget (cl_workers run_registered) 1 = Some (snd (register_replica_rpc run_status run_waiting))"
  by (simp_all add: run_registered_def set_worker_def run_called_def)

lemma run_answered_reach: "reach cluster_start cluster_step run_answered"
proof -
  have "cluster_step run_registered (run_registered\<lparr>cl_head := snd (create_replica_finish 9 (ca_deployment run_call) 0 0
      (Got run_reply) (cl_head run_registered)), cl_calls := remove1 run_call (cl_calls run_registered)\<rparr>)"
    by (rule cluster_step.answer [of run_call run_registered "snd (register_replica_rpc run_status run_waiting)"])
      (simp_all add: run_registered_facts run_call_def run_facts(10))
  then have "cluster_step run_registered run_answered"
    by (simp add: run_answered_def run_registered_facts run_call_def)
  with run_registered_reach show ?thesis by (rule reach_step)
qed

lemma run_answered_route:
  "routes (hc_dm (cl_head run_answered)) 2 = Some (''/v1/chat/tinyllama'', ''1.0'',
      [\<lparr>ri_replica_num = replica_key (int_text 1) (int_text 1),
        ri_address = host_port ''10.0.0.1'' (int_text 50101), ri_state = ''RUNNING''\<rparr>])"
proof -
  let ?sc = "snd (register_replica_rpc run_status run_waiting)"
  have p: "peek (sc_futures ?sc) (ca_future run_call) = Some (Result run_reply)" "ca_worker run_call = 1"
    "ca_deployment run_call = 2" "call_key run_call = replica_key (int_text 1) (int_text 1)" "ca_replica run_call = 1"
    by (simp_all add: run_call_def call_key_def run_facts(10))
  obtain h dm' where h: "dget (sc_registry ?sc) 1 = Some h"
    "create_replica_finish 9 2 0 0 (Got run_reply) run_head =
      (Some run_reply, on_deployment_change 9 (run_head\<lparr>hc_dm := dm'\<rparr>))"
    "routes dm' = spec_add 2 \<lparr>ri_replica_num = replica_key (int_text 1) (int_text 1),
      ri_address = host_port (sc_node_address ?sc) (rh_port h), ri_state = ''RUNNING''\<rparr> (routes (hc_dm run_head))"
    using cluster_ok_answer(1) [OF cluster_machine.reach_safe [OF run_registered_reach], of run_call ?sc run_reply 9] p
    by (auto simp: run_registered_facts)
  have "rh_port h = int_text 50101" "sc_node_address ?sc = ''10.0.0.1''"
    using h(1) by (auto simp: register_replica_rpc_def run_facts run_status_def replica_init_def Let_def dkeys_iff)
  then show ?thesis by (simp add: run_answered_def h(2,3) spec_add_def run_facts(5) first_routes_eq)
qed

section \<open>Routes only grow\<close>

lemma keeps_head: "serves (hc_dm (cl_head cl)) d info \<Longrightarrow> routes (hc_dm hc) = routes (hc_dm (cl_head cl)) \<Longrightarrow>
  serves (hc_dm hc) d info"
  by (simp add: serves_def)

lemma step_serves:
  assumes "cluster_step cl cl'" and ok: "cluster_ok cl"
  shows "serves (hc_dm (cl_head cl')) d info \<longleftrightarrow> serves (hc_dm (cl_head cl)) d info \<or>
    (\<exists>ca sc h. ca \<in> set (cl_calls cl) \<and> dget (cl_workers cl) (ca_worker ca) = Some sc \<and>
      dget (sc_registry sc) (ca_replica ca) = Some h \<and> cl_calls cl' = remove1 ca (cl_calls cl) \<and> d = ca_deployment ca \<and>
      serves (hc_dm (cl_head cl')) d info \<and>
      info = \<lparr>ri_replica_num = call_key ca, ri_address = host_port (sc_node_address sc) (rh_port h), ri_state = ''RUNNING''\<rparr>)"
  using assms
proof (induction rule: cluster_step.induct)
  case (call_fails cl w sc d request e error_reply sc' now)
  have "worker_ok w sc" using cluster_okD(2) [OF call_fails.prems call_fails.hyps(1)] .
  from worker_step_create_fails(4) [OF this call_fails.hyps(4)]
  have "create_replica_finish now d 0 0 (Got error_reply) (cl_head cl) = (Some error_reply, cl_head cl)"
    by (simp add: create_replica_finish_def)
  then show ?case by (auto simp: set_worker_def)
next
  case (answer ca cl sc reply now)
  obtain h dm' where h: "dget (sc_registry sc) (ca_replica ca) = Some h"
    "create_replica_finish now (ca_deployment ca) 0 0 (Got reply) (cl_head cl) =
        (Some reply, on_deployment_change now ((cl_head cl)\<lparr>hc_dm := dm'\<rparr>))"
    "routes dm' = spec_add (ca_deployment ca) \<lparr>ri_replica_num = call_key ca,
        ri_address = host_port (sc_node_address sc) (rh_port h), ri_state = ''RUNNING''\<rparr> (routes (hc_dm (cl_head cl)))"
    using cluster_ok_answer(1) [OF answer.prems answer.hyps, of now] by blast
  have "routes (hc_dm (cl_head cl)) (ca_deployment ca) \<noteq> None"
    using head_requests [OF cluster_okD(1) [OF answer.prems]] answer_applies(4) [OF answer.prems answer.hyps]
    by (auto simp: create_replica_request_def get_deployment_def routes_def)
  from serves_add [OF h(3) this] show ?case
    using answer.hyps(1,2) h(1,2) by auto
next
  case (lost ca cl failed e now)
  then have "create_replica_finish now (ca_deployment ca) 0 0 failed (cl_head cl) =
      (None, put_pending (ca_deployment ca) (cl_head cl))"
    by (auto simp: create_replica_finish_def)
  then show ?case by auto
next
  case (reports cl w sc now)
  then show ?case using report_ignored [OF cluster_okD(2) [OF reports.prems reports.hyps(1)]] by auto
qed (auto simp: set_worker_def record_metrics_def serves_def)

section \<open>Calls and workers only move on\<close>

lemma step_extends:
  assumes "cluster_step cl cl'" and "cluster_ok cl" and "dget (cl_workers cl) w = Some sc"
  shows "\<exists>sc'. dget (cl_workers cl') w = Some sc' \<and> extends sc sc'"
  using assms
proof (induction rule: cluster_step.induct)
  case (call cl w' sc0 d request a sc')
  note f = worker_step_create(2) [OF cluster_okD(2) [OF call.prems(1) call.hyps(1)] call.hyps(4) refl]
  show ?case using call.prems(2) call.hyps(1) f by (auto simp: set_worker_def extends_refl)
next
  case (call_fails cl w' sc0 d request e r sc' now)
  note f = worker_step_create_fails(2) [OF cluster_okD(2) [OF call_fails.prems(1) call_fails.hyps(1)] call_fails.hyps(4)]
  show ?case using call_fails.prems(2) call_fails.hyps(1) f by (auto simp: set_worker_def extends_refl)
next
  case (registers cl w' sc0 status)
  show ?case using registers.prems(2) registers.hyps(1) extends_register [of sc0 status]
    by (auto simp: set_worker_def extends_refl)
next
  case (works cl w' sc0 k)
  note f = worker_step_processing(2) [OF cluster_okD(2) [OF works.prems(1) works.hyps(1)], of k]
  show ?case using works.prems(2) works.hyps(1) f by (auto simp: set_worker_def extends_refl)
next
  case (cancelled cl w' sc0 a)
  note f = worker_step_cancelled(2) [OF cluster_okD(2) [OF cancelled.prems(1) cancelled.hyps(1)], of a]
  show ?case using cancelled.prems(2) cancelled.hyps(1) f by (auto simp: set_worker_def extends_refl)
next
  case (report_ends cl w' sc0 acknowledgement)
  note f = worker_step_health(2) [OF cluster_okD(2) [OF report_ends.prems(1) report_ends.hyps(1)], of acknowledgement]
  show ?case using report_ends.prems(2) report_ends.hyps(1) f by (auto simp: set_worker_def extends_refl)
qed (auto simp: set_worker_def extends_refl)

lemma step_worker:
  assumes "cluster_step cl cl'" and "cluster_ok cl" and "dget (cl_workers cl) w = Some sc"
  shows "\<exists>sc'. dget (cl_workers cl') w = Some sc' \<and> sc_replica_num sc \<le> sc_replica_num sc'"
  using step_extends [OF assms] extendsD(4) by blast

text \<open>What a scheduler has registered stays registered.\<close>

lemma step_backed:
  assumes "cluster_step cl cl'" and "cluster_ok cl" and "backed (cl_workers cl) d info"
  shows "backed (cl_workers cl') d info"
proof -
  obtain w sc k h where b: "dget (cl_workers cl) w = Some sc" "dget (sc_registry sc) k = Some h"
    "rh_deployment_id h = d" "info = \<lparr>ri_replica_num = replica_key (int_text w) (int_text k),
       ri_address = host_port (sc_node_address sc) (rh_port h), ri_state = ''RUNNING''\<rparr>"
    using assms(3) unfolding backed_def by blast
  obtain sc' where s: "dget (cl_workers cl') w = Some sc'" "extends sc sc'"
    using step_extends [OF assms(1,2) b(1)] by blast
  obtain h' where "dget (sc_registry sc') k = Some h'" "rh_port h' = rh_port h" "rh_deployment_id h' = rh_deployment_id h"
    using extendsD(6) [OF s(2) b(2)] by blast
  with b s(1) extendsD(2) [OF s(2)] show ?thesis unfolding backed_def by metis
qed

lemma step_calls:
  assumes "cluster_step cl cl'" and "cluster_ok cl" and "ca \<in> set (cl_calls cl')"
  shows "ca \<in> set (cl_calls cl) \<or>
    (\<exists>sc. dget (cl_workers cl) (ca_worker ca) = Some sc \<and> ca_replica ca = sc_replica_num sc + 1)"
  using assms
proof (induction rule: cluster_step.induct)
  case (call cl w sc d request a sc')
  note f = worker_step_create(4) [OF cluster_okD(2) [OF call.prems(1) call.hyps(1)] call.hyps(4) refl]
  show ?case using call.prems(2) call.hyps(1) f by (auto simp: set_worker_def)
qed (auto simp: set_worker_def dest: notin_set_remove1)

text \<open>A replica no call waits for and no table routes.\<close>

definition orphan :: "int \<Rightarrow> int \<Rightarrow> cluster \<Rightarrow> bool" where
  "orphan w k cl \<longleftrightarrow> (\<exists>sc. dget (cl_workers cl) w = Some sc \<and> k \<le> sc_replica_num sc) \<and>
     (\<forall>ca \<in> set (cl_calls cl). ca_worker ca = w \<longrightarrow> ca_replica ca \<noteq> k) \<and>
     (\<forall>d info. serves (hc_dm (cl_head cl)) d info \<longrightarrow>
        ri_replica_num info \<noteq> replica_key (int_text w) (int_text k))"

lemma orphan_step:
  assumes st: "cluster_step cl cl'" and ok: "cluster_ok cl" and orph: "orphan w k cl"
  shows "orphan w k cl'"
proof -
  obtain sc where sc: "dget (cl_workers cl) w = Some sc" "k \<le> sc_replica_num sc"
    using orph by (auto simp: orphan_def)
  have "ca_replica ca \<noteq> k" if "ca \<in> set (cl_calls cl')" "ca_worker ca = w" for ca
    using step_calls [OF st ok that(1)] that(2) orph sc by (auto simp: orphan_def)
  moreover have "ri_replica_num info \<noteq> replica_key (int_text w) (int_text k)"
    if "serves (hc_dm (cl_head cl')) d info" for d info
    using step_serves [OF st ok, of d info] that orph by (auto simp: orphan_def call_key_def)
  moreover have "\<exists>sc'. dget (cl_workers cl') w = Some sc' \<and> k \<le> sc_replica_num sc'"
    using step_worker [OF st ok sc(1)] sc(2) by force
  ultimately show ?thesis by (simp add: orphan_def)
qed

lemma orphan_run:
  assumes "reach cluster_start cluster_step cl" and "orphan w k cl"
  shows "reach (\<lambda>s. s = cl) cluster_step cl' \<Longrightarrow> cluster_ok cl' \<and> orphan w k cl'"
proof (induction rule: reach.induct)
  case (reach_init s)
  then show ?case using assms cluster_machine.reach_safe by simp
next
  case (reach_step s t)
  then show ?case using orphan_step cluster_ok_step by blast
qed

section \<open>The numbers in the messages\<close>

text \<open>
  What the head asks a scheduler for and what the scheduler's processes report: every replica was
  started for deployment 2, under a positive number.
\<close>

definition numbers_ok :: "int \<Rightarrow> scheduler \<Rightarrow> bool" where
  "numbers_ok w sc \<longleftrightarrow> uint32_ok w \<and> 0 \<le> sc_replica_num sc \<and> dict_ok (sc_registry sc) \<and>
     (\<forall>cmd \<in> set (sc_launched sc). \<exists>k port name. 0 < k \<and>
        cmd = replica_command k port name (int_text 2) (int_text (sc_node_port sc))) \<and>
     (\<forall>k h. dget (sc_registry sc) k = Some h \<longrightarrow> 0 < k \<and> rh_deployment_id h = 2)"

definition all_numbers_ok :: "cluster \<Rightarrow> bool" where
  "all_numbers_ok cl \<longleftrightarrow> (\<forall>w sc. dget (cl_workers cl) w = Some sc \<longrightarrow> numbers_ok w sc)"

lemma numbers_ok_registers:
  assumes "numbers_ok w sc" and "from_launch status sc"
  shows "numbers_ok w (snd (register_replica_rpc status sc))"
proof -
  obtain name where "replica_command (rs_replica_id status) (rs_port status) name
      (int_text (rs_deployment_id status)) (int_text (sc_node_port sc)) \<in> set (sc_launched sc)"
    using assms(2) by (auto simp: from_launch_def)
  then have "0 < rs_replica_id status" "rs_deployment_id status = 2"
    using assms(1) by (fastforce simp: numbers_ok_def replica_command_def)+
  with assms(1) show ?thesis
    by (auto simp: numbers_ok_def register_replica_rpc_def replica_init_def Let_def split: if_splits)
qed

lemma create_replica_effect:
  assumes "create_replica_rpc request failure sc = (r, sc')"
  shows "sc_replica_num sc' = sc_replica_num sc + 1" and "sc_registry sc' = sc_registry sc"
    and "sc_node_port sc' = sc_node_port sc"
    and "set (sc_launched sc') \<subseteq> insert (replica_command (sc_replica_num sc + 1)
      (int_text (50100 + (sc_replica_num sc + 1))) (cq_deployment_name request)
      (int_text (cq_deployment_id request)) (int_text (sc_node_port sc))) (set (sc_launched sc))"
  using assms by (auto simp: create_replica_rpc_def start_replica_cpp_def Let_def
      split: option.splits sum.splits prod.splits)

lemma numbers_ok_creates:
  assumes "numbers_ok w sc" and "cq_deployment_id request = 2" and "create_replica_rpc request failure sc = (r, sc')"
  shows "numbers_ok w sc'"
proof -
  note e = create_replica_effect [OF assms(3), unfolded assms(2)]
  have "\<exists>k port name. 0 < k \<and> cmd = replica_command k port name (int_text 2) (int_text (sc_node_port sc))"
    if "cmd \<in> set (sc_launched sc')" for cmd
  proof (cases "cmd \<in> set (sc_launched sc)")
    case True
    then show ?thesis using assms(1) by (simp add: numbers_ok_def)
  next
    case False
    with that e(4) have "cmd = replica_command (sc_replica_num sc + 1) (int_text (50100 + (sc_replica_num sc + 1)))
        (cq_deployment_name request) (int_text 2) (int_text (sc_node_port sc))" by blast
    moreover have "0 < sc_replica_num sc + 1" using assms(1) by (simp add: numbers_ok_def)
    ultimately show ?thesis by blast
  qed
  with assms(1) e(1-3) show ?thesis by (simp add: numbers_ok_def)
qed

lemma numbers_ok_step:
  assumes "cluster_step cl cl'" and "cluster_ok cl" and "all_numbers_ok cl"
  shows "all_numbers_ok cl'"
  using assms
proof (induction rule: cluster_step.induct)
  case (boot cl w address port num_cpus num_gpus rq head_address head_port)
  then have "uint32_ok w" by (auto simp: sched_register_request_def split: sum.splits if_splits)
  with boot.prems show ?case by (auto simp: all_numbers_ok_def numbers_ok_def set_worker_def sched_init_def split: if_splits)
next
  case (call cl w sc d request a sc')
  have "cq_deployment_id request = 2"
    using request_deployment [OF call.hyps(3)] spawned_two [OF cluster_okD(1) [OF call.prems(1)] call.hyps(2)] by simp
  with numbers_ok_creates [OF _ this call.hyps(4)] call.prems(2) call.hyps(1)
  show ?case by (auto simp: all_numbers_ok_def set_worker_def)
next
  case (call_fails cl w sc d request e r sc' now)
  have "cq_deployment_id request = 2"
    using request_deployment [OF call_fails.hyps(3)] spawned_two [OF cluster_okD(1) [OF call_fails.prems(1)] call_fails.hyps(2)]
    by simp
  with numbers_ok_creates [OF _ this call_fails.hyps(4)] call_fails.prems(2) call_fails.hyps(1)
  show ?case by (auto simp: all_numbers_ok_def set_worker_def)
next
  case (works cl w sc k)
  then show ?case
    by (auto simp: all_numbers_ok_def set_worker_def numbers_ok_def replica_processing_def split: option.splits if_splits)
next
  case (cancelled cl w sc a)
  then show ?case by (auto simp: all_numbers_ok_def set_worker_def numbers_ok_def await_cancelled_def)
next
  case (report_ends cl w sc acknowledgement)
  have "cleanup_replicas sc = sc"
    using cleanup_nothing cluster_okD(2) [OF report_ends.prems(1) report_ends.hyps] by (simp add: worker_ok_def)
  with report_ends show ?case
    by (auto simp: all_numbers_ok_def set_worker_def numbers_ok_def health_round_finish_def send_kill_signal_def
        split: sent.splits if_splits)
qed (auto simp: all_numbers_ok_def set_worker_def numbers_ok_registers)

lemma reach_numbers_ok: "reach cluster_start cluster_step cl \<Longrightarrow> all_numbers_ok cl"
proof (induction rule: reach.induct)
  case (reach_init cl)
  then show ?case by (simp add: all_numbers_ok_def cluster_start_def)
next
  case (reach_step cl cl')
  then show ?case using numbers_ok_step cluster_machine.reach_safe by blast
qed

section \<open>Properties\<close>

text \<open>
  C3. The schedulers keep the promises the head relies on.  Every run of the whole control plane -
  workers booting, calls made, failing, lost and answered, replicas registering, reports - is, as
  seen by the head, a run of the head machine, whose replies are all applicable (\<open>answer_ok\<close>: one
  replica, of a registered worker, under an identifier not in use) and whose reports name the right
  deployments.  So every property of the head's reachable states holds in the composed system.
\<close>

theorem cluster_refines_head:
  assumes "reach cluster_start cluster_step cl"
  shows "reach head_start head_step (cl_head cl) \<and>
    (\<forall>ca \<in> set (cl_calls cl). \<forall>sc reply. dget (cl_workers cl) (ca_worker ca) = Some sc \<longrightarrow>
      peek (sc_futures sc) (ca_future ca) = Some (Result reply) \<longrightarrow> answer_ok (Got reply) (hc_dm (cl_head cl)))"
  using head_view.reach_view [OF assms] answer_applies(2) [OF cluster_machine.reach_safe [OF assms]] by blast

theorem cluster_refines_head_witness:
  "reach head_start head_step (cl_head run_answered) \<and> answer_ok (Got run_reply) (hc_dm run_head)"
proof -
  have "peek (sc_futures (snd (register_replica_rpc run_status run_waiting))) (ca_future run_call) = Some (Result run_reply)"
    by (simp add: run_call_def run_facts(10))
  moreover have "ca_worker run_call = 1" by (simp add: run_call_def)
  ultimately show ?thesis
    using cluster_refines_head [OF run_registered_reach] cluster_refines_head [OF run_answered_reach]
    by (simp add: run_registered_facts)
qed

text \<open>
  C2. Every routed replica exists.  In every reachable state of the control plane each replica of the
  head's table is \<open>RUNNING\<close> and stands for a replica in the registry of a booted scheduler, started for
  that very deployment: its identifier is the scheduler's number and the replica's, its address the
  scheduler's address with the port the replica registered with.
\<close>

theorem routed_replicas_registered:
  assumes "reach cluster_start cluster_step cl"
    and "routes (hc_dm (cl_head cl)) d = Some (name, version, infos)" and "info \<in> set infos"
  shows "\<exists>w sc k h. dget (cl_workers cl) w = Some sc \<and> sc_worker_id sc = w \<and>
    dget (sc_registry sc) k = Some h \<and> rh_deployment_id h = d \<and>
    info = \<lparr>ri_replica_num = replica_key (int_text w) (int_text k),
      ri_address = host_port (sc_node_address sc) (rh_port h), ri_state = ''RUNNING''\<rparr>"
proof -
  note ok = cluster_okD [OF cluster_machine.reach_safe [OF assms(1)]]
  have "serves (hc_dm (cl_head cl)) d info" using assms(2,3) by (simp add: serves_def)
  from ok(6) [OF this] ok(2) show ?thesis unfolding backed_def worker_ok_def by blast
qed

theorem routed_replicas_registered_witness:
  "\<exists>sc h. dget (cl_workers run_answered) 1 = Some sc \<and> dget (sc_registry sc) 1 = Some h \<and> rh_deployment_id h = 2"
  using routed_replicas_registered [OF run_answered_reach run_answered_route] by auto

text \<open>
  C4. A replica that registers comes into service.  In every reachable state of the control plane in
  which a creation call is pending, when the process it started registers for the first time and the
  answer then reaches the head, the table of the call's deployment gains exactly this replica:
  \<open>RUNNING\<close>, under the scheduler's and its own number, at the scheduler's address with the reported
  port; and the new table is the head's snapshot for the proxies.
\<close>

theorem registration_comes_into_service:
  assumes "reach cluster_start cluster_step cl" and "ca \<in> set (cl_calls cl)"
    and "dget (cl_workers cl) (ca_worker ca) = Some sc"
    and "peek (sc_futures sc) (ca_future ca) = Some Pending"
    and "from_launch status sc" and "rs_replica_id status = ca_replica ca"
    and "rs_replica_id status \<notin> dkeys (sc_registry sc)"
  shows "\<exists>sc' reply hc'. register_replica_rpc status sc = (True, sc') \<and>
    peek (sc_futures sc') (ca_future ca) = Some (Result reply) \<and>
    create_replica_finish now (ca_deployment ca) 0 0 (Got reply) (cl_head cl) = (Some reply, hc') \<and>
    routes (hc_dm hc') = spec_add (ca_deployment ca)
      \<lparr>ri_replica_num = replica_key (int_text (ca_worker ca)) (int_text (ca_replica ca)),
       ri_address = host_port (sc_node_address sc) (rs_port status), ri_state = ''RUNNING''\<rparr>
      (routes (hc_dm (cl_head cl))) \<and>
    hc_snapshot hc' = Some (get_current_routing_table now (hc_dm hc'))"
proof -
  note ok = cluster_machine.reach_safe [OF assms(1)]
  have wk: "worker_ok (ca_worker ca) sc" by (rule cluster_okD(2) [OF ok assms(3)])
  have own: "get_future (rs_replica_id status) (sc_futures sc) = Some (ca_future ca)" and fm: "fm_ok (sc_futures sc)"
    using cluster_okD(4) [OF ok] assms(2,3,4,6) wk by (auto simp: calls_ok_def call_ok_def worker_ok_def sched_ok_def)
  obtain sc' where sc': "register_replica_rpc status sc = (True, sc')"
    by (cases "register_replica_rpc status sc") (auto simp: register_replica_rpc_def Let_def split: if_splits)
  have new: "sc' = sc\<lparr>sc_registry := dset (rs_replica_id status) (replica_init (rs_pid status) (rs_replica_id status)
      (sc_worker_id sc) (rs_deployment_id status) (rs_port status)) (sc_registry sc),
    sc_futures := set_result (rs_replica_id status) (registration_reply status sc) (sc_futures sc)\<rparr>"
    using register_new [OF assms(7)] sc' by simp
  let ?cl = "set_worker (ca_worker ca) sc' cl" and ?r = "registration_reply status sc"
  have cl: "cluster_ok ?cl" using cluster_ok_step [OF cluster_step.registers [OF assms(3,5)] ok] sc' by simp
  have facts: "ca \<in> set (cl_calls ?cl)" "dget (cl_workers ?cl) (ca_worker ca) = Some sc'" "cl_head ?cl = cl_head cl"
    "peek (sc_futures sc') (ca_future ca) = Some (Result ?r)"
    using assms(2,4) own fm by (simp_all add: set_worker_def new futures.fulfil_look)
  obtain h dm' where h: "dget (sc_registry sc') (ca_replica ca) = Some h"
    "create_replica_finish now (ca_deployment ca) 0 0 (Got ?r) (cl_head cl) =
      (Some ?r, on_deployment_change now ((cl_head cl)\<lparr>hc_dm := dm'\<rparr>))"
    "routes dm' = spec_add (ca_deployment ca) \<lparr>ri_replica_num = call_key ca,
        ri_address = host_port (sc_node_address sc') (rh_port h), ri_state = ''RUNNING''\<rparr> (routes (hc_dm (cl_head cl)))"
    using cluster_ok_answer(1) [OF cl facts(1,2,4), of now] facts(3) by auto
  have "rh_port h = rs_port status" "sc_node_address sc' = sc_node_address sc"
    using h(1) assms(6) by (auto simp: new replica_init_def)
  with sc' facts(4) h(2,3) show ?thesis
    by (auto simp: call_key_def on_deployment_change_def)
qed

theorem registration_comes_into_service_witness:
  "\<exists>sc' reply hc'. register_replica_rpc run_status run_waiting = (True, sc') \<and>
    create_replica_finish 9 2 0 0 (Got reply) run_head = (Some reply, hc') \<and>
    routes (hc_dm hc') 2 = Some (''/v1/chat/tinyllama'', ''1.0'',
      [\<lparr>ri_replica_num = replica_key (int_text 1) (int_text 1),
        ri_address = host_port ''10.0.0.1'' (int_text 50101), ri_state = ''RUNNING''\<rparr>])"
proof -
  have "peek (sc_futures run_waiting) 0 = Some Pending"
    by (simp add: run_waiting_def create_replica_rpc_def start_replica_cpp_def demo_sched_def sched_init_def
        Let_def create_future_def fm_init_def peek_def)
  moreover have "cl_calls run_called = [run_call]" "cl_head run_called = run_head"
    "dget (cl_workers run_called) 1 = Some run_waiting"
    by (simp_all add: run_called_def dict_eval)
  moreover have st: "rs_replica_id run_status = 1" "rs_port run_status = int_text 50101"
    by (simp_all add: run_status_def)
  ultimately obtain sc' reply hc' where "register_replica_rpc run_status run_waiting = (True, sc')"
    "create_replica_finish 9 2 0 0 (Got reply) run_head = (Some reply, hc')"
    "routes (hc_dm hc') = spec_add 2 \<lparr>ri_replica_num = replica_key (int_text 1) (int_text 1),
       ri_address = host_port ''10.0.0.1'' (int_text 50101), ri_state = ''RUNNING''\<rparr> (routes (hc_dm run_head))"
    using registration_comes_into_service [OF run_called_reach, of run_call run_waiting run_status 9] run_facts(9,12,13)
    by (auto simp: run_call_def dkeys_iff)
  then show ?thesis
    by (intro exI [of _ sc'] exI [of _ reply] exI [of _ hc']) (simp add: spec_add_def run_facts(5) first_routes_eq)
qed

text \<open>
  C32. A lost call loses its replica.  Once, in a reachable state, no call waits for the replica \<open>k\<close> of
  the scheduler \<open>w\<close> and the table does not list it (which is the case right after its creation call
  was lost), it is not listed in any later state either: the process may run and register, and no
  request ever reaches it.
\<close>

theorem orphaned_replica_never_routed:
  assumes "reach cluster_start cluster_step cl" and "dget (cl_workers cl) w = Some sc" and "k \<le> sc_replica_num sc"
    and "\<forall>ca \<in> set (cl_calls cl). ca_worker ca = w \<longrightarrow> ca_replica ca \<noteq> k"
    and "\<forall>d name version infos. routes (hc_dm (cl_head cl)) d = Some (name, version, infos) \<longrightarrow>
      replica_key (int_text w) (int_text k) \<notin> set (map ri_replica_num infos)"
    and "reach (\<lambda>s. s = cl) cluster_step cl'"
    and "routes (hc_dm (cl_head cl')) d = Some (name, version, infos)"
  shows "replica_key (int_text w) (int_text k) \<notin> set (map ri_replica_num infos)"
proof -
  have "ri_replica_num info \<noteq> replica_key (int_text w) (int_text k)" if "serves (hc_dm (cl_head cl)) d info" for d info
    using that assms(5) unfolding serves_def by (metis image_eqI list.set_map)
  then have "orphan w k cl" using assms(2-4) by (auto simp: orphan_def)
  then have "orphan w k cl'" using orphan_run [OF assms(1) _ assms(6)] by blast
  then have "ri_replica_num info \<noteq> replica_key (int_text w) (int_text k)" if "info \<in> set infos" for info
    using assms(7) that unfolding orphan_def serves_def by blast
  then show ?thesis unfolding set_map by (metis imageE)
qed

text \<open>The sample run with its call lost; the replica registers afterwards.\<close>

definition run_lost :: cluster where
  "run_lost = run_called\<lparr>cl_head := put_pending 2 run_head, cl_calls := []\<rparr>"

definition run_late :: cluster where
  "run_late = set_worker 1 (snd (register_replica_rpc run_status run_waiting)) run_lost"

lemma run_lost_steps:
  "reach cluster_start cluster_step run_lost" "reach (\<lambda>s. s = run_lost) cluster_step run_late"
proof -
  have "cluster_step run_called (run_called\<lparr>cl_head := snd (create_replica_finish 9 (ca_deployment run_call) 0 0 GotNone
      (cl_head run_called)), cl_calls := remove1 run_call (cl_calls run_called)\<rparr>)"
    by (rule cluster_step.lost) (simp_all add: run_called_def)
  then have "cluster_step run_called run_lost"
    by (simp add: run_lost_def run_called_def run_call_def create_replica_finish_def)
  with run_called_reach show "reach cluster_start cluster_step run_lost" by (rule reach_step)
  have "cluster_step run_lost run_late"
    unfolding run_late_def by (rule cluster_step.registers)
      (simp_all add: run_lost_def run_called_def dict_eval run_facts)
  then show "reach (\<lambda>s. s = run_lost) cluster_step run_late" by (rule reach_step [OF reach_init, rotated]) simp
qed

theorem orphaned_replica_never_routed_witness:
  "(\<exists>sc h. dget (cl_workers run_late) 1 = Some sc \<and> dget (sc_registry sc) 1 = Some h) \<and>
   (\<exists>name version infos. routes (hc_dm (cl_head run_late)) 2 = Some (name, version, infos) \<and>
      replica_key (int_text 1) (int_text 1) \<notin> set (map ri_replica_num infos))"
proof -
  have "routes (hc_dm (cl_head run_lost)) = first_routes" by (simp add: run_lost_def run_facts(5))
  then have none: "routes (hc_dm (cl_head run_lost)) d = Some (name, version, infos) \<Longrightarrow> infos = []" for d name version infos
    using first_routes_empty [of d] first_routes_eq(2) by (cases "d = 2") auto
  have w: "dget (cl_workers run_lost) 1 = Some run_waiting" "cl_calls run_lost = []"
    by (simp_all add: run_lost_def run_called_def dict_eval)
  have "\<exists>sc h. dget (cl_workers run_late) 1 = Some sc \<and> dget (sc_registry sc) 1 = Some h"
    by (simp add: run_late_def set_worker_def run_lost_def run_called_def register_replica_rpc_def run_facts
        run_status_def Let_def dkeys_iff)
  moreover obtain name version infos where r: "routes (hc_dm (cl_head run_late)) 2 = Some (name, version, infos)"
    by (simp add: run_late_def run_lost_def run_called_def set_worker_def run_facts(5) first_routes_eq)
  moreover have "replica_key (int_text 1) (int_text 1) \<notin> set (map ri_replica_num infos)"
  proof (rule orphaned_replica_never_routed [OF run_lost_steps(1) w(1) _ _ _ run_lost_steps(2) r])
    show "1 \<le> sc_replica_num run_waiting" by (simp add: run_facts(8))
    show "\<forall>ca \<in> set (cl_calls run_lost). ca_worker ca = 1 \<longrightarrow> ca_replica ca \<noteq> 1" by (simp add: w(2))
    show "\<forall>d name version infos. routes (hc_dm (cl_head run_lost)) d = Some (name, version, infos) \<longrightarrow>
        replica_key (int_text 1) (int_text 1) \<notin> set (map ri_replica_num infos)"
      using none by fastforce
  qed
  ultimately show ?thesis by blast
qed

text \<open>
  C34. Nothing ever leaves the routing table.  In a reachable state of the control plane every health
  report of every scheduler is acknowledged without changing the head (no scheduler reports a dead
  replica), and no step at all takes a replica out of the table, whether its process is alive or not.
\<close>

theorem routes_never_shrink:
  assumes "reach cluster_start cluster_step cl" and "dget (cl_workers cl) w = Some sc" and "cluster_step cl cl'"
    and "routes (hc_dm (cl_head cl)) d = Some (name, version, infos)" and "info \<in> set infos"
  shows "head_send_health_status now (health_report sc) (cl_head cl) =
      (Inr \<lparr>hr_ack = True, hr_is_alive = ''true''\<rparr>, cl_head cl) \<and>
    (\<exists>name' version' infos'. routes (hc_dm (cl_head cl')) d = Some (name', version', infos') \<and> info \<in> set infos')"
proof -
  note ok = cluster_machine.reach_safe [OF assms(1)]
  have "serves (hc_dm (cl_head cl)) d info" using assms(4,5) by (simp add: serves_def)
  with step_serves [OF assms(3) ok, of d info] report_ignored [OF cluster_okD(2) [OF ok assms(2)]]
  show ?thesis by (auto simp: serves_def)
qed

text \<open>The scheduler of the sample run loses its head and kills its replica.\<close>

theorem routes_never_shrink_witness:
  "\<exists>sc infos. sc_killed sc = [4711] \<and>
    cluster_step run_answered (set_worker 1 sc run_answered) \<and>
    routes (hc_dm (cl_head (set_worker 1 sc run_answered))) 2 = Some infos \<and>
    ri_replica_num (hd (snd (snd infos))) = replica_key (int_text 1) (int_text 1)"
proof -
  let ?sc = "snd (register_replica_rpc run_status run_waiting)"
  let ?dead = "snd (health_round_finish GotNone ?sc)"
  have w: "dget (cl_workers run_answered) 1 = Some ?sc"
    by (simp add: run_answered_def run_registered_facts)
  have st: "cluster_step run_answered (set_worker 1 ?dead run_answered)"
    by (rule cluster_step.report_ends [OF w])
  have k: "sc_killed ?dead = [4711]"
    by (simp add: health_round_finish_def send_kill_signal_def register_replica_rpc_def run_facts Let_def
        run_status_def replica_init_def dict_eval dkeys_iff) (simp add: run_waiting_def create_replica_rpc_def
        start_replica_cpp_def demo_sched_def sched_init_def Let_def create_future_def fm_init_def)
  obtain infos where r: "routes (hc_dm (cl_head run_answered)) 2 = Some (''/v1/chat/tinyllama'', ''1.0'', infos)"
    "map ri_replica_num infos = [replica_key (int_text 1) (int_text 1)]"
    using run_answered_route by auto
  then obtain info where i: "infos = [info]" "ri_replica_num info = replica_key (int_text 1) (int_text 1)" by auto
  have "\<exists>name version infos'. routes (hc_dm (cl_head (set_worker 1 ?dead run_answered))) 2 = Some (name, version, infos') \<and>
      info \<in> set infos'"
    using routes_never_shrink [OF run_answered_reach w st r(1)] i(1) by simp
  with r(1) i k st show ?thesis by (auto simp: set_worker_def)
qed

text \<open>The numbers of a health report, and of the answer to a creation, in the range of their fields.\<close>

definition report_fits :: "health_update \<Rightarrow> bool" where
  "report_fits hu \<longleftrightarrow> uint32_ok (hu_worker_id hu) \<and>
     (\<forall>rs \<in> set (hu_replica_states hu). uint32_ok (rst_replica_id rs) \<and> uint32_ok (rst_deployment_id rs))"

definition reply_fits :: "creation_reply \<Rightarrow> bool" where
  "reply_fits r \<longleftrightarrow> uint32_ok (cr_worker_id r) \<and> (\<forall>rc \<in> set (cr_replicas r). uint32_ok (rc_replica_id rc))"

text \<open>
  Every message of a worker can be built.  In every reachable state of the control plane in which a
  scheduler has started fewer than $2^{32}$ replicas, each number of its health report, and of the reply
  to the head when one of its replicas registers, lies in the range of its \<open>uint32\<close> field, so that
  building the message raises no \<open>ValueError\<close>.
\<close>

theorem worker_messages_fit:
  assumes "reach cluster_start cluster_step cl" and "dget (cl_workers cl) w = Some sc" and "sc_replica_num sc < 2 ^ 32"
    and "from_launch status sc"
  shows "report_fits (health_report sc) \<and> reply_fits (registration_reply status sc)"
proof -
  have ok: "numbers_ok w sc" "worker_ok w sc"
    using reach_numbers_ok [OF assms(1)] cluster_okD(2) [OF cluster_machine.reach_safe [OF assms(1)]] assms(2)
    by (simp_all add: all_numbers_ok_def)
  have id: "uint32_ok (sc_worker_id sc)" using ok by (simp add: numbers_ok_def worker_ok_def)
  have "uint32_ok k \<and> uint32_ok (rh_deployment_id h)" if "dget (sc_registry sc) k = Some h" for k h
    using ok assms(3) that by (force simp: numbers_ok_def worker_ok_def uint32_ok_def)
  moreover have "dict_ok (sc_registry sc)" using ok(1) by (simp add: numbers_ok_def)
  ultimately have "report_fits (health_report sc)"
    using id by (force simp: report_fits_def health_report_def dget_def dict_ok_def)
  moreover have "uint32_ok (rs_replica_id status)"
  proof -
    let ?sc = "snd (register_replica_rpc status sc)"
    have "rs_replica_id status \<in> dkeys (sc_registry ?sc)"
      by (simp add: register_replica_rpc_def Let_def dkeys_iff)
    then obtain h where h: "dget (sc_registry ?sc) (rs_replica_id status) = Some h" by (auto simp: dkeys_iff)
    have "0 < rs_replica_id status" "rs_replica_id status \<le> sc_replica_num ?sc"
      using h numbers_ok_registers [OF ok(1) assms(4)] worker_ok_register [OF ok(2) assms(4)]
      unfolding numbers_ok_def worker_ok_def by blast+
    moreover have "sc_replica_num ?sc = sc_replica_num sc" by (simp add: register_replica_rpc_def Let_def)
    ultimately show ?thesis using assms(3) by (simp add: uint32_ok_def)
  qed
  ultimately show ?thesis using id by (simp add: reply_fits_def registration_reply_def)
qed

theorem worker_messages_fit_witness:
  "report_fits (health_report run_waiting) \<and> reply_fits (registration_reply run_status run_waiting)"
  using worker_messages_fit [OF run_called_reach, of 1 run_waiting run_status] run_facts(8,9)
  by (simp add: run_called_def dict_eval)

end
