(* ===== verification/ProxyHandle.thy ===== *)
theory ProxyHandle
  imports Messages AutoScale
begin

text \<open>
  \<open>src/lib/deployment_handle.py\<close>: the proxy's view of one deployment, its choice of a replica and the
  count of outstanding requests per replica.

  A request runs through the async generators \<open>send_request\<close> and
  \<open>_attempt_streaming_request_to_worker_node\<close>.  Up to the call of the replica nothing suspends (the
  lock is free whenever it is taken); this part is \<open>dh_open\<close>, for requests that interleave.  What the
  replica streams is turned into tokens by \<open>forward_replies\<close>; the \<open>finally\<close> block is \<open>dh_release\<close>.
  \<open>dh_send_request\<close> is a whole request with nothing in between.  The replica is a list of replies and the exception that ends the stream,
  if one does.
\<close>

record routed_replica =
  rt_replica_id :: string
  rt_replica_address :: string
  rt_state :: string

record proxy_handle =
  ph_deployment_id :: int
  ph_deployment_name :: string
  ph_version :: string
  ph_cache :: "(string, int) dict"
  ph_replicas :: "routed_replica list"

section \<open>Construction\<close>

definition routed :: "replica_msg \<Rightarrow> routed_replica" where
  "routed r = \<lparr>rt_replica_id = rm_replica_id r, rt_replica_address = rm_address r, rt_state = rm_state r\<rparr>"

definition cache_replica :: "replica_msg \<Rightarrow> (string, int) dict \<Rightarrow> (string, int) dict" where
  "cache_replica r cache =
     (let cache1 = (if rm_state r = ''RUNNING'' \<and> rm_replica_id r \<notin> dkeys cache
                    then dset (rm_replica_id r) 0 cache else cache)
      in if rm_state r = ''SHUTDOWN'' \<and> rm_replica_id r \<in> dkeys cache1
         then ddel (rm_replica_id r) cache1 else cache1)"

fun initialize_replicas_and_cache ::
  "replica_msg list \<Rightarrow> (string, int) dict \<Rightarrow> routed_replica list \<times> (string, int) dict" where
  "initialize_replicas_and_cache [] cache = ([], cache)"
| "initialize_replicas_and_cache (r # rest) cache =
     (case initialize_replicas_and_cache rest (cache_replica r cache) of
        (replicas, cache') \<Rightarrow> (routed r # replicas, cache'))"

definition dh_init :: "int \<Rightarrow> deployment_msg \<Rightarrow> proxy_handle" where
  "dh_init deployment_id obj =
     (case initialize_replicas_and_cache (dp_replicas obj) [] of
        (replicas, cache) \<Rightarrow>
          \<lparr>ph_deployment_id = deployment_id, ph_deployment_name = dp_deployment_name obj,
           ph_version = dp_version obj, ph_cache = cache, ph_replicas = replicas\<rparr>)"

section \<open>Choosing a replica\<close>

definition parse_replica_id :: "string \<Rightarrow> (string \<times> string) res" where
  "parse_replica_id full_replica_id =
     (case dropWhile (\<lambda>c. c \<noteq> CHR ''#'') full_replica_id of
        [] \<Rightarrow> Inl IndexError
      | hash # actual \<Rightarrow> Inr (takeWhile (\<lambda>c. c \<noteq> CHR ''#'') full_replica_id, actual))"

text \<open>\<open>self.replica_cache.get(replica_id, 0)\<close>\<close>

definition outstanding :: "proxy_handle \<Rightarrow> string \<Rightarrow> int" where
  "outstanding ph replica_id = (case dget (ph_cache ph) replica_id of None \<Rightarrow> 0 | Some n \<Rightarrow> n)"

text \<open>Python's \<open>min\<close> with a key: the first element with the least key.\<close>

fun least_by :: "('a \<Rightarrow> int) \<Rightarrow> 'a \<Rightarrow> 'a list \<Rightarrow> 'a" where
  "least_by key x [] = x"
| "least_by key x (y # ys) = least_by key (if key y < key x then y else x) ys"

definition py_min :: "('a \<Rightarrow> int) \<Rightarrow> 'a list \<Rightarrow> 'a res" where
  "py_min key xs = (case xs of
     [] \<Rightarrow> Inl (ValueError ''min() arg is an empty sequence'') | y # ys \<Rightarrow> Inr (least_by key y ys))"

definition running_replicas :: "proxy_handle \<Rightarrow> routed_replica list" where
  "running_replicas ph = filter (\<lambda>r. rt_state r = ''RUNNING'') (ph_replicas ph)"

definition pick_next_replica :: "proxy_handle \<Rightarrow> (string \<times> string) res \<times> proxy_handle" where
  "pick_next_replica ph =
     (case py_min (\<lambda>r. outstanding ph (rt_replica_id r)) (running_replicas ph) of
        Inl e \<Rightarrow> (Inl e, ph)
      | Inr selected \<Rightarrow>
          (let current_count = outstanding ph (rt_replica_id selected)
           in (Inr (rt_replica_address selected, rt_replica_id selected),
               ph\<lparr>ph_cache := dset (rt_replica_id selected) (current_count + 1) (ph_cache ph)\<rparr>)))"

section \<open>A request\<close>

text \<open>The \<open>finally\<close> block.\<close>

definition dh_release :: "string \<Rightarrow> proxy_handle \<Rightarrow> proxy_handle" where
  "dh_release replica_id ph =
     (case dget (ph_cache ph) replica_id of
        None \<Rightarrow> ph
      | Some n \<Rightarrow> ph\<lparr>ph_cache := dset replica_id (if n - 1 < 0 then 0 else n - 1) (ph_cache ph)\<rparr>)"

text \<open>
  The tokens yielded and the exception raised; an error reply raises inside the \<open>try\<close>, so it is
  wrapped once more.
\<close>

definition attempt_failed :: "string \<Rightarrow> string \<Rightarrow> exn \<Rightarrow> exn" where
  "attempt_failed address actual e =
     GenericError
       (if is_rpc_error e
        then ''gRPC error with Replica at '' @ address @ '' for replica '' @ actual @ '': '' @ exn_text e
        else ''Error in streaming request to Replica for replica '' @ actual @ '': '' @ exn_text e)"

fun forward_replies ::
  "string \<Rightarrow> string \<Rightarrow> string \<Rightarrow> replica_reply list \<Rightarrow> exn option \<Rightarrow> string list \<times> exn option" where
  "forward_replies address worker actual [] ending = ([], map_option (attempt_failed address actual) ending)"
| "forward_replies address worker actual (r # rest) ending =
     (if rp_is_error r then
        ([], Some (attempt_failed address actual (GenericError
           (''Error Replica '' @ actual @ '': from worker '' @ worker @ '': '' @ rp_text r))))
      else (case forward_replies address worker actual rest ending of
              (tokens, e) \<Rightarrow> (rp_text r # tokens, e)))"

text \<open>
  \<open>_attempt_streaming_request_to_worker_node\<close> run to its end, given what the replica streams.
\<close>

definition attempt_streaming ::
  "string \<Rightarrow> string \<Rightarrow> replica_reply list \<times> exn option \<Rightarrow> proxy_handle \<Rightarrow> string list \<times> exn option \<times> proxy_handle"
  where
  "attempt_streaming full_replica_id address stream ph =
     (if full_replica_id = [] \<or> address = [] then ([], None, ph)
      else case parse_replica_id full_replica_id of
        Inl e \<Rightarrow> ([], Some e, ph)
      | Inr (worker, actual) \<Rightarrow>
          if full_replica_id \<notin> dkeys (ph_cache ph) then ([], None, dh_release full_replica_id ph)
          else
            (case forward_replies address worker actual (fst stream) (snd stream) of
               (tokens, e) \<Rightarrow> (tokens, e, dh_release full_replica_id ph)))"

text \<open>
  \<open>send_request\<close>: the tokens and the exception that leaves it.  \<open>replica\<close> is what the replica at an
  address answers to a prompt.  What the attempt raises is caught and printed.
\<close>

definition dh_send_request ::
  "(string \<Rightarrow> 'm \<Rightarrow> replica_reply list \<times> exn option) \<Rightarrow> 'm \<Rightarrow> proxy_handle \<Rightarrow>
   string list \<times> exn option \<times> proxy_handle" where
  "dh_send_request replica message ph =
     (case pick_next_replica ph of
        (Inl e, ph1) \<Rightarrow> ([], Some e, ph1)
      | (Inr (address, replica_id), ph1) \<Rightarrow>
          if replica_id \<noteq> [] \<and> address \<noteq> [] then
            (case attempt_streaming replica_id address (replica address message) ph1 of
               (tokens, swallowed, ph2) \<Rightarrow> (tokens, None, ph2))
          else ([], Some (GenericError ''No valid replicas found''), ph1))"

text \<open>
  How far a request gets before the replica is called: \<open>Refused\<close> is an exception that leaves
  \<open>send_request\<close>, \<open>Ended\<close> a request that produces nothing (an exception of the inner generator is
  caught and printed), \<open>Opened\<close> a call to a replica.
\<close>

datatype admission = Refused exn | Ended "exn option" | Opened string string

definition dh_open :: "proxy_handle \<Rightarrow> admission \<times> proxy_handle" where
  "dh_open ph =
     (case pick_next_replica ph of
        (Inl e, ph1) \<Rightarrow> (Refused e, ph1)
      | (Inr (address, replica_id), ph1) \<Rightarrow>
          if replica_id \<noteq> [] \<and> address \<noteq> [] then
            (case parse_replica_id replica_id of
               Inl e \<Rightarrow> (Ended (Some e), ph1)
             | Inr (worker, actual) \<Rightarrow>
                 if replica_id \<notin> dkeys (ph_cache ph1) then (Ended None, ph1)
                 else (Opened address replica_id, ph1))
          else (Refused (GenericError ''No valid replicas found''), ph1))"

section \<open>Facts\<close>

lemma least_by_least:
  "least_by key x xs \<in> set (x # xs) \<and> (\<forall>y \<in> set (x # xs). key (least_by key x xs) \<le> key y)"
  by (induction xs arbitrary: x) force+

lemma py_min_least:
  assumes "py_min key xs = Inr m"
  shows "m \<in> set xs" and "\<And>y. y \<in> set xs \<Longrightarrow> key m \<le> key y"
proof -
  obtain y ys where "xs = y # ys" "m = least_by key y ys"
    using assms by (cases xs) (auto simp: py_min_def)
  with least_by_least [of key y ys] show "m \<in> set xs" "\<And>y. y \<in> set xs \<Longrightarrow> key m \<le> key y"
    by blast+
qed

lemma py_min_empty: "py_min key xs = Inl e \<longleftrightarrow> xs = [] \<and> e = ValueError ''min() arg is an empty sequence''"
  by (auto simp: py_min_def split: list.splits)

lemma parse_replica_key [simp]:
  assumes "CHR ''#'' \<notin> set w"
  shows "parse_replica_id (replica_key w r) = Inr (w, r)"
proof -
  have "dropWhile (\<lambda>c. c \<noteq> CHR ''#'') (w @ CHR ''#'' # r) = CHR ''#'' # r"
    "takeWhile (\<lambda>c. c \<noteq> CHR ''#'') (w @ CHR ''#'' # r) = w"
    using assms by (induction w) auto
  then show ?thesis by (simp add: parse_replica_id_def replica_key_def)
qed

lemma parse_ok_iff: "(\<exists>p. parse_replica_id s = Inr p) \<longleftrightarrow> CHR ''#'' \<in> set s"
proof -
  have "dropWhile (\<lambda>c. c \<noteq> CHR ''#'') s = [] \<longleftrightarrow> CHR ''#'' \<notin> set s" by auto
  then show ?thesis by (cases "dropWhile (\<lambda>c. c \<noteq> CHR ''#'') s")
    (simp_all add: parse_replica_id_def del: dropWhile_eq_Nil_conv)
qed

lemma initialize_replicas: "fst (initialize_replicas_and_cache rs cache) = map routed rs"
  by (induction rs arbitrary: cache) (auto split: prod.splits, metis fst_conv)

lemma initialize_zero:
  assumes "\<And>k n. dget cache k = Some n \<Longrightarrow> n = 0"
  shows "dget (snd (initialize_replicas_and_cache rs cache)) k = Some n \<Longrightarrow> n = 0"
  using assms
proof (induction rs arbitrary: cache)
  case (Cons r rs)
  have "n = 0" if "dget (cache_replica r cache) k = Some n" for k n
    using that Cons.prems(2) by (auto simp: cache_replica_def Let_def split: if_splits)
  then show ?case using Cons.IH [of "cache_replica r cache"] Cons.prems(1) by (auto split: prod.splits)
qed simp

lemma dh_init_replicas [simp]: "ph_replicas (dh_init d obj) = map routed (dp_replicas obj)"
  by (simp add: dh_init_def case_prod_unfold initialize_replicas)

lemma dh_init_outstanding [simp]: "outstanding (dh_init d obj) k = 0"
  using initialize_zero [of "[]" "dp_replicas obj" k]
  by (auto simp: dh_init_def outstanding_def case_prod_unfold split: option.splits)


section \<open>Counting\<close>

lemma pick_cases:
  "pick_next_replica ph = (if running_replicas ph = []
     then (Inl (ValueError ''min() arg is an empty sequence''), ph)
     else (let m = least_by (\<lambda>r. outstanding ph (rt_replica_id r)) (hd (running_replicas ph)) (tl (running_replicas ph))
           in (Inr (rt_replica_address m, rt_replica_id m),
               ph\<lparr>ph_cache := dset (rt_replica_id m) (outstanding ph (rt_replica_id m) + 1) (ph_cache ph)\<rparr>)))"
  by (cases "running_replicas ph") (simp_all add: pick_next_replica_def py_min_def Let_def)

lemma pick_chosen:
  assumes "pick_next_replica ph = (Inr (address, k), ph')"
  shows "\<exists>r \<in> set (ph_replicas ph). rt_state r = ''RUNNING'' \<and> rt_replica_address r = address \<and>
      rt_replica_id r = k \<and> (\<forall>r' \<in> set (ph_replicas ph). rt_state r' = ''RUNNING'' \<longrightarrow>
        outstanding ph k \<le> outstanding ph (rt_replica_id r'))"
    and "outstanding ph' k' = outstanding ph k' + (if k' = k then 1 else 0)"
    and "ph_replicas ph' = ph_replicas ph" and "k \<in> dkeys (ph_cache ph')"
proof -
  obtain m where m: "py_min (\<lambda>r. outstanding ph (rt_replica_id r)) (running_replicas ph) = Inr m"
    "address = rt_replica_address m" "k = rt_replica_id m"
    "ph' = ph\<lparr>ph_cache := dset k (outstanding ph k + 1) (ph_cache ph)\<rparr>"
    using assms by (auto simp: pick_next_replica_def Let_def split: sum.splits)
  show "\<exists>r \<in> set (ph_replicas ph). rt_state r = ''RUNNING'' \<and> rt_replica_address r = address \<and>
      rt_replica_id r = k \<and> (\<forall>r' \<in> set (ph_replicas ph). rt_state r' = ''RUNNING'' \<longrightarrow>
        outstanding ph k \<le> outstanding ph (rt_replica_id r'))"
    using py_min_least [OF m(1)] m(2,3) by (auto simp: running_replicas_def)
  show "outstanding ph' k' = outstanding ph k' + (if k' = k then 1 else 0)"
    "ph_replicas ph' = ph_replicas ph" "k \<in> dkeys (ph_cache ph')"
    by (simp_all add: m(4) outstanding_def)
qed

text \<open>A handle whose replicas have an address and an identifier of the form \<open>w#r\<close>.\<close>

definition handle_ok :: "proxy_handle \<Rightarrow> bool" where
  "handle_ok ph \<longleftrightarrow> (\<forall>r \<in> set (ph_replicas ph). CHR ''#'' \<in> set (rt_replica_id r) \<and> rt_replica_address r \<noteq> [])"

lemma open_cases:
  assumes "handle_ok ph"
  shows "(running_replicas ph = [] \<and>
      dh_open ph = (Refused (ValueError ''min() arg is an empty sequence''), ph)) \<or>
    (\<exists>address k ph'. pick_next_replica ph = (Inr (address, k), ph') \<and> dh_open ph = (Opened address k, ph') \<and>
      address \<noteq> [] \<and> CHR ''#'' \<in> set k)"
proof (cases "running_replicas ph = []")
  case True
  then show ?thesis by (simp add: dh_open_def pick_cases)
next
  case False
  then obtain address k ph' where p: "pick_next_replica ph = (Inr (address, k), ph')"
    by (simp add: pick_cases Let_def)
  with assms pick_chosen(1) [OF p] have wf: "address \<noteq> []" "CHR ''#'' \<in> set k"
    by (auto simp: handle_ok_def)
  then obtain q where "parse_replica_id k = Inr q" using parse_ok_iff [of k] by blast
  with p wf pick_chosen(4) [OF p] show ?thesis
    by (cases k) (auto simp: dh_open_def split: prod.splits)
qed

lemma release_outstanding:
  assumes "0 < outstanding ph k"
  shows "outstanding (dh_release k ph) k' = outstanding ph k' - (if k' = k then 1 else 0)"
  using assms by (auto simp: outstanding_def dh_release_def split: option.splits)

lemma release_replicas [simp]: "ph_replicas (dh_release k ph) = ph_replicas ph"
  by (simp add: dh_release_def split: option.splits)

lemma forward_replies_tokens:
  "fst (forward_replies address worker actual rs ending) = map rp_text (takeWhile (\<lambda>r. \<not> rp_is_error r) rs)"
  by (induction rs) (simp_all add: case_prod_unfold)

text \<open>A whole request is its opening, the call and the release.\<close>

lemma send_request_open:
  assumes "handle_ok ph"
  shows "dh_send_request replica message ph =
    (case dh_open ph of
       (Refused e, ph1) \<Rightarrow> ([], Some e, ph1)
     | (Ended e, ph1) \<Rightarrow> ([], None, ph1)
     | (Opened address k, ph1) \<Rightarrow>
         (map rp_text (takeWhile (\<lambda>r. \<not> rp_is_error r) (fst (replica address message))), None, dh_release k ph1))"
  using open_cases [OF assms]
proof (elim disjE conjE exE)
  assume "running_replicas ph = []"
    and o: "dh_open ph = (Refused (ValueError ''min() arg is an empty sequence''), ph)"
  then show ?thesis by (simp add: dh_send_request_def pick_cases)
next
  fix address k ph'
  assume p: "pick_next_replica ph = (Inr (address, k), ph')" and o: "dh_open ph = (Opened address k, ph')"
    and wf: "address \<noteq> []" "CHR ''#'' \<in> set k"
  obtain w r where "parse_replica_id k = Inr (w, r)" using parse_ok_iff [of k] wf(2) by fast
  with p o wf pick_chosen(4) [OF p] show ?thesis
    by (cases k) (auto simp: dh_send_request_def attempt_streaming_def case_prod_unfold forward_replies_tokens)
qed

end
