(* ===== verification/HandleTable.thy ===== *)
theory HandleTable
  imports Messages
begin

text \<open>
  The routing table of a proxy: names are routed to handles, which are objects that outlive the table.
  Both proxies (\<open>HttpProxy\<close>, \<open>CppProxy\<close>) install the deployments of an update one after the other; the
  locale states what their lemmas about updates rest on.
\<close>

locale handle_table =
  fixes handles :: "'p \<Rightarrow> 'h list"
    and table :: "'p \<Rightarrow> (string, nat) dict"
    and make :: "int \<Rightarrow> deployment_msg \<Rightarrow> 'h"
    and add_one :: "int \<Rightarrow> deployment_msg \<Rightarrow> 'p \<Rightarrow> 'p"
    and install :: "(int \<times> deployment_msg) list \<Rightarrow> 'p \<Rightarrow> 'p"
  assumes install_Nil: "install [] px = px"
    and install_Cons: "install ((d, dep) # rest) px = install rest (add_one d dep px)"
    and add_handles: "handles (add_one d dep px) = handles px @ [make d dep]"
    and add_table: "table (add_one d dep px) = dset (dp_deployment_name dep) (length (handles px)) (table px)"
begin

lemma handles_entry: "handles (install deps px) = handles px @ map (\<lambda>(d, dep). make d dep) deps"
proof (induction deps arbitrary: px)
  case (Cons x deps)
  then show ?case by (cases x) (simp add: install_Cons add_handles)
qed (simp add: install_Nil)

lemma length_entry: "length (handles (install deps px)) = length (handles px) + length deps"
  by (simp add: handles_entry)

lemma old_entry: "h < length (handles px) \<Longrightarrow> handles (install deps px) ! h = handles px ! h"
  by (simp add: handles_entry nth_append)

lemma other_entry:
  "\<forall>x \<in> set deps. dp_deployment_name (snd x) \<noteq> name \<Longrightarrow> dget (table (install deps px)) name = dget (table px) name"
proof (induction deps arbitrary: px)
  case (Cons x deps)
  then show ?case by (cases x) (auto simp: install_Cons add_table)
qed (simp add: install_Nil)

lemma known_entry:
  "dget (table (install deps px)) name = Some h \<Longrightarrow>
    dget (table px) name = Some h \<or> (\<exists>x \<in> set deps. dp_deployment_name (snd x) = name)"
proof (induction deps arbitrary: px)
  case (Cons x deps)
  obtain d dep where x: "x = (d, dep)" by (cases x)
  from Cons.IH [of "add_one d dep px"] Cons.prems show ?case
    by (auto simp: x install_Cons add_table split: if_splits)
qed (simp add: install_Nil)

lemma named_entry:
  assumes "distinct (map (\<lambda>x. dp_deployment_name (snd x)) deps)" and "(d, dep) \<in> set deps"
  shows "\<exists>h. dget (table (install deps px)) (dp_deployment_name dep) = Some h \<and>
    length (handles px) \<le> h \<and> h < length (handles (install deps px)) \<and> handles (install deps px) ! h = make d dep"
  using assms
proof (induction deps arbitrary: px)
  case (Cons x deps)
  obtain d' dep' where x: "x = (d', dep')" by (cases x)
  show ?case
  proof (cases "(d, dep) = x")
    case True
    have "\<forall>y \<in> set deps. dp_deployment_name (snd y) \<noteq> dp_deployment_name dep"
      using Cons.prems(1) True x by force
    from other_entry [OF this, of "add_one d' dep' px"] True x show ?thesis
      by (simp add: install_Cons add_table length_entry add_handles old_entry nth_append handles_entry)
  next
    case False
    with Cons.prems have "(d, dep) \<in> set deps" by simp
    with Cons.IH [of "add_one d' dep' px"] Cons.prems(1) x show ?thesis
      by (fastforce simp: install_Cons add_handles)
  qed
qed simp

end

text \<open>The names and addresses of an update.\<close>

definition update_calls :: "routing_update \<Rightarrow> (string \<times> string) set" where
  "update_calls u = {(name, a). \<exists>(d, dep) \<in> set (ru_deployments u). dp_deployment_name dep = name \<and>
     a \<in> rm_address ` set (dp_replicas dep)}"

end
