(* ===== verification/Utf8.thy ===== *)
theory Utf8
  imports Prelude
begin

text \<open>
  \<open>bytes.decode('utf-8')\<close>, which the proxy applies to a request body: the strict decoder (no overlong
  forms, no surrogates, nothing above U+10FFFF).  Bytes and code points are numbers.
\<close>

definition cont :: "nat \<Rightarrow> bool" where
  "cont b \<longleftrightarrow> 128 \<le> b \<and> b < 192"

fun utf8_decode :: "nat list \<Rightarrow> nat list option" where
  "utf8_decode [] = Some []"
| "utf8_decode (b # bs) =
     (if b < 128 then map_option ((#) b) (utf8_decode bs)
      else if 194 \<le> b \<and> b < 224 then
        (case bs of
           b1 # r1 \<Rightarrow> if cont b1 then map_option ((#) ((b - 192) * 64 + (b1 - 128))) (utf8_decode r1) else None
         | _ \<Rightarrow> None)
      else if 224 \<le> b \<and> b < 240 then
        (case bs of
           b1 # b2 # r2 \<Rightarrow>
             (let c = (b - 224) * 4096 + (b1 - 128) * 64 + (b2 - 128)
              in if cont b1 \<and> cont b2 \<and> 2048 \<le> c \<and> \<not> (55296 \<le> c \<and> c < 57344)
                 then map_option ((#) c) (utf8_decode r2) else None)
         | _ \<Rightarrow> None)
      else if 240 \<le> b \<and> b < 245 then
        (case bs of
           b1 # b2 # b3 # r3 \<Rightarrow>
             (let c = (b - 240) * 262144 + (b1 - 128) * 4096 + (b2 - 128) * 64 + (b3 - 128)
              in if cont b1 \<and> cont b2 \<and> cont b3 \<and> 65536 \<le> c \<and> c < 1114112
                 then map_option ((#) c) (utf8_decode r3) else None)
         | _ \<Rightarrow> None)
      else None)"

text \<open>The encoder of the client, \<open>str.encode('utf-8')\<close> on a text without surrogates.\<close>

definition scalar :: "nat \<Rightarrow> bool" where
  "scalar c \<longleftrightarrow> c < 1114112 \<and> \<not> (55296 \<le> c \<and> c < 57344)"

definition utf8_char :: "nat \<Rightarrow> nat list" where
  "utf8_char c =
     (if c < 128 then [c]
      else if c < 2048 then [192 + c div 64, 128 + c mod 64]
      else if c < 65536 then [224 + c div 4096, 128 + c div 64 mod 64, 128 + c mod 64]
      else [240 + c div 262144, 128 + c div 4096 mod 64, 128 + c div 64 mod 64, 128 + c mod 64])"

definition utf8_encode :: "nat list \<Rightarrow> nat list" where
  "utf8_encode cs = concat (map utf8_char cs)"

lemma split64: "(c :: nat) div 64 * 64 + c mod 64 = c"
  by (rule div_mult_mod_eq)

lemma split4096: "(c :: nat) div 4096 * 4096 + c div 64 mod 64 * 64 + c mod 64 = c"
proof -
  have "c div 64 div 64 * 64 + c div 64 mod 64 = c div 64" by (rule split64)
  moreover have "c div 64 div 64 = c div 4096" by (simp add: div_mult2_eq [symmetric])
  ultimately show ?thesis using split64 [of c] by linarith
qed

lemma split262144:
  "(c :: nat) div 262144 * 262144 + c div 4096 mod 64 * 4096 + c div 64 mod 64 * 64 + c mod 64 = c"
proof -
  have "c div 4096 div 64 * 64 + c div 4096 mod 64 = c div 4096" by (rule split64)
  moreover have "c div 4096 div 64 = c div 262144" by (simp add: div_mult2_eq [symmetric])
  ultimately show ?thesis using split4096 [of c] by linarith
qed

lemma decode_char:
  assumes "scalar c"
  shows "utf8_decode (utf8_char c @ bs) = map_option ((#) c) (utf8_decode bs)"
proof -
  consider "c < 128" | "128 \<le> c" "c < 2048" | "2048 \<le> c" "c < 65536" | "65536 \<le> c" by linarith
  then show ?thesis
  proof cases
    case 2
    define q r where qr: "q = c div 64" "r = c mod 64"
    have c: "c = q * 64 + r" "r < 64" using split64 [of c] by (simp_all add: qr)
    with 2 have q: "2 \<le> q" "q < 32" by linarith+
    have "utf8_char c = [192 + q, 128 + r]" using 2 by (simp add: utf8_char_def qr)
    with c q show ?thesis by (simp add: cont_def)
  next
    case 3
    define p q r where pqr: "p = c div 4096" "q = c div 64 mod 64" "r = c mod 64"
    have c: "c = p * 4096 + q * 64 + r" "q < 64" "r < 64" using split4096 [of c] by (simp_all add: pqr)
    with 3 have p: "p < 16" by linarith
    have "utf8_char c = [224 + p, 128 + q, 128 + r]" using 3 by (simp add: utf8_char_def pqr)
    moreover have "2048 \<le> p * 4096 + q * 64 + r" "\<not> (55296 \<le> p * 4096 + q * 64 + r \<and> p * 4096 + q * 64 + r < 57344)"
      using 3 c(1) assms by (simp_all add: scalar_def)
    ultimately show ?thesis using c p by (simp add: cont_def Let_def)
  next
    case 4
    define o' p q r where opqr: "o' = c div 262144" "p = c div 4096 mod 64" "q = c div 64 mod 64" "r = c mod 64"
    have c: "c = o' * 262144 + p * 4096 + q * 64 + r" "p < 64" "q < 64" "r < 64"
      using split262144 [of c] by (simp_all add: opqr)
    with assms have o': "o' < 5" unfolding scalar_def by linarith
    have "utf8_char c = [240 + o', 128 + p, 128 + q, 128 + r]" using 4 by (simp add: utf8_char_def opqr)
    moreover have "65536 \<le> o' * 262144 + p * 4096 + q * 64 + r" "o' * 262144 + p * 4096 + q * 64 + r < 1114112"
      using 4 c(1) assms by (simp_all add: scalar_def)
    ultimately show ?thesis using c o' by (simp add: cont_def Let_def)
  qed (simp add: utf8_char_def)
qed

lemma utf8_roundtrip: "\<forall>c \<in> set cs. scalar c \<Longrightarrow> utf8_decode (utf8_encode cs) = Some cs"
  by (induction cs) (simp_all add: utf8_encode_def decode_char)

end
