(* ===== verification/HttpProxy.thy ===== *)
theory HttpProxy
  imports ProxyHandle HandleTable Utf8
begin

text \<open>
  \<open>src/components/headNode/http_proxy.py\<close>: the routing table of the proxy, the streams it serves and
  its HTTP handler.

  A stream keeps the \<open>DeploymentHandle\<close> it started with although \<open>apply_routing_update\<close> replaces the
  table, so handles are objects on a heap (\<open>px_handles\<close>) and the table and the streams in flight hold
  addresses.  \<open>routing_lock\<close> is held across a suspension in one place only: the stream for an unknown
  deployment yields its message inside \<open>async with\<close>; \<open>px_lock\<close> names that stream.  The operations
  that take the lock are steps only while it is free.

  \<open>px_metrics\<close> logs the calls to \<open>local_metrics\<close>, a module that is not in the repository: the labels,
  and whether a first-token latency was observed.
\<close>

record metric =
  mt_deployment_name :: string
  mt_status :: string
  mt_first_token :: bool

record flight =
  fl_handle :: nat
  fl_replica :: string
  fl_address :: string
  fl_name :: string

record proxy =
  px_parent_port :: int
  px_grpc_port :: int
  px_handles :: "proxy_handle list"
  px_table :: "(string, nat) dict"
  px_lock :: "nat option"
  px_flights :: "(nat, flight) dict"
  px_metrics :: "metric list"
  px_subscribed :: bool
  px_client_open :: bool

definition px_init :: "int \<Rightarrow> int \<Rightarrow> proxy" where
  "px_init parent_port grpc_port =
     \<lparr>px_parent_port = parent_port, px_grpc_port = grpc_port, px_handles = [], px_table = [],
      px_lock = None, px_flights = [], px_metrics = [], px_subscribed = True, px_client_open = True\<rparr>"

definition px_close :: "proxy \<Rightarrow> proxy" where
  "px_close px = px\<lparr>px_subscribed := False, px_client_open := False\<rparr>"

section \<open>Routing updates\<close>

fun install_deployments :: "(int \<times> deployment_msg) list \<Rightarrow> proxy \<Rightarrow> proxy" where
  "install_deployments [] px = px"
| "install_deployments ((deployment_id, dep_info) # rest) px =
     install_deployments rest
       (px\<lparr>px_handles := px_handles px @ [dh_init deployment_id dep_info],
           px_table := dset (dp_deployment_name dep_info) (length (px_handles px)) (px_table px)\<rparr>)"

definition apply_routing_update :: "routing_update \<Rightarrow> proxy \<Rightarrow> proxy" where
  "apply_routing_update update px = install_deployments (ru_deployments update) (px\<lparr>px_table := []\<rparr>)"

text \<open>
  One turn of \<open>subscribe_to_head_node\<close>: the updates a connection delivered before it ended, with or
  without an exception (both are followed by a sleep of 5 seconds and the next turn).
\<close>

definition subscription_turn :: "routing_update list \<Rightarrow> proxy \<Rightarrow> proxy" where
  "subscription_turn updates px = fold apply_routing_update updates px"

section \<open>Streams\<close>

definition not_found_chunk :: "string \<Rightarrow> string" where
  "not_found_chunk name = ''data: {'' @ [CHR 0x27] @ ''error'' @ [CHR 0x27] @ '': '' @ [CHR 0x27] @
     ''Deployment '' @ name @ '' not found'' @ [CHR 0x27] @ '', '' @ [CHR 0x27] @ ''is_complete'' @
     [CHR 0x27] @ '': true}'' @ [CHR 0x0A, CHR 0x0A]"

definition retry_chunk :: string where
  "retry_chunk = ''Error in streaming, retry''"

definition put_handle :: "nat \<Rightarrow> proxy_handle \<Rightarrow> proxy \<Rightarrow> proxy" where
  "put_handle h ph px = px\<lparr>px_handles := (px_handles px)[h := ph]\<rparr>"

definition log_metric :: "string \<Rightarrow> string \<Rightarrow> bool \<Rightarrow> proxy \<Rightarrow> proxy" where
  "log_metric name status first_token px = px\<lparr>px_metrics := px_metrics px @
     [\<lparr>mt_deployment_name = name, mt_status = status, mt_first_token = first_token\<rparr>]\<rparr>"

text \<open>
  The generator up to its first suspension.  The result is the chunk it yields there, if any; the
  stream is then in flight, holds the lock, or is over.
\<close>

definition open_stream :: "nat \<Rightarrow> string \<Rightarrow> proxy \<Rightarrow> string list \<times> proxy" where
  "open_stream i name px =
     (case dget (px_table px) name of
        None \<Rightarrow> ([not_found_chunk name], px\<lparr>px_lock := Some i\<rparr>)
      | Some h \<Rightarrow>
          (case dh_open (px_handles px ! h) of
             (Refused e, ph) \<Rightarrow> ([retry_chunk], log_metric name ''error'' False (put_handle h ph px))
           | (Ended e, ph) \<Rightarrow> ([], log_metric name ''success'' False (put_handle h ph px))
           | (Opened address replica_id, ph) \<Rightarrow>
               ([], (put_handle h ph px)\<lparr>px_flights := dset i
                  \<lparr>fl_handle = h, fl_replica = replica_id, fl_address = address, fl_name = name\<rparr>
                  (px_flights px)\<rparr>)))"

text \<open>The replica's stream is over, in whatever way; \<open>tokens\<close> are those that were yielded.\<close>

definition finish_stream :: "nat \<Rightarrow> string list \<Rightarrow> proxy \<Rightarrow> proxy" where
  "finish_stream i tokens px =
     (case dget (px_flights px) i of
        None \<Rightarrow> px
      | Some f \<Rightarrow>
          log_metric (fl_name f) ''success'' (tokens \<noteq> [])
            ((put_handle (fl_handle f) (dh_release (fl_replica f) (px_handles px ! fl_handle f)) px)
              \<lparr>px_flights := ddel i (px_flights px)\<rparr>))"

text \<open>The client is gone: the generators are closed, which runs their \<open>finally\<close> blocks only.\<close>

definition abort_stream :: "nat \<Rightarrow> proxy \<Rightarrow> proxy" where
  "abort_stream i px =
     (case dget (px_flights px) i of
        None \<Rightarrow> px
      | Some f \<Rightarrow>
          (put_handle (fl_handle f) (dh_release (fl_replica f) (px_handles px ! fl_handle f)) px)
            \<lparr>px_flights := ddel i (px_flights px)\<rparr>)"

text \<open>The message for an unknown deployment has been read, or its client is gone.\<close>

definition leave_lock :: "nat \<Rightarrow> proxy \<Rightarrow> proxy" where
  "leave_lock i px = (if px_lock px = Some i then px\<lparr>px_lock := None\<rparr> else px)"

text \<open>\<open>forward_request_to_replica\<close>: a whole stream with nothing in between.\<close>

definition forward_request_to_replica ::
  "(string \<Rightarrow> nat list \<Rightarrow> replica_reply list \<times> exn option) \<Rightarrow> nat \<Rightarrow> string \<Rightarrow> nat list \<Rightarrow> proxy \<Rightarrow>
   string list \<times> proxy" where
  "forward_request_to_replica replica i name message px =
     (case dget (px_table px) name of
        None \<Rightarrow> ([not_found_chunk name], px)
      | Some h \<Rightarrow>
          (case dh_send_request replica message (px_handles px ! h) of
             (tokens, None, ph) \<Rightarrow> (tokens, log_metric name ''success'' (tokens \<noteq> []) (put_handle h ph px))
           | (tokens, Some e, ph) \<Rightarrow>
               (tokens @ [retry_chunk], log_metric name ''error'' False (put_handle h ph px))))"

section \<open>The HTTP handler\<close>

datatype http_response = HttpError nat string | HttpStream "string list"

definition handle_process_string_request ::
  "(string \<Rightarrow> nat list \<Rightarrow> replica_reply list \<times> exn option) \<Rightarrow> nat \<Rightarrow> string \<Rightarrow> nat list \<Rightarrow> proxy \<Rightarrow>
   http_response \<times> proxy" where
  "handle_process_string_request replica i path body px =
     (if body = [] then (HttpError 400 ''Request body cannot be empty for processing.'', px)
      else case utf8_decode body of
        None \<Rightarrow> (HttpError 400 ''Invalid UTF-8 sequence in request body.'', px)
      | Some input_string \<Rightarrow>
          (case forward_request_to_replica replica i path input_string px of
             (chunks, px') \<Rightarrow> (HttpStream chunks, px')))"

text \<open>\<open>MinimalHealthServicer.Ping\<close>\<close>

definition proxy_ping :: "proxy \<Rightarrow> bool \<times> proxy" where
  "proxy_ping px = (True, px)"

section \<open>Invariant: the counts are the streams in flight\<close>

definition in_flight :: "nat \<Rightarrow> string \<Rightarrow> proxy \<Rightarrow> int" where
  "in_flight h k px = dsum (\<lambda>i f. if fl_handle f = h \<and> fl_replica f = k then 1 else 0) (px_flights px)"

definition proxy_ok :: "proxy \<Rightarrow> bool" where
  "proxy_ok px \<longleftrightarrow> dict_ok (px_flights px) \<and>
     (\<forall>name h. dget (px_table px) name = Some h \<longrightarrow> h < length (px_handles px)) \<and>
     (\<forall>i f. dget (px_flights px) i = Some f \<longrightarrow> fl_handle f < length (px_handles px)) \<and>
     (\<forall>h < length (px_handles px). handle_ok (px_handles px ! h) \<and>
        (\<forall>k. outstanding (px_handles px ! h) k = in_flight h k px))"

definition update_ok :: "routing_update \<Rightarrow> bool" where
  "update_ok u \<longleftrightarrow> (\<forall>(d, dep) \<in> set (ru_deployments u). \<forall>r \<in> set (dp_replicas dep).
     CHR ''#'' \<in> set (rm_replica_id r) \<and> rm_address r \<noteq> [])"

inductive proxy_step :: "proxy \<Rightarrow> proxy \<Rightarrow> bool" where
  update: "px_lock px = None \<Longrightarrow> update_ok u \<Longrightarrow> proxy_step px (apply_routing_update u px)"
| open_request: "px_lock px = None \<Longrightarrow> dget (px_flights px) i = None \<Longrightarrow>
    proxy_step px (snd (open_stream i name px))"
| finish: "proxy_step px (finish_stream i tokens px)"
| abort: "proxy_step px (abort_stream i px)"
| unlock: "proxy_step px (leave_lock i px)"
| close: "proxy_step px (px_close px)"

definition proxy_start :: "proxy \<Rightarrow> bool" where
  "proxy_start px \<longleftrightarrow> (\<exists>parent_port grpc_port. px = px_init parent_port grpc_port)"

lemma in_flight_frame [simp]:
  "in_flight h k (px\<lparr>px_handles := hs, px_table := t\<rparr>) = in_flight h k px"
  "in_flight h k (px\<lparr>px_handles := hs\<rparr>) = in_flight h k px"
  "in_flight h k (px\<lparr>px_table := t\<rparr>) = in_flight h k px"
  "in_flight h k (px\<lparr>px_lock := l\<rparr>) = in_flight h k px"
  "in_flight h k (log_metric name st ft px) = in_flight h k px"
  "in_flight h k (put_handle h' ph px) = in_flight h k px"
  "in_flight h k (px_close px) = in_flight h k px"
  by (simp_all add: in_flight_def log_metric_def put_handle_def px_close_def)

lemma in_flight_nonneg: "0 \<le> in_flight h k px"
proof -
  have "0 \<le> dsum (\<lambda>i f. if fl_handle f = h \<and> fl_replica f = k then 1 else 0) d" for d :: "(nat, flight) dict"
    by (induction d) auto
  then show ?thesis by (simp add: in_flight_def)
qed

lemma no_flight_no_handle:
  assumes "dict_ok (px_flights px)" and "\<And>i f. dget (px_flights px) i = Some f \<Longrightarrow> fl_handle f \<noteq> h"
  shows "in_flight h k px = 0"
proof -
  have "\<And>i f. (i, f) \<in> set (px_flights px) \<Longrightarrow> fl_handle f \<noteq> h"
    using assms mem_dget by fast
  then show ?thesis unfolding in_flight_def by (intro dsum_zero) auto
qed

lemma proxy_okD:
  assumes "proxy_ok px"
  shows "dict_ok (px_flights px)" and "dget (px_table px) name = Some h \<Longrightarrow> h < length (px_handles px)"
    and "dget (px_flights px) i = Some f \<Longrightarrow> fl_handle f < length (px_handles px)"
    and "h < length (px_handles px) \<Longrightarrow> handle_ok (px_handles px ! h)"
    and "h < length (px_handles px) \<Longrightarrow> outstanding (px_handles px ! h) k = in_flight h k px"
  using assms unfolding proxy_ok_def by blast+

lemma proxy_okI:
  assumes "dict_ok (px_flights px)"
    and "\<And>name h. dget (px_table px) name = Some h \<Longrightarrow> h < length (px_handles px)"
    and "\<And>i f. dget (px_flights px) i = Some f \<Longrightarrow> fl_handle f < length (px_handles px)"
    and "\<And>h. h < length (px_handles px) \<Longrightarrow> handle_ok (px_handles px ! h)"
    and "\<And>h k. h < length (px_handles px) \<Longrightarrow> outstanding (px_handles px ! h) k = in_flight h k px"
  shows "proxy_ok px"
  using assms unfolding proxy_ok_def by blast

lemma proxy_ok_init: "proxy_ok (px_init parent_port grpc_port)"
  by (rule proxy_okI) (simp_all add: px_init_def)

text \<open>A new handle at the end of the heap.\<close>

lemma proxy_ok_install:
  assumes "proxy_ok px" and "\<forall>(d, dep) \<in> set deps. \<forall>r \<in> set (dp_replicas dep).
     CHR ''#'' \<in> set (rm_replica_id r) \<and> rm_address r \<noteq> []"
  shows "proxy_ok (install_deployments deps px)"
  using assms
proof (induction deps arbitrary: px)
  case (Cons x deps)
  obtain d dep where x: "x = (d, dep)" by (cases x)
  let ?n = "length (px_handles px)"
  let ?px = "px\<lparr>px_handles := px_handles px @ [dh_init d dep],
    px_table := dset (dp_deployment_name dep) ?n (px_table px)\<rparr>"
  note ok = proxy_okD [OF Cons.prems(1)]
  have new: "in_flight ?n k px = 0" for k
    using ok(1) by (rule no_flight_no_handle) (auto dest!: ok(3))
  have h: "handle_ok (dh_init d dep)"
    using Cons.prems(2) x by (auto simp: handle_ok_def routed_def)
  have "proxy_ok ?px"
  proof (rule proxy_okI)
    show "h < length (px_handles ?px)" if "dget (px_table ?px) name = Some h" for name h
      using that ok(2) [of name h] by (auto split: if_splits)
    show "fl_handle f < length (px_handles ?px)" if "dget (px_flights ?px) i = Some f" for i f
      using that ok(3) [of i f] by simp
  qed (use ok h new in \<open>auto simp: nth_append less_Suc_eq\<close>)
  from Cons.IH [OF this] Cons.prems(2) show ?case by (simp add: x)
qed simp

lemma proxy_ok_update: "proxy_ok px \<Longrightarrow> update_ok u \<Longrightarrow> proxy_ok (apply_routing_update u px)"
  unfolding apply_routing_update_def update_ok_def
  by (intro proxy_ok_install) (auto intro!: proxy_okI dest: proxy_okD)

text \<open>One handle changes its counts and one stream starts or ends.\<close>

lemma proxy_ok_change:
  assumes ok: "proxy_ok px" and fl: "dict_ok fls"
    and hd: "\<And>i f. dget fls i = Some f \<Longrightarrow> fl_handle f < length (px_handles px)"
    and ph: "handle_ok ph" and h: "h < length (px_handles px)"
    and cnt: "\<And>h' k. in_flight h' k (px\<lparr>px_flights := fls\<rparr>) =
      (if h' = h then outstanding ph k else in_flight h' k px)"
  shows "proxy_ok ((put_handle h ph px)\<lparr>px_flights := fls\<rparr>)"
proof -
  note d = proxy_okD [OF ok]
  have fr: "in_flight h' k ((put_handle h ph px)\<lparr>px_flights := fls\<rparr>) = in_flight h' k (px\<lparr>px_flights := fls\<rparr>)"
    for h' k by (simp add: in_flight_def put_handle_def)
  show ?thesis
  proof (rule proxy_okI)
    show "h' < length (px_handles ((put_handle h ph px)\<lparr>px_flights := fls\<rparr>))"
      if "dget (px_table ((put_handle h ph px)\<lparr>px_flights := fls\<rparr>)) name = Some h'" for name h'
      using that d(2) [of name h'] by (simp add: put_handle_def)
  qed (use fl hd ph h cnt d(4,5) fr in \<open>auto simp: put_handle_def nth_list_update\<close>)
qed

lemma proxy_ok_log [simp]: "proxy_ok (log_metric name st ft px) = proxy_ok px"
  by (simp add: proxy_ok_def) (simp add: log_metric_def)

lemma proxy_ok_lock [simp]: "proxy_ok (px\<lparr>px_lock := l\<rparr>) = proxy_ok px"
  by (simp add: proxy_ok_def)

lemma proxy_ok_close [simp]: "proxy_ok (px_close px) = proxy_ok px"
  by (simp add: proxy_ok_def) (simp add: px_close_def)

lemma put_same: "h < length (px_handles px) \<Longrightarrow> put_handle h (px_handles px ! h) px = px"
  by (simp add: put_handle_def)

lemma proxy_ok_open:
  assumes ok: "proxy_ok px" and fresh: "dget (px_flights px) i = None"
  shows "proxy_ok (snd (open_stream i name px))"
proof (cases "dget (px_table px) name")
  case None
  with ok show ?thesis by (simp add: open_stream_def)
next
  case (Some h)
  note d = proxy_okD [OF ok]
  have h: "h < length (px_handles px)" using d(2) Some by blast
  from open_cases [OF d(4) [OF h]] show ?thesis
  proof (elim disjE conjE exE)
    assume "dh_open (px_handles px ! h) =
      (Refused (ValueError ''min() arg is an empty sequence''), px_handles px ! h)"
    with ok Some h show ?thesis by (simp add: open_stream_def put_same)
  next
    fix address k ph'
    assume p: "pick_next_replica (px_handles px ! h) = (Inr (address, k), ph')"
      and o: "dh_open (px_handles px ! h) = (Opened address k, ph')"
    let ?f = "\<lparr>fl_handle = h, fl_replica = k, fl_address = address, fl_name = name\<rparr>"
    note c = pick_chosen [OF p]
    have cnt: "in_flight h' k' (px\<lparr>px_flights := dset i ?f (px_flights px)\<rparr>) =
        (if h' = h then outstanding ph' k' else in_flight h' k' px)" for h' k'
      using dsum_dset [OF d(1)] fresh c(2) [of k'] d(5) [OF h, of k']
      by (auto simp: in_flight_def dpart_def)
    have "handle_ok ph'" using d(4) [OF h] c(3) by (simp add: handle_ok_def)
    moreover have "fl_handle f < length (px_handles px)"
      if "dget (dset i ?f (px_flights px)) j = Some f" for j f
      using that d(3) [of j f] h by (auto split: if_splits)
    moreover have "dict_ok (dset i ?f (px_flights px))" using d(1) by simp
    ultimately have "proxy_ok ((put_handle h ph' px)\<lparr>px_flights := dset i ?f (px_flights px)\<rparr>)"
      using h cnt by (intro proxy_ok_change [OF ok])
    with Some o show ?thesis by (simp add: open_stream_def)
  qed
qed

lemma proxy_ok_end:
  assumes ok: "proxy_ok px" and f: "dget (px_flights px) i = Some f"
  shows "proxy_ok ((put_handle (fl_handle f) (dh_release (fl_replica f) (px_handles px ! fl_handle f)) px)
    \<lparr>px_flights := ddel i (px_flights px)\<rparr>)"
proof -
  let ?ph = "px_handles px ! fl_handle f"
  note d = proxy_okD [OF ok]
  have h: "fl_handle f < length (px_handles px)" using d(3) f by blast
  have gone: "in_flight h' k (px\<lparr>px_flights := ddel i (px_flights px)\<rparr>) =
      in_flight h' k px - (if fl_handle f = h' \<and> fl_replica f = k then 1 else 0)" for h' k
    using dsum_ddel [OF d(1)] f by (simp add: in_flight_def dpart_def)
  have pos: "0 < outstanding ?ph (fl_replica f)"
    using gone [of "fl_handle f" "fl_replica f"] d(5) [OF h]
      in_flight_nonneg [of "fl_handle f" "fl_replica f" "px\<lparr>px_flights := ddel i (px_flights px)\<rparr>"] by simp
  have cnt: "in_flight h' k (px\<lparr>px_flights := ddel i (px_flights px)\<rparr>) =
      (if h' = fl_handle f then outstanding (dh_release (fl_replica f) ?ph) k else in_flight h' k px)" for h' k
    using gone release_outstanding [OF pos] d(5) [OF h] by auto
  have "handle_ok (dh_release (fl_replica f) ?ph)" using d(4) [OF h] by (simp add: handle_ok_def)
  moreover have "fl_handle g < length (px_handles px)" if "dget (ddel i (px_flights px)) j = Some g" for j g
    using that d(3) [of j g] by (auto split: if_splits)
  ultimately show ?thesis using h cnt d(1) by (intro proxy_ok_change [OF ok]) auto
qed

interpretation proxy_machine: safe_machine proxy_start proxy_step proxy_ok
proof unfold_locales
  show "proxy_ok s" if "proxy_start s" for s
    using that proxy_ok_init by (auto simp: proxy_start_def)
  show "proxy_ok t" if "proxy_step s t" "proxy_ok s" for s t
    using that
  proof (induction rule: proxy_step.induct)
    case (finish px i tokens)
    then show ?case by (auto simp: finish_stream_def proxy_ok_end split: option.splits)
  next
    case (abort px i)
    then show ?case by (auto simp: abort_stream_def proxy_ok_end split: option.splits)
  qed (simp_all add: proxy_ok_update proxy_ok_open leave_lock_def)
qed

end
