(* ===== verification/ProxyProps.thy ===== *)
theory ProxyProps
  imports HttpProxy
begin

text \<open>
  What the proxy promises: the choice of a replica, exact counts of outstanding requests, the outcome
  of a stream on every branch, the effect of a routing update and the HTTP handler.
\<close>

section \<open>A sample proxy\<close>

definition demo_msg :: "string \<Rightarrow> replica_msg" where
  "demo_msg r = \<lparr>rm_replica_id = ''1#'' @ r, rm_address = ''10.0.0.1:5010'' @ r, rm_state = ''RUNNING''\<rparr>"

definition demo_tinyllama :: deployment_msg where
  "demo_tinyllama = \<lparr>dp_deployment_id = 2, dp_deployment_name = ''/v1/chat/tinyllama'',
     dp_version = ''1.0'', dp_status = ''ACTIVE'', dp_replicas = [demo_msg ''1'', demo_msg ''2'']\<rparr>"

definition demo_gpt2 :: deployment_msg where
  "demo_gpt2 = \<lparr>dp_deployment_id = 1, dp_deployment_name = ''/v1/chat/gpt2'',
     dp_version = ''1.0'', dp_status = ''ACTIVE'', dp_replicas = []\<rparr>"

definition demo_update :: routing_update where
  "demo_update = \<lparr>ru_deployments = [(2, demo_tinyllama), (1, demo_gpt2)], ru_timestamp = 5\<rparr>"

definition demo_proxy :: proxy where
  "demo_proxy = apply_routing_update demo_update (px_init 50052 50053)"

definition demo_busy :: proxy where
  "demo_busy = snd (open_stream 0 ''/v1/chat/tinyllama'' demo_proxy)"

lemma demo_proxy_reach: "reach proxy_start proxy_step demo_proxy"
proof -
  have "reach proxy_start proxy_step (px_init 50052 50053)"
    by (rule reach_init) (auto simp: proxy_start_def)
  moreover have "proxy_step (px_init 50052 50053) demo_proxy"
    unfolding demo_proxy_def
    by (rule proxy_step.update) (simp_all add: px_init_def update_ok_def demo_update_def demo_tinyllama_def demo_gpt2_def demo_msg_def)
  ultimately show ?thesis by (rule reach_step)
qed

lemma demo_proxy_eq:
  "px_table demo_proxy = [(''/v1/chat/tinyllama'', 0), (''/v1/chat/gpt2'', 1)]"
  "px_handles demo_proxy = [\<lparr>ph_deployment_id = 2, ph_deployment_name = ''/v1/chat/tinyllama'', ph_version = ''1.0'',
     ph_cache = [(''1#1'', 0), (''1#2'', 0)],
     ph_replicas = [\<lparr>rt_replica_id = ''1#1'', rt_replica_address = ''10.0.0.1:50101'', rt_state = ''RUNNING''\<rparr>,
       \<lparr>rt_replica_id = ''1#2'', rt_replica_address = ''10.0.0.1:50102'', rt_state = ''RUNNING''\<rparr>]\<rparr>,
    \<lparr>ph_deployment_id = 1, ph_deployment_name = ''/v1/chat/gpt2'', ph_version = ''1.0'',
     ph_cache = [], ph_replicas = []\<rparr>]"
  "px_flights demo_proxy = []" "px_lock demo_proxy = None" "px_metrics demo_proxy = []"
  by (simp_all add: demo_proxy_def apply_routing_update_def demo_update_def demo_tinyllama_def demo_gpt2_def px_init_def dh_init_def
      cache_replica_def demo_msg_def routed_def dict_eval dkeys_def Let_def)

lemma demo_busy_reach: "reach proxy_start proxy_step demo_busy"
proof -
  have "proxy_step demo_proxy demo_busy"
    unfolding demo_busy_def by (rule proxy_step.open_request) (simp_all add: demo_proxy_eq)
  with demo_proxy_reach show ?thesis by (rule reach_step)
qed

lemma demo_busy_flights: "px_flights demo_busy = [(0, \<lparr>fl_handle = 0, fl_replica = ''1#1'',
    fl_address = ''10.0.0.1:50101'', fl_name = ''/v1/chat/tinyllama''\<rparr>)]" "length (px_handles demo_busy) = 2"
  by (simp_all add: demo_busy_def open_stream_def demo_proxy_eq dict_eval dh_open_def pick_next_replica_def
      py_min_def running_replicas_def outstanding_def parse_replica_id_def put_handle_def dkeys_def Let_def)

section \<open>Properties\<close>

text \<open>
  A request goes to a least loaded replica.  \<open>pick_next_replica\<close> returns the address and the
  identifier of a \<open>RUNNING\<close> replica of the deployment whose count of outstanding requests is not above
  that of any other \<open>RUNNING\<close> one, and raises this count, and no other, by one; it fails
  (\<open>ValueError\<close>, from \<open>min\<close>) exactly when no replica is \<open>RUNNING\<close>, changing nothing.
\<close>

theorem pick_least_loaded:
  "case pick_next_replica ph of
     (Inl e, ph') \<Rightarrow> (\<forall>r \<in> set (ph_replicas ph). rt_state r \<noteq> ''RUNNING'') \<and> ph' = ph
   | (Inr (address, k), ph') \<Rightarrow>
       (\<exists>r \<in> set (ph_replicas ph). rt_state r = ''RUNNING'' \<and> rt_replica_address r = address \<and>
          rt_replica_id r = k \<and> (\<forall>r' \<in> set (ph_replicas ph). rt_state r' = ''RUNNING'' \<longrightarrow>
            outstanding ph k \<le> outstanding ph (rt_replica_id r'))) \<and>
       (\<forall>k'. outstanding ph' k' = outstanding ph k' + (if k' = k then 1 else 0))"
proof (cases "running_replicas ph = []")
  case True
  then show ?thesis by (auto simp: pick_cases running_replicas_def filter_empty_conv)
next
  case False
  then obtain address k ph' where p: "pick_next_replica ph = (Inr (address, k), ph')"
    by (simp add: pick_cases Let_def)
  with pick_chosen(1,2) [OF p] show ?thesis by simp
qed

theorem pick_least_loaded_witness:
  "\<exists>r \<in> set (ph_replicas (px_handles demo_proxy ! 0)). rt_state r = ''RUNNING'' \<and> rt_replica_id r = ''1#1''"
proof -
  have "pick_next_replica (px_handles demo_proxy ! 0) = (Inr (''10.0.0.1:50101'', ''1#1''),
      (px_handles demo_proxy ! 0)\<lparr>ph_cache := [(''1#1'', 1), (''1#2'', 0)]\<rparr>)"
    by (simp add: demo_proxy_eq pick_next_replica_def py_min_def running_replicas_def outstanding_def dict_eval)
  with pick_least_loaded [of "px_handles demo_proxy ! 0"] show ?thesis by auto
qed

text \<open>
  C6. The counts are exact.  In every state the proxy can reach (routing updates, streams starting,
  ending, failing and losing their client in any order) each deployment handle counts, for each
  replica, exactly the streams in flight that were started through it on that replica: no request is
  counted twice, none is forgotten and none is left over when it ends.
\<close>

theorem outstanding_counts_exact:
  assumes "reach proxy_start proxy_step px" and "h < length (px_handles px)"
  shows "outstanding (px_handles px ! h) k =
    int (length (filter (\<lambda>(i, f). fl_handle f = h \<and> fl_replica f = k) (px_flights px)))"
proof -
  have "dsum (\<lambda>i f. if fl_handle f = h \<and> fl_replica f = k then 1 else 0) d =
      int (length (filter (\<lambda>(i, f). fl_handle f = h \<and> fl_replica f = k) d))" for d :: "(nat, flight) dict"
  proof (induction d)
    case (Cons x d)
    then show ?case by (cases x; cases "fl_handle (snd x) = h \<and> fl_replica (snd x) = k") simp_all
  qed simp
  with proxy_okD(5) [OF proxy_machine.reach_safe [OF assms(1)] assms(2)] show ?thesis
    by (simp add: in_flight_def)
qed

theorem outstanding_counts_exact_witness:
  "outstanding (px_handles demo_busy ! 0) ''1#1'' = 1 \<and> outstanding (px_handles demo_busy ! 0) ''1#2'' = 0"
  using outstanding_counts_exact [OF demo_busy_reach, of 0] by (simp add: demo_busy_flights)

lemma forward_running:
  assumes ok: "proxy_ok px" and t: "dget (px_table px) name = Some h" and run: "running_replicas (px_handles px ! h) \<noteq> []"
  shows "\<exists>r \<in> set (ph_replicas (px_handles px ! h)). \<exists>px'. rt_state r = ''RUNNING'' \<and>
    forward_request_to_replica replica i name message px =
      (map rp_text (takeWhile (\<lambda>x. \<not> rp_is_error x) (fst (replica (rt_replica_address r) message))), px') \<and>
    (\<forall>h' k. outstanding (px_handles px' ! h') k = outstanding (px_handles px ! h') k)"
proof -
  note d = proxy_okD [OF ok]
  have h: "h < length (px_handles px)" using d(2) t by blast
  let ?ph = "px_handles px ! h"
  from open_cases [OF d(4) [OF h]] run obtain address k ph' where
    p: "pick_next_replica ?ph = (Inr (address, k), ph')" and o: "dh_open ?ph = (Opened address k, ph')" by auto
  obtain r where r: "r \<in> set (ph_replicas ?ph)" "rt_state r = ''RUNNING''" "rt_replica_address r = address"
    using pick_chosen(1) [OF p] by blast
  have "0 \<le> outstanding ?ph k" using d(5) [OF h] in_flight_nonneg by simp
  then have "outstanding (dh_release k ph') k' = outstanding ?ph k'" for k'
    using release_outstanding [of ph' k k'] pick_chosen(2) [OF p] by simp
  moreover have "dh_send_request replica message ?ph =
      (map rp_text (takeWhile (\<lambda>x. \<not> rp_is_error x) (fst (replica address message))), None, dh_release k ph')"
    by (simp add: send_request_open [OF d(4) [OF h]] o)
  ultimately show ?thesis
    using t r h by (auto simp: forward_request_to_replica_def log_metric_def put_handle_def nth_list_update)
qed

lemma forward_nothing_running:
  assumes "proxy_ok px" and "dget (px_table px) name = Some h" and "running_replicas (px_handles px ! h) = []"
  shows "forward_request_to_replica replica i name message px = ([retry_chunk], log_metric name ''error'' False px)"
  using assms proxy_okD(2) [OF assms(1,2)]
  by (simp add: forward_request_to_replica_def dh_send_request_def pick_cases put_same)

text \<open>
  A whole request on every branch.  For a deployment the table does not have, the client gets the
  one error chunk; for one without a \<open>RUNNING\<close> replica the chunk \<open>Error in streaming, retry\<close> and an
  \<open>error\<close> metric; otherwise the texts of the replica's replies, in order, up to its first error reply
  or its end, with every count of the proxy as before the request.
\<close>

theorem forward_request_outcome:
  assumes "reach proxy_start proxy_step px"
  shows "case dget (px_table px) name of
     None \<Rightarrow> forward_request_to_replica replica i name message px = ([not_found_chunk name], px)
   | Some h \<Rightarrow>
       if running_replicas (px_handles px ! h) = []
       then forward_request_to_replica replica i name message px =
         ([retry_chunk], log_metric name ''error'' False px)
       else \<exists>r \<in> set (ph_replicas (px_handles px ! h)). \<exists>px'. rt_state r = ''RUNNING'' \<and>
         forward_request_to_replica replica i name message px =
           (map rp_text (takeWhile (\<lambda>x. \<not> rp_is_error x) (fst (replica (rt_replica_address r) message))), px') \<and>
         (\<forall>h' k. outstanding (px_handles px' ! h') k = outstanding (px_handles px ! h') k)"
  using proxy_machine.reach_safe [OF assms] forward_running forward_nothing_running
  by (simp add: forward_request_to_replica_def split: option.split)

text \<open>A replica that streams one token and then fails.\<close>

definition failing_replica :: "string \<Rightarrow> nat list \<Rightarrow> replica_reply list \<times> exn option" where
  "failing_replica address message = ([\<lparr>rp_text = ''Hel'', rp_is_error = False\<rparr>,
     \<lparr>rp_text = ''[vLLM Error] out of memory'', rp_is_error = True\<rparr>], None)"

theorem forward_request_outcome_witness:
  "fst (forward_request_to_replica failing_replica 0 ''/v1/chat/tinyllama'' [104] demo_proxy) = [''Hel''] \<and>
   fst (forward_request_to_replica failing_replica 0 ''/v1/chat/gpt2'' [104] demo_proxy) = [retry_chunk]"
  using forward_request_outcome [OF demo_proxy_reach, where name = "''/v1/chat/tinyllama''" and
      replica = failing_replica and i = 0 and message = "[104]"]
    forward_request_outcome [OF demo_proxy_reach, where name = "''/v1/chat/gpt2''" and
      replica = failing_replica and i = 0 and message = "[104]"]
  by (auto simp: demo_proxy_eq dict_eval running_replicas_def failing_replica_def)

text \<open>
  A failed stream counts as a success.  Whatever the replica does - an error reply, a broken
  connection, no reply at all - the stream of a deployment with a \<open>RUNNING\<close> replica ends without the
  error chunk and adds exactly one metric, with the status \<open>success\<close>.
\<close>

theorem failed_stream_counts_as_success:
  assumes "reach proxy_start proxy_step px" and "dget (px_table px) name = Some h"
    and "running_replicas (px_handles px ! h) \<noteq> []"
  shows "\<exists>ft. px_metrics (snd (forward_request_to_replica replica i name message px)) =
    px_metrics px @ [\<lparr>mt_deployment_name = name, mt_status = ''success'', mt_first_token = ft\<rparr>]"
proof -
  note d = proxy_okD [OF proxy_machine.reach_safe [OF assms(1)]]
  have h: "h < length (px_handles px)" using d(2) assms(2) by blast
  from open_cases [OF d(4) [OF h]] assms(3) obtain address k ph' where
    "dh_open (px_handles px ! h) = (Opened address k, ph')" by auto
  with assms(2) show ?thesis
    by (simp add: forward_request_to_replica_def send_request_open [OF d(4) [OF h]] log_metric_def put_handle_def)
qed

theorem failed_stream_counts_as_success_witness:
  "\<exists>ft. px_metrics (snd (forward_request_to_replica failing_replica 0 ''/v1/chat/tinyllama'' [104] demo_proxy)) =
    [\<lparr>mt_deployment_name = ''/v1/chat/tinyllama'', mt_status = ''success'', mt_first_token = ft\<rparr>]"
  using failed_stream_counts_as_success [OF demo_proxy_reach, where name = "''/v1/chat/tinyllama''" and h = 0 and
      replica = failing_replica and i = 0 and message = "[104]"]
  by (simp add: demo_proxy_eq dict_eval running_replicas_def)

interpretation px_tables: handle_table px_handles px_table dh_init
  "\<lambda>d dep px. px\<lparr>px_handles := px_handles px @ [dh_init d dep],
     px_table := dset (dp_deployment_name dep) (length (px_handles px)) (px_table px)\<rparr>" install_deployments
  by unfold_locales simp_all

lemmas install_named = px_tables.named_entry
lemmas install_other = px_tables.other_entry

lemma install_flights [simp]: "px_flights (install_deployments deps px) = px_flights px"
  by (induction deps px rule: install_deployments.induct) simp_all

lemma install_frame:
  "px_flights (install_deployments deps px) = px_flights px \<and>
   length (px_handles (install_deployments deps px)) = length (px_handles px) + length deps \<and>
   (\<forall>h < length (px_handles px). px_handles (install_deployments deps px) ! h = px_handles px ! h)"
  by (simp add: px_tables.length_entry px_tables.old_entry)

text \<open>
  A routing update replaces the table and forgets the load.  Afterwards a name is routed exactly
  if the update has it, to a new handle with the replicas of its deployment, in order, and with every
  count 0, even for replicas with requests in flight; these requests stay counted on the old handles,
  which are unchanged and which no new request uses.
\<close>

theorem update_replaces_routes:
  assumes "distinct (map (\<lambda>x. dp_deployment_name (snd x)) (ru_deployments u))"
  shows "(dget (px_table (apply_routing_update u px)) name = None \<longleftrightarrow>
      name \<notin> (\<lambda>x. dp_deployment_name (snd x)) ` set (ru_deployments u)) \<and>
    (\<forall>(d, dep) \<in> set (ru_deployments u). \<exists>h. dget (px_table (apply_routing_update u px)) (dp_deployment_name dep) = Some h \<and>
      length (px_handles px) \<le> h \<and>
      ph_replicas (px_handles (apply_routing_update u px) ! h) = map routed (dp_replicas dep) \<and>
      (\<forall>k. outstanding (px_handles (apply_routing_update u px) ! h) k = 0)) \<and>
    (\<forall>h < length (px_handles px). px_handles (apply_routing_update u px) ! h = px_handles px ! h) \<and>
    px_flights (apply_routing_update u px) = px_flights px"
proof -
  let ?px = "px\<lparr>px_table := []\<rparr>"
  have named: "\<exists>h. dget (px_table (apply_routing_update u px)) (dp_deployment_name dep) = Some h \<and>
      length (px_handles px) \<le> h \<and> px_handles (apply_routing_update u px) ! h = dh_init d dep"
    if "(d, dep) \<in> set (ru_deployments u)" for d dep
    using install_named [OF assms that, of ?px] by (auto simp: apply_routing_update_def)
  have "dget (px_table (apply_routing_update u px)) name = None \<longleftrightarrow>
      name \<notin> (\<lambda>x. dp_deployment_name (snd x)) ` set (ru_deployments u)"
  proof (cases "name \<in> (\<lambda>x. dp_deployment_name (snd x)) ` set (ru_deployments u)")
    case True
    then obtain d dep where "(d, dep) \<in> set (ru_deployments u)" "name = dp_deployment_name dep" by auto
    with named [of d dep] True show ?thesis by auto
  next
    case False
    then show ?thesis
      using install_other [of "ru_deployments u" name ?px] by (auto simp: apply_routing_update_def)
  qed
  moreover have "\<exists>h. dget (px_table (apply_routing_update u px)) (dp_deployment_name dep) = Some h \<and>
      length (px_handles px) \<le> h \<and>
      ph_replicas (px_handles (apply_routing_update u px) ! h) = map routed (dp_replicas dep) \<and>
      (\<forall>k. outstanding (px_handles (apply_routing_update u px) ! h) k = 0)"
    if "(d, dep) \<in> set (ru_deployments u)" for d dep
    using named [OF that] by force
  ultimately show ?thesis
    using install_frame [of "ru_deployments u" ?px] by (auto simp: apply_routing_update_def)
qed

theorem update_replaces_routes_witness:
  "\<exists>h. dget (px_table (apply_routing_update demo_update demo_busy)) ''/v1/chat/tinyllama'' = Some h \<and>
    outstanding (px_handles (apply_routing_update demo_update demo_busy) ! h) ''1#1'' = 0 \<and>
    length (px_flights (apply_routing_update demo_update demo_busy)) = 1"
proof -
  have "distinct (map (\<lambda>x. dp_deployment_name (snd x)) (ru_deployments demo_update))"
    by (simp add: demo_update_def demo_tinyllama_def demo_gpt2_def)
  note all = update_replaces_routes [OF this, of demo_busy]
  have "(2, demo_tinyllama) \<in> set (ru_deployments demo_update)" by (simp add: demo_update_def)
  with all obtain h where "dget (px_table (apply_routing_update demo_update demo_busy))
      (dp_deployment_name demo_tinyllama) = Some h"
    "\<forall>k. outstanding (px_handles (apply_routing_update demo_update demo_busy) ! h) k = 0"
    by blast
  moreover have "dp_deployment_name demo_tinyllama = ''/v1/chat/tinyllama''" by (simp add: demo_tinyllama_def)
  moreover have "px_flights (apply_routing_update demo_update demo_busy) = px_flights demo_busy"
    using all by blast
  ultimately show ?thesis using demo_busy_flights by auto
qed

text \<open>
  A client that asks for an unknown deployment and does not read the answer stops the routing
  updates: while its stream holds the lock, no step of the proxy changes the routing table, and only
  the end of this stream gives the lock back.
\<close>

theorem unknown_deployment_holds_lock:
  assumes "dget (px_table px) name = None" and "px_lock px = None"
  shows "px_lock (snd (open_stream i name px)) = Some i \<and>
    (\<forall>px' px''. px_lock px' = Some i \<longrightarrow> proxy_step px' px'' \<longrightarrow>
      px_table px'' = px_table px' \<and> (px_lock px'' = Some i \<or> px'' = leave_lock i px'))"
proof -
  have "px_table px'' = px_table px' \<and> (px_lock px'' = Some i \<or> px'' = leave_lock i px')"
    if "px_lock px' = Some i" "proxy_step px' px''" for px' px''
    using that(2,1)
    by (cases rule: proxy_step.cases)
      (auto simp: finish_stream_def abort_stream_def leave_lock_def px_close_def put_handle_def log_metric_def
        split: option.splits)
  with assms show ?thesis by (simp add: open_stream_def)
qed

theorem unknown_deployment_holds_lock_witness:
  "px_lock (snd (open_stream 7 ''/v1/chat/llama3'' demo_proxy)) = Some 7"
  using unknown_deployment_holds_lock [of demo_proxy "''/v1/chat/llama3''" 7]
  by (simp add: demo_proxy_eq dict_eval)

text \<open>
  The prompt reaches the replica unchanged: a POST whose body is the UTF-8 encoding of a non-empty
  text is streamed from the deployment named by the path with exactly this text as the prompt; an
  empty body and a body that is not UTF-8 are answered with status 400 and change nothing.
\<close>

theorem http_prompt_unchanged:
  assumes "\<forall>c \<in> set cs. scalar c" and "cs \<noteq> []"
  shows "handle_process_string_request replica i path (utf8_encode cs) px =
      (case forward_request_to_replica replica i path cs px of (chunks, px') \<Rightarrow> (HttpStream chunks, px')) \<and>
    fst (handle_process_string_request replica i path [] px) =
      HttpError 400 ''Request body cannot be empty for processing.'' \<and>
    (utf8_decode body = None \<longrightarrow> (\<exists>detail. handle_process_string_request replica i path body px =
      (HttpError 400 detail, px)))"
proof -
  have "utf8_char c \<noteq> []" for c by (simp add: utf8_char_def)
  then have "utf8_encode cs \<noteq> []" using assms(2) by (cases cs) (auto simp: utf8_encode_def)
  then show ?thesis
    using utf8_roundtrip [OF assms(1)] by (auto simp: handle_process_string_request_def)
qed

theorem http_prompt_unchanged_witness:
  "fst (handle_process_string_request failing_replica 0 ''/v1/chat/tinyllama'' (utf8_encode [72, 233, 8364, 128512]) demo_proxy) =
     HttpStream (fst (forward_request_to_replica failing_replica 0 ''/v1/chat/tinyllama'' [72, 233, 8364, 128512] demo_proxy)) \<and>
   (\<exists>detail. handle_process_string_request failing_replica 0 ''/v1/chat/tinyllama'' [192, 128] demo_proxy =
      (HttpError 400 detail, demo_proxy))"
  using http_prompt_unchanged [of "[72, 233, 8364, 128512]" failing_replica 0 "''/v1/chat/tinyllama''" demo_proxy "[192, 128]"]
  by (simp add: scalar_def case_prod_unfold)

text \<open>
  The identifier the head gives a replica is taken apart again correctly: parsing \<open>w#r\<close> yields
  \<open>w\<close> and \<open>r\<close> for all numbers of workers and replicas, and \<open>IndexError\<close> is raised exactly for a
  text without \<open>#\<close>.
\<close>

theorem replica_id_roundtrip:
  "parse_replica_id (replica_key (int_text w) (int_text r)) = Inr (int_text w, int_text r) \<and>
   (parse_replica_id s = Inl IndexError \<longleftrightarrow> CHR ''#'' \<notin> set s)"
proof -
  have "parse_replica_id s \<in> {Inl IndexError} \<union> range Inr"
    by (auto simp: parse_replica_id_def split: list.splits)
  then show ?thesis using parse_ok_iff [of s] by auto
qed

end
