(* ===== verification/ReplicaEngine.thy ===== *)
theory ReplicaEngine
  imports Helpers Messages "HOL-Library.Sublist"
begin

text \<open>
  The replica processes: \<open>src/components/add_replica.py\<close>, which the C++ server calls for each prompt
  and which puts tokens into its queue, and \<open>src/components/add_replica_vllm.py\<close>, the Python server.

  The vLLM engine is a parameter: \<open>generate prompt\<close> either raises at once or yields a list of outputs,
  each the \<^emph>\<open>whole\<close> text so far, and ends normally or with an exception.  The attribute \<open>engine\<close> only
  exists if the model could be loaded, hence the \<open>option\<close>.  What the code relies on is that the texts
  grow (\<open>growing\<close>); it holds for vLLM's cumulative output.
\<close>

record request_output =
  ro_texts :: "string list"
  ro_finished :: bool

type_synonym generation = "request_output list \<times> exn option"
type_synonym engine = "(string \<Rightarrow> generation res) option"

text \<open>The Prometheus counters and histograms: how often each was incremented or observed.\<close>

record metrics =
  me_latency :: nat
  me_success :: nat
  me_error :: nat
  me_first_token :: nat
  me_inter_token :: nat

section \<open>Loading the model\<close>

text \<open>The arguments of the engine, for the process behind the C++ server and for the Python server.\<close>

record engine_args =
  ea_model :: string
  ea_max_num_batched_tokens :: int
  ea_max_num_seqs :: int
  ea_max_model_len :: int
  ea_dtype :: string
  ea_trust_remote_code :: bool
  ea_device :: string
  ea_gpu_memory_utilization :: real

definition queue_engine_args :: "string \<Rightarrow> engine_args" where
  "queue_engine_args model_id =
     \<lparr>ea_model = model_id, ea_max_num_batched_tokens = 262144, ea_max_num_seqs = 1024, ea_max_model_len = 2048,
      ea_dtype = ''float16'', ea_trust_remote_code = True, ea_device = ''cuda'',
      ea_gpu_memory_utilization = 90 / 100\<rparr>"

definition server_engine_args :: "string \<Rightarrow> engine_args" where
  "server_engine_args model_id =
     \<lparr>ea_model = model_id, ea_max_num_batched_tokens = 131072, ea_max_num_seqs = 512, ea_max_model_len = 2048,
      ea_dtype = ''float16'', ea_trust_remote_code = True, ea_device = ''cuda'',
      ea_gpu_memory_utilization = 45 / 100\<rparr>"

text \<open>
  \<open>init_model\<close> of both files: \<open>MODEL_CONFIGS[deployment_name]\<close> is outside the \<open>try\<close>; a failure to load
  the engine is printed and leaves \<open>engine\<close> unset.  \<open>load\<close> is \<open>AsyncLLMEngine.from_engine_args\<close>.
\<close>

definition init_model ::
  "(string \<Rightarrow> engine_args) \<Rightarrow> (string \<Rightarrow> string option) \<Rightarrow> (engine_args \<Rightarrow> (string \<Rightarrow> generation res) res) \<Rightarrow>
   string \<Rightarrow> (string \<times> engine) res" where
  "init_model args_for model_ids load deployment_name =
     (case model_ids deployment_name of
        None \<Rightarrow> Inl KeyError
      | Some model_id \<Rightarrow>
          Inr (model_id, case load (args_for model_id) of Inl e \<Rightarrow> None | Inr gen \<Rightarrow> Some gen))"

definition server_init_model ::
  "(string \<Rightarrow> string option) \<Rightarrow> (engine_args \<Rightarrow> (string \<Rightarrow> generation res) res) \<Rightarrow> string \<Rightarrow> (string \<times> engine) res" where
  "server_init_model = init_model server_engine_args"

text \<open>\<open>ReplicaManager.__init__\<close> of \<open>add_replica.py\<close>; \<open>metrics_failure\<close> is what \<open>start_http_server\<close> raises.\<close>

record queue_manager =
  qm_deployment_name :: string
  qm_deployment_id :: int
  qm_metrics_port :: int
  qm_model_id :: string
  qm_engine :: engine

definition queue_manager_init ::
  "(string \<Rightarrow> string option) \<Rightarrow> (engine_args \<Rightarrow> (string \<Rightarrow> generation res) res) \<Rightarrow> exn option \<Rightarrow>
   string \<Rightarrow> int \<Rightarrow> int \<Rightarrow> queue_manager res" where
  "queue_manager_init model_ids load metrics_failure deployment_name deployment_id metrics_port =
     (case init_model queue_engine_args model_ids load deployment_name of
        Inl e \<Rightarrow> Inl e
      | Inr (model_id, engine) \<Rightarrow>
          (case metrics_failure of
             Some e \<Rightarrow> Inl e
           | None \<Rightarrow> Inr \<lparr>qm_deployment_name = deployment_name, qm_deployment_id = deployment_id,
               qm_metrics_port = metrics_port, qm_model_id = model_id, qm_engine = engine\<rparr>))"

text \<open>\<open>_get_best_device\<close>, of what \<open>torch.cuda\<close> reports.\<close>

definition get_best_device :: "bool \<Rightarrow> int \<Rightarrow> string" where
  "get_best_device is_available current_device =
     (if is_available then ''cuda:'' @ int_text current_device else ''cpu'')"

section \<open>\<open>generate_stream\<close>\<close>

text \<open>
  The queue of the caller: \<open>Some t\<close> is a piece of text, \<open>None\<close> the end marker.  The loop carries
  \<open>sent_position\<close>, \<open>first_token_received\<close> and \<open>last_token_received\<close>.
\<close>

fun generate_loop ::
  "request_output list \<Rightarrow> exn option \<Rightarrow> nat \<Rightarrow> bool \<Rightarrow> bool \<Rightarrow> string option list \<Rightarrow> metrics \<Rightarrow>
   exn option \<times> string option list \<times> metrics" where
  "generate_loop [] ending pos first prev queue m = (ending, queue, m)"
| "generate_loop (ro # rest) ending pos first prev queue m =
     (case ro_texts ro of
        [] \<Rightarrow> (Some IndexError, queue, m)
      | current_text # others \<Rightarrow>
          (let new_text = drop pos current_text
           in if new_text \<noteq> [] then
                (let m1 = (if first then m else m\<lparr>me_first_token := me_first_token m + 1\<rparr>);
                     m2 = (if prev then m1\<lparr>me_inter_token := me_inter_token m1 + 1\<rparr> else m1)
                 in generate_loop rest ending (length current_text) True True (queue @ [Some new_text]) m2)
              else generate_loop rest ending pos first prev queue m))"

definition generate_stream ::
  "engine \<Rightarrow> string \<Rightarrow> string option list \<Rightarrow> metrics \<Rightarrow> unit res \<times> string option list \<times> metrics" where
  "generate_stream engine prompt queue m =
     (case engine of
        None \<Rightarrow> (Inl (AttributeError ''engine''), queue, m)
      | Some gen \<Rightarrow>
          (case gen prompt of
             Inl e \<Rightarrow> (Inl e, queue, m)
           | Inr (outputs, ending) \<Rightarrow>
               (case generate_loop outputs ending 0 False False queue m of
                  (None, queue', m') \<Rightarrow>
                    (Inr (), queue' @ [None],
                     m'\<lparr>me_latency := me_latency m' + 1, me_success := me_success m' + 1\<rparr>)
                | (Some e, queue', m') \<Rightarrow>
                    (Inr (), queue' @ [Some (''[PYTHON ERROR] '' @ exn_text e), None],
                     m'\<lparr>me_error := me_error m' + 1\<rparr>))))"

section \<open>\<open>SendRequest\<close> of the Python server\<close>

text \<open>The prompt format of the chat model.\<close>

definition format_prompt :: "string \<Rightarrow> string" where
  "format_prompt raw_prompt =
     ''<|user|>'' @ [CHR 0x0A] @ raw_prompt @ ''<|end|>'' @ [CHR 0x0A] @ ''<|assistant|>'' @ [CHR 0x0A]"

definition reply :: "string \<Rightarrow> bool \<Rightarrow> replica_reply" where
  "reply text is_error = \<lparr>rp_text = text, rp_is_error = is_error\<rparr>"

text \<open>The inner loop, over the outputs of one step of the engine.\<close>

fun send_outputs ::
  "string list \<Rightarrow> nat \<Rightarrow> bool \<Rightarrow> metrics \<Rightarrow> replica_reply list \<times> nat \<times> bool \<times> metrics" where
  "send_outputs [] pos first m = ([], pos, first, m)"
| "send_outputs (current_text # rest) pos first m =
     (if pos < length current_text then
        (let m1 = (if first then m else m\<lparr>me_first_token := me_first_token m + 1\<rparr>);
             new_text = drop pos current_text;
             (replies, pos', first', m') =
               send_outputs rest (if new_text \<noteq> [] then length current_text else pos) True m1
         in ((if new_text \<noteq> [] then [reply new_text False] else []) @ replies, pos', first', m'))
      else send_outputs rest pos first m)"

fun send_loop ::
  "request_output list \<Rightarrow> exn option \<Rightarrow> nat \<Rightarrow> bool \<Rightarrow> metrics \<Rightarrow> replica_reply list \<times> exn option \<times> metrics"
  where
  "send_loop [] ending pos first m = ([], ending, m)"
| "send_loop (ro # rest) ending pos first m =
     (case send_outputs (ro_texts ro) pos first m of
        (replies, pos', first', m1) \<Rightarrow>
          if ro_finished ro then (replies, None, m1)
          else
            (case send_loop rest ending pos' first' (m1\<lparr>me_success := me_success m1 + 1\<rparr>) of
               (replies', e, m2) \<Rightarrow> (replies @ replies', e, m2)))"

definition vllm_send_request :: "engine \<Rightarrow> string \<Rightarrow> metrics \<Rightarrow> replica_reply list \<times> metrics" where
  "vllm_send_request engine raw_prompt m =
     (let (replies, e, m1) =
        (case engine of
           None \<Rightarrow> ([], Some (AttributeError ''engine''), m)
         | Some gen \<Rightarrow>
             (case gen (format_prompt raw_prompt) of
                Inl e \<Rightarrow> ([], Some e, m)
              | Inr (outputs, ending) \<Rightarrow> send_loop outputs ending 0 False m));
          (replies', m2) =
        (case e of
           None \<Rightarrow> (replies, m1)
         | Some x \<Rightarrow> (replies @ [reply (''[vLLM Error] '' @ exn_text x) True],
                     m1\<lparr>me_error := me_error m1 + 1\<rparr>))
      in (replies', m2\<lparr>me_latency := me_latency m2 + 1\<rparr>))"

section \<open>Registration with the scheduler\<close>

text \<open>
  The result is the exception that escapes, or whether the replica registered; the number of kill
  signals it sent to itself comes with it.  \<open>send_with_retries_async\<close> already sends one.
\<close>

definition register_replica ::
  "(replica_status \<Rightarrow> 's \<Rightarrow> bool res \<times> 's) \<Rightarrow> replica_status \<Rightarrow> 's \<Rightarrow> bool res \<times> nat \<times> 's" where
  "register_replica stub status s =
     (case send_with_retries_async (stub status) 3 2 s of
        (answer, killed, sleeps, s') \<Rightarrow>
          (let kills = (if killed then 1 else 0)
           in case answer of
                Inl e \<Rightarrow> (Inl e, kills, s')
              | Inr (Got response) \<Rightarrow> (Inr True, kills, s')
              | Inr other \<Rightarrow> (Inr False, kills + 1, s')))"

text \<open>The lines \<open>poll_metrics_periodically\<close> prints.\<close>

definition snapshot_lines :: "string list \<Rightarrow> string list" where
  "snapshot_lines text_lines = filter (\<lambda>line.
     (\<exists>keyword \<in> set [''vllm'', ''replica_request'', ''replica_first_token'']. sublist keyword line) \<and>
     \<not> prefix [CHR ''#''] line) text_lines"

section \<open>Texts that grow\<close>

fun growing :: "string \<Rightarrow> string list \<Rightarrow> bool" where
  "growing t [] = True"
| "growing t (u # us) \<longleftrightarrow> prefix t u \<and> growing u us"

fun final_text :: "string \<Rightarrow> string list \<Rightarrow> string" where
  "final_text t [] = t"
| "final_text t (u # us) = final_text u us"

definition first_texts :: "request_output list \<Rightarrow> string list" where
  "first_texts outputs = map (\<lambda>ro. hd (ro_texts ro)) outputs"

text \<open>The pieces \<open>generate_loop\<close> puts, with their number.\<close>

lemma generate_loop_pieces:
  assumes "growing t (first_texts outputs)" and "\<forall>ro \<in> set outputs. ro_texts ro \<noteq> []"
  shows "\<exists>pieces m'. generate_loop outputs ending (length t) first prev queue m =
      (ending, queue @ map Some pieces, m') \<and> t @ concat pieces = final_text t (first_texts outputs) \<and>
    [] \<notin> set pieces \<and> me_success m' = me_success m \<and> me_error m' = me_error m \<and> me_latency m' = me_latency m \<and>
    me_first_token m' = me_first_token m + (if pieces = [] \<or> first then 0 else 1)"
  using assms
proof (induction outputs arbitrary: t first prev queue m)
  case (Cons ro rest)
  obtain u us where u: "ro_texts ro = u # us" using Cons.prems(2) by (cases "ro_texts ro") auto
  then have pre: "prefix t u" and gr: "growing u (first_texts rest)"
    using Cons.prems(1) by (simp_all add: first_texts_def)
  then obtain v where v: "u = t @ v" by (auto simp: prefix_def)
  show ?case
  proof (cases "v = []")
    case True
    with Cons.IH [of u first prev queue m] gr u v Cons.prems(2) show ?thesis
      by (simp add: first_texts_def)
  next
    case False
    let ?m1 = "if first then m else m\<lparr>me_first_token := me_first_token m + 1\<rparr>"
    let ?m2 = "if prev then ?m1\<lparr>me_inter_token := me_inter_token ?m1 + 1\<rparr> else ?m1"
    have "\<forall>ro \<in> set rest. ro_texts ro \<noteq> []" using Cons.prems(2) by simp
    from Cons.IH [OF gr this, of True True "queue @ [Some v]" ?m2] obtain pieces m' where
      "generate_loop rest ending (length u) True True (queue @ [Some v]) ?m2 =
        (ending, (queue @ [Some v]) @ map Some pieces, m')" "u @ concat pieces = final_text u (first_texts rest)"
      "[] \<notin> set pieces" "me_success m' = me_success m" "me_error m' = me_error m" "me_latency m' = me_latency m"
      "me_first_token m' = me_first_token m + (if first then 0 else 1)"
      by (auto split: if_splits)
    with u v False show ?thesis
      by (intro exI [of _ "v # pieces"] exI [of _ m']) (simp add: first_texts_def Let_def)
  qed
qed (auto simp: first_texts_def)

lemma generate_loop_queue:
  "\<exists>pieces. fst (snd (generate_loop outputs ending pos first prev queue m)) = queue @ map Some pieces"
proof (induction outputs arbitrary: pos first prev queue m)
  case (Cons ro rest)
  show ?case
  proof (cases "ro_texts ro")
    case (Cons u us)
    show ?thesis
    proof (cases "drop pos u = []")
      case False
      let ?m1 = "if first then m else m\<lparr>me_first_token := me_first_token m + 1\<rparr>"
      let ?m2 = "if prev then ?m1\<lparr>me_inter_token := me_inter_token ?m1 + 1\<rparr> else ?m1"
      obtain pieces where "fst (snd (generate_loop rest ending (length u) True True (queue @ [Some (drop pos u)]) ?m2)) =
          (queue @ [Some (drop pos u)]) @ map Some pieces"
        using Cons.IH by blast
      with False Cons show ?thesis by (intro exI [of _ "drop pos u # pieces"]) (simp add: Let_def)
    qed (use Cons.IH [of pos first prev queue m] Cons in simp)
  qed simp
qed simp

lemma send_one:
  assumes "prefix t u"
  shows "send_outputs [u] (length t) first m =
    (if u = t then [] else [reply (drop (length t) u) False], length u, first \<or> u \<noteq> t,
     if u = t \<or> first then m else m\<lparr>me_first_token := me_first_token m + 1\<rparr>)"
proof -
  obtain v where "u = t @ v" using assms by (auto simp: prefix_def)
  then show ?thesis by (cases v) simp_all
qed

definition step_output :: "string \<Rightarrow> request_output" where
  "step_output t = \<lparr>ro_texts = [t], ro_finished = False\<rparr>"

definition last_output :: "string \<Rightarrow> request_output" where
  "last_output t = \<lparr>ro_texts = [t], ro_finished = True\<rparr>"

lemma output_fields [simp]:
  "ro_texts (step_output t) = [t]" "ro_texts (last_output t) = [t]"
  "\<not> ro_finished (step_output t)" "ro_finished (last_output t)"
  by (simp_all add: step_output_def last_output_def)

lemma send_loop_pieces:
  assumes "growing t (us @ [u'])"
  shows "\<exists>pieces m'. send_loop (map step_output us @ [last_output u']) ending (length t) first m =
      (map (\<lambda>p. reply p False) pieces, None, m') \<and> t @ concat pieces = u' \<and>
    me_success m' = me_success m + length us \<and> me_error m' = me_error m \<and> me_latency m' = me_latency m"
  using assms
proof (induction us arbitrary: t first m)
  case Nil
  then obtain v where "u' = t @ v" by (auto simp: prefix_def)
  then show ?case
    by (intro exI [of _ "if v = [] then [] else [v]"])
      (simp add: send_one del: send_outputs.simps)
next
  case (Cons u us)
  then obtain v where v: "u = t @ v" and gr: "growing u (us @ [u'])" by (auto simp: prefix_def)
  let ?m = "if u = t \<or> first then m else m\<lparr>me_first_token := me_first_token m + 1\<rparr>"
  from Cons.IH [OF gr, of "first \<or> u \<noteq> t" "?m\<lparr>me_success := me_success ?m + 1\<rparr>"] obtain pieces m' where
    "send_loop (map step_output us @ [last_output u']) ending (length u) (first \<or> u \<noteq> t)
      (?m\<lparr>me_success := me_success ?m + 1\<rparr>) = (map (\<lambda>p. reply p False) pieces, None, m')"
    "u @ concat pieces = u'" "me_success m' = me_success m + 1 + length us" "me_error m' = me_error m"
    "me_latency m' = me_latency m"
    by auto
  with v show ?case
    by (intro exI [of _ "(if v = [] then [] else [v]) @ pieces"] exI [of _ m'])
      (cases "v = []"; cases first; simp add: send_one del: send_outputs.simps)
qed

lemma vllm_pieces:
  assumes "gen (format_prompt prompt) = Inr (map step_output us @ [last_output u'], ending)"
    and "growing [] (us @ [u'])"
  shows "\<exists>pieces m'. vllm_send_request (Some gen) prompt m = (map (\<lambda>p. reply p False) pieces, m') \<and>
    concat pieces = u' \<and> me_latency m' = me_latency m + 1 \<and> me_error m' = me_error m \<and>
    me_success m' = me_success m + length us"
proof -
  have "growing [] (us @ [u'])" using assms(2) .
  from send_loop_pieces [OF this, of ending False m] obtain pieces m' where
    "send_loop (map step_output us @ [last_output u']) ending 0 False m =
      (map (\<lambda>p. reply p False) pieces, None, m')" "concat pieces = u'"
    "me_success m' = me_success m + length us" "me_error m' = me_error m" "me_latency m' = me_latency m"
    by auto
  with assms(1) show ?thesis
    by (intro exI [of _ pieces] exI [of _ "m'\<lparr>me_latency := me_latency m' + 1\<rparr>"])
      (simp add: vllm_send_request_def)
qed

section \<open>Properties\<close>

definition no_metrics :: metrics where
  "no_metrics = \<lparr>me_latency = 0, me_success = 0, me_error = 0, me_first_token = 0, me_inter_token = 0\<rparr>"

definition demo_engine :: engine where
  "demo_engine = Some (\<lambda>prompt. Inr (map step_output [''He'', ''He'', ''Hello''] @ [last_output ''Hello!''], None))"

text \<open>
  C31. Streaming loses and repeats nothing.  When the engine's texts grow and it ends normally, the
  queue gets exactly non-empty pieces whose concatenation is the final text, then the end marker once
  and last; one success and one latency are recorded, no error, and the first-token latency once if
  there was any text.
\<close>

theorem stream_is_final_text:
  assumes "gen prompt = Inr (outputs, None)" and "growing [] (first_texts outputs)"
    and "\<forall>ro \<in> set outputs. ro_texts ro \<noteq> []"
  shows "\<exists>pieces m'. generate_stream (Some gen) prompt [] m = (Inr (), map Some pieces @ [None], m') \<and>
    concat pieces = final_text [] (first_texts outputs) \<and> [] \<notin> set pieces \<and>
    me_success m' = me_success m + 1 \<and> me_latency m' = me_latency m + 1 \<and> me_error m' = me_error m \<and>
    me_first_token m' = me_first_token m + (if pieces = [] then 0 else 1)"
  using generate_loop_pieces [OF assms(2,3), of None False False "[]" m] assms(1)
  by (auto simp: generate_stream_def)

theorem stream_is_final_text_witness:
  "\<exists>pieces m'. generate_stream demo_engine ''hi'' [] no_metrics = (Inr (), map Some pieces @ [None], m') \<and>
    concat pieces = ''Hello!'' \<and> me_success m' = 1"
proof -
  define gen where "gen = (\<lambda>prompt :: string. Inr (map step_output [''He'', ''He'', ''Hello''] @ [last_output ''Hello!''], None) :: generation res)"
  have "demo_engine = Some gen" by (simp add: demo_engine_def gen_def)
  moreover have "gen ''hi'' = Inr (map step_output [''He'', ''He'', ''Hello''] @ [last_output ''Hello!''], None)"
    by (simp add: gen_def)
  from stream_is_final_text [of gen "''hi''" _ no_metrics, OF this]
  have "\<exists>pieces m'. generate_stream (Some gen) ''hi'' [] no_metrics = (Inr (), map Some pieces @ [None], m') \<and>
    concat pieces = ''Hello!'' \<and> me_success m' = 1"
    by (simp add: first_texts_def step_output_def last_output_def no_metrics_def) blast
  ultimately show ?thesis by simp
qed

text \<open>
  A stream that starts always ends.  Once the engine has returned its generator, the queue gets
  the end marker exactly once and as the last item, whatever the engine yields or raises, and an
  exception is reported by a text just before it.  But if the engine could not be loaded, or
  \<open>generate\<close> itself raises, nothing is put at all and the reader of the queue waits forever.
\<close>

theorem stream_end_marker:
  "case engine of
     None \<Rightarrow> generate_stream engine prompt queue m = (Inl (AttributeError ''engine''), queue, m)
   | Some gen \<Rightarrow>
       (case gen prompt of
          Inl e \<Rightarrow> generate_stream engine prompt queue m = (Inl e, queue, m)
        | Inr (outputs, ending) \<Rightarrow>
            (\<exists>pieces m'. generate_stream engine prompt queue m = (Inr (), queue @ map Some pieces @ [None], m') \<and>
              (ending \<noteq> None \<and> (\<forall>ro \<in> set outputs. ro_texts ro \<noteq> []) \<longrightarrow>
                 pieces \<noteq> [] \<and> last pieces = ''[PYTHON ERROR] '' @ exn_text (the ending))))"
proof (cases engine)
  case None
  then show ?thesis by (simp add: generate_stream_def)
next
  case (Some gen)
  show ?thesis
  proof (cases "gen prompt")
    case (Inl e)
    with Some show ?thesis by (simp add: generate_stream_def)
  next
    case (Inr p)
    obtain outputs ending where p: "p = (outputs, ending)" by (cases p)
    obtain e q m1 where g: "generate_loop outputs ending 0 False False queue m = (e, q, m1)"
      by (cases "generate_loop outputs ending 0 False False queue m")
    obtain pieces where q: "q = queue @ map Some pieces"
      using generate_loop_queue [of outputs ending 0 False False queue m] g by auto
    have e: "\<forall>ro \<in> set outputs. ro_texts ro \<noteq> [] \<Longrightarrow>
        fst (generate_loop outputs ending pos first prev queue m) = ending" for pos first prev queue m
      by (induction outputs arbitrary: pos first prev queue m) (auto simp: Let_def split: list.splits)
    show ?thesis
    proof (cases e)
      case None
      with Some Inr p g q e [of 0 False False queue m] show ?thesis
        by (auto simp: generate_stream_def)
    next
      case (Some x)
      with \<open>engine = Some gen\<close> Inr p g q e [of 0 False False queue m] show ?thesis
        by (auto simp: generate_stream_def intro!: exI [of _ "pieces @ [''[PYTHON ERROR] '' @ exn_text x]"])
    qed
  qed
qed

theorem stream_end_marker_witness:
  "generate_stream None ''hi'' [] no_metrics = (Inl (AttributeError ''engine''), [], no_metrics)"
  using stream_end_marker [of None "''hi''" "[]" no_metrics] by simp

text \<open>
  The Python server streams the final text but miscounts its requests.  When the engine yields
  growing texts, one per step, the last one finished, the replies are error-free pieces whose
  concatenation is the final text and one latency is recorded; the counter of successful requests,
  however, grows by the number of steps before the last one, not by one.
\<close>

theorem vllm_counts_steps:
  assumes "gen (format_prompt prompt) = Inr (map step_output us @ [last_output u'], ending)"
    and "growing [] (us @ [u'])"
  shows "\<exists>pieces m'. vllm_send_request (Some gen) prompt m = (map (\<lambda>p. reply p False) pieces, m') \<and>
    concat pieces = u' \<and> me_latency m' = me_latency m + 1 \<and> me_error m' = me_error m \<and>
    me_success m' = me_success m + length us"
  by (rule vllm_pieces) (fact assms)+

theorem vllm_counts_steps_witness:
  "\<exists>pieces m'. vllm_send_request demo_engine ''hi'' no_metrics = (map (\<lambda>p. reply p False) pieces, m') \<and>
    concat pieces = ''Hello!'' \<and> me_success m' = 3"
proof -
  define gen where "gen = (\<lambda>prompt :: string. Inr (map step_output [''He'', ''He'', ''Hello''] @ [last_output ''Hello!''], None) :: generation res)"
  have d: "demo_engine = Some gen" by (simp add: demo_engine_def gen_def)
  have "gen (format_prompt ''hi'') = Inr (map step_output [''He'', ''He'', ''Hello''] @ [last_output ''Hello!''], None)"
    by (simp add: gen_def)
  from vllm_counts_steps [of gen "''hi''" "[''He'', ''He'', ''Hello'']" "''Hello!''" None no_metrics, OF this]
  show ?thesis
    unfolding d by (simp add: no_metrics_def numeral_3_eq_3) blast
qed

end
