(* ===== verification/ModelConfig.thy ===== *)
theory ModelConfig
  imports Prelude
begin

text \<open>
  \<open>src/lib/model_config.py\<close>: the table from endpoints to models and the file it is kept in.

  A field of \<open>ModelConfig\<close> holds whatever the file had for it (a dataclass does not check types), so
  fields are \<open>json\<close> values.  The file is absent, unreadable, or holds the value that \<open>json.load\<close>
  returns; \<open>json.load\<close> after \<open>json.dump\<close> gives back a value of strings, numbers and dictionaries with
  string keys, in order.  \<open>writable\<close> tells whether opening the file for writing succeeds; when it does
  not, the exception is printed and the file stays as it is.
\<close>

datatype json =
    JNull
  | JBool bool
  | JInt int
  | JFloat real
  | JStr string
  | JList "json list"
  | JObj "(string \<times> json) list"

datatype config_file = Absent | Unreadable | Holds json

record model_config =
  mc_model_id :: json
  mc_deployment_name :: json
  mc_endpoint :: json
  mc_max_length :: json
  mc_temperature :: json
  mc_top_p :: json
  mc_device :: json

record config_manager =
  cm_configs :: "(string, model_config) dict"
  cm_file :: config_file

section \<open>The defaults\<close>

definition model_config_of :: "string \<Rightarrow> string \<Rightarrow> string \<Rightarrow> int \<Rightarrow> real \<Rightarrow> model_config" where
  "model_config_of model_id deployment_name endpoint max_length temperature =
     \<lparr>mc_model_id = JStr model_id, mc_deployment_name = JStr deployment_name, mc_endpoint = JStr endpoint,
      mc_max_length = JInt max_length, mc_temperature = JFloat temperature, mc_top_p = JFloat (9 / 10),
      mc_device = JStr ''auto''\<rparr>"

definition MODEL_CONFIGS :: "(string, model_config) dict" where
  "MODEL_CONFIGS =
     [(''/v1/chat/gpt2'', model_config_of ''gpt2'' ''gpt2-small'' ''/v1/chat/gpt2'' 256 (7 / 10)),
      (''/v1/chat/llama2'', model_config_of ''meta-llama/Llama-2-7b-chat-hf'' ''llama2-7b-chat''
         ''/v1/chat/llama2'' 512 (8 / 10)),
      (''/v1/chat/mistral'', model_config_of ''mistralai/Mistral-7B-Instruct-v0.1'' ''mistral-7b-instruct''
         ''/v1/chat/mistral'' 512 (7 / 10)),
      (''/v1/code/codellama'', model_config_of ''codellama/CodeLlama-7b-Python-hf'' ''codellama-7b-python''
         ''/v1/code/codellama'' 1024 (2 / 10)),
      (''/v1/chat/phi2'', model_config_of ''microsoft/phi-2'' ''phi2'' ''/v1/chat/phi2'' 512 (7 / 10)),
      (''/v1/chat/tinyllama'', model_config_of ''TinyLlama/TinyLlama-1.1B-Chat-v1.0'' ''tinyllama-1.1b-instruct''
         ''/v1/chat/tinyllama'' 512 (7 / 10))]"

section \<open>Loading and saving\<close>

definition config_fields :: "string list" where
  "config_fields = [''model_id'', ''deployment_name'', ''endpoint'', ''max_length'', ''temperature'',
     ''top_p'', ''device'']"

definition field_or :: "json \<Rightarrow> (string \<times> json) list \<Rightarrow> string \<Rightarrow> json" where
  "field_or dflt kwargs name = (case dget kwargs name of None \<Rightarrow> dflt | Some v \<Rightarrow> v)"

text \<open>\<open>ModelConfig(**config_dict)\<close>\<close>

definition config_of_json :: "json \<Rightarrow> model_config res" where
  "config_of_json config_dict =
     (case config_dict of
        JObj kwargs \<Rightarrow>
          if \<exists>k \<in> set (map fst kwargs). k \<notin> set config_fields
          then Inl (TypeError ''unexpected keyword argument'')
          else (case (dget kwargs ''model_id'', dget kwargs ''deployment_name'', dget kwargs ''endpoint'') of
                  (Some m, Some d, Some e) \<Rightarrow>
                    Inr \<lparr>mc_model_id = m, mc_deployment_name = d, mc_endpoint = e,
                      mc_max_length = field_or (JInt 512) kwargs ''max_length'',
                      mc_temperature = field_or (JFloat (7 / 10)) kwargs ''temperature'',
                      mc_top_p = field_or (JFloat (9 / 10)) kwargs ''top_p'',
                      mc_device = field_or (JStr ''auto'') kwargs ''device''\<rparr>
                | _ \<Rightarrow> Inl (TypeError ''missing required positional argument''))
      | _ \<Rightarrow> Inl (TypeError ''argument after ** must be a mapping''))"

fun load_entries :: "(string \<times> json) list \<Rightarrow> (string, model_config) dict \<Rightarrow> (string, model_config) dict res" where
  "load_entries [] configs = Inr configs"
| "load_entries ((endpoint, config_dict) # rest) configs =
     (case config_of_json config_dict of
        Inl e \<Rightarrow> Inl e
      | Inr config \<Rightarrow> load_entries rest (dset endpoint config configs))"

definition json_of_config :: "model_config \<Rightarrow> json" where
  "json_of_config config =
     JObj [(''model_id'', mc_model_id config), (''deployment_name'', mc_deployment_name config),
       (''endpoint'', mc_endpoint config), (''max_length'', mc_max_length config),
       (''temperature'', mc_temperature config), (''top_p'', mc_top_p config), (''device'', mc_device config)]"

definition save_configs :: "bool \<Rightarrow> config_manager \<Rightarrow> config_manager" where
  "save_configs writable cm =
     (if writable
      then cm\<lparr>cm_file := Holds (JObj (map (\<lambda>(endpoint, config). (endpoint, json_of_config config)) (cm_configs cm)))\<rparr>
      else cm)"

definition load_configs :: "bool \<Rightarrow> config_manager \<Rightarrow> config_manager" where
  "load_configs writable cm =
     (case cm_file cm of
        Absent \<Rightarrow> save_configs writable (cm\<lparr>cm_configs := MODEL_CONFIGS\<rparr>)
      | Unreadable \<Rightarrow> cm\<lparr>cm_configs := MODEL_CONFIGS\<rparr>
      | Holds data \<Rightarrow>
          (case data of
             JObj entries \<Rightarrow>
               (case load_entries entries (cm_configs cm) of
                  Inl e \<Rightarrow> cm\<lparr>cm_configs := MODEL_CONFIGS\<rparr>
                | Inr configs \<Rightarrow> cm\<lparr>cm_configs := configs\<rparr>)
           | _ \<Rightarrow> cm\<lparr>cm_configs := MODEL_CONFIGS\<rparr>))"

definition cm_init :: "bool \<Rightarrow> config_file \<Rightarrow> config_manager" where
  "cm_init writable file = load_configs writable \<lparr>cm_configs = [], cm_file = file\<rparr>"

section \<open>Queries and changes\<close>

definition get_model_config_by_endpoint :: "string \<Rightarrow> config_manager \<Rightarrow> model_config option" where
  "get_model_config_by_endpoint endpoint cm = dget (cm_configs cm) endpoint"

definition get_model_config_by_deployment_name :: "string \<Rightarrow> config_manager \<Rightarrow> model_config option" where
  "get_model_config_by_deployment_name deployment_name cm =
     find (\<lambda>config. mc_deployment_name config = JStr deployment_name) (dvalues (cm_configs cm))"

definition add_model_config :: "bool \<Rightarrow> string \<Rightarrow> model_config \<Rightarrow> config_manager \<Rightarrow> config_manager" where
  "add_model_config writable endpoint config cm =
     save_configs writable (cm\<lparr>cm_configs := dset endpoint config (cm_configs cm)\<rparr>)"

definition remove_model_config :: "bool \<Rightarrow> string \<Rightarrow> config_manager \<Rightarrow> bool \<times> config_manager" where
  "remove_model_config writable endpoint cm =
     (if endpoint \<in> dkeys (cm_configs cm)
      then (True, save_configs writable (cm\<lparr>cm_configs := ddel endpoint (cm_configs cm)\<rparr>))
      else (False, cm))"

definition list_models :: "config_manager \<Rightarrow> (string, model_config) dict" where
  "list_models cm = cm_configs cm"

definition get_huggingface_model_id :: "string \<Rightarrow> config_manager \<Rightarrow> json option" where
  "get_huggingface_model_id endpoint cm = map_option mc_model_id (get_model_config_by_endpoint endpoint cm)"

definition get_deployment_name :: "string \<Rightarrow> config_manager \<Rightarrow> json option" where
  "get_deployment_name endpoint cm = map_option mc_deployment_name (get_model_config_by_endpoint endpoint cm)"

section \<open>Facts\<close>

lemma config_json_roundtrip [simp]: "config_of_json (json_of_config config) = Inr config"
  by (simp add: config_of_json_def json_of_config_def config_fields_def field_or_def dict_eval)

lemma load_entries_saved:
  assumes "dict_ok configs" and "\<forall>k \<in> set (map fst configs). dget prev k = None"
  shows "load_entries (map (\<lambda>(endpoint, config). (endpoint, json_of_config config)) configs) prev =
    Inr (prev @ configs)"
  using assms
proof (induction configs arbitrary: prev)
  case (Cons x configs)
  obtain k c where x: "x = (k, c)" by (cases x)
  have "dict_ok configs" and fresh: "k \<notin> set (map fst configs)"
    using Cons.prems(1) x by (simp_all add: dict_ok_def)
  moreover have "dset k c prev = prev @ [(k, c)]" using Cons.prems(2) x by (intro dset_fresh) simp
  moreover have "\<forall>k' \<in> set (map fst configs). dget (dset k c prev) k' = None"
    using Cons.prems(2) fresh by auto
  ultimately show ?case using Cons.IH [of "dset k c prev"] x by simp
qed simp

lemma load_saved:
  assumes "dict_ok (cm_configs cm)"
  shows "cm_configs (cm_init writable' (cm_file (save_configs True cm))) = cm_configs cm"
  using load_entries_saved [OF assms, of "[]"] by (simp add: save_configs_def cm_init_def load_configs_def)

lemma defaults_ok: "dict_ok MODEL_CONFIGS"
  by (simp add: dict_ok_def MODEL_CONFIGS_def)

lemma load_entries_ok: "dict_ok prev \<Longrightarrow> load_entries entries prev = Inr configs \<Longrightarrow> dict_ok configs"
  by (induction entries prev rule: load_entries.induct) (auto split: sum.splits)

lemma cm_init_ok: "dict_ok (cm_configs (cm_init writable file))"
  by (auto simp: cm_init_def load_configs_def save_configs_def defaults_ok
      split: config_file.splits json.splits sum.splits dest: load_entries_ok [OF dict_ok_Nil])

section \<open>Properties\<close>

text \<open>
  C38. The configuration survives a restart.  After a successful save, a manager started on the file
  has exactly the same table, in the same order; so a model that was added is found by the next
  process under its endpoint, one that was removed is not, and every other endpoint is as before.
\<close>

theorem config_persists:
  assumes "dict_ok (cm_configs cm)"
  shows "cm_configs (cm_init w (cm_file (save_configs True cm))) = cm_configs cm \<and>
    get_model_config_by_endpoint e' (cm_init w (cm_file (add_model_config True e config cm))) =
      (if e' = e then Some config else get_model_config_by_endpoint e' cm) \<and>
    (e \<in> dkeys (cm_configs cm) \<longrightarrow>
      get_model_config_by_endpoint e' (cm_init w (cm_file (snd (remove_model_config True e cm)))) =
      (if e' = e then None else get_model_config_by_endpoint e' cm))"
  using load_saved [OF assms, of w]
    load_saved [of "cm\<lparr>cm_configs := dset e config (cm_configs cm)\<rparr>" w]
    load_saved [of "cm\<lparr>cm_configs := ddel e (cm_configs cm)\<rparr>" w] assms
  by (simp add: get_model_config_by_endpoint_def add_model_config_def remove_model_config_def)

theorem config_persists_witness:
  "get_model_config_by_endpoint ''/v1/chat/gpt2'' (cm_init False (cm_file
     (add_model_config True ''/v1/chat/opt'' (model_config_of ''facebook/opt-1.3b'' ''opt'' ''/v1/chat/opt'' 512 (7 / 10))
       (cm_init True Absent)))) \<noteq> None"
proof -
  have "get_model_config_by_endpoint ''/v1/chat/gpt2'' (cm_init True Absent) \<noteq> None"
    by (simp add: get_model_config_by_endpoint_def cm_init_def load_configs_def save_configs_def
        MODEL_CONFIGS_def dict_eval)
  then show ?thesis using config_persists [OF cm_init_ok [of True Absent]] by simp
qed

text \<open>
  A missing or damaged file means the defaults.  If the file is absent, is not JSON, is not an
  object, or has an entry that is not a complete configuration, the manager starts with the default
  table, whatever else the file holds; only for an absent file it writes the defaults out.
\<close>

theorem damaged_config_means_defaults:
  assumes "file \<in> {Absent, Unreadable} \<or> (\<exists>data. file = Holds data \<and> (\<forall>entries. data \<noteq> JObj entries)) \<or>
    (\<exists>entries. file = Holds (JObj entries) \<and> (\<exists>x \<in> set entries. \<exists>e. config_of_json (snd x) = Inl e))"
  shows "cm_configs (cm_init writable file) = MODEL_CONFIGS \<and>
    (file \<noteq> Absent \<longrightarrow> cm_file (cm_init writable file) = file)"
proof -
  have bad: "\<exists>e. load_entries entries prev = Inl e"
    if "\<exists>x \<in> set entries. \<exists>e. config_of_json (snd x) = Inl e" for entries prev
    using that by (induction entries prev rule: load_entries.induct) (auto split: sum.splits)
  from assms show ?thesis
  proof (elim disjE exE conjE)
    fix entries
    assume f: "file = Holds (JObj entries)" and b: "\<exists>x \<in> set entries. \<exists>e. config_of_json (snd x) = Inl e"
    from bad [OF b, of "[]"] show ?thesis by (auto simp: f cm_init_def load_configs_def)
  next
    fix data
    assume "file = Holds data" "\<forall>entries. data \<noteq> JObj entries"
    then show ?thesis by (cases data) (auto simp: cm_init_def load_configs_def)
  qed (auto simp: cm_init_def load_configs_def save_configs_def)
qed

theorem damaged_config_means_defaults_witness:
  "cm_configs (cm_init True (Holds (JObj [(''/v1/chat/gpt2'', JObj [(''model_id'', JStr ''gpt2'')])]))) = MODEL_CONFIGS"
proof -
  have "\<exists>e. config_of_json (JObj [(''model_id'', JStr ''gpt2'')]) = Inl e"
    by (simp add: config_of_json_def config_fields_def dict_eval)
  then show ?thesis
    using damaged_config_means_defaults [of "Holds (JObj [(''/v1/chat/gpt2'', JObj [(''model_id'', JStr ''gpt2'')])])" True]
    by auto
qed

end
