(* ===== verification/VmProfiles.thy ===== *)
theory VmProfiles
  imports Prelude
begin

text \<open>
  \<open>src/lib/cloud_vm/vm_config_aws.py\<close> and \<open>vm_config.py\<close>: the machine profiles of the two clouds, the
  profile of each model, and the lookups.
\<close>

section \<open>AWS\<close>

record aws_profile =
  ap_instance_type :: string
  ap_ami_name_pattern :: string
  ap_security_group_name :: string
  ap_iam_profile_name :: string
  ap_key_pair_name :: string
  ap_volume_size_gb :: int
  ap_min_cpu_cores :: int
  ap_gpu_count :: int
  ap_tags :: "(string \<times> string) list"

definition aws_profile_of :: "string \<Rightarrow> string \<Rightarrow> int \<Rightarrow> int \<Rightarrow> int \<Rightarrow> aws_profile" where
  "aws_profile_of instance_type ami_name_pattern volume_size_gb min_cpu_cores gpu_count =
     \<lparr>ap_instance_type = instance_type, ap_ami_name_pattern = ami_name_pattern,
      ap_security_group_name = ''scheduler-sg'', ap_iam_profile_name = ''EC2ModelServingRole'',
      ap_key_pair_name = ''my-gpu-vm'', ap_volume_size_gb = volume_size_gb,
      ap_min_cpu_cores = min_cpu_cores, ap_gpu_count = gpu_count,
      ap_tags = [(''Service'', ''ModelScheduler'')]\<rparr>"

definition aws_profiles :: "(string, aws_profile) dict" where
  "aws_profiles =
     [(''small'', aws_profile_of ''g5.xlarge''
         ''Deep Learning OSS Nvidia Driver AMI GPU PyTorch*Amazon Linux 2023*'' 100 4 1),
      (''a100'', aws_profile_of ''p3.2xlarge''
         ''Deep Learning OSS Nvidia Driver AMI GPU PyTorch*Amazon Linux 2023*'' 150 8 1),
      (''cpu-only'', aws_profile_of ''t3.large'' ''al2023-ami-2023.*-x86_64'' 50 2 0)]"

text \<open>\<open>MODEL_PROFILES\<close>.\<close>

definition model_profiles :: "(string, string) dict" where
  "model_profiles =
     [(''TinyLlama/TinyLlama-1.1B-Chat-v1.0'', ''small''), (''gpt2'', ''small''),
      (''facebook/opt-1.3b'', ''small''),
      (''meta-llama/Llama-2-7b-chat-hf'', ''medium''), (''tiiuae/falcon-7b-instruct'', ''medium''),
      (''mosaicml/mpt-7b-instruct'', ''medium''),
      (''meta-llama/Llama-2-13b-chat-hf'', ''a100''), (''tiiuae/falcon-40b-instruct'', ''a100''),
      (''mosaicml/mpt-30b-instruct'', ''a100'')]"

definition profile_name_of :: "string \<Rightarrow> string" where
  "profile_name_of model_id = (case dget model_profiles model_id of None \<Rightarrow> ''small'' | Some n \<Rightarrow> n)"

definition aws_get_vm_profile_for_model :: "string \<Rightarrow> aws_profile res" where
  "aws_get_vm_profile_for_model model_id =
     (case dget aws_profiles (profile_name_of model_id) of None \<Rightarrow> Inl KeyError | Some p \<Rightarrow> Inr p)"

section \<open>Google Cloud\<close>

datatype gpu_type = T4 | A100_40GB | A100_80GB

fun gpu_type_value :: "gpu_type \<Rightarrow> string" where
  "gpu_type_value T4 = ''nvidia-tesla-t4''"
| "gpu_type_value A100_40GB = ''nvidia-tesla-a100-40gb''"
| "gpu_type_value A100_80GB = ''nvidia-tesla-a100-80gb''"

text \<open>
  In a Python \<open>Enum\<close> a member with a value that is already taken is an alias: the three \<open>_GPU\<close> names
  of \<open>MachineType\<close> are the members without the suffix.
\<close>

datatype machine_type =
    N1_STANDARD_4 | N1_STANDARD_8 | N1_STANDARD_16 | A2_HIGHGPU_1G | A2_HIGHGPU_2G | A2_HIGHGPU_4G

fun machine_type_value :: "machine_type \<Rightarrow> string" where
  "machine_type_value N1_STANDARD_4 = ''n1-standard-4''"
| "machine_type_value N1_STANDARD_8 = ''n1-standard-8''"
| "machine_type_value N1_STANDARD_16 = ''n1-standard-16''"
| "machine_type_value A2_HIGHGPU_1G = ''a2-highgpu-1g''"
| "machine_type_value A2_HIGHGPU_2G = ''a2-highgpu-2g''"
| "machine_type_value A2_HIGHGPU_4G = ''a2-highgpu-4g''"

record gcp_profile =
  gp_name :: string
  gp_machine_type :: machine_type
  gp_gpu_type :: "gpu_type option"
  gp_gpu_count :: int
  gp_min_cpu_cores :: int
  gp_min_memory_gb :: int
  gp_volume_size_gb :: int
  gp_image_family :: string
  gp_image_project :: string
  gp_startup_script_path :: string
  gp_description :: string
  gp_maintenance_policy :: string
  gp_tags :: "string list"

definition gcp_profile_of ::
  "string \<Rightarrow> machine_type \<Rightarrow> gpu_type option \<Rightarrow> int \<Rightarrow> int \<Rightarrow> int \<Rightarrow> int \<Rightarrow> string \<Rightarrow> string \<Rightarrow> gcp_profile" where
  "gcp_profile_of name machine_type gpu_type gpu_count cores memory volume image_family description =
     \<lparr>gp_name = name, gp_machine_type = machine_type, gp_gpu_type = gpu_type, gp_gpu_count = gpu_count,
      gp_min_cpu_cores = cores, gp_min_memory_gb = memory, gp_volume_size_gb = volume,
      gp_image_family = image_family, gp_image_project = ''deeplearning-platform-release'',
      gp_startup_script_path = ''/opt/model-serving-system/startup_script.sh'', gp_description = description,
      gp_maintenance_policy = ''TERMINATE'', gp_tags = [''scheduler'', ''http-server'', ''https-server'']\<rparr>"

definition gcp_profiles :: "(string, gcp_profile) dict" where
  "gcp_profiles =
     [(''small'', gcp_profile_of ''small'' N1_STANDARD_4 (Some T4) 1 4 15 100
         ''pytorch-latest-gpu-debian-11'' ''For small models like TinyLlama, GPT-2''),
      (''large'', gcp_profile_of ''large'' A2_HIGHGPU_1G (Some A100_40GB) 1 12 85 150
         ''pytorch-latest-gpu-debian-11'' ''For large models like Llama-13B, Falcon-40B''),
      (''a100'', gcp_profile_of ''a100'' A2_HIGHGPU_1G (Some A100_80GB) 1 12 85 150
         ''pytorch-latest-gpu-debian-11'' ''For large models requiring A100 GPU''),
      (''cpu-only'', gcp_profile_of ''cpu-only'' N1_STANDARD_4 None 0 4 15 50
         ''pytorch-latest-cpu-debian-11'' ''For CPU-only tasks or very small models'')]"

definition gcp_model_profiles :: "(string, string) dict" where
  "gcp_model_profiles =
     [(''TinyLlama/TinyLlama-1.1B-Chat-v1.0'', ''small''), (''gpt2'', ''small''),
      (''facebook/opt-1.3b'', ''small''),
      (''meta-llama/Llama-2-7b-chat-hf'', ''medium''), (''tiiuae/falcon-7b-instruct'', ''medium''),
      (''mosaicml/mpt-7b-instruct'', ''medium''),
      (''meta-llama/Llama-2-13b-chat-hf'', ''a100''), (''tiiuae/falcon-40b-instruct'', ''a100''),
      (''mosaicml/mpt-30b-instruct'', ''a100'')]"

lemma gcp_model_profiles_same: "gcp_model_profiles = model_profiles"
  by (simp add: gcp_model_profiles_def model_profiles_def)

definition gcp_profile_name_of :: "string \<Rightarrow> string" where
  "gcp_profile_name_of model_id = (case dget gcp_model_profiles model_id of None \<Rightarrow> ''small'' | Some n \<Rightarrow> n)"

lemma gcp_profile_name_same: "gcp_profile_name_of = profile_name_of"
  by (simp add: fun_eq_iff gcp_profile_name_of_def profile_name_of_def gcp_model_profiles_same)

definition gcp_get_vm_profile_for_model :: "string \<Rightarrow> gcp_profile res" where
  "gcp_get_vm_profile_for_model model_id =
     (case dget gcp_profiles (gcp_profile_name_of model_id) of None \<Rightarrow> Inl KeyError | Some p \<Rightarrow> Inr p)"

definition get_vm_profile :: "string \<Rightarrow> gcp_profile res" where
  "get_vm_profile profile_name =
     (case dget gcp_profiles profile_name of
        None \<Rightarrow> Inl (ValueError (''Unknown VM profile: '' @ profile_name)) | Some p \<Rightarrow> Inr p)"

definition list_available_profiles :: "(string, string) dict" where
  "list_available_profiles = map (\<lambda>(name, profile). (name, gp_description profile)) gcp_profiles"

definition list_model_profiles :: "(string, string) dict" where
  "list_model_profiles = gcp_model_profiles"

section \<open>Pieces of the boot scripts\<close>

definition newline :: string where "newline = [CHR 0x0A]"

definition quoted :: "string \<Rightarrow> string" where "quoted s = [CHR 0x22] @ s @ [CHR 0x22]"

definition continued :: "string \<Rightarrow> string" where "continued s = s @ '' '' @ [CHR 0x5C] @ newline"

text \<open>The environment of the container, in the order of the script.\<close>

definition container_env :: "int \<Rightarrow> string \<Rightarrow> string \<Rightarrow> int \<Rightarrow> int \<Rightarrow> (string \<times> string) list" where
  "container_env scheduler_id head_address head_port num_cpus num_gpus =
     [(''SCHEDULER_ID'', int_text scheduler_id), (''HEAD_HOST'', head_address), (''HEAD_PORT'', head_port),
      (''NUM_CPUS'', int_text num_cpus), (''NUM_GPUS'', int_text num_gpus)]"

section \<open>Properties\<close>

text \<open>
  Exactly the medium models have no machine.  On both clouds the lookup of a model's profile
  raises \<open>KeyError\<close> for the three models mapped to \<open>medium\<close>, a profile neither table has, and for
  these only; a model that is not listed gets the profile \<open>small\<close>.
\<close>

theorem medium_models_have_no_profile:
  "(aws_get_vm_profile_for_model m = Inl KeyError) = (dget model_profiles m = Some ''medium'') \<and>
   (gcp_get_vm_profile_for_model m = Inl KeyError) = (dget model_profiles m = Some ''medium'') \<and>
   (dget model_profiles m = Some ''medium'') =
     (m \<in> {''meta-llama/Llama-2-7b-chat-hf'', ''tiiuae/falcon-7b-instruct'', ''mosaicml/mpt-7b-instruct''})"
proof -
  have aws: "(case dget aws_profiles n of None \<Rightarrow> Inl KeyError | Some p \<Rightarrow> Inr p) = Inl KeyError \<longleftrightarrow>
      n \<notin> {''small'', ''a100'', ''cpu-only''}" for n
    by (auto simp: aws_profiles_def dget_Cons)
  have gcp: "(case dget gcp_profiles n of None \<Rightarrow> Inl KeyError | Some p \<Rightarrow> Inr p) = Inl KeyError \<longleftrightarrow>
      n \<notin> {''small'', ''large'', ''a100'', ''cpu-only''}" for n
    by (auto simp: gcp_profiles_def dget_Cons)
  have med: "(dget model_profiles m = Some ''medium'') =
     (m \<in> {''meta-llama/Llama-2-7b-chat-hf'', ''tiiuae/falcon-7b-instruct'', ''mosaicml/mpt-7b-instruct''})"
    by (auto simp: model_profiles_def dget_Cons)
  have n: "profile_name_of m \<in> {''small'', ''a100'', ''medium''}"
    and nm: "profile_name_of m = ''medium'' \<longleftrightarrow> dget model_profiles m = Some ''medium''"
    by (auto simp: profile_name_of_def model_profiles_def dget_Cons)
  have "profile_name_of m \<notin> {''small'', ''a100'', ''cpu-only''} \<longleftrightarrow> profile_name_of m = ''medium''"
    "profile_name_of m \<notin> {''small'', ''large'', ''a100'', ''cpu-only''} \<longleftrightarrow> profile_name_of m = ''medium''"
    using n by (elim insertE emptyE, simp_all)+
  then show ?thesis
    unfolding aws_get_vm_profile_for_model_def gcp_get_vm_profile_for_model_def gcp_profile_name_same aws gcp nm med [symmetric]
    by simp
qed

end
