(* ===== verification/AwsVm.thy ===== *)
theory AwsVm
  imports VmProfiles "HOL-Library.List_Lexorder" "HOL-Library.Char_ord"
begin

text \<open>
  \<open>src/lib/cloud_vm/aws_vm_manager.py\<close>: creating and terminating the EC2 instances of the workers.

  The EC2 client is a record of calls on a state of the cloud, each of which may raise.
  \<open>CloudError\<close> stands for \<open>ClientError\<close>, \<open>WaitError\<close> for \<open>WaiterError\<close>; any other exception leaves
  \<open>create_vm\<close>.  A call that waits returns when the waiter does.
\<close>

record ami_image =
  im_creation_date :: string
  im_image_id :: string

record launch =
  la_image_id :: string
  la_instance_type :: string
  la_key_name :: string
  la_user_data :: string
  la_iam_profile :: string
  la_security_group_ids :: "string list"
  la_volume_size :: int
  la_tags :: "(string \<times> string) list"

record instance_details =
  id_instance_id :: string
  id_public_ip :: "string option"

record 's ec2_client =
  ec_describe_security_groups :: "string \<Rightarrow> 's \<Rightarrow> string list res \<times> 's"
  ec_describe_images :: "string \<Rightarrow> 's \<Rightarrow> ami_image list res \<times> 's"
  ec_run_instances :: "launch \<Rightarrow> 's \<Rightarrow> string res \<times> 's"
  ec_wait_running :: "string \<Rightarrow> 's \<Rightarrow> unit res \<times> 's"
  ec_describe_instance :: "string \<Rightarrow> 's \<Rightarrow> instance_details res \<times> 's"
  ec_terminate_instances :: "string \<Rightarrow> 's \<Rightarrow> unit res \<times> 's"
  ec_wait_terminated :: "string \<Rightarrow> 's \<Rightarrow> unit res \<times> 's"

record aws_manager =
  aw_region_name :: string
  aw_cache :: "(string, instance_details) dict"

fun is_client_error :: "exn \<Rightarrow> bool" where
  "is_client_error (CloudError m) = True"
| "is_client_error e = False"

fun is_create_error :: "exn \<Rightarrow> bool" where
  "is_create_error (CloudError m) = True"
| "is_create_error (WaitError m) = True"
| "is_create_error e = False"

section \<open>Finding the resources\<close>

definition find_security_group_id_by_name ::
  "'s ec2_client \<Rightarrow> string \<Rightarrow> 's \<Rightarrow> string option res \<times> 's" where
  "find_security_group_id_by_name ec sg_name s =
     (case ec_describe_security_groups ec sg_name s of
        (Inl e, s') \<Rightarrow> (if is_client_error e then Inr None else Inl e, s')
      | (Inr groups, s') \<Rightarrow> (Inr (case groups of [] \<Rightarrow> None | g # gs \<Rightarrow> Some g), s'))"

text \<open>
  \<open>sorted(images, key=lambda x: x['CreationDate'], reverse=True)\<close>: texts are ordered by their characters,
  and images of the same date keep their order, which sorting the reversed list and reversing it does.
\<close>

definition sorted_latest_first :: "ami_image list \<Rightarrow> ami_image list" where
  "sorted_latest_first images = rev (sort_key im_creation_date (rev images))"

definition find_latest_ami_id_by_name ::
  "'s ec2_client \<Rightarrow> string \<Rightarrow> 's \<Rightarrow> string option res \<times> 's" where
  "find_latest_ami_id_by_name ec name_pattern s =
     (case ec_describe_images ec name_pattern s of
        (Inl e, s') \<Rightarrow> (if is_client_error e then Inr None else Inl e, s')
      | (Inr images, s') \<Rightarrow>
          (Inr (case sorted_latest_first images of [] \<Rightarrow> None | latest_image # older \<Rightarrow> Some (im_image_id latest_image)), s'))"

lemma sorted_latest_nil [simp]: "sorted_latest_first images = [] \<longleftrightarrow> images = []"
  unfolding sorted_latest_first_def by (metis length_0_conv length_rev length_sort)

text \<open>The image found is the one listed first among those with the latest date.\<close>

lemma latest_is_newest:
  assumes "sorted_latest_first images = x # older" and "y \<in> set images"
  shows "x \<in> set images" and "im_creation_date y \<le> im_creation_date x"
    and "[z \<leftarrow> images. im_creation_date z = im_creation_date x] ! 0 = x"
proof -
  let ?s = "sort_key im_creation_date (rev images)"
  have sx: "?s = rev older @ [x]" using assms(1) by (metis rev.simps(2) rev_rev_ident sorted_latest_first_def)
  have "set images = set ?s" by simp
  then have m: "set images = set older \<union> {x}" unfolding sx by auto
  then show "x \<in> set images" by simp
  have "sorted (map im_creation_date (rev older @ [x]))" using sx by (metis sorted_sort_key)
  with m assms(2) show "im_creation_date y \<le> im_creation_date x" by (auto simp: sorted_append)
  have "[z \<leftarrow> ?s. im_creation_date z = im_creation_date x] = [z \<leftarrow> rev images. im_creation_date z = im_creation_date x]"
    by (rule sort_key_stable)
  then have "rev [z \<leftarrow> images. im_creation_date z = im_creation_date x] =
      rev (x # [z \<leftarrow> older. im_creation_date z = im_creation_date x])"
    unfolding sx by (simp add: rev_filter)
  then have "[z \<leftarrow> images. im_creation_date z = im_creation_date x] =
      x # [z \<leftarrow> older. im_creation_date z = im_creation_date x]" unfolding rev_is_rev_conv .
  then show "[z \<leftarrow> images. im_creation_date z = im_creation_date x] ! 0 = x" by simp
qed

section \<open>The user data script\<close>

definition scheduler_image :: string where
  "scheduler_image = ''768245436582.dkr.ecr.us-east-1.amazonaws.com/model-serving-scheduler:v1''"

definition generate_user_data_script ::
  "string \<Rightarrow> int \<Rightarrow> string \<Rightarrow> string \<Rightarrow> int \<Rightarrow> int \<Rightarrow> string" where
  "generate_user_data_script region scheduler_id head_address head_port num_cpus num_gpus =
     (let container_name = ''model-serving-scheduler-'' @ int_text scheduler_id;
          registry = takeWhile (\<lambda>c. c \<noteq> CHR ''/'') scheduler_image
      in concat (map (\<lambda>l. l @ newline)
           [''#!/bin/bash'', ''set -e'', ''# Log to a file and to the console'',
            ''exec > /var/log/userdata.log 2>&1'', [], [],
            ''echo '' @ quoted ''User data script started.'',
            ''sudo yum update -y'', ''sudo yum install -y docker'', ''sudo systemctl start docker'',
            ''sudo systemctl enable docker'', ''echo '' @ quoted ''Docker installed'',
            ''# 1) Authenticate Docker to AWS Elastic Container Registry (ECR).'',
            ''echo '' @ quoted (''Configuring Docker authentication for AWS ECR in region '' @ region @ ''...''),
            ''aws ecr get-login-password --region '' @ region @
              '' | sudo docker login --username AWS --password-stdin '' @ registry, [],
            ''# 2) Pull the latest version of the scheduler container.'',
            ''echo '' @ quoted (''Pulling scheduler image: '' @ scheduler_image),
            ''sudo docker pull '' @ scheduler_image, [],
            ''# 3) Clean up any old running instances of this container.'',
            ''echo '' @ quoted (''Cleaning up any existing containers named '' @ container_name @ ''...''),
            ''sudo docker stop '' @ container_name @ '' >/dev/null 2>&1 || true'',
            ''sudo docker rm '' @ container_name @ '' >/dev/null 2>&1 || true'', [],
            ''# 4) Run the new container.'',
            ''echo '' @ quoted (''Starting new container: '' @ container_name)]) @
         ''sudo docker run -d --gpus all --network host --name '' @ container_name @ ''   '' @
         concat (map (\<lambda>(k, v). ''-e '' @ k @ ''='' @ quoted v @ ''   '')
           (container_env scheduler_id head_address head_port num_cpus num_gpus)) @
         scheduler_image @ '' || echo '' @ quoted ''docker run failed'' @ newline @ '' '' @ newline @
         ''echo '' @ quoted ''User data script finished successfully.'' @ newline)"

section \<open>Terminating\<close>

text \<open>\<open>_find_instance_by_name\<close> has the body \<open>pass\<close>.\<close>

definition find_instance_by_name :: "string \<Rightarrow> instance_details option" where
  "find_instance_by_name name = None"

definition aws_delete_vm ::
  "'s ec2_client \<Rightarrow> string \<Rightarrow> string option \<Rightarrow> aws_manager \<Rightarrow> 's \<Rightarrow> bool res \<times> aws_manager \<times> 's" where
  "aws_delete_vm ec name instance_id mg s =
     (let target = (case instance_id of
          Some i \<Rightarrow> if i = [] then map_option id_instance_id (find_instance_by_name name) else Some i
        | None \<Rightarrow> map_option id_instance_id (find_instance_by_name name))
      in case target of
           None \<Rightarrow> (Inr True, mg, s)
         | Some i \<Rightarrow>
             (case ec_terminate_instances ec i s of
                (Inl e, s1) \<Rightarrow> (if is_client_error e then Inr False else Inl e, mg, s1)
              | (Inr u, s1) \<Rightarrow>
                  (case ec_wait_terminated ec i s1 of
                     (Inl e, s2) \<Rightarrow> (if is_client_error e then Inr False else Inl e, mg, s2)
                   | (Inr u', s2) \<Rightarrow> (Inr True, mg\<lparr>aw_cache := ddel name (aw_cache mg)\<rparr>, s2))))"

section \<open>Creating\<close>

text \<open>
  The \<open>except\<close> branch: an error of the client or of a waiter, after the instance identifier was
  assigned or before.  What \<open>delete_vm\<close> raises leaves \<open>create_vm\<close>.
\<close>

definition create_failed_branch ::
  "'s ec2_client \<Rightarrow> string \<Rightarrow> string option \<Rightarrow> exn \<Rightarrow> aws_manager \<Rightarrow> 's \<Rightarrow> string option res \<times> aws_manager \<times> 's" where
  "create_failed_branch ec name instance_id e mg s =
     (if \<not> is_create_error e then (Inl e, mg, s)
      else case instance_id of
        None \<Rightarrow> (Inr None, mg, s)
      | Some i \<Rightarrow>
          (case aws_delete_vm ec name (Some i) mg s of
             (Inl e', mg', s') \<Rightarrow> (Inl e', mg', s')
           | (Inr b, mg', s') \<Rightarrow> (Inr None, mg', s')))"

definition launch_request ::
  "aws_profile \<Rightarrow> string \<Rightarrow> string \<Rightarrow> string \<Rightarrow> string \<Rightarrow> launch" where
  "launch_request profile ami_id security_group_id user_data name =
     \<lparr>la_image_id = ami_id, la_instance_type = ap_instance_type profile, la_key_name = ap_key_pair_name profile,
      la_user_data = user_data, la_iam_profile = ap_iam_profile_name profile,
      la_security_group_ids = [security_group_id], la_volume_size = ap_volume_size_gb profile,
      la_tags = (''Name'', name) # ap_tags profile\<rparr>"

definition launch_vm ::
  "'s ec2_client \<Rightarrow> string \<Rightarrow> launch \<Rightarrow> aws_manager \<Rightarrow> 's \<Rightarrow> string option res \<times> aws_manager \<times> 's" where
  "launch_vm ec name request mg s =
     (case ec_run_instances ec request s of
        (Inl e, s1) \<Rightarrow> create_failed_branch ec name None e mg s1
      | (Inr i, s1) \<Rightarrow>
          (case ec_wait_running ec i s1 of
             (Inl e, s2) \<Rightarrow> create_failed_branch ec name (Some i) e mg s2
           | (Inr u, s2) \<Rightarrow>
               (case ec_describe_instance ec i s2 of
                  (Inl e, s3) \<Rightarrow> create_failed_branch ec name (Some i) e mg s3
                | (Inr details, s3) \<Rightarrow>
                    (Inr (id_public_ip details), mg\<lparr>aw_cache := dset name details (aw_cache mg)\<rparr>, s3))))"

definition aws_create_vm ::
  "'s ec2_client \<Rightarrow> int \<Rightarrow> string \<Rightarrow> string \<Rightarrow> string \<Rightarrow> string \<Rightarrow> aws_manager \<Rightarrow> 's \<Rightarrow>
   string option res \<times> aws_manager \<times> 's" where
  "aws_create_vm ec scheduler_id name model_id head_address head_port mg s =
     (case aws_get_vm_profile_for_model model_id of
        Inl e \<Rightarrow> (Inl e, mg, s)
      | Inr profile \<Rightarrow>
          (case find_security_group_id_by_name ec (ap_security_group_name profile) s of
             (Inl e, s1) \<Rightarrow> (Inl e, mg, s1)
           | (Inr security_group_id, s1) \<Rightarrow>
               (case find_latest_ami_id_by_name ec (ap_ami_name_pattern profile) s1 of
                  (Inl e, s2) \<Rightarrow> (Inl e, mg, s2)
                | (Inr ami_id, s2) \<Rightarrow>
                    (case (security_group_id, ami_id) of
                       (Some sg, Some ami) \<Rightarrow>
                         if sg = [] \<or> ami = [] then (Inr None, mg, s2)
                         else launch_vm ec name
                           (launch_request profile ami sg
                             (generate_user_data_script (aw_region_name mg) scheduler_id head_address head_port
                               (ap_min_cpu_cores profile) (ap_gpu_count profile)) name) mg s2
                     | _ \<Rightarrow> (Inr None, mg, s2)))))"

section \<open>A cloud that counts instances\<close>

text \<open>
  The documented behaviour of the service, for an instance identifier: \<open>run_instances\<close> that returns an
  identifier has started this instance and one that raises has started none; \<open>terminate_instances\<close> that
  returns has ended it; no other call starts or ends one.  \<open>live\<close> is the set of running instances.
\<close>

definition ec2_behaves :: "'s ec2_client \<Rightarrow> ('s \<Rightarrow> string set) \<Rightarrow> bool" where
  "ec2_behaves ec alive \<longleftrightarrow>
     (\<forall>g s. alive (snd (ec_describe_security_groups ec g s)) = alive s) \<and>
     (\<forall>g s. alive (snd (ec_describe_images ec g s)) = alive s) \<and>
     (\<forall>r s s' i. ec_run_instances ec r s = (Inr i, s') \<longrightarrow> i \<noteq> [] \<and> i \<notin> alive s \<and> alive s' = insert i (alive s)) \<and>
     (\<forall>r s s' e. ec_run_instances ec r s = (Inl e, s') \<longrightarrow> alive s' = alive s) \<and>
     (\<forall>i s. alive (snd (ec_wait_running ec i s)) = alive s) \<and>
     (\<forall>i s. alive (snd (ec_describe_instance ec i s)) = alive s) \<and>
     (\<forall>i s s' u. ec_terminate_instances ec i s = (Inr u, s') \<longrightarrow> alive s' = alive s - {i}) \<and>
     (\<forall>i s s' e. ec_terminate_instances ec i s = (Inl e, s') \<longrightarrow> alive s' = alive s) \<and>
     (\<forall>i s. alive (snd (ec_wait_terminated ec i s)) = alive s)"

lemma ec2_laws:
  assumes "ec2_behaves ec alive"
  shows "ec_describe_security_groups ec g s = (r1, s') \<Longrightarrow> alive s' = alive s"
    and "ec_describe_images ec g s = (r2, s') \<Longrightarrow> alive s' = alive s"
    and "ec_run_instances ec q s = (Inr i, s') \<Longrightarrow> i \<noteq> [] \<and> i \<notin> alive s \<and> alive s' = insert i (alive s)"
    and "ec_run_instances ec q s = (Inl e, s') \<Longrightarrow> alive s' = alive s"
    and "ec_wait_running ec i s = (r3, s') \<Longrightarrow> alive s' = alive s"
    and "ec_describe_instance ec i s = (r4, s') \<Longrightarrow> alive s' = alive s"
    and "ec_terminate_instances ec i s = (Inr u, s') \<Longrightarrow> alive s' = alive s - {i}"
    and "ec_terminate_instances ec i s = (Inl e, s') \<Longrightarrow> alive s' = alive s"
    and "ec_wait_terminated ec i s = (r5, s') \<Longrightarrow> alive s' = alive s"
  using assms unfolding ec2_behaves_def by (metis snd_conv)+

section \<open>No instance is left behind\<close>

text \<open>
  How the instances that run changed, given the result: nothing, or one more that is in the cache.
\<close>

definition accounted ::
  "string \<Rightarrow> string option res \<Rightarrow> aws_manager \<Rightarrow> string set \<Rightarrow> string set \<Rightarrow> bool" where
  "accounted name r mg before after \<longleftrightarrow> (\<forall>ip. r = Inr ip \<longrightarrow>
     (ip = None \<and> after = before) \<or>
     (\<exists>i d. i \<notin> before \<and> after = insert i before \<and> dget (aw_cache mg) name = Some d \<and> id_public_ip d = ip))"

lemma failed_branch_accounted:
  assumes ec: "ec2_behaves ec alive" and kills: "\<And>i s. \<exists>s'. ec_terminate_instances ec i s = (Inr (), s')"
    and i: "i \<noteq> []" "i \<notin> before" "alive s = insert i before"
    and b: "create_failed_branch ec name (Some i) e mg s = (r, mg', s')"
  shows "accounted name r mg' before (alive s')"
proof (cases "is_create_error e")
  case True
  obtain x mg1 s1 where d: "aws_delete_vm ec name (Some i) mg s = (x, mg1, s1)"
    by (cases "aws_delete_vm ec name (Some i) mg s")
  have "alive s1 = alive s - {i}"
  proof -
    obtain s2 where t: "ec_terminate_instances ec i s = (Inr (), s2)" using kills by blast
    obtain y s3 where w: "ec_wait_terminated ec i s2 = (y, s3)" by (cases "ec_wait_terminated ec i s2")
    have "s1 = s3" using d t w i(1) by (cases y) (auto simp: aws_delete_vm_def Let_def split: if_splits)
    then show ?thesis using ec2_laws(7) [OF ec t] ec2_laws(9) [OF ec w] by simp
  qed
  then have "alive s1 = before" using i by auto
  with True b d show ?thesis by (cases x) (auto simp: create_failed_branch_def accounted_def)
qed (use b in \<open>auto simp: create_failed_branch_def accounted_def\<close>)

lemma launch_accounted:
  assumes ec: "ec2_behaves ec alive" and kills: "\<And>i s. \<exists>s'. ec_terminate_instances ec i s = (Inr (), s')"
    and l: "launch_vm ec name request mg s = (r, mg', s')"
  shows "accounted name r mg' (alive s) (alive s')"
proof -
  obtain x s1 where run: "ec_run_instances ec request s = (x, s1)" by (cases "ec_run_instances ec request s")
  show ?thesis
  proof (cases x)
    case (Inl e)
    then show ?thesis using l run ec2_laws(4) [OF ec, of request s e s1]
      by (auto simp: launch_vm_def create_failed_branch_def accounted_def split: if_splits)
  next
    case (Inr i)
    have i: "i \<noteq> []" "i \<notin> alive s" "alive s1 = insert i (alive s)"
      using ec2_laws(3) [OF ec, of request s i s1] run Inr by simp_all
    obtain y s2 where w: "ec_wait_running ec i s1 = (y, s2)" by (cases "ec_wait_running ec i s1")
    have a2: "alive s2 = insert i (alive s)" using ec2_laws(5) [OF ec w] i(3) by simp
    show ?thesis
    proof (cases y)
      case (Inl e)
      then show ?thesis using l run Inr w failed_branch_accounted [OF ec kills i(1,2) a2]
        by (auto simp: launch_vm_def)
    next
      case (Inr u)
      obtain z s3 where g: "ec_describe_instance ec i s2 = (z, s3)" by (cases "ec_describe_instance ec i s2")
      have a3: "alive s3 = insert i (alive s)" using ec2_laws(6) [OF ec g] a2 by simp
      show ?thesis
      proof (cases z)
        case (Inl e)
        then show ?thesis using l run \<open>x = Inr i\<close> w Inr g failed_branch_accounted [OF ec kills i(1,2) a3]
          by (auto simp: launch_vm_def)
      next
        case (Inr details)
        then show ?thesis using l run \<open>x = Inr i\<close> w \<open>y = Inr u\<close> g i(2) a3
          by (auto simp: launch_vm_def accounted_def)
      qed
    qed
  qed
qed

section \<open>Properties\<close>

text \<open>
  C36. \<open>create_vm\<close> leaves no instance behind.  For an EC2 service that behaves as documented and whose
  terminations succeed, whenever \<open>create_vm\<close> returns - an address or \<open>None\<close>, whichever call failed on
  the way - either no instance was added, or exactly one was and the manager's cache knows it under
  the name, with the address that was returned.
\<close>

theorem create_vm_leaves_no_orphan:
  assumes "ec2_behaves ec alive" and "\<And>i s. \<exists>s'. ec_terminate_instances ec i s = (Inr (), s')"
    and "aws_create_vm ec scheduler_id name model_id head_address head_port mg s = (Inr ip, mg', s')"
  shows "(ip = None \<and> alive s' = alive s) \<or>
    (\<exists>i d. i \<notin> alive s \<and> alive s' = insert i (alive s) \<and> dget (aw_cache mg') name = Some d \<and> id_public_ip d = ip)"
proof -
  obtain profile where pr: "aws_get_vm_profile_for_model model_id = Inr profile"
    using assms(3) by (cases "aws_get_vm_profile_for_model model_id") (auto simp: aws_create_vm_def)
  obtain sg s1 where g: "find_security_group_id_by_name ec (ap_security_group_name profile) s = (sg, s1)"
    by (cases "find_security_group_id_by_name ec (ap_security_group_name profile) s")
  have a1: "alive s1 = alive s"
    using g ec2_laws(1) [OF assms(1), of "ap_security_group_name profile" s]
    by (auto simp: find_security_group_id_by_name_def split: prod.splits sum.splits)
  obtain ami s2 where m: "find_latest_ami_id_by_name ec (ap_ami_name_pattern profile) s1 = (ami, s2)"
    by (cases "find_latest_ami_id_by_name ec (ap_ami_name_pattern profile) s1")
  have a2: "alive s2 = alive s"
    using m a1 ec2_laws(2) [OF assms(1), of "ap_ami_name_pattern profile" s1]
    by (auto simp: find_latest_ami_id_by_name_def split: prod.splits sum.splits)
  have "accounted name (Inr ip) mg' (alive s2) (alive s')"
    using assms(3) pr g m launch_accounted [OF assms(1,2)]
    by (auto simp: aws_create_vm_def accounted_def split: sum.splits option.splits if_splits)
  then show ?thesis by (simp add: accounted_def a2)
qed

text \<open>A cloud that counts: the state is the number of instances started and the set that runs.\<close>

definition tiny_ec2 :: "(nat \<times> string set) ec2_client" where
  "tiny_ec2 = \<lparr>ec_describe_security_groups = (\<lambda>g s. (Inr [''sg-1''], s)),
     ec_describe_images = (\<lambda>g s. (Inr [\<lparr>im_creation_date = ''2025'', im_image_id = ''ami-1''\<rparr>], s)),
     ec_run_instances = (\<lambda>r (n, rs). if CHR ''i'' # int_text (int n) \<in> rs then (Inl (CloudError ''busy''), (n, rs))
       else (Inr (CHR ''i'' # int_text (int n)), (Suc n, insert (CHR ''i'' # int_text (int n)) rs))),
     ec_wait_running = (\<lambda>i s. (Inl (WaitError ''timeout''), s)),
     ec_describe_instance = (\<lambda>i s. (Inr \<lparr>id_instance_id = i, id_public_ip = None\<rparr>, s)),
     ec_terminate_instances = (\<lambda>i (n, rs). (Inr (), (n, rs - {i}))),
     ec_wait_terminated = (\<lambda>i s. (Inr (), s))\<rparr>"

lemma tiny_ec2_behaves: "ec2_behaves tiny_ec2 snd"
  by (simp add: ec2_behaves_def tiny_ec2_def split: prod.splits)

theorem create_vm_leaves_no_orphan_witness:
  "snd (snd (snd (aws_create_vm tiny_ec2 1 ''scheduler-1'' ''small'' ''10.0.0.100'' ''50052''
     \<lparr>aw_region_name = ''us-east-1'', aw_cache = []\<rparr> (0, {})))) = {}"
proof -
  have p: "aws_get_vm_profile_for_model ''small'' = Inr (aws_profile_of ''g5.xlarge''
      ''Deep Learning OSS Nvidia Driver AMI GPU PyTorch*Amazon Linux 2023*'' 100 4 1)"
    by (simp add: aws_get_vm_profile_for_model_def profile_name_of_def model_profiles_def aws_profiles_def dict_eval)
  obtain mg' s' where r: "aws_create_vm tiny_ec2 1 ''scheduler-1'' ''small'' ''10.0.0.100'' ''50052''
      \<lparr>aw_region_name = ''us-east-1'', aw_cache = []\<rparr> (0, {}) = (Inr None, mg', s')" and c: "aw_cache mg' = []"
    by (simp add: aws_create_vm_def p find_security_group_id_by_name_def find_latest_ami_id_by_name_def
        sorted_latest_first_def launch_vm_def create_failed_branch_def aws_delete_vm_def tiny_ec2_def Let_def dict_eval)
  have "\<And>i s. \<exists>s'. ec_terminate_instances tiny_ec2 i s = (Inr (), s')"
    by (simp add: tiny_ec2_def split: prod.splits)
  from create_vm_leaves_no_orphan [OF tiny_ec2_behaves this r] c r show ?thesis by auto
qed

end
