(* ===== verification/EndToEnd.thy ===== *)
theory EndToEnd
  imports ClusterProps ProxyProps ReplicaEngine ModelConfig AwsVm
begin

text \<open>
  Where the parts of the program meet: the head's published table in the handles of a proxy that applies
  it, and the head's handlers as the stub of a scheduler that registers.
\<close>

section \<open>The head's table at the proxy\<close>

definition routed_info :: "replica_info \<Rightarrow> routed_replica" where
  "routed_info info = \<lparr>rt_replica_id = ri_replica_num info, rt_replica_address = ri_address info, rt_state = ri_state info\<rparr>"

lemma table_entry:
  assumes "routes dm d = Some (name, version, infos)"
  shows "\<exists>dep. (d, dep) \<in> set (table_of dm) \<and> dp_deployment_name dep = name \<and> map routed (dp_replicas dep) = map routed_info infos"
proof -
  obtain dep where dep: "dget (dm_deployments dm) d = Some dep" "dh_name dep = name"
    "infos = map (\<lambda>a. dm_objs dm ! a) (dh_replicas dep)"
    using assms by (auto simp: routes_def)
  then have "(d, deployment_to_msg (dm_objs dm) d dep) \<in> set (table_of dm)"
    using dget_mem [OF dep(1)] by (force simp: table_of_def get_current_routing_table_def)
  with dep show ?thesis
    by (intro exI [of _ "deployment_to_msg (dm_objs dm) d dep"])
      (simp add: deployment_to_msg_def routed_def routed_info_def replica_to_msg_def)
qed

lemma table_names: "map (\<lambda>x. dp_deployment_name (snd x)) (table_of dm) = map snd (dep_names dm)"
  by (simp add: table_of_def get_current_routing_table_def dep_names_def deployment_to_msg_def case_prod_unfold)

text \<open>The names of the head's deployments.\<close>

definition routed_names :: "dep_manager \<Rightarrow> string set" where
  "routed_names dm = {name. \<exists>d version infos. routes dm d = Some (name, version, infos)}"

lemma table_known:
  assumes "dm_shape dm" and "x \<in> set (table_of dm)"
  shows "dp_deployment_name (snd x) \<in> routed_names dm"
proof -
  obtain d dep where d: "(d, dep) \<in> set (dm_deployments dm)" "snd x = deployment_to_msg (dm_objs dm) d dep"
    using assms(2) by (auto simp: table_of_def get_current_routing_table_def)
  have "dget (dm_deployments dm) d = Some dep" by (rule mem_dget [OF shape_dicts(1) [OF assms(1)] d(1)])
  then show ?thesis by (auto simp: routed_names_def routes_def d(2) deployment_to_msg_def)
qed

lemma table_update_ok:
  assumes "dm_shape dm" and "static_ok dm" and "ru_deployments u = table_of dm"
  shows "update_ok u"
proof -
  have "CHR ''#'' \<in> set (rm_replica_id r) \<and> rm_address r \<noteq> []"
    if d: "(d, dep) \<in> set (table_of dm)" and r: "r \<in> set (dp_replicas dep)" for d dep r
  proof -
    obtain dep0 a where a: "(d, dep0) \<in> set (dm_deployments dm)" "a \<in> set (dh_replicas dep0)"
      "r = replica_to_msg (dm_objs dm ! a)"
      using d r by (auto simp: table_of_def get_current_routing_table_def deployment_to_msg_def)
    then have "live dm d a" using mem_dget [OF shape_dicts(1) [OF assms(1)]] by (auto simp: live_def)
    then have "a < length (dm_objs dm)" by (rule shape_live_bound [OF assms(1)])
    with assms(2) a(3) show ?thesis by (auto simp: static_ok_def replica_to_msg_def)
  qed
  then show ?thesis using assms(3) by (auto simp: update_ok_def)
qed

text \<open>The names the head can route.\<close>

lemma deployment_names:
  assumes "head_ok hc" and "routes (hc_dm hc) d = Some (name, version, infos)"
  shows "name \<in> {''/v1/chat/gpt2'', ''/v1/chat/tinyllama'', ''/v1/chat/phi2''}"
proof -
  obtain dep where "dget (dm_deployments (hc_dm hc)) d = Some dep" "dh_name dep = name"
    using assms(2) by (auto simp: routes_def)
  then have "name \<in> snd ` set (dep_names (hc_dm hc))" using dget_mem by (force simp: dep_names_def)
  then show ?thesis using assms(1) by (auto simp: head_ok_def static_ok_def first_names_def)
qed

text \<open>The proxy after it applied the head's latest snapshot.\<close>

lemma proxy_follows_head:
  assumes hd: "head_ok hc" and u: "hc_snapshot hc = Some u" and r: "routes (hc_dm hc) d = Some (name, version, infos)"
  shows "\<exists>h. dget (px_table (apply_routing_update u px)) name = Some h \<and>
    length (px_handles px) \<le> h \<and> h < length (px_handles (apply_routing_update u px)) \<and>
    ph_deployment_id (px_handles (apply_routing_update u px) ! h) = d \<and>
    ph_replicas (px_handles (apply_routing_update u px) ! h) = map routed_info infos"
    and "update_ok u"
proof -
  have t: "ru_deployments u = table_of (hc_dm hc)" using hd u by (simp add: head_ok_def published_def)
  show "update_ok u" using table_update_ok [OF _ _ t] hd by (simp add: head_ok_def)
  obtain dep where dep: "(d, dep) \<in> set (ru_deployments u)" "dp_deployment_name dep = name"
    "map routed (dp_replicas dep) = map routed_info infos"
    using table_entry [OF r] t by auto
  have "distinct (map (\<lambda>x. dp_deployment_name (snd x)) (ru_deployments u))"
    using hd by (simp add: t table_names head_ok_def static_ok_def first_names_def)
  from install_named [OF this dep(1), of "px\<lparr>px_table := []\<rparr>"] dep(2,3)
  show "\<exists>h. dget (px_table (apply_routing_update u px)) name = Some h \<and>
    length (px_handles px) \<le> h \<and> h < length (px_handles (apply_routing_update u px)) \<and>
    ph_deployment_id (px_handles (apply_routing_update u px) ! h) = d \<and>
    ph_replicas (px_handles (apply_routing_update u px) ! h) = map routed_info infos"
    by (auto simp: apply_routing_update_def dh_init_def initialize_replicas case_prod_unfold)
qed

lemma running_infos:
  "\<forall>info \<in> set infos. ri_state info = ''RUNNING'' \<Longrightarrow> ph_replicas ph = map routed_info infos \<Longrightarrow>
   running_replicas ph = map routed_info infos"
  by (simp add: running_replicas_def routed_info_def filter_id_conv)

lemma run_answered_snapshot: "\<exists>u. hc_snapshot (cl_head run_answered) = Some u"
proof -
  have p: "peek (sc_futures (snd (register_replica_rpc run_status run_waiting))) (ca_future run_call) = Some (Result run_reply)"
    "ca_worker run_call = 1" "ca_deployment run_call = 2"
    by (simp_all add: run_call_def run_facts(10))
  have "\<exists>hc. create_replica_finish 9 2 0 0 (Got run_reply) run_head = (Some run_reply, on_deployment_change 9 hc)"
    using cluster_ok_answer(1) [OF cluster_machine.reach_safe [OF run_registered_reach], of run_call
        "snd (register_replica_rpc run_status run_waiting)" run_reply 9] p
    by (auto simp: run_registered_facts)
  then show ?thesis by (auto simp: run_answered_def on_deployment_change_def)
qed

section \<open>From the virtual machine to the worker\<close>

text \<open>The head's handler as the stub of a scheduler.\<close>

definition head_stub :: "register_request \<Rightarrow> head_state \<Rightarrow> bool res \<times> head_state" where
  "head_stub rq hc = (case register_node rq hc of (ack, hc') \<Rightarrow> (Inr ack, hc'))"

lemma sync_first:
  assumes "call s = (Inr v, s')"
  shows "try_send_with_retries_sync call 3 delay s = (Inr (Got v), [], s')"
  using assms by (simp add: try_send_with_retries_sync_def numeral_3_eq_3)

end
