(* ===== verification/Fleet.thy ===== *)
theory Fleet
  imports EndToEnd
begin

text \<open>
  The head and a number of proxies as one machine, for proxies of any kind: \<open>WholeSystem\<close> has it for the
  Python proxy, \<open>CppFleet\<close> for the C++ proxy.

  A link is one turn of a proxy's \<open>subscribe_to_head_node\<close>: the subscriber of the head it reads from
  and how many of the updates sent to it have been applied.  Updates arrive in order and late, or, when
  the connection breaks, not at all; then the proxy subscribes anew.  So a proxy works with a table that
  may be older than the head's for as long as the network, the threads of the proxy or a client that
  does not read please.

  A kind of proxy is given by what a new one is, when it subscribes and takes an update, what it does
  with an update, and how it serves requests.
\<close>

record 'p fleet =
  ft_cluster :: cluster
  ft_proxies :: "(nat, 'p) dict"
  ft_links :: "(nat, nat \<times> nat) dict"

definition ft_head :: "'p fleet \<Rightarrow> head_state" where
  "ft_head ft = cl_head (ft_cluster ft)"

definition ft_workers :: "'p fleet \<Rightarrow> (int, scheduler) dict" where
  "ft_workers ft = cl_workers (ft_cluster ft)"

definition ft_put :: "nat \<Rightarrow> 'p \<Rightarrow> 'p fleet \<Rightarrow> 'p fleet" where
  "ft_put p px ft = ft\<lparr>ft_proxies := dset p px (ft_proxies ft)\<rparr>"

lemmas fleet_parts = ft_head_def ft_workers_def ft_put_def

inductive fleet_step ::
  "('p \<Rightarrow> bool) \<Rightarrow> ('p \<Rightarrow> bool) \<Rightarrow> ('p \<Rightarrow> bool) \<Rightarrow> (routing_update \<Rightarrow> 'p \<Rightarrow> 'p) \<Rightarrow> ('p \<Rightarrow> 'p \<Rightarrow> bool) \<Rightarrow>
   'p fleet \<Rightarrow> 'p fleet \<Rightarrow> bool"
  for fresh listens takes apply_update serve where
  fleet_control: "cluster_step (ft_cluster ft) cl \<Longrightarrow>
    fleet_step fresh listens takes apply_update serve ft (ft\<lparr>ft_cluster := cl\<rparr>)"
| fleet_starts: "dget (ft_proxies ft) p = None \<Longrightarrow> fresh px \<Longrightarrow>
    fleet_step fresh listens takes apply_update serve ft (ft_put p px ft)"
| fleet_subscribes: "dget (ft_proxies ft) p = Some px \<Longrightarrow> listens px \<Longrightarrow> dget (ft_links ft) p = None \<Longrightarrow>
    dget (hc_subs (ft_head ft)) i = None \<Longrightarrow>
    fleet_step fresh listens takes apply_update serve ft
      (ft\<lparr>ft_cluster := (ft_cluster ft)\<lparr>cl_head := subscribe i now (ft_head ft)\<rparr>, ft_links := dset p (i, 0) (ft_links ft)\<rparr>)"
| fleet_receives: "dget (ft_proxies ft) p = Some px \<Longrightarrow> dget (ft_links ft) p = Some (i, n) \<Longrightarrow>
    dget (hc_subs (ft_head ft)) i = Some sb \<Longrightarrow> n < length (sb_sent sb) \<Longrightarrow> takes px \<Longrightarrow>
    fleet_step fresh listens takes apply_update serve ft
      (ft_put p (apply_update (sb_sent sb ! n) px) (ft\<lparr>ft_links := dset p (i, Suc n) (ft_links ft)\<rparr>))"
| fleet_breaks: "fleet_step fresh listens takes apply_update serve ft (ft\<lparr>ft_links := ddel p (ft_links ft)\<rparr>)"
| fleet_exits: "fleet_step fresh listens takes apply_update serve ft
    (ft\<lparr>ft_proxies := ddel p (ft_proxies ft), ft_links := ddel p (ft_links ft)\<rparr>)"
| fleet_serves: "dget (ft_proxies ft) p = Some px \<Longrightarrow> serve px px' \<Longrightarrow>
    fleet_step fresh listens takes apply_update serve ft (ft_put p px' ft)"

definition fleet_start :: "'p fleet \<Rightarrow> bool" where
  "fleet_start ft \<longleftrightarrow> cluster_start (ft_cluster ft) \<and> ft_proxies ft = [] \<and> ft_links ft = []"

text \<open>A run of the control plane is a run of the fleet without proxies.\<close>

lemma fleet_control_reach:
  "reach cluster_start cluster_step cl \<Longrightarrow>
   reach fleet_start (fleet_step fresh listens takes apply_update serve) \<lparr>ft_cluster = cl, ft_proxies = [], ft_links = []\<rparr>"
proof (induction rule: reach.induct)
  case (reach_init cl)
  then show ?case by (intro reach.reach_init) (simp add: fleet_start_def)
next
  case (reach_step cl cl')
  from reach.reach_step [OF reach_step.IH fleet_step.fleet_control, of cl'] reach_step.hyps(2) show ?case by simp
qed

section \<open>What the head has sent\<close>

text \<open>A published table all of whose replicas are registered with a scheduler, under the head's names.\<close>

definition table_backed :: "(int, scheduler) dict \<Rightarrow> (int, deployment_msg) dict \<Rightarrow> bool" where
  "table_backed workers deps \<longleftrightarrow> distinct (map (\<lambda>x. dp_deployment_name (snd x)) deps) \<and>
     (\<forall>(d, dep) \<in> set deps. (d, dp_deployment_name dep) \<in> set first_names \<and>
        (\<forall>r \<in> set (dp_replicas dep). \<exists>info. r = replica_to_msg info \<and> backed workers d info))"

definition sent_backed :: "(int, scheduler) dict \<Rightarrow> head_state \<Rightarrow> bool" where
  "sent_backed workers hc \<longleftrightarrow>
     (\<forall>i sb. dget (hc_subs hc) i = Some sb \<longrightarrow> (\<forall>u \<in> set (sb_sent sb). table_backed workers (ru_deployments u)))"

lemma sent_backedD:
  "sent_backed workers hc \<Longrightarrow> dget (hc_subs hc) i = Some sb \<Longrightarrow> u \<in> set (sb_sent sb) \<Longrightarrow>
    table_backed workers (ru_deployments u)"
  unfolding sent_backed_def by blast

lemma table_backed_mono:
  assumes "table_backed workers deps" and "\<And>d info. backed workers d info \<Longrightarrow> backed workers' d info"
  shows "table_backed workers' deps"
  using assms unfolding table_backed_def by blast

lemma table_of_entry:
  assumes "(d, dep) \<in> set (table_of dm)" and "dm_shape dm"
  shows "(d, dp_deployment_name dep) \<in> set (dep_names dm)"
    and "r \<in> set (dp_replicas dep) \<Longrightarrow> \<exists>info. r = replica_to_msg info \<and> serves dm d info"
proof -
  obtain dep0 where d: "(d, dep0) \<in> set (dm_deployments dm)" "dep = deployment_to_msg (dm_objs dm) d dep0"
    using assms(1) by (auto simp: table_of_def get_current_routing_table_def)
  then show "(d, dp_deployment_name dep) \<in> set (dep_names dm)"
    by (force simp: dep_names_def deployment_to_msg_def)
  assume "r \<in> set (dp_replicas dep)"
  then obtain a where a: "a \<in> set (dh_replicas dep0)" "r = replica_to_msg (dm_objs dm ! a)"
    using d(2) by (auto simp: deployment_to_msg_def)
  then have "live dm d a" using d(1) mem_dget [OF shape_dicts(1) [OF assms(2)]] by (auto simp: live_def)
  then have "serves dm d (dm_objs dm ! a)" by (auto simp: serves_live)
  with a(2) show "\<exists>info. r = replica_to_msg info \<and> serves dm d info" by blast
qed

lemma cluster_table_backed:
  assumes "cluster_ok cl"
  shows "table_backed (cl_workers cl) (table_of (hc_dm (cl_head cl)))"
proof -
  note ok = cluster_okD [OF assms]
  have hd: "dm_shape (hc_dm (cl_head cl))" "dep_names (hc_dm (cl_head cl)) = first_names"
    using ok(1) by (simp_all add: head_ok_def static_ok_def)
  have "distinct (map snd first_names)" by (simp add: first_names_def)
  then show ?thesis
    using table_of_entry [OF _ hd(1)] ok(6) hd(2) table_names [of "hc_dm (cl_head cl)"]
    unfolding table_backed_def by fastforce
qed

text \<open>
  One step of the head and the subscribers: nobody is forgotten, what was sent stays sent, and what is
  sent anew is the table of the moment.
\<close>

definition subs_follow :: "head_state \<Rightarrow> head_state \<Rightarrow> bool" where
  "subs_follow hc hc' \<longleftrightarrow>
     (\<forall>i sb. dget (hc_subs hc) i = Some sb \<longrightarrow>
        (\<exists>sb'. dget (hc_subs hc') i = Some sb' \<and> prefix (sb_sent sb) (sb_sent sb'))) \<and>
     (\<forall>i sb' u. dget (hc_subs hc') i = Some sb' \<longrightarrow> u \<in> set (sb_sent sb') \<longrightarrow>
        ru_deployments u = table_of (hc_dm hc') \<or> (\<exists>sb. dget (hc_subs hc) i = Some sb \<and> u \<in> set (sb_sent sb)))"

lemma subs_followD:
  assumes "subs_follow hc hc'"
  shows "dget (hc_subs hc) i = Some sb \<Longrightarrow> \<exists>sb'. dget (hc_subs hc') i = Some sb' \<and> prefix (sb_sent sb) (sb_sent sb')"
    and "dget (hc_subs hc') i = Some sb' \<Longrightarrow> u \<in> set (sb_sent sb') \<Longrightarrow>
      ru_deployments u = table_of (hc_dm hc') \<or> (\<exists>sb. dget (hc_subs hc) i = Some sb \<and> u \<in> set (sb_sent sb))"
  using assms unfolding subs_follow_def by blast+

lemma follow_same: "hc_subs hc' = hc_subs hc \<Longrightarrow> subs_follow hc hc'"
  by (simp add: subs_follow_def)

lemma follow_publish:
  assumes "hc_subs hc' = hc_subs hc"
  shows "subs_follow hc (on_deployment_change now hc')"
proof -
  have "sb_sent (wake sb) = sb_sent sb" for sb by (simp add: wake_def split: sub_phase.splits)
  then show ?thesis by (auto simp: subs_follow_def subs_publish assms)
qed

lemma follow_subscribe:
  assumes "dget (hc_subs hc) i = None"
  shows "subs_follow hc (subscribe i now hc)"
  using assms by (auto simp: subs_follow_def subscribe_def Let_def split: if_splits)

lemma follow_disconnect: "subs_follow hc (disconnect i hc)"
  by (auto simp: subs_follow_def disconnect_def split: option.splits if_splits)

lemma run_sends:
  assumes "published hc"
  shows "prefix (sb_sent sb) (sb_sent (run_subscriber (hc_snapshot hc) sb))"
    and "u \<in> set (sb_sent (run_subscriber (hc_snapshot hc) sb)) \<Longrightarrow>
      ru_deployments u = table_of (hc_dm hc) \<or> u \<in> set (sb_sent sb)"
  using assms by (auto simp: run_subscriber_def published_def split: sub_phase.splits option.splits if_splits)

lemma follow_resume:
  assumes "published hc"
  shows "subs_follow hc (resume i hc)"
  unfolding subs_follow_def
proof (intro conjI allI impI)
  fix j sb assume "dget (hc_subs hc) j = Some sb"
  then show "\<exists>sb'. dget (hc_subs (resume i hc)) j = Some sb' \<and> prefix (sb_sent sb) (sb_sent sb')"
    using run_sends(1) [OF assms] by (auto simp: subs_resume)
next
  fix j sb' u assume "dget (hc_subs (resume i hc)) j = Some sb'" "u \<in> set (sb_sent sb')"
  then show "ru_deployments u = table_of (hc_dm (resume i hc)) \<or>
      (\<exists>sb. dget (hc_subs hc) j = Some sb \<and> u \<in> set (sb_sent sb))"
    using run_sends(2) [OF assms] by (auto simp: subs_resume split: if_splits)
qed

lemma subs_unchanged:
  "hc_subs (creation_get hc) = hc_subs hc" "hc_subs (creation_spawn hc) = hc_subs hc"
  "hc_subs (put_pending d hc) = hc_subs hc" "hc_subs (snd (register_node rq hc)) = hc_subs hc"
  "hc_subs (snd (record_metrics mq hc)) = hc_subs hc"
  by (simp_all add: creation_get_def creation_spawn_def put_pending_def register_node_def queue_put_def
      record_metrics_def Let_def split: option.splits list.splits queue_item.splits)

lemma head_step_follow:
  assumes "head_step hc hc'" and "published hc"
  shows "subs_follow hc hc'"
  using assms
proof (induction rule: head_step.induct)
  case (created address d hc answer now)
  show ?case
    by (auto simp: create_replica_finish_def split: sent.splits sum.splits prod.splits
        intro!: follow_publish) (simp_all add: follow_same put_pending_def)
next
  case (health hc rq now)
  show ?case
    by (auto simp: head_send_health_status_def hm_send_health_status_def split: sum.splits prod.splits
        intro!: follow_publish) (simp_all add: follow_same)
qed (simp_all add: follow_same subs_unchanged follow_subscribe follow_disconnect follow_resume)

text \<open>The control plane keeps what its proxies have been sent backed by the schedulers.\<close>

lemma control_sent_backed:
  assumes st: "cluster_step cl cl'" and ok: "cluster_ok cl" and sent: "sent_backed (cl_workers cl) (cl_head cl)"
  shows "sent_backed (cl_workers cl') (cl_head cl')" and "subs_follow (cl_head cl) (cl_head cl')"
proof -
  have "published (cl_head cl)" using cluster_okD(1) [OF ok] by (simp add: head_ok_def)
  with cluster_step_head [OF st ok] show f: "subs_follow (cl_head cl) (cl_head cl')"
    using head_step_follow follow_same by auto
  have now: "table_backed (cl_workers cl') (table_of (hc_dm (cl_head cl')))"
    by (rule cluster_table_backed [OF cluster_ok_step [OF st ok]])
  have "table_backed (cl_workers cl') (ru_deployments u)"
    if "dget (hc_subs (cl_head cl)) i = Some sb" "u \<in> set (sb_sent sb)" for i sb u
    using sent that by (intro table_backed_mono [OF _ step_backed [OF st ok]]) (auto simp: sent_backed_def)
  with now show "sent_backed (cl_workers cl') (cl_head cl')"
    unfolding sent_backed_def using subs_followD(2) [OF f] by metis
qed

section \<open>The interface of a proxy\<close>

text \<open>
  What the invariant of the fleet needs of a kind of proxy: its own invariant \<open>sound\<close>; \<open>relies\<close>, that all it
  routes to is backed by the schedulers; and \<open>displays\<close>, that its table is the table of an update.
\<close>

locale proxy_port =
  fixes fresh :: "'p \<Rightarrow> bool"
    and apply_update :: "routing_update \<Rightarrow> 'p \<Rightarrow> 'p"
    and serve :: "'p \<Rightarrow> 'p \<Rightarrow> bool"
    and sound :: "'p \<Rightarrow> bool"
    and relies :: "(int, scheduler) dict \<Rightarrow> 'p \<Rightarrow> bool"
    and displays :: "'p \<Rightarrow> routing_update \<Rightarrow> bool"
  assumes fresh_sound: "fresh px \<Longrightarrow> sound px"
    and fresh_relies: "fresh px \<Longrightarrow> relies workers px"
    and apply_sound: "sound px \<Longrightarrow> table_backed workers (ru_deployments u) \<Longrightarrow> sound (apply_update u px)"
    and apply_relies: "sound px \<Longrightarrow> relies workers px \<Longrightarrow> table_backed workers (ru_deployments u) \<Longrightarrow>
      relies workers (apply_update u px)"
    and apply_displays: "sound px \<Longrightarrow> table_backed workers (ru_deployments u) \<Longrightarrow> displays (apply_update u px) u"
    and serve_sound: "serve px px' \<Longrightarrow> sound px \<Longrightarrow> sound px'"
    and serve_relies: "serve px px' \<Longrightarrow> sound px \<Longrightarrow> relies workers px \<Longrightarrow> relies workers px'"
    and serve_displays: "serve px px' \<Longrightarrow> sound px \<Longrightarrow> displays px u \<Longrightarrow> displays px' u"
    and relies_mono: "relies workers px \<Longrightarrow> (\<And>d info. backed workers d info \<Longrightarrow> backed workers' d info) \<Longrightarrow>
      relies workers' px"
begin

text \<open>What a proxy with a link has applied last is what its table shows.\<close>

definition port_link :: "head_state \<Rightarrow> 'p \<Rightarrow> nat \<Rightarrow> nat \<Rightarrow> bool" where
  "port_link hc px i n \<longleftrightarrow> (\<exists>sb. dget (hc_subs hc) i = Some sb \<and> n \<le> length (sb_sent sb) \<and>
     (0 < n \<longrightarrow> displays px (sb_sent sb ! (n - 1))))"

definition proxies_good :: "'p fleet \<Rightarrow> bool" where
  "proxies_good ft \<longleftrightarrow>
     (\<forall>p px. dget (ft_proxies ft) p = Some px \<longrightarrow> sound px \<and> relies (ft_workers ft) px) \<and>
     (\<forall>p i n. dget (ft_links ft) p = Some (i, n) \<longrightarrow>
        (\<exists>px. dget (ft_proxies ft) p = Some px \<and> port_link (ft_head ft) px i n))"

definition fleet_good :: "'p fleet \<Rightarrow> bool" where
  "fleet_good ft \<longleftrightarrow> cluster_ok (ft_cluster ft) \<and> sent_backed (ft_workers ft) (ft_head ft) \<and> proxies_good ft"

lemma fleet_goodD:
  assumes "fleet_good ft"
  shows "cluster_ok (ft_cluster ft)" and "sent_backed (ft_workers ft) (ft_head ft)"
    and "dget (ft_proxies ft) p = Some px \<Longrightarrow> sound px" and "dget (ft_proxies ft) p = Some px \<Longrightarrow> relies (ft_workers ft) px"
    and "dget (ft_links ft) p = Some (i, n) \<Longrightarrow> dget (ft_proxies ft) p = Some px \<Longrightarrow> port_link (ft_head ft) px i n"
    and "dget (ft_links ft) p = Some (i, n) \<Longrightarrow> \<exists>px. dget (ft_proxies ft) p = Some px \<and> port_link (ft_head ft) px i n"
  using assms unfolding fleet_good_def proxies_good_def by fastforce+

lemma fleet_goodI:
  assumes "cluster_ok (ft_cluster ft)" and "sent_backed (ft_workers ft) (ft_head ft)"
    and "\<And>p px. dget (ft_proxies ft) p = Some px \<Longrightarrow> sound px \<and> relies (ft_workers ft) px"
    and "\<And>p i n. dget (ft_links ft) p = Some (i, n) \<Longrightarrow> \<exists>px. dget (ft_proxies ft) p = Some px \<and> port_link (ft_head ft) px i n"
  shows "fleet_good ft"
  using assms unfolding fleet_good_def proxies_good_def by blast

lemma link_follow:
  assumes "port_link hc px i n" and "subs_follow hc hc'"
  shows "port_link hc' px i n"
proof -
  obtain sb where sb: "dget (hc_subs hc) i = Some sb" "n \<le> length (sb_sent sb)"
    "0 < n \<Longrightarrow> displays px (sb_sent sb ! (n - 1))"
    using assms(1) unfolding port_link_def by blast
  obtain sb' ys where s: "dget (hc_subs hc') i = Some sb'" "sb_sent sb' = sb_sent sb @ ys"
    using subs_followD(1) [OF assms(2) sb(1)] by (auto simp: prefix_def)
  have "sb_sent sb' ! (n - 1) = sb_sent sb ! (n - 1)" if "0 < n"
    using s(2) sb(2) that by (simp add: nth_append)
  with s sb show ?thesis unfolding port_link_def by (intro exI [of _ sb']) auto
qed

text \<open>The head moves, the proxies stay.\<close>

lemma good_control:
  assumes ok: "fleet_good ft" and st: "cluster_step (ft_cluster ft) cl"
  shows "fleet_good (ft\<lparr>ft_cluster := cl\<rparr>)"
proof (rule fleet_goodI)
  note g = fleet_goodD [OF ok]
  note f = control_sent_backed [OF st g(1) g(2) [unfolded fleet_parts]]
  show "cluster_ok (ft_cluster (ft\<lparr>ft_cluster := cl\<rparr>))" using cluster_ok_step [OF st g(1)] by simp
  show "sent_backed (ft_workers (ft\<lparr>ft_cluster := cl\<rparr>)) (ft_head (ft\<lparr>ft_cluster := cl\<rparr>))"
    using f(1) by (simp add: fleet_parts)
  show "sound px \<and> relies (ft_workers (ft\<lparr>ft_cluster := cl\<rparr>)) px" if "dget (ft_proxies (ft\<lparr>ft_cluster := cl\<rparr>)) p = Some px" for p px
    using g(3,4) [of p px] that relies_mono [OF _ step_backed [OF st g(1)]] by (simp add: fleet_parts)
  show "\<exists>px. dget (ft_proxies (ft\<lparr>ft_cluster := cl\<rparr>)) p = Some px \<and> port_link (ft_head (ft\<lparr>ft_cluster := cl\<rparr>)) px i n"
    if "dget (ft_links (ft\<lparr>ft_cluster := cl\<rparr>)) p = Some (i, n)" for p i n
    using g(6) [of p i n] that link_follow [OF _ f(2)] by (auto simp: fleet_parts)
qed

text \<open>One proxy moves, the head stays.\<close>

lemma good_proxy:
  assumes ok: "fleet_good ft" and px: "sound px'" "relies (ft_workers ft) px'"
    and links: "\<And>q. q \<noteq> p \<Longrightarrow> dget links q = dget (ft_links ft) q"
    and link: "\<And>i n. dget links p = Some (i, n) \<Longrightarrow> port_link (ft_head ft) px' i n"
  shows "fleet_good (ft_put p px' (ft\<lparr>ft_links := links\<rparr>))"
proof (rule fleet_goodI)
  note g = fleet_goodD [OF ok]
  show "\<exists>px. dget (ft_proxies (ft_put p px' (ft\<lparr>ft_links := links\<rparr>))) q = Some px \<and>
      port_link (ft_head (ft_put p px' (ft\<lparr>ft_links := links\<rparr>))) px i n"
    if "dget (ft_links (ft_put p px' (ft\<lparr>ft_links := links\<rparr>))) q = Some (i, n)" for q i n
    using that links [of q] link [of i n] g(6) [of q i n] by (cases "q = p") (auto simp: fleet_parts)
qed (use fleet_goodD [OF ok] px in \<open>auto simp: fleet_parts split: if_splits\<close>)

lemma good_links:
  assumes ok: "fleet_good ft"
    and "\<And>p i n. dget links p = Some (i, n) \<Longrightarrow> \<exists>px. dget (ft_proxies ft) p = Some px \<and> port_link (ft_head ft) px i n"
  shows "fleet_good (ft\<lparr>ft_links := links\<rparr>)"
  by (rule fleet_goodI) (use fleet_goodD [OF ok] assms(2) in \<open>auto simp: fleet_parts\<close>)

lemma good_step:
  assumes "fleet_step fresh listens takes apply_update serve ft ft'" and "fleet_good ft"
  shows "fleet_good ft'"
  using assms
proof (induction rule: fleet_step.induct)
  case (fleet_control ft cl)
  then show ?case by (rule good_control [rotated])
next
  case (fleet_starts ft p px)
  have "dget (ft_links ft) p = None"
    using fleet_goodD(6) [OF fleet_starts.prems, of p] fleet_starts.hyps(1) by (cases "dget (ft_links ft) p") auto
  then show ?case
    using good_proxy [OF fleet_starts.prems fresh_sound fresh_relies, of px p "ft_links ft"] fleet_starts.hyps(2) by simp
next
  case (fleet_subscribes ft p px i now)
  let ?ft = "ft\<lparr>ft_cluster := (ft_cluster ft)\<lparr>cl_head := subscribe i now (ft_head ft)\<rparr>\<rparr>"
  have "cluster_step (ft_cluster ft) ((ft_cluster ft)\<lparr>cl_head := subscribe i now (ft_head ft)\<rparr>)"
    using fleet_subscribes.hyps(4) cluster_step.subscribed by (simp add: ft_head_def)
  from good_control [OF fleet_subscribes.prems this] have ok: "fleet_good ?ft" .
  have new: "port_link (ft_head ?ft) px i 0" by (simp add: ft_head_def port_link_def subscribe_def Let_def)
  have "\<exists>px. dget (ft_proxies ?ft) p' = Some px \<and> port_link (ft_head ?ft) px i' n'"
    if "dget (dset p (i, 0) (ft_links ft)) p' = Some (i', n')" for p' i' n'
    using that fleet_goodD(6) [OF ok, of p' i' n'] new fleet_subscribes.hyps(1) by (auto split: if_splits)
  from good_links [OF ok, of "dset p (i, 0) (ft_links ft)", OF this] show ?case by simp
next
  case (fleet_receives ft p px i n sb)
  note g = fleet_goodD [OF fleet_receives.prems]
  let ?u = "sb_sent sb ! n"
  have u: "table_backed (ft_workers ft) (ru_deployments ?u)"
    using g(2) fleet_receives.hyps(3,4) by (auto simp: sent_backed_def)
  note px = g(3,4) [OF fleet_receives.hyps(1)]
  have "port_link (ft_head ft) (apply_update ?u px) i (Suc n)"
    using fleet_receives.hyps(3,4) apply_displays [OF px(1) u] by (auto simp: port_link_def)
  then show ?case
    using apply_sound [OF px(1) u] apply_relies [OF px u] by (intro good_proxy [OF fleet_receives.prems]) auto
next
  case (fleet_breaks ft p)
  then show ?case by (intro good_links) (auto dest: fleet_goodD(6) split: if_splits)
next
  case (fleet_exits ft p)
  show ?case
    by (rule fleet_goodI) (use fleet_goodD [OF fleet_exits] in \<open>auto simp: fleet_parts split: if_splits\<close>)
next
  case (fleet_serves ft p px px')
  note g = fleet_goodD [OF fleet_serves.prems]
  note px = g(3,4) [OF fleet_serves.hyps(1)]
  have "port_link (ft_head ft) px' i n" if "dget (ft_links ft) p = Some (i, n)" for i n
    using g(5) [OF that fleet_serves.hyps(1)] serve_displays [OF fleet_serves.hyps(2) px(1)] by (auto simp: port_link_def)
  then show ?case
    using good_proxy [OF fleet_serves.prems serve_sound serve_relies, OF fleet_serves.hyps(2) px(1) fleet_serves.hyps(2) px,
        of p "ft_links ft"] by simp
qed

lemma good_start: "fleet_start ft \<Longrightarrow> fleet_good ft"
  using cluster_ok_start
  by (intro fleet_goodI) (auto simp: fleet_start_def sent_backed_def cluster_start_def head_start_def head_init_def fleet_parts)

lemma good_reach: "reach fleet_start (fleet_step fresh listens takes apply_update serve) ft \<Longrightarrow> fleet_good ft"
  by (induction rule: reach.induct) (auto intro: good_start good_step)

text \<open>A proxy that has applied all of a stream whose last update is the head's latest snapshot.\<close>

lemma caught_up:
  assumes ok: "fleet_good ft" and px: "dget (ft_proxies ft) p = Some px"
    and link: "dget (ft_links ft) p = Some (i, n)" and sb: "dget (hc_subs (ft_head ft)) i = Some sb"
    and n: "n = length (sb_sent sb)" and snap: "hc_snapshot (ft_head ft) = Some (last (sb_sent sb))"
  shows "\<exists>u. displays px u \<and> ru_deployments u = table_of (hc_dm (ft_head ft))"
proof -
  have hd: "head_ok (ft_head ft)" using cluster_okD(1) [OF fleet_goodD(1) [OF ok]] by (simp add: ft_head_def)
  then have "sb_sent sb \<noteq> []" using sb by (auto simp: head_ok_def subs_ok_def sb_ok_def)
  with fleet_goodD(5) [OF ok link px] sb n have "displays px (last (sb_sent sb))"
    by (auto simp: port_link_def last_conv_nth)
  moreover have "ru_deployments (last (sb_sent sb)) = table_of (hc_dm (ft_head ft))"
    using hd snap by (simp add: head_ok_def published_def)
  ultimately show ?thesis by blast
qed

text \<open>A proxy that listens breaks its link, subscribes anew and applies what it is sent first.\<close>

lemma catch_up:
  assumes ok: "fleet_good ft" and px: "dget (ft_proxies ft) p = Some px" "listens px" "takes px"
  shows "\<exists>ft' u. reach (\<lambda>s. s = ft) (fleet_step fresh listens takes apply_update serve) ft' \<and>
    dget (ft_proxies ft') p = Some (apply_update u px) \<and> displays (apply_update u px) u \<and>
    ru_deployments u = table_of (hc_dm (ft_head ft)) \<and> hc_dm (ft_head ft') = hc_dm (ft_head ft)"
proof -
  let ?step = "fleet_step fresh listens takes apply_update serve"
  let ?f1 = "ft\<lparr>ft_links := ddel p (ft_links ft)\<rparr>"
  have "finite (dkeys (hc_subs (ft_head ft)))" by (simp add: dkeys_def)
  then obtain i where "i \<notin> dkeys (hc_subs (ft_head ft))" using infinite_UNIV_nat ex_new_if_finite by blast
  then have i: "dget (hc_subs (ft_head ft)) i = None" by (simp add: dkeys_iff)
  let ?u = "get_current_routing_table 0 (hc_dm (ft_head ft))"
  let ?f2 = "?f1\<lparr>ft_cluster := (ft_cluster ?f1)\<lparr>cl_head := subscribe i 0 (ft_head ?f1)\<rparr>, ft_links := dset p (i, 0) (ft_links ?f1)\<rparr>"
  let ?sb = "\<lparr>sb_last = 0, sb_phase = Sending ?u, sb_sent = [?u]\<rparr>"
  let ?f3 = "ft_put p (apply_update ?u px) (?f2\<lparr>ft_links := dset p (i, Suc 0) (ft_links ?f2)\<rparr>)"
  have "reach (\<lambda>s. s = ft) ?step ft" by (rule reach_init) (rule refl)
  then have r1: "reach (\<lambda>s. s = ft) ?step ?f1" by (rule reach_step) (rule fleet_breaks)
  have s2: "?step ?f1 ?f2"
    by (rule fleet_step.fleet_subscribes [of _ p px]) (use i px in \<open>simp_all add: fleet_parts\<close>)
  with r1 have r2: "reach (\<lambda>s. s = ft) ?step ?f2" by (rule reach_step)
  have sub: "dget (hc_subs (ft_head ?f2)) i = Some ?sb"
    by (simp add: fleet_parts) (simp add: subscribe_def Let_def)
  have "?step ?f2 ?f3"
    using fleet_step.fleet_receives [of ?f2 p px i 0 ?sb takes] sub px by (simp add: fleet_parts)
  with r2 have r3: "reach (\<lambda>s. s = ft) ?step ?f3" by (rule reach_step)
  have "fleet_good ?f1" by (rule good_step [OF fleet_breaks ok])
  then have g: "fleet_good ?f2" by (rule good_step [OF s2])
  have "table_backed (ft_workers ?f2) (ru_deployments ?u)"
    by (rule sent_backedD [OF fleet_goodD(2) [OF g] sub]) simp
  with fleet_goodD(3) [OF ok px(1)] have shown: "displays (apply_update ?u px) ?u" by (rule apply_displays)
  have same: "hc_dm (ft_head ?f3) = hc_dm (ft_head ft)" by (simp add: fleet_parts subscribe_def Let_def)
  have there: "dget (ft_proxies ?f3) p = Some (apply_update ?u px)" by (simp add: ft_put_def)
  have deps: "ru_deployments ?u = table_of (hc_dm (ft_head ft))" by simp
  show ?thesis
    by (rule exI [of _ ?f3], rule exI [of _ ?u]) (intro conjI r3 there shown deps same)
qed

end

end
