(* ===== verification/WholeSystem.thy ===== *)
theory WholeSystem
  imports Fleet
begin

text \<open>
  The whole program with the Python proxy as one machine: the control plane, the HTTP proxies, the routing
  streams from the head to them and the requests they serve, in any order.  It is the machine of \<open>Fleet\<close>
  with the operations of the Python proxy written out; its invariant is the one of the fleet.
\<close>

record system =
  sy_cluster :: cluster
  sy_proxies :: "(nat, proxy) dict"
  sy_links :: "(nat, nat \<times> nat) dict"

definition set_proxy :: "nat \<Rightarrow> proxy \<Rightarrow> system \<Rightarrow> system" where
  "set_proxy p px sy = sy\<lparr>sy_proxies := dset p px (sy_proxies sy)\<rparr>"

definition sy_head :: "system \<Rightarrow> head_state" where
  "sy_head sy = cl_head (sy_cluster sy)"

definition sy_workers :: "system \<Rightarrow> (int, scheduler) dict" where
  "sy_workers sy = cl_workers (sy_cluster sy)"

lemmas system_parts = set_proxy_def sy_head_def sy_workers_def

inductive system_step :: "system \<Rightarrow> system \<Rightarrow> bool" where
  control: "cluster_step (sy_cluster sy) cl \<Longrightarrow> system_step sy (sy\<lparr>sy_cluster := cl\<rparr>)"
| starts: "dget (sy_proxies sy) p = None \<Longrightarrow> system_step sy (set_proxy p (px_init parent_port grpc_port) sy)"
| subscribes: "dget (sy_proxies sy) p = Some px \<Longrightarrow> px_subscribed px \<Longrightarrow> dget (sy_links sy) p = None \<Longrightarrow>
    dget (hc_subs (sy_head sy)) i = None \<Longrightarrow>
    system_step sy (sy\<lparr>sy_cluster := (sy_cluster sy)\<lparr>cl_head := subscribe i now (sy_head sy)\<rparr>,
      sy_links := dset p (i, 0) (sy_links sy)\<rparr>)"
| receives: "dget (sy_proxies sy) p = Some px \<Longrightarrow> dget (sy_links sy) p = Some (i, n) \<Longrightarrow>
    dget (hc_subs (sy_head sy)) i = Some sb \<Longrightarrow> n < length (sb_sent sb) \<Longrightarrow> px_subscribed px \<Longrightarrow> px_lock px = None \<Longrightarrow>
    system_step sy (set_proxy p (apply_routing_update (sb_sent sb ! n) px)
      (sy\<lparr>sy_links := dset p (i, Suc n) (sy_links sy)\<rparr>))"
| breaks: "system_step sy (sy\<lparr>sy_links := ddel p (sy_links sy)\<rparr>)"
| exits: "system_step sy (sy\<lparr>sy_proxies := ddel p (sy_proxies sy), sy_links := ddel p (sy_links sy)\<rparr>)"
| opens: "dget (sy_proxies sy) p = Some px \<Longrightarrow> px_lock px = None \<Longrightarrow> dget (px_flights px) j = None \<Longrightarrow>
    system_step sy (set_proxy p (snd (open_stream j name px)) sy)"
| finishes: "dget (sy_proxies sy) p = Some px \<Longrightarrow> system_step sy (set_proxy p (finish_stream j tokens px) sy)"
| aborts: "dget (sy_proxies sy) p = Some px \<Longrightarrow> system_step sy (set_proxy p (abort_stream j px) sy)"
| unlocks: "dget (sy_proxies sy) p = Some px \<Longrightarrow> system_step sy (set_proxy p (leave_lock j px) sy)"
| closes: "dget (sy_proxies sy) p = Some px \<Longrightarrow> system_step sy (set_proxy p (px_close px) sy)"

definition system_start :: "system \<Rightarrow> bool" where
  "system_start sy \<longleftrightarrow> cluster_start (sy_cluster sy) \<and> sy_proxies sy = [] \<and> sy_links sy = []"

section \<open>What a proxy routes to\<close>

definition handle_backed :: "(int, scheduler) dict \<Rightarrow> proxy_handle \<Rightarrow> bool" where
  "handle_backed workers ph \<longleftrightarrow>
     (\<forall>r \<in> set (ph_replicas ph). \<exists>info. r = routed_info info \<and> backed workers (ph_deployment_id ph) info)"

text \<open>A stream's handle is of the deployment it was opened for, and its replica one of the handle's.\<close>

definition flight_backed :: "proxy \<Rightarrow> flight \<Rightarrow> bool" where
  "flight_backed px f \<longleftrightarrow> (ph_deployment_id (px_handles px ! fl_handle f), fl_name f) \<in> set first_names \<and>
     fl_address f \<in> rt_replica_address ` set (ph_replicas (px_handles px ! fl_handle f))"

definition proxy_backed :: "(int, scheduler) dict \<Rightarrow> proxy \<Rightarrow> bool" where
  "proxy_backed workers px \<longleftrightarrow> (\<forall>h < length (px_handles px). handle_backed workers (px_handles px ! h)) \<and>
     (\<forall>name h. dget (px_table px) name = Some h \<longrightarrow> (ph_deployment_id (px_handles px ! h), name) \<in> set first_names) \<and>
     (\<forall>j f. dget (px_flights px) j = Some f \<longrightarrow> flight_backed px f)"

lemma proxy_backedD:
  assumes "proxy_backed workers px"
  shows "h < length (px_handles px) \<Longrightarrow> handle_backed workers (px_handles px ! h)"
    and "dget (px_table px) name = Some h \<Longrightarrow> (ph_deployment_id (px_handles px ! h), name) \<in> set first_names"
    and "dget (px_flights px) j = Some f \<Longrightarrow> flight_backed px f"
  using assms unfolding proxy_backed_def by blast+

text \<open>The table of the proxy is the table of an update.\<close>

definition table_shows :: "proxy \<Rightarrow> routing_update \<Rightarrow> bool" where
  "table_shows px u \<longleftrightarrow> (\<forall>(d, dep) \<in> set (ru_deployments u). \<exists>h. dget (px_table px) (dp_deployment_name dep) = Some h \<and>
     h < length (px_handles px) \<and> ph_deployment_id (px_handles px ! h) = d \<and>
     ph_replicas (px_handles px ! h) = map routed (dp_replicas dep))"

lemma proxy_backed_mono:
  assumes "proxy_backed workers px" and "\<And>d info. backed workers d info \<Longrightarrow> backed workers' d info"
  shows "proxy_backed workers' px"
  using assms unfolding proxy_backed_def handle_backed_def by blast

lemma backed_nonempty:
  assumes "backed workers d info"
  shows "CHR ''#'' \<in> set (ri_replica_num info)" and "ri_address info \<noteq> []" and "ri_state info = ''RUNNING''"
  using assms by (auto simp: backed_def replica_key_def host_port_def)

lemma backed_update_ok: "table_backed workers (ru_deployments u) \<Longrightarrow> update_ok u"
  unfolding table_backed_def update_ok_def using backed_nonempty
  by (fastforce simp: replica_to_msg_def)

lemma routed_msg [simp]: "routed (replica_to_msg info) = routed_info info"
  by (simp add: routed_def replica_to_msg_def routed_info_def)

lemma init_frame [simp]:
  "ph_deployment_id (dh_init d dep) = d" "ph_replicas (dh_init d dep) = map routed (dp_replicas dep)"
  by (simp_all add: dh_init_def initialize_replicas case_prod_unfold)

lemma install_lock: "px_lock (install_deployments deps px) = px_lock px"
  by (induction deps px rule: install_deployments.induct) simp_all

lemma install_from:
  "h < length (px_handles (install_deployments deps px)) \<Longrightarrow>
   h < length (px_handles px) \<or> (\<exists>(d, dep) \<in> set deps. px_handles (install_deployments deps px) ! h = dh_init d dep)"
proof (induction deps arbitrary: px)
  case (Cons x deps)
  obtain d dep where x: "x = (d, dep)" by (cases x)
  let ?px = "px\<lparr>px_handles := px_handles px @ [dh_init d dep],
      px_table := dset (dp_deployment_name dep) (length (px_handles px)) (px_table px)\<rparr>"
  from Cons.IH [of ?px] Cons.prems install_frame [of deps ?px] show ?case
    by (auto simp: x less_Suc_eq)
qed simp

lemma install_table:
  "dget (px_table (install_deployments deps px)) name = Some h \<Longrightarrow> dget (px_table px) name = Some h \<or>
   (\<exists>(d, dep) \<in> set deps. dp_deployment_name dep = name \<and> px_handles (install_deployments deps px) ! h = dh_init d dep)"
proof (induction deps arbitrary: px)
  case (Cons x deps)
  obtain d dep where x: "x = (d, dep)" by (cases x)
  let ?px = "px\<lparr>px_handles := px_handles px @ [dh_init d dep],
      px_table := dset (dp_deployment_name dep) (length (px_handles px)) (px_table px)\<rparr>"
  from Cons.IH [of ?px] Cons.prems install_frame [of deps ?px] show ?case
    by (auto simp: x split: if_splits)
qed simp

lemma update_backed:
  assumes px: "proxy_ok px" "proxy_backed workers px" and u: "table_backed workers (ru_deployments u)"
  shows "proxy_backed workers (apply_routing_update u px)"
proof -
  let ?px = "apply_routing_update u px"
  note f = install_frame [of "ru_deployments u" "px\<lparr>px_table := []\<rparr>"]
  have new: "handle_backed workers (dh_init d dep)" "(d, dp_deployment_name dep) \<in> set first_names"
    if "(d, dep) \<in> set (ru_deployments u)" for d dep
    using u that by (fastforce simp: table_backed_def handle_backed_def)+
  show "proxy_backed workers ?px"
    unfolding proxy_backed_def
  proof (intro conjI allI impI)
    fix h assume h: "h < length (px_handles ?px)"
    from install_from [OF h [unfolded apply_routing_update_def]] show "handle_backed workers (px_handles ?px ! h)"
      using new(1) f proxy_backedD(1) [OF px(2)] by (auto simp: apply_routing_update_def)
  next
    fix name h assume h: "dget (px_table ?px) name = Some h"
    from install_table [OF h [unfolded apply_routing_update_def]] new(2)
    show "(ph_deployment_id (px_handles ?px ! h), name) \<in> set first_names"
      by (auto simp: apply_routing_update_def)
  next
    fix j fl assume "dget (px_flights ?px) j = Some fl"
    then have fl: "dget (px_flights px) j = Some fl" using f by (simp add: apply_routing_update_def)
    with proxy_okD(3) [OF px(1) fl] f proxy_backedD(3) [OF px(2) fl]
    show "flight_backed ?px fl"
      by (simp add: apply_routing_update_def flight_backed_def)
  qed
qed

lemma update_shows:
  assumes "table_backed workers (ru_deployments u)"
  shows "table_shows (apply_routing_update u px) u"
  using assms install_named [of "ru_deployments u" _ _ "px\<lparr>px_table := []\<rparr>"]
  unfolding table_shows_def apply_routing_update_def table_backed_def by fastforce


text \<open>Streams change counts only: every handle keeps its deployment and its replicas.\<close>

definition same_routes :: "proxy \<Rightarrow> proxy \<Rightarrow> bool" where
  "same_routes px px' \<longleftrightarrow> px_table px' = px_table px \<and> length (px_handles px') = length (px_handles px) \<and>
     (\<forall>h. ph_deployment_id (px_handles px' ! h) = ph_deployment_id (px_handles px ! h) \<and>
       ph_replicas (px_handles px' ! h) = ph_replicas (px_handles px ! h))"

lemma same_put:
  assumes "ph_deployment_id ph = ph_deployment_id (px_handles px ! h)" and "ph_replicas ph = ph_replicas (px_handles px ! h)"
  shows "same_routes px (put_handle h ph px)"
  using assms by (cases "h < length (px_handles px)")
    (simp_all add: same_routes_def put_handle_def nth_list_update list_update_beyond)

lemma same_rest:
  "same_routes px (log_metric name st ft px') = same_routes px px'"
  "same_routes px (px'\<lparr>px_flights := fls\<rparr>) = same_routes px px'"
  "same_routes px (px'\<lparr>px_lock := l\<rparr>) = same_routes px px'"
  "same_routes px (px_close px') = same_routes px px'"
  "same_routes px px"
  by (simp_all add: same_routes_def log_metric_def px_close_def)

lemma release_frame [simp]: "ph_deployment_id (dh_release k ph) = ph_deployment_id ph"
  by (simp add: dh_release_def split: option.splits)

lemma pick_frame:
  assumes "pick_next_replica ph = (r, ph')"
  shows "ph_deployment_id ph' = ph_deployment_id ph" and "ph_replicas ph' = ph_replicas ph"
  using assms by (auto simp: pick_next_replica_def Let_def split: sum.splits)

lemma open_frame:
  assumes "dh_open ph = (adm, ph')"
  shows "ph_deployment_id ph' = ph_deployment_id ph" and "ph_replicas ph' = ph_replicas ph"
proof -
  obtain r ph1 where p: "pick_next_replica ph = (r, ph1)" by fastforce
  with assms have "ph' = ph1" by (auto simp: dh_open_def split: sum.splits prod.splits if_splits)
  with pick_frame [OF p] show "ph_deployment_id ph' = ph_deployment_id ph" "ph_replicas ph' = ph_replicas ph"
    by simp_all
qed

lemma open_address:
  assumes "dh_open ph = (Opened address k, ph')"
  shows "address \<in> rt_replica_address ` set (ph_replicas ph)"
proof -
  obtain ph1 where "pick_next_replica ph = (Inr (address, k), ph1)"
    using assms by (auto simp: dh_open_def split: sum.splits prod.splits if_splits)
  from pick_chosen(1) [OF this] show ?thesis by force
qed

lemma same_streams:
  "same_routes px (snd (open_stream j name px))" "same_routes px (finish_stream j tokens px)"
  "same_routes px (abort_stream j px)" "same_routes px (leave_lock j px)"
  by (auto simp: open_stream_def finish_stream_def abort_stream_def leave_lock_def same_rest same_put open_frame
      split: option.splits prod.splits admission.splits)

lemma same_backed:
  assumes "same_routes px px'" and "proxy_backed workers px"
    and "\<And>j f. dget (px_flights px') j = Some f \<Longrightarrow> dget (px_flights px) j = Some f \<or> flight_backed px f"
  shows "proxy_backed workers px'"
  unfolding proxy_backed_def
proof (intro conjI allI impI)
  note same = assms(1) [unfolded same_routes_def]
  show "handle_backed workers (px_handles px' ! h)" if "h < length (px_handles px')" for h
    using same proxy_backedD(1) [OF assms(2), of h] that by (simp add: handle_backed_def)
  show "(ph_deployment_id (px_handles px' ! h), name) \<in> set first_names" if "dget (px_table px') name = Some h" for name h
    using same proxy_backedD(2) [OF assms(2), of name h] that by simp
  show "flight_backed px' f" if "dget (px_flights px') j = Some f" for j f
    using same assms(3) [OF that] proxy_backedD(3) [OF assms(2), of j f] by (auto simp: flight_backed_def)
qed

lemma streams_backed:
  assumes "proxy_backed workers px"
  shows "proxy_backed workers (snd (open_stream j name px))" and "proxy_backed workers (finish_stream j tokens px)"
    and "proxy_backed workers (abort_stream j px)" and "proxy_backed workers (leave_lock j px)"
    and "proxy_backed workers (px_close px)"
proof -
  have "dget (px_flights px) j' = Some f \<or> flight_backed px f"
    if "dget (px_flights (snd (open_stream j name px))) j' = Some f" for j' f
    using that open_address proxy_backedD(2) [OF assms]
    by (auto simp: open_stream_def log_metric_def flight_backed_def put_handle_def split: option.splits prod.splits admission.splits if_splits)
  then show "proxy_backed workers (snd (open_stream j name px))"
    using same_backed [OF same_streams(1) assms] by blast
  show "proxy_backed workers (finish_stream j tokens px)"
    by (rule same_backed [OF same_streams(2) assms])
      (auto simp: finish_stream_def log_metric_def put_handle_def split: option.splits if_splits)
  show "proxy_backed workers (abort_stream j px)"
    by (rule same_backed [OF same_streams(3) assms])
      (auto simp: abort_stream_def put_handle_def split: option.splits if_splits)
  show "proxy_backed workers (leave_lock j px)"
    by (rule same_backed [OF same_streams(4) assms]) (auto simp: leave_lock_def split: if_splits)
  show "proxy_backed workers (px_close px)"
    by (rule same_backed [OF _ assms]) (auto simp: same_rest, simp add: px_close_def)
qed

lemma same_shows:
  assumes "same_routes px px'" and "table_shows px u"
  shows "table_shows px' u"
  using assms by (auto simp: same_routes_def table_shows_def)

section \<open>The invariant\<close>

lemma proxy_ok_streams:
  assumes "proxy_ok px"
  shows "proxy_ok (finish_stream j tokens px)" and "proxy_ok (abort_stream j px)" and "proxy_ok (leave_lock j px)"
    and "proxy_ok (px_close px)"
    and "dget (px_flights px) j = None \<Longrightarrow> proxy_ok (snd (open_stream j name px))"
  using assms proxy_ok_end [OF assms] proxy_ok_open [OF assms]
  by (auto simp: finish_stream_def abort_stream_def leave_lock_def split: option.splits)

text \<open>What the Python proxy does with its requests.\<close>

definition px_serves :: "proxy \<Rightarrow> proxy \<Rightarrow> bool" where
  "px_serves px px' \<longleftrightarrow>
     (\<exists>j name. px_lock px = None \<and> dget (px_flights px) j = None \<and> px' = snd (open_stream j name px)) \<or>
     (\<exists>j tokens. px' = finish_stream j tokens px) \<or> (\<exists>j. px' = abort_stream j px) \<or>
     (\<exists>j. px' = leave_lock j px) \<or> px' = px_close px"

lemma px_serves_facts:
  assumes "px_serves px px'"
  shows "proxy_ok px \<Longrightarrow> proxy_ok px'" and "proxy_backed workers px \<Longrightarrow> proxy_backed workers px'"
    and "same_routes px px'"
  using assms proxy_ok_streams [of px] streams_backed [of workers px] same_streams [of px] same_rest(4,5)
  unfolding px_serves_def by auto

interpretation py_port: proxy_port proxy_start apply_routing_update px_serves proxy_ok proxy_backed table_shows
proof unfold_locales
  show "proxy_ok px" "proxy_backed workers px" if "proxy_start px" for px workers
    using that proxy_ok_init by (auto simp: proxy_start_def proxy_backed_def px_init_def)
  show "proxy_ok (apply_routing_update u px)"
    if "proxy_ok px" "table_backed workers (ru_deployments u)" for px workers u
    using that proxy_ok_update backed_update_ok by blast
  show "proxy_backed workers (apply_routing_update u px)"
    if "proxy_ok px" "proxy_backed workers px" "table_backed workers (ru_deployments u)" for px workers u
    using that by (rule update_backed)
  show "table_shows (apply_routing_update u px) u"
    if "proxy_ok px" "table_backed workers (ru_deployments u)" for px workers u
    using that(2) by (rule update_shows)
  show "proxy_backed workers' px"
    if "proxy_backed workers px" "\<And>d info. backed workers d info \<Longrightarrow> backed workers' d info" for workers workers' px
    using that by (rule proxy_backed_mono)
qed (auto intro: px_serves_facts same_shows)

definition sy_fleet :: "system \<Rightarrow> proxy fleet" where
  "sy_fleet sy = \<lparr>ft_cluster = sy_cluster sy, ft_proxies = sy_proxies sy, ft_links = sy_links sy\<rparr>"

abbreviation python_fleet_step :: "proxy fleet \<Rightarrow> proxy fleet \<Rightarrow> bool" where
  "python_fleet_step \<equiv> fleet_step proxy_start px_subscribed (\<lambda>px. px_subscribed px \<and> px_lock px = None)
     apply_routing_update px_serves"

lemma fleet_view [simp]:
  "ft_cluster (sy_fleet sy) = sy_cluster sy" "ft_proxies (sy_fleet sy) = sy_proxies sy" "ft_links (sy_fleet sy) = sy_links sy"
  "ft_head (sy_fleet sy) = sy_head sy" "ft_workers (sy_fleet sy) = sy_workers sy"
  "ft_put p px (sy_fleet sy) = sy_fleet (set_proxy p px sy)"
  "(sy_fleet sy)\<lparr>ft_links := links\<rparr> = sy_fleet (sy\<lparr>sy_links := links\<rparr>)"
  "(sy_fleet sy)\<lparr>ft_cluster := cl\<rparr> = sy_fleet (sy\<lparr>sy_cluster := cl\<rparr>)"
  "(sy_fleet sy)\<lparr>ft_proxies := pxs\<rparr> = sy_fleet (sy\<lparr>sy_proxies := pxs\<rparr>)"
  by (simp_all add: sy_fleet_def system_parts fleet_parts)

lemma serves_step:
  assumes "dget (sy_proxies sy) p = Some px" and "px_serves px px'"
  shows "python_fleet_step (sy_fleet sy) (sy_fleet (set_proxy p px' sy))"
  using fleet_step.fleet_serves [of "sy_fleet sy" p px px_serves px'] assms by simp

lemma system_fleet_step: "system_step sy sy' \<Longrightarrow> python_fleet_step (sy_fleet sy) (sy_fleet sy')"
proof (induction rule: system_step.induct)
  case (control sy cl)
  then show ?case using fleet_step.fleet_control [of "sy_fleet sy" cl] by simp
next
  case (starts sy p parent_port grpc_port)
  have "proxy_start (px_init parent_port grpc_port)" by (auto simp: proxy_start_def)
  with starts show ?case using fleet_step.fleet_starts [of "sy_fleet sy" p proxy_start] by simp
next
  case (subscribes sy p px i now)
  then show ?case using fleet_step.fleet_subscribes [of "sy_fleet sy" p px px_subscribed i _ _ _ _ now] by simp
next
  case (receives sy p px i n sb)
  then show ?case
    using fleet_step.fleet_receives [of "sy_fleet sy" p px i n sb "\<lambda>px. px_subscribed px \<and> px_lock px = None"] by simp
next
  case (breaks sy p)
  then show ?case using fleet_step.fleet_breaks [of _ _ _ _ _ "sy_fleet sy" p] by simp
next
  case (exits sy p)
  then show ?case using fleet_step.fleet_exits [of _ _ _ _ _ "sy_fleet sy" p] by simp
next
  case (opens sy p px j name)
  then show ?case by (intro serves_step) (auto simp: px_serves_def)
next
  case (finishes sy p px j tokens)
  then show ?case by (intro serves_step) (auto simp: px_serves_def)
next
  case (aborts sy p px j)
  then show ?case by (intro serves_step) (auto simp: px_serves_def)
next
  case (unlocks sy p px j)
  then show ?case by (intro serves_step) (auto simp: px_serves_def)
next
  case (closes sy p px)
  then show ?case by (intro serves_step) (auto simp: px_serves_def)
qed

lemma system_fleet_start: "system_start sy \<Longrightarrow> fleet_start (sy_fleet sy)"
  by (simp add: system_start_def fleet_start_def)

text \<open>The invariant of the fleet, read off the system.\<close>

definition system_ok :: "system \<Rightarrow> bool" where
  "system_ok sy \<longleftrightarrow> py_port.fleet_good (sy_fleet sy)"

lemma system_okD:
  assumes "system_ok sy" and "dget (sy_proxies sy) p = Some px"
  shows "proxy_ok px" and "proxy_backed (sy_workers sy) px"
  using py_port.fleet_goodD(3,4) [OF assms(1) [unfolded system_ok_def], of p px] assms(2) by simp_all

interpretation system_machine: safe_machine system_start system_step system_ok
  unfolding system_ok_def
  by unfold_locales (auto intro: py_port.good_start py_port.good_step system_fleet_start system_fleet_step)

text \<open>Of the whole system the control plane sees its own steps and the subscriptions.\<close>

interpretation control_view: stuttering_simulation system_start system_step system_ok sy_cluster cluster_start cluster_step
proof unfold_locales
  show "cluster_start (sy_cluster s)" if "system_start s" for s using that by (simp add: system_start_def)
  show "cluster_step (sy_cluster s) (sy_cluster t) \<or> sy_cluster t = sy_cluster s"
    if "system_step s t" "system_ok s" for s t
    using that(1) by cases (auto simp: system_parts intro: cluster_step.subscribed)
qed

text \<open>A proxy that has applied all of a stream whose last update is the head's latest snapshot.\<close>

lemma caught_up_serves:
  assumes "system_ok sy" and "dget (sy_proxies sy) p = Some px"
    and "dget (sy_links sy) p = Some (i, n)" and "dget (hc_subs (sy_head sy)) i = Some sb"
    and "n = length (sb_sent sb)" and "hc_snapshot (sy_head sy) = Some (last (sb_sent sb))"
    and "routes (hc_dm (sy_head sy)) d = Some (name, version, infos)"
  shows "\<exists>h. dget (px_table px) name = Some h \<and> h < length (px_handles px) \<and>
    ph_deployment_id (px_handles px ! h) = d \<and> ph_replicas (px_handles px ! h) = map routed_info infos"
proof -
  obtain u where "table_shows px u" "ru_deployments u = table_of (hc_dm (sy_head sy))"
    using py_port.caught_up [OF assms(1) [unfolded system_ok_def], of p px i n sb] assms(2-6) by auto
  with table_entry [OF assms(7)] show ?thesis by (fastforce simp: table_shows_def)
qed

section \<open>A run\<close>

text \<open>After the control plane's sample run a proxy starts, subscribes and receives its first update.\<close>

lemma control_reach:
  "reach cluster_start cluster_step cl \<Longrightarrow>
   reach system_start system_step \<lparr>sy_cluster = cl, sy_proxies = [], sy_links = []\<rparr>"
proof (induction rule: reach.induct)
  case (reach_init cl)
  then show ?case by (intro reach.reach_init) (simp add: system_start_def)
next
  case (reach_step cl cl')
  from reach.reach_step [OF reach_step.IH system_step.control, of cl'] reach_step.hyps(2) show ?case by simp
qed

lemma run_answered_subs: "hc_subs (cl_head run_answered) = []"
proof -
  have p: "peek (sc_futures (snd (register_replica_rpc run_status run_waiting))) (ca_future run_call) = Some (Result run_reply)"
    "ca_worker run_call = 1" "ca_deployment run_call = 2"
    by (simp_all add: run_call_def run_facts(10))
  obtain dm' where "create_replica_finish 9 2 0 0 (Got run_reply) run_head =
      (Some run_reply, on_deployment_change 9 (run_head\<lparr>hc_dm := dm'\<rparr>))"
    using cluster_ok_answer(1) [OF cluster_machine.reach_safe [OF run_registered_reach], of run_call
        "snd (register_replica_rpc run_status run_waiting)" run_reply 9] p
    by (auto simp: run_registered_facts)
  moreover have "hc_subs run_head = []"
    by (simp add: run_head_def subs_unchanged demo_start_def head_init_def)
  ultimately show ?thesis by (simp add: run_answered_def on_deployment_change_def)
qed

definition run_update :: routing_update where
  "run_update = get_current_routing_table 12 (hc_dm (cl_head run_answered))"

definition run_proxy :: proxy where
  "run_proxy = apply_routing_update run_update (px_init 50052 50053)"

definition run_system :: system where
  "run_system = \<lparr>sy_cluster = run_answered\<lparr>cl_head := subscribe 0 12 (cl_head run_answered)\<rparr>,
     sy_proxies = [(0, run_proxy)], sy_links = [(0, (0, 1))]\<rparr>"

lemma run_system_facts:
  "dget (sy_proxies run_system) 0 = Some run_proxy" "dget (sy_links run_system) 0 = Some (0, 1)"
  "dget (hc_subs (sy_head run_system)) 0 = Some \<lparr>sb_last = 0, sb_phase = Sending run_update, sb_sent = [run_update]\<rparr>"
  "hc_snapshot (sy_head run_system) = Some run_update"
  "hc_dm (sy_head run_system) = hc_dm (cl_head run_answered)" "sy_workers run_system = cl_workers run_answered"
  by (simp_all add: run_system_def system_parts dict_eval)
    (simp_all add: subscribe_def Let_def run_update_def)

lemma run_system_reach: "reach system_start system_step run_system"
proof -
  let ?s0 = "\<lparr>sy_cluster = run_answered, sy_proxies = [], sy_links = []\<rparr>"
  let ?px = "px_init 50052 50053"
  let ?s2 = "\<lparr>sy_cluster = run_answered\<lparr>cl_head := subscribe 0 12 (cl_head run_answered)\<rparr>,
     sy_proxies = [(0, ?px)], sy_links = [(0, (0, 0))]\<rparr>"
  have px: "px_subscribed ?px" "px_lock ?px = None" by (simp_all add: px_init_def)
  have "system_step ?s0 (set_proxy 0 ?px ?s0)" by (rule system_step.starts) simp
  with control_reach [OF run_answered_reach] have "reach system_start system_step (set_proxy 0 ?px ?s0)"
    by (rule reach_step)
  moreover have "system_step (set_proxy 0 ?px ?s0) ?s2"
    using system_step.subscribes [of "set_proxy 0 ?px ?s0" 0 ?px 0 12] px run_answered_subs
    by (simp add: system_parts dict_eval)
  ultimately have "reach system_start system_step ?s2" by (rule reach_step)
  moreover have "system_step ?s2 run_system"
    using system_step.receives [of ?s2 0 ?px 0 0 "\<lparr>sb_last = 0, sb_phase = Sending run_update, sb_sent = [run_update]\<rparr>"] px
    by (simp add: system_parts dict_eval subscribe_def Let_def run_update_def run_system_def run_proxy_def)
  ultimately show ?thesis by (rule reach_step)
qed

section \<open>Properties\<close>

text \<open>
  C8. A proxy that has caught up serves the head's table.  In every reachable state of the whole system,
  if a proxy has applied everything it was sent and the last of it is the head's latest snapshot, then
  it routes the name of every deployment of the head to a handle of that deployment with exactly the
  head's replicas, in order, with identifier, address and state.
\<close>

theorem caught_up_proxy_serves_head:
  assumes "reach system_start system_step sy" and "dget (sy_proxies sy) p = Some px"
    and "dget (sy_links sy) p = Some (i, n)" and "dget (hc_subs (sy_head sy)) i = Some sb"
    and "n = length (sb_sent sb)" and "hc_snapshot (sy_head sy) = Some (last (sb_sent sb))"
    and "routes (hc_dm (sy_head sy)) d = Some (name, version, infos)"
  shows "\<exists>h. dget (px_table px) name = Some h \<and> h < length (px_handles px) \<and>
    ph_deployment_id (px_handles px ! h) = d \<and> ph_replicas (px_handles px ! h) = map routed_info infos"
  by (rule caught_up_serves [OF system_machine.reach_safe [OF assms(1)] assms(2-7)])

theorem caught_up_proxy_serves_head_witness:
  "\<exists>h. dget (px_table run_proxy) ''/v1/chat/tinyllama'' = Some h \<and>
    map rt_replica_address (ph_replicas (px_handles run_proxy ! h)) = [host_port ''10.0.0.1'' (int_text 50101)]"
proof -
  have "routes (hc_dm (sy_head run_system)) 2 = Some (''/v1/chat/tinyllama'', ''1.0'',
      [\<lparr>ri_replica_num = replica_key (int_text 1) (int_text 1),
        ri_address = host_port ''10.0.0.1'' (int_text 50101), ri_state = ''RUNNING''\<rparr>])"
    using run_answered_route by (simp add: run_system_facts(5))
  from caught_up_proxy_serves_head [OF run_system_reach run_system_facts(1-3) _ _ this]
  show ?thesis by (auto simp: run_system_facts(4) routed_info_def)
qed

text \<open>A registered replica of a deployment, by its address.\<close>

definition registered_at :: "(int, scheduler) dict \<Rightarrow> int \<Rightarrow> string \<Rightarrow> bool" where
  "registered_at workers d address \<longleftrightarrow> (\<exists>w sc k h. dget workers w = Some sc \<and> dget (sc_registry sc) k = Some h \<and>
     rh_deployment_id h = d \<and> address = host_port (sc_node_address sc) (rh_port h))"

lemma backed_registered: "backed workers d info \<Longrightarrow> registered_at workers d (ri_address info)"
  unfolding backed_def registered_at_def by (metis replica_info.select_convs(2))

lemma handle_registered:
  assumes "handle_backed workers ph" and "address \<in> rt_replica_address ` set (ph_replicas ph)"
  shows "registered_at workers (ph_deployment_id ph) address"
  using assms backed_registered by (auto simp: handle_backed_def routed_info_def)

lemma handle_running:
  assumes "handle_backed workers ph"
  shows "running_replicas ph = ph_replicas ph"
  using assms backed_nonempty(3) by (fastforce simp: running_replicas_def handle_backed_def routed_info_def filter_id_conv)

text \<open>
  C1. A request is answered by a replica that exists, whatever table the proxy has.  In every reachable
  state of the whole system, with any update lost, late or still to come, take a proxy whose table has
  the requested name.  The name is the one the head gave a deployment; if the proxy knows no replica of
  it, the client gets the retry message, else the request is streamed from the address of a replica that
  is registered with the scheduler of some worker for exactly this deployment: the client receives this
  replica's texts up to the first error, unchanged and in order, and afterwards every count of
  outstanding requests is as before.
\<close>

theorem request_served_by_registered_replica:
  assumes "reach system_start system_step sy" and "dget (sy_proxies sy) p = Some px" and "dget (px_table px) name = Some h"
  shows "\<exists>d. (d, name) \<in> set first_names \<and>
    (if ph_replicas (px_handles px ! h) = []
     then forward_request_to_replica replica j name message px = ([retry_chunk], log_metric name ''error'' False px)
     else \<exists>address px'. registered_at (sy_workers sy) d address \<and>
       forward_request_to_replica replica j name message px =
         (map rp_text (takeWhile (\<lambda>x. \<not> rp_is_error x) (fst (replica address message))), px') \<and>
       (\<forall>h' k. outstanding (px_handles px' ! h') k = outstanding (px_handles px ! h') k))"
proof -
  note px = system_okD [OF system_machine.reach_safe [OF assms(1)] assms(2)]
  let ?ph = "px_handles px ! h"
  have h: "handle_backed (sy_workers sy) ?ph" using proxy_backedD(1) [OF px(2)] proxy_okD(2) [OF px(1) assms(3)] by blast
  note run = handle_running [OF h]
  have "(ph_deployment_id ?ph, name) \<in> set first_names" by (rule proxy_backedD(2) [OF px(2) assms(3)])
  moreover have "forward_request_to_replica replica j name message px = ([retry_chunk], log_metric name ''error'' False px)"
    if "ph_replicas ?ph = []"
    using forward_nothing_running [OF px(1) assms(3)] run that by simp
  moreover have "\<exists>address px'. registered_at (sy_workers sy) (ph_deployment_id ?ph) address \<and>
       forward_request_to_replica replica j name message px =
         (map rp_text (takeWhile (\<lambda>x. \<not> rp_is_error x) (fst (replica address message))), px') \<and>
       (\<forall>h' k. outstanding (px_handles px' ! h') k = outstanding (px_handles px ! h') k)"
    if "ph_replicas ?ph \<noteq> []"
    using forward_running [OF px(1) assms(3), of replica j message] run that handle_registered [OF h] by fastforce
  ultimately show ?thesis by (intro exI [of _ "ph_deployment_id ?ph"]) auto
qed

definition hello_replica :: "string \<Rightarrow> nat list \<Rightarrow> replica_reply list \<times> exn option" where
  "hello_replica address message = ([reply ''Hel'' False, reply ''lo'' False], None)"

lemma run_proxy_route:
  "\<exists>h. dget (px_table run_proxy) ''/v1/chat/tinyllama'' = Some h \<and> ph_replicas (px_handles run_proxy ! h) \<noteq> []"
proof -
  have "head_ok (cl_head run_answered)"
    by (rule cluster_okD(1) [OF cluster_machine.reach_safe [OF run_answered_reach]])
  then have "head_ok (on_deployment_change 12 (cl_head run_answered))" by (simp add: head_ok_def subs_ok_publish)
  from proxy_follows_head(1) [OF this _ , of run_update 2, of "''/v1/chat/tinyllama''" "''1.0''" _ "px_init 50052 50053"]
    run_answered_route
  show ?thesis by (auto simp: run_proxy_def run_update_def on_deployment_change_def)
qed

theorem request_served_by_registered_replica_witness:
  "fst (forward_request_to_replica hello_replica 0 ''/v1/chat/tinyllama'' [104, 105] run_proxy) = [''Hel'', ''lo'']"
proof -
  obtain h where h: "dget (px_table run_proxy) ''/v1/chat/tinyllama'' = Some h" "ph_replicas (px_handles run_proxy ! h) \<noteq> []"
    using run_proxy_route by blast
  from request_served_by_registered_replica [OF run_system_reach run_system_facts(1) h(1), of hello_replica 0 "[104, 105]"] h(2)
  show ?thesis by (auto simp: hello_replica_def reply_def)
qed

text \<open>
  C7. A request in flight stays with a registered replica.  In every reachable state of the whole
  system, however many updates have replaced the table since it was opened, a request in flight at a
  proxy goes to the address of a replica that is registered with a scheduler for the deployment whose
  name the request has.
\<close>

theorem flights_go_to_registered_replicas:
  assumes "reach system_start system_step sy" and "dget (sy_proxies sy) p = Some px" and "dget (px_flights px) j = Some f"
  shows "\<exists>d. (d, fl_name f) \<in> set first_names \<and> registered_at (sy_workers sy) d (fl_address f)"
proof -
  note px = system_okD [OF system_machine.reach_safe [OF assms(1)] assms(2)]
  have "handle_backed (sy_workers sy) (px_handles px ! fl_handle f)"
    using proxy_backedD(1) [OF px(2)] proxy_okD(3) [OF px(1) assms(3)] by blast
  with proxy_backedD(3) [OF px(2) assms(3)] handle_registered show ?thesis by (auto simp: flight_backed_def)
qed

text \<open>The proxy of the sample run opens a request.\<close>

definition run_busy :: proxy where
  "run_busy = snd (open_stream 7 ''/v1/chat/tinyllama'' run_proxy)"

lemma run_busy_reach: "reach system_start system_step (set_proxy 0 run_busy run_system)"
proof -
  have "px_lock run_proxy = None" "px_flights run_proxy = []"
    using install_frame [of "ru_deployments run_update" "(px_init 50052 50053)\<lparr>px_table := []\<rparr>"]
      install_lock [of "ru_deployments run_update" "(px_init 50052 50053)\<lparr>px_table := []\<rparr>"]
    by (simp_all add: run_proxy_def apply_routing_update_def) (simp_all add: px_init_def)
  then have "system_step run_system (set_proxy 0 run_busy run_system)"
    unfolding run_busy_def by (intro system_step.opens run_system_facts(1)) simp_all
  with run_system_reach show ?thesis by (rule reach_step)
qed

theorem flights_go_to_registered_replicas_witness:
  "\<exists>f d. dget (px_flights run_busy) 7 = Some f \<and> registered_at (cl_workers run_answered) d (fl_address f)"
proof -
  obtain h where h: "dget (px_table run_proxy) ''/v1/chat/tinyllama'' = Some h" "ph_replicas (px_handles run_proxy ! h) \<noteq> []"
    using run_proxy_route by blast
  note px = system_okD [OF system_machine.reach_safe [OF run_system_reach] run_system_facts(1)]
  note hl = proxy_okD(2) [OF px(1) h(1)]
  from open_cases [OF proxy_okD(4) [OF px(1) hl]] handle_running [OF proxy_backedD(1) [OF px(2) hl]] h(2)
  obtain address k ph where "dh_open (px_handles run_proxy ! h) = (Opened address k, ph)" by auto
  with h(1) obtain f where f: "dget (px_flights run_busy) 7 = Some f" by (simp add: run_busy_def open_stream_def)
  have "dget (sy_proxies (set_proxy 0 run_busy run_system)) 0 = Some run_busy" by (simp add: set_proxy_def)
  from flights_go_to_registered_replicas [OF run_busy_reach this f] f show ?thesis
    by (auto simp: system_parts run_system_def)
qed

text \<open>The proxy breaks its link, subscribes anew and applies what it is sent first.\<close>

lemma fresh_subscriber: "\<exists>i. dget (subs :: (nat, subscriber) dict) i = None"
proof -
  have "finite (dkeys subs)" by (simp add: dkeys_def)
  then obtain i where "i \<notin> dkeys subs" using infinite_UNIV_nat ex_new_if_finite by blast
  then show ?thesis by (auto simp: dkeys_iff)
qed

lemma update_keeps:
  "px_flights (apply_routing_update u px) = px_flights px" "px_lock (apply_routing_update u px) = px_lock px"
  using install_frame [of "ru_deployments u" "px\<lparr>px_table := []\<rparr>"] install_lock [of "ru_deployments u" "px\<lparr>px_table := []\<rparr>"]
  by (simp_all add: apply_routing_update_def)

lemma unlock_first:
  assumes "dget (sy_proxies sy) p = Some px"
  shows "\<exists>px1. reach (\<lambda>s. s = sy) system_step (set_proxy p px1 sy) \<and> px_lock px1 = None \<and>
    px_flights px1 = px_flights px \<and> px_subscribed px1 = px_subscribed px"
proof -
  let ?px = "leave_lock (the (px_lock px)) px"
  have "system_step sy (set_proxy p ?px sy)" by (rule system_step.unlocks [OF assms])
  moreover have "reach (\<lambda>s. s = sy) system_step sy" by (rule reach_init) (rule refl)
  ultimately have "reach (\<lambda>s. s = sy) system_step (set_proxy p ?px sy)" by (rule reach_step [rotated])
  then show ?thesis
    by (intro exI [of _ ?px]) (cases "px_lock px"; simp add: leave_lock_def)
qed

lemma px_apply_known: "dkeys (px_table (apply_routing_update u px)) \<subseteq> (\<lambda>x. dp_deployment_name (snd x)) ` set (ru_deployments u)"
proof
  fix name assume "name \<in> dkeys (px_table (apply_routing_update u px))"
  then obtain h where "dget (px_table (install_deployments (ru_deployments u) (px\<lparr>px_table := []\<rparr>))) name = Some h"
    by (auto simp: dkeys_iff apply_routing_update_def)
  from px_tables.known_entry [OF this]
  show "name \<in> (\<lambda>x. dp_deployment_name (snd x)) ` set (ru_deployments u)" by auto
qed

text \<open>
  C9. No proxy is stuck with an old table.  From every reachable state of the whole system there is a
  way, in which neither the head's deployments nor the requests in flight at the proxy change, to a
  state in which a proxy whose subscription task runs serves exactly the head's table, whatever updates
  it has lost before: the names it routes are those of the head's deployments, and each is routed to a
  handle of its deployment with exactly the head's replicas.  The way is that its subscription breaks
  and is made anew: it ends with the first update of a subscriber the head did not have.
\<close>

theorem proxy_can_catch_up:
  assumes "reach system_start system_step sy" and "dget (sy_proxies sy) p = Some px" and "px_subscribed px"
  shows "\<exists>sy' px' i. reach (\<lambda>s. s = sy) system_step sy' \<and> dget (sy_proxies sy') p = Some px' \<and>
    px_flights px' = px_flights px \<and> hc_dm (sy_head sy') = hc_dm (sy_head sy) \<and>
    dget (hc_subs (sy_head sy)) i = None \<and> dget (sy_links sy') p = Some (i, 1) \<and>
    dkeys (px_table px') = routed_names (hc_dm (sy_head sy)) \<and>
    (\<forall>d name version infos. routes (hc_dm (sy_head sy)) d = Some (name, version, infos) \<longrightarrow>
      (\<exists>h. dget (px_table px') name = Some h \<and> ph_deployment_id (px_handles px' ! h) = d \<and>
        ph_replicas (px_handles px' ! h) = map routed_info infos))"
proof -
  obtain px1 where px1: "reach (\<lambda>s. s = sy) system_step (set_proxy p px1 sy)" "px_lock px1 = None"
    "px_flights px1 = px_flights px" "px_subscribed px1"
    using unlock_first [OF assms(2)] assms(3) by auto
  let ?s1 = "set_proxy p px1 sy"
  let ?s2 = "?s1\<lparr>sy_links := ddel p (sy_links ?s1)\<rparr>"
  obtain i where i: "dget (hc_subs (sy_head sy)) i = None" using fresh_subscriber by blast
  let ?u = "get_current_routing_table 0 (hc_dm (sy_head sy))"
  let ?s3 = "?s2\<lparr>sy_cluster := (sy_cluster ?s2)\<lparr>cl_head := subscribe i 0 (sy_head ?s2)\<rparr>,
    sy_links := dset p (i, 0) (sy_links ?s2)\<rparr>"
  let ?sb = "\<lparr>sb_last = 0, sb_phase = Sending ?u, sb_sent = [?u]\<rparr>"
  let ?px = "apply_routing_update ?u px1"
  let ?s4 = "set_proxy p ?px (?s3\<lparr>sy_links := dset p (i, Suc 0) (sy_links ?s3)\<rparr>)"
  have hd: "sy_head ?s2 = sy_head sy" by (simp add: system_parts)
  have "system_step ?s1 ?s2" by (rule system_step.breaks)
  with px1(1) have r2: "reach (\<lambda>s. s = sy) system_step ?s2" by (rule reach_step)
  have "system_step ?s2 ?s3"
    by (rule system_step.subscribes [of _ p px1]) (use i hd px1(4) in \<open>simp_all add: set_proxy_def\<close>)
  with r2 have r3: "reach (\<lambda>s. s = sy) system_step ?s3" by (rule reach_step)
  have sub: "dget (hc_subs (sy_head ?s3)) i = Some ?sb"
    by (simp add: hd) (simp add: sy_head_def subscribe_def Let_def)
  have "system_step ?s3 ?s4"
    using system_step.receives [of ?s3 p px1 i 0 ?sb] sub px1(2,4) by (simp add: set_proxy_def)
  with r3 have r4: "reach (\<lambda>s. s = sy) system_step ?s4" by (rule reach_step)
  have "reach system_start system_step ?s4"
    by (rule reach_on [OF assms(1) r4])
  then have ok: "system_ok ?s4" by (rule system_machine.reach_safe)
  have "hc_subs (sy_head ?s4) = hc_subs (sy_head ?s3)" "hc_snapshot (sy_head ?s4) = Some ?u"
    "hc_dm (sy_head ?s4) = hc_dm (sy_head sy)"
    by (simp_all add: system_parts subscribe_def Let_def)
  with caught_up_serves [OF ok, of p ?px i "Suc 0" ?sb] sub have served:
    "\<exists>h. dget (px_table ?px) name = Some h \<and> ph_deployment_id (px_handles ?px ! h) = d \<and>
       ph_replicas (px_handles ?px ! h) = map routed_info infos"
    if "routes (hc_dm (sy_head sy)) d = Some (name, version, infos)" for d name version infos
    using that by (fastforce simp: set_proxy_def)
  have "dm_shape (hc_dm (sy_head sy))"
    using cluster_okD(1) [OF py_port.fleet_goodD(1) [OF system_machine.reach_safe [OF assms(1), unfolded system_ok_def]]]
    by (simp add: head_ok_def sy_head_def)
  then have "dkeys (px_table ?px) \<subseteq> routed_names (hc_dm (sy_head sy))"
    using px_apply_known [of ?u px1] table_known by fastforce
  moreover have "routed_names (hc_dm (sy_head sy)) \<subseteq> dkeys (px_table ?px)"
    using served by (fastforce simp: routed_names_def dkeys_iff)
  moreover have "dget (sy_proxies ?s4) p = Some ?px" "dget (sy_links ?s4) p = Some (i, 1)" by (simp_all add: set_proxy_def)
  ultimately show ?thesis
    using r4 px1(3) i \<open>hc_dm (sy_head ?s4) = hc_dm (sy_head sy)\<close> served
    by (intro exI [of _ ?s4] exI [of _ ?px] exI [of _ i]) (auto simp: update_keeps)
qed

theorem proxy_can_catch_up_witness:
  "\<exists>sy' px' h. reach (\<lambda>s. s = set_proxy 0 (px_init 50052 50053) \<lparr>sy_cluster = run_answered, sy_proxies = [], sy_links = []\<rparr>)
      system_step sy' \<and> dget (sy_proxies sy') 0 = Some px' \<and> dget (px_table px') ''/v1/chat/tinyllama'' = Some h \<and>
    map rt_replica_address (ph_replicas (px_handles px' ! h)) = [host_port ''10.0.0.1'' (int_text 50101)]"
proof -
  let ?s0 = "\<lparr>sy_cluster = run_answered, sy_proxies = [], sy_links = []\<rparr>"
  let ?s1 = "set_proxy 0 (px_init 50052 50053) ?s0"
  have "system_step ?s0 ?s1" by (rule system_step.starts) simp
  with control_reach [OF run_answered_reach] have r: "reach system_start system_step ?s1" by (rule reach_step)
  have px: "dget (sy_proxies ?s1) 0 = Some (px_init 50052 50053)" "px_subscribed (px_init 50052 50053)"
    by (simp_all add: set_proxy_def px_init_def)
  have "routes (hc_dm (sy_head ?s1)) 2 = Some (''/v1/chat/tinyllama'', ''1.0'',
      [\<lparr>ri_replica_num = replica_key (int_text 1) (int_text 1),
        ri_address = host_port ''10.0.0.1'' (int_text 50101), ri_state = ''RUNNING''\<rparr>])"
    using run_answered_route by (simp add: system_parts)
  with proxy_can_catch_up [OF r px] obtain sy' px' h where "reach (\<lambda>s. s = ?s1) system_step sy'"
    "dget (sy_proxies sy') 0 = Some px'" "dget (px_table px') ''/v1/chat/tinyllama'' = Some h"
    "ph_replicas (px_handles px' ! h) = map routed_info [\<lparr>ri_replica_num = replica_key (int_text 1) (int_text 1),
        ri_address = host_port ''10.0.0.1'' (int_text 50101), ri_state = ''RUNNING''\<rparr>]"
    by blast
  then show ?thesis
    by (intro exI [of _ sy'] exI [of _ px'] exI [of _ h]) (simp add: routed_info_def)
qed

end
