(* ===== verification/CppReplica.thy ===== *)
theory CppReplica
  imports Scheduler ReplicaEngine Utf8
begin

text \<open>
  \<open>src/components/replica_server.cc\<close>: the process that a scheduler starts for a replica
  (\<open>/usr/local/bin/replica_server\<close>).  It embeds the Python \<open>ReplicaManager\<close> of \<open>add_replica.py\<close>, registers
  with the scheduler and streams what \<open>generate_stream\<close> puts into a queue.

  A C++ \<open>std::string\<close> is the list of its bytes.  A Python text becomes its UTF-8 bytes when it is cast
  to \<open>std::string\<close> (\<open>std_string\<close>); the prompt of the engine is named by its UTF-8 bytes.
\<close>

section \<open>Numbers of the standard library\<close>

text \<open>
  \<open>std::stoi\<close> and \<open>std::stoul\<close>: white space and a sign may come first, what follows the digits is
  ignored.  \<open>None\<close> is an exception (\<open>invalid_argument\<close>, \<open>out_of_range\<close>).
\<close>

definition c_space :: "char \<Rightarrow> bool" where
  "c_space c \<longleftrightarrow> (of_char c :: nat) \<in> {9, 10, 11, 12, 13, 32}"

definition c_number :: "string \<Rightarrow> int option" where
  "c_number s =
     (let t = dropWhile c_space s;
          negative = (t \<noteq> [] \<and> hd t = CHR ''-'');
          digits = takeWhile is_digit (if t \<noteq> [] \<and> hd t \<in> {CHR ''-'', CHR ''+''} then tl t else t);
          n = int (foldl (\<lambda>a c. 10 * a + digit_value c) 0 digits)
      in if digits = [] then None else Some (if negative then - n else n))"

definition stoi :: "string \<Rightarrow> int option" where
  "stoi s = (case c_number s of None \<Rightarrow> None | Some n \<Rightarrow> if - (2 ^ 31) \<le> n \<and> n < 2 ^ 31 then Some n else None)"

definition stoul :: "string \<Rightarrow> int option" where
  "stoul s = (case c_number s of None \<Rightarrow> None | Some n \<Rightarrow> if \<bar>n\<bar> < 2 ^ 64 then Some (n mod 2 ^ 64) else None)"

text \<open>\<open>static_cast<uint32_t>\<close>\<close>

definition to_uint32 :: "int \<Rightarrow> int" where
  "to_uint32 n = n mod 2 ^ 32"

lemma c_number_int_text [simp]: "c_number (int_text n) = Some n"
proof -
  have d: "takeWhile is_digit (nat_text m) = nat_text m" for m
    by (simp add: takeWhile_eq_all_conv nat_text_chars(1))
  have sp: "dropWhile c_space (int_text n) = int_text n"
  proof -
    obtain c cs where c: "int_text n = c # cs" by (cases "int_text n") simp_all
    then have "\<not> is_space c" using int_text_chars(1) [of c n] by simp
    then have "\<not> c_space c" by (auto simp: is_space_def c_space_def)
    with c show ?thesis by simp
  qed
  show ?thesis
  proof (cases "n < 0")
    case True
    then have i: "int_text n = CHR ''-'' # nat_text (nat (- n))" by (simp add: int_text_def)
    with True sp show ?thesis unfolding c_number_def i by (simp add: Let_def d foldl_nat_text)
  next
    case False
    then have i: "int_text n = nat_text (nat n)" by (simp add: int_text_def)
    have "hd (nat_text (nat n)) \<in> set (nat_text (nat n))" by simp
    then have "hd (nat_text (nat n)) \<noteq> CHR ''-''" "hd (nat_text (nat n)) \<noteq> CHR ''+''"
      using nat_text_chars(4,5) by blast+
    with False sp show ?thesis unfolding c_number_def i by (simp add: Let_def d foldl_nat_text)
  qed
qed

lemma stoi_int_text [simp]: "- (2 ^ 31) \<le> n \<Longrightarrow> n < 2 ^ 31 \<Longrightarrow> stoi (int_text n) = Some n"
  by (simp add: stoi_def)

lemma stoul_int_text [simp]: "0 \<le> n \<Longrightarrow> n < 2 ^ 64 \<Longrightarrow> stoul (int_text n) = Some n"
  by (simp add: stoul_def)

section \<open>The arguments\<close>

text \<open>The global variables that \<open>parse_args\<close> fills.\<close>

record cpp_args =
  cv_replica_id :: string
  cv_parent_port :: string
  cv_port :: string
  cv_deployment_name :: string
  cv_deployment_id :: string
  cv_num_cpus :: string
  cv_num_gpus :: string
  cv_metrics_port :: string

definition no_args :: cpp_args where
  "no_args = \<lparr>cv_replica_id = [], cv_parent_port = [], cv_port = [], cv_deployment_name = [],
     cv_deployment_id = [], cv_num_cpus = [], cv_num_gpus = [], cv_metrics_port = []\<rparr>"

text \<open>
  \<open>get_arg\<close>: the value and the arguments after it.  \<open>None\<close> is a flag at the end: \<open>argv[argc]\<close> is a
  null pointer, from which no \<open>std::string\<close> can be made.
\<close>

definition get_arg :: "string \<Rightarrow> string list \<Rightarrow> (string \<times> string list) option" where
  "get_arg a rest =
     (case dropWhile (\<lambda>c. c \<noteq> CHR ''='') a of
        eq # v \<Rightarrow> Some (v, rest)
      | [] \<Rightarrow> (case rest of [] \<Rightarrow> None | v # rest' \<Rightarrow> Some (v, rest')))"

lemma get_arg_shorter: "get_arg a rest = Some (v, rest') \<Longrightarrow> length rest' \<le> length rest"
  by (auto simp: get_arg_def split: list.splits)

text \<open>The variable that an argument names.\<close>

definition store_arg :: "string \<Rightarrow> (string \<Rightarrow> cpp_args \<Rightarrow> cpp_args) option" where
  "store_arg a =
     (if a = ''--replica_id'' then Some (\<lambda>v o'. o'\<lparr>cv_replica_id := v\<rparr>)
      else if a = ''--parent_port'' then Some (\<lambda>v o'. o'\<lparr>cv_parent_port := v\<rparr>)
      else if a = ''--port'' then Some (\<lambda>v o'. o'\<lparr>cv_port := v\<rparr>)
      else if a = ''--deployment_name'' then Some (\<lambda>v o'. o'\<lparr>cv_deployment_name := v\<rparr>)
      else if a = ''--deployment_id'' then Some (\<lambda>v o'. o'\<lparr>cv_deployment_id := v\<rparr>)
      else if a = ''--num_cpus'' then Some (\<lambda>v o'. o'\<lparr>cv_num_cpus := v\<rparr>)
      else if a = ''--num_gpus'' then Some (\<lambda>v o'. o'\<lparr>cv_num_gpus := v\<rparr>)
      else if a = ''--metrics_port'' then Some (\<lambda>v o'. o'\<lparr>cv_metrics_port := v\<rparr>)
      else None)"

function cpp_parse_args :: "string list \<Rightarrow> cpp_args \<Rightarrow> cpp_args option" where
  "cpp_parse_args [] o' = Some o'"
| "cpp_parse_args (a # rest) o' =
     (case store_arg a of
        None \<Rightarrow> cpp_parse_args rest o'
      | Some f \<Rightarrow>
          (case get_arg a rest of
             None \<Rightarrow> None
           | Some (v, rest') \<Rightarrow> cpp_parse_args rest' (f v o')))"
  by pat_completeness auto

termination
  by (relation "measure (\<lambda>(args, o'). length args)") (auto dest: get_arg_shorter)

text \<open>What \<open>parse_args\<close> returns.\<close>

definition args_complete :: "cpp_args \<Rightarrow> bool" where
  "args_complete o' \<longleftrightarrow> cv_replica_id o' \<noteq> [] \<and> cv_port o' \<noteq> [] \<and> cv_metrics_port o' \<noteq> []"

text \<open>None of the eight flags contains \<open>=\<close>, so the first branch of \<open>get_arg\<close> is never taken.\<close>

lemma flag_takes_next:
  assumes "store_arg a = Some f"
  shows "get_arg a rest = (case rest of [] \<Rightarrow> None | v # rest' \<Rightarrow> Some (v, rest'))"
proof -
  have "CHR ''='' \<notin> set a" using assms by (auto simp: store_arg_def split: if_splits)
  then have "dropWhile (\<lambda>c. c \<noteq> CHR ''='') a = []" unfolding dropWhile_eq_Nil_conv by blast
  then show ?thesis unfolding get_arg_def by (simp only: list.case)
qed

lemma parse_flag:
  "store_arg a = Some f \<Longrightarrow> cpp_parse_args (a # v # rest) o' = cpp_parse_args rest (f v o')"
  using flag_takes_next [of a f "v # rest"] by simp

lemma store_flags:
  "store_arg ''--replica_id'' = Some (\<lambda>v o'. o'\<lparr>cv_replica_id := v\<rparr>)"
  "store_arg ''--parent_port'' = Some (\<lambda>v o'. o'\<lparr>cv_parent_port := v\<rparr>)"
  "store_arg ''--port'' = Some (\<lambda>v o'. o'\<lparr>cv_port := v\<rparr>)"
  "store_arg ''--deployment_name'' = Some (\<lambda>v o'. o'\<lparr>cv_deployment_name := v\<rparr>)"
  "store_arg ''--deployment_id'' = Some (\<lambda>v o'. o'\<lparr>cv_deployment_id := v\<rparr>)"
  "store_arg ''--num_cpus'' = Some (\<lambda>v o'. o'\<lparr>cv_num_cpus := v\<rparr>)"
  "store_arg ''--num_gpus'' = Some (\<lambda>v o'. o'\<lparr>cv_num_gpus := v\<rparr>)"
  "store_arg ''--metrics_port'' = Some (\<lambda>v o'. o'\<lparr>cv_metrics_port := v\<rparr>)"
  by (simp_all add: store_arg_def)

lemmas parse_flags = store_flags [THEN parse_flag]

text \<open>The process reads what the scheduler writes.\<close>

lemma cpp_reads_command:
  "cpp_parse_args (tl (replica_command k port name d parent_port)) no_args =
    Some \<lparr>cv_replica_id = int_text k, cv_parent_port = parent_port, cv_port = port, cv_deployment_name = name,
      cv_deployment_id = d, cv_num_cpus = int_text 1, cv_num_gpus = int_text 1, cv_metrics_port = int_text (9000 + k)\<rparr>"
  unfolding replica_command_def list.sel by (simp only: parse_flags cpp_parse_args.simps(1)) (simp add: no_args_def)

section \<open>Registration and \<open>main\<close>\<close>

text \<open>
  The message of \<open>RegisterReplicaWithScheduler\<close>; \<open>None\<close> is an exception of \<open>std::stoul\<close>.
\<close>

definition cpp_status :: "cpp_args \<Rightarrow> int \<Rightarrow> replica_status option" where
  "cpp_status o' pid =
     (case (stoul (cv_replica_id o'), stoul (cv_deployment_id o')) of
        (Some k, Some d) \<Rightarrow>
          Some \<lparr>rs_state = ''RUNNING'', rs_replica_id = to_uint32 k, rs_pid = to_uint32 pid, rs_port = cv_port o',
            rs_deployment_id = to_uint32 d, rs_deployment_name = cv_deployment_name o'\<rparr>
      | _ \<Rightarrow> None)"

text \<open>
  How the process ends, or that it serves: \<open>Exits\<close> with a code, \<open>Terminates\<close> by an exception that
  nothing catches, \<open>Crashes\<close> at \<open>server->Wait()\<close> on the null pointer that \<open>BuildAndStart\<close> returns when the
  port is taken.
\<close>

datatype cpp_end = Exits int | Terminates | Crashes | Serves queue_manager

text \<open>
  \<open>RegisterReplicaWithScheduler\<close> and what follows it.  The stub gets the address of the channel; its
  answer is \<open>None\<close> if the call fails, else the field \<open>ack\<close>.  There is one attempt.
\<close>

definition cpp_register ::
  "(string \<Rightarrow> replica_status \<Rightarrow> 's \<Rightarrow> bool option \<times> 's) \<Rightarrow> cpp_args \<Rightarrow> int \<Rightarrow> 's \<Rightarrow> cpp_end option \<times> 's" where
  "cpp_register stub o' pid s =
     (case cpp_status o' pid of
        None \<Rightarrow> (Some Terminates, s)
      | Some request \<Rightarrow>
          (case stub (''0.0.0.0:'' @ cv_parent_port o') request s of
             (Some True, s') \<Rightarrow> (None, s')
           | (_, s') \<Rightarrow> (Some (Exits 1), s')))"

text \<open>
  \<open>main\<close>: \<open>metrics_failure\<close> is what \<open>start_http_server\<close> raises at a port, \<open>listening\<close> whether the gRPC
  server got its port, \<open>exposed\<close> whether the exposer gets its port.
\<close>

definition cpp_main ::
  "(string \<Rightarrow> string option) \<Rightarrow> (engine_args \<Rightarrow> (string \<Rightarrow> generation res) res) \<Rightarrow> (int \<Rightarrow> exn option) \<Rightarrow>
   (string \<Rightarrow> bool) \<Rightarrow> (int \<Rightarrow> bool) \<Rightarrow> (string \<Rightarrow> replica_status \<Rightarrow> 's \<Rightarrow> bool option \<times> 's) \<Rightarrow> int \<Rightarrow>
   string list \<Rightarrow> 's \<Rightarrow> cpp_end \<times> 's" where
  "cpp_main model_ids load metrics_failure listening exposed stub pid argv s =
     (case cpp_parse_args argv no_args of
        None \<Rightarrow> (Terminates, s)
      | Some o' \<Rightarrow>
          if \<not> args_complete o' then (Exits 1, s)
          else
            (case (stoi (cv_deployment_id o'), stoi (cv_metrics_port o')) of
               (Some deployment_id, Some metrics_port) \<Rightarrow>
                 (case queue_manager_init model_ids load (metrics_failure metrics_port)
                     (cv_deployment_name o') deployment_id metrics_port of
                    Inl e \<Rightarrow> (Terminates, s)
                  | Inr mgr \<Rightarrow>
                      (case cpp_register stub o' pid s of
                         (Some ending, s') \<Rightarrow> (ending, s')
                       | (None, s') \<Rightarrow>
                           (if \<not> exposed (metrics_port + 1) then Terminates
                            else if \<not> listening (''0.0.0.0:'' @ cv_port o') then Crashes
                            else Serves mgr, s')))
             | _ \<Rightarrow> (Terminates, s)))"

text \<open>The process that a scheduler starts for a creation call.\<close>

lemma cpp_main_command:
  assumes "model_ids name = Some model_id" and "metrics_failure (9000 + k) = None"
    and "port \<noteq> []" and "0 \<le> k" and "9000 + k < 2 ^ 31" and "0 \<le> d" and "d < 2 ^ 31" and "0 \<le> pid" and "pid < 2 ^ 32"
    and "stub (''0.0.0.0:'' @ parent_port) \<lparr>rs_state = ''RUNNING'', rs_replica_id = k, rs_pid = pid, rs_port = port,
      rs_deployment_id = d, rs_deployment_name = name\<rparr> s = (Some True, s')"
  shows "cpp_main model_ids load metrics_failure listening exposed stub pid
      (tl (replica_command k port name (int_text d) parent_port)) s =
    (if \<not> exposed (9001 + k) then Terminates
     else if \<not> listening (''0.0.0.0:'' @ port) then Crashes
     else Serves \<lparr>qm_deployment_name = name, qm_deployment_id = d, qm_metrics_port = 9000 + k, qm_model_id = model_id,
       qm_engine = (case load (queue_engine_args model_id) of Inl e \<Rightarrow> None | Inr gen \<Rightarrow> Some gen)\<rparr>, s')"
proof -
  let ?o = "\<lparr>cv_replica_id = int_text k, cv_parent_port = parent_port, cv_port = port, cv_deployment_name = name,
      cv_deployment_id = int_text d, cv_num_cpus = int_text 1, cv_num_gpus = int_text 1,
      cv_metrics_port = int_text (9000 + k)\<rparr>"
  have "cpp_status ?o pid = Some \<lparr>rs_state = ''RUNNING'', rs_replica_id = k, rs_pid = pid, rs_port = port,
      rs_deployment_id = d, rs_deployment_name = name\<rparr>"
    using assms(4-9) by (simp add: cpp_status_def to_uint32_def)
  then have "cpp_register stub ?o pid s = (None, s')" using assms(10) by (simp add: cpp_register_def)
  moreover have "queue_manager_init model_ids load (metrics_failure (9000 + k)) name d (9000 + k) =
      Inr \<lparr>qm_deployment_name = name, qm_deployment_id = d, qm_metrics_port = 9000 + k, qm_model_id = model_id,
        qm_engine = (case load (queue_engine_args model_id) of Inl e \<Rightarrow> None | Inr gen \<Rightarrow> Some gen)\<rparr>"
    using assms(1,2) by (simp add: queue_manager_init_def init_model_def)
  moreover have "args_complete ?o" using assms(3) by (simp add: args_complete_def)
  moreover have "stoi (int_text d) = Some d" "stoi (int_text (9000 + k)) = Some (9000 + k)"
    using assms(4-7) by simp_all
  ultimately show ?thesis by (simp add: cpp_main_def cpp_reads_command add.commute)
qed

end
