(* ===== verification/CppStream.thy ===== *)
theory CppStream
  imports CppReplica
begin

text \<open>
  \<open>SendRequest\<close> of \<open>src/components/replica_server.cc\<close>: the coroutine \<open>generate_stream\<close> runs on the Python
  thread and puts pieces of text into a \<open>ThreadSafeQueue\<close>; the gRPC thread takes them out and writes one
  reply for each.  The two threads are the two kinds of steps of \<open>stream_step\<close>.  \<open>sq_lost\<close> is a ghost:
  a \<open>Write\<close> returned false.
\<close>

section \<open>Texts as bytes\<close>

text \<open>\<open>item.cast<std::string>()\<close>: the UTF-8 bytes of a text (of code points below 256, as everywhere here).\<close>

definition std_string :: "string \<Rightarrow> string" where
  "std_string s = map char_of (utf8_encode (map of_char s))"

text \<open>Whether bytes become a Python text when they are passed to Python code.\<close>

definition py_castable :: "string \<Rightarrow> bool" where
  "py_castable bytes \<longleftrightarrow> utf8_decode (map of_char bytes) \<noteq> None"

lemma std_string_simps [simp]: "std_string [] = []" "std_string (s @ t) = std_string s @ std_string t"
  by (simp_all add: std_string_def utf8_encode_def)

lemma std_string_concat: "std_string (concat ss) = concat (map std_string ss)"
  by (induction ss) simp_all

lemma std_string_empty [simp]: "std_string s = [] \<longleftrightarrow> s = []"
  by (cases s) (auto simp: std_string_def utf8_encode_def utf8_char_def)

lemma std_string_ascii: "\<forall>c \<in> set s. (of_char c :: nat) < 128 \<Longrightarrow> std_string s = s"
  by (induction s) (auto simp: std_string_def utf8_encode_def utf8_char_def)

section \<open>\<open>ThreadSafeQueue\<close>\<close>

record safe_queue =
  tq_items :: "string list"
  tq_closed :: bool

definition tq_init :: safe_queue where
  "tq_init = \<lparr>tq_items = [], tq_closed = False\<rparr>"

definition tq_put :: "string \<Rightarrow> safe_queue \<Rightarrow> safe_queue" where
  "tq_put val q = q\<lparr>tq_items := tq_items q @ [val]\<rparr>"

definition tq_close :: "safe_queue \<Rightarrow> safe_queue" where
  "tq_close q = q\<lparr>tq_closed := True\<rparr>"

text \<open>\<open>get\<close>; the outer \<open>None\<close> is a caller that waits.\<close>

definition tq_get :: "safe_queue \<Rightarrow> (string option \<times> safe_queue) option" where
  "tq_get q =
     (case tq_items q of
        [] \<Rightarrow> if tq_closed q then Some (None, q) else None
      | val # rest \<Rightarrow> Some (Some val, q\<lparr>tq_items := rest\<rparr>))"

text \<open>The callback that Python calls with each item.\<close>

definition cpp_put :: "string option \<Rightarrow> safe_queue \<Rightarrow> safe_queue" where
  "cpp_put item q = (case item of None \<Rightarrow> tq_close q | Some t \<Rightarrow> tq_put (std_string t) q)"

section \<open>A request\<close>

datatype grpc_status = StatusOk | StatusError string

text \<open>The counters of the C++ process, each for its deployment.\<close>

record cpp_counts =
  cn_ttft :: nat
  cn_latency :: nat
  cn_requests :: nat

record send_request =
  sq_todo :: "string option list"
  sq_queue :: safe_queue
  sq_written :: "replica_reply list"
  sq_first_token_seen :: bool
  sq_status :: "grpc_status option"
  sq_counts :: cpp_counts
  sq_lost :: bool

text \<open>
  The handler up to its loop: the coroutine is scheduled, and \<open>sq_todo\<close> is what it is going to put.  A
  prompt that Python cannot decode ends the call.
\<close>

definition send_start :: "engine \<Rightarrow> string \<Rightarrow> metrics \<Rightarrow> cpp_counts \<Rightarrow> send_request" where
  "send_start engine prompt m counts =
     (let formatted = format_prompt prompt;
          s = \<lparr>sq_todo = [], sq_queue = tq_init, sq_written = [], sq_first_token_seen = False,
               sq_status = None, sq_counts = counts, sq_lost = False\<rparr>
      in if py_castable formatted then s\<lparr>sq_todo := fst (snd (generate_stream engine formatted [] m))\<rparr>
         else s\<lparr>sq_status := Some (StatusError ''CANCELLED'')\<rparr>)"

definition cpp_reply :: "string \<Rightarrow> replica_reply" where
  "cpp_reply item = reply item (sublist ''[PYTHON ERROR]'' item)"

text \<open>The time to the first token is observed before the item is written.\<close>

definition observe_first :: "send_request \<Rightarrow> send_request" where
  "observe_first s =
     (if sq_first_token_seen s then s
      else s\<lparr>sq_first_token_seen := True, sq_counts := (sq_counts s)\<lparr>cn_ttft := cn_ttft (sq_counts s) + 1\<rparr>\<rparr>)"

definition end_request :: "send_request \<Rightarrow> send_request" where
  "end_request s = s\<lparr>sq_status := Some StatusOk, sq_counts := (sq_counts s)
     \<lparr>cn_latency := cn_latency (sq_counts s) + 1, cn_requests := cn_requests (sq_counts s) + 1\<rparr>\<rparr>"

inductive stream_step :: "send_request \<Rightarrow> send_request \<Rightarrow> bool" where
  put: "sq_todo s = item # rest \<Longrightarrow>
    stream_step s (s\<lparr>sq_todo := rest, sq_queue := cpp_put item (sq_queue s)\<rparr>)"
| sends: "sq_status s = None \<Longrightarrow> tq_get (sq_queue s) = Some (Some item, q) \<Longrightarrow>
    stream_step s (observe_first (s\<lparr>sq_queue := q, sq_written := sq_written s @ [cpp_reply item]\<rparr>))"
| send_fails: "sq_status s = None \<Longrightarrow> tq_get (sq_queue s) = Some (Some item, q) \<Longrightarrow>
    stream_step s (end_request (observe_first (s\<lparr>sq_queue := q, sq_lost := True\<rparr>)))"
| drained: "sq_status s = None \<Longrightarrow> tq_get (sq_queue s) = Some (None, q) \<Longrightarrow> stream_step s (end_request s)"

inductive_cases stream_stepE: "stream_step s t"

text \<open>A state in which neither thread can go on.\<close>

definition settled :: "send_request \<Rightarrow> bool" where
  "settled s \<longleftrightarrow> sq_todo s = [] \<and> (sq_status s \<noteq> None \<or> tq_get (sq_queue s) = None)"

lemma settled_iff: "settled s \<longleftrightarrow> (\<nexists>t. stream_step s t)"
proof
  assume "settled s"
  then show "\<nexists>t. stream_step s t" by (auto simp: settled_def elim!: stream_stepE)
next
  assume stuck: "\<nexists>t. stream_step s t"
  have "sq_todo s = []" using stuck put by (cases "sq_todo s") blast+
  moreover have "tq_get (sq_queue s) = None" if "sq_status s = None"
  proof (rule ccontr)
    assume "tq_get (sq_queue s) \<noteq> None"
    then obtain x q where "tq_get (sq_queue s) = Some (x, q)" by auto
    with that stuck sends drained show False by (cases x) blast+
  qed
  ultimately show "settled s" unfolding settled_def by (cases "sq_status s = None") simp_all
qed

lemma first_frame [simp]:
  "sq_todo (observe_first s) = sq_todo s" "sq_queue (observe_first s) = sq_queue s"
  "sq_written (observe_first s) = sq_written s" "sq_status (observe_first s) = sq_status s"
  "sq_lost (observe_first s) = sq_lost s"
  by (simp_all add: observe_first_def)

lemma end_frame [simp]:
  "sq_todo (end_request s) = sq_todo s" "sq_queue (end_request s) = sq_queue s"
  "sq_written (end_request s) = sq_written s" "sq_status (end_request s) = Some StatusOk"
  "sq_lost (end_request s) = sq_lost s"
  by (simp_all add: end_request_def)

section \<open>Every request ends\<close>

text \<open>A put takes one item out of two units of work, a write or the end takes one.\<close>

definition stream_work :: "send_request \<Rightarrow> nat" where
  "stream_work s = 2 * length (sq_todo s) + length (tq_items (sq_queue s)) + (if sq_status s = None then 1 else 0)"

lemma step_works: "stream_step s t \<Longrightarrow> stream_work t < stream_work s"
  by (erule stream_stepE)
    (auto simp: stream_work_def cpp_put_def tq_put_def tq_close_def tq_get_def split: option.splits list.splits if_splits)

lemma stream_wf: "wf {(t, s). stream_step s t}"
  by (rule wf_subset [OF wf_measure [of stream_work]]) (auto dest: step_works)

section \<open>What is written\<close>

text \<open>
  The invariant, for the pieces \<open>ps\<close> of the coroutine: what is written, queued and still to be put are
  the pieces in order, and the queue is closed exactly when nothing is left to be put.
\<close>

definition stream_ok :: "string list \<Rightarrow> send_request \<Rightarrow> bool" where
  "stream_ok ps s \<longleftrightarrow> sq_status s \<in> {None, Some StatusOk} \<and>
     (\<exists>rest. sq_todo s = (if tq_closed (sq_queue s) then [] else map Some rest @ [None]) \<and>
       (tq_closed (sq_queue s) \<longrightarrow> rest = []) \<and>
       (sq_lost s \<and> prefix (sq_written s) (map (cpp_reply \<circ> std_string) ps) \<and> sq_status s = Some StatusOk \<or>
        \<not> sq_lost s \<and> sq_written s @ map cpp_reply (tq_items (sq_queue s)) @ map (cpp_reply \<circ> std_string) rest =
          map (cpp_reply \<circ> std_string) ps \<and>
        (sq_status s \<noteq> None \<longrightarrow> tq_closed (sq_queue s) \<and> tq_items (sq_queue s) = [])))"

lemma stream_ok_step: "stream_step s t \<Longrightarrow> stream_ok ps s \<Longrightarrow> stream_ok ps t"
proof (erule stream_stepE)
  fix item rest assume todo: "sq_todo s = item # rest"
    and t: "t = s\<lparr>sq_todo := rest, sq_queue := cpp_put item (sq_queue s)\<rparr>" and ok: "stream_ok ps s"
  obtain us where "\<not> tq_closed (sq_queue s)" "item # rest = map Some us @ [None]"
    using ok todo by (auto simp: stream_ok_def split: if_splits)
  then show "stream_ok ps t" using ok todo t
    by (cases us) (auto simp: stream_ok_def cpp_put_def tq_put_def tq_close_def split: if_splits)
next
  fix item q assume "stream_ok ps s" and "t = end_request (observe_first (s\<lparr>sq_queue := q, sq_lost := True\<rparr>))"
    and "sq_status s = None" and "tq_get (sq_queue s) = Some (Some item, q)"
  then show "stream_ok ps t"
    by (auto simp: stream_ok_def tq_get_def split: list.splits if_splits intro: prefixI [OF sym])
qed (auto simp: stream_ok_def tq_get_def split: list.splits if_splits)

text \<open>The items a coroutine puts: with an engine they end in the marker, without one there are none.\<close>

lemma stream_items:
  "(\<exists>ps. fst (snd (generate_stream (Some gen) prompt [] m)) = map Some ps @ [None]) \<or>
   (\<exists>e. gen prompt = Inl e \<and> generate_stream (Some gen) prompt [] m = (Inl e, [], m))"
proof (cases "gen prompt")
  case (Inl e)
  then show ?thesis by (simp add: generate_stream_def)
next
  case (Inr b)
  obtain outputs ending where b: "b = (outputs, ending)" by (cases b)
  obtain x queue m' where l: "generate_loop outputs ending 0 False False [] m = (x, queue, m')"
    by (cases "generate_loop outputs ending 0 False False [] m")
  obtain ps where "queue = map Some ps"
    using generate_loop_queue [of outputs ending 0 False False "[]" m] l by auto
  then have "\<exists>qs. fst (snd (generate_stream (Some gen) prompt [] m)) = map Some qs @ [None]"
    using Inr b l
    by (cases x) (auto simp: generate_stream_def intro: exI [of _ ps] exI [of _ "ps @ [''[PYTHON ERROR] '' @ exn_text e]" for e])
  then show ?thesis by blast
qed

definition starts :: "string list \<Rightarrow> send_request \<Rightarrow> bool" where
  "starts ps s \<longleftrightarrow> sq_todo s = map Some ps @ [None] \<and> sq_queue s = tq_init \<and> sq_written s = [] \<and>
     sq_status s = None \<and> \<not> sq_lost s"

interpretation cpp_stream: safe_machine "starts ps" stream_step "stream_ok ps" for ps
proof
  show "stream_ok ps s" if "starts ps s" for s
    using that by (simp add: starts_def stream_ok_def tq_init_def)
qed (rule stream_ok_step)

text \<open>Where a request comes to rest: everything was written, unless the client was lost.\<close>

lemma stream_rest:
  assumes "reach (starts ps) stream_step s" and "\<nexists>t. stream_step s t"
  shows "sq_status s = Some StatusOk" and "prefix (sq_written s) (map (cpp_reply \<circ> std_string) ps)"
    and "\<not> sq_lost s \<Longrightarrow> sq_written s = map (cpp_reply \<circ> std_string) ps"
proof -
  have ok: "stream_ok ps s" using assms(1) by (rule cpp_stream.reach_safe)
  have "settled s" using assms(2) settled_iff by blast
  then have closed: "tq_closed (sq_queue s)" and st: "sq_status s \<noteq> None \<or> tq_items (sq_queue s) = [] \<and> \<not> tq_closed (sq_queue s)"
    using ok by (auto simp: settled_def stream_ok_def tq_get_def split: if_splits list.splits)
  then show "sq_status s = Some StatusOk" using ok by (auto simp: stream_ok_def)
  then show "prefix (sq_written s) (map (cpp_reply \<circ> std_string) ps)"
    and "\<not> sq_lost s \<Longrightarrow> sq_written s = map (cpp_reply \<circ> std_string) ps"
    using ok closed by (auto simp: stream_ok_def)
qed

lemma start_starts:
  assumes "py_castable (format_prompt prompt)"
    and "fst (snd (generate_stream engine (format_prompt prompt) [] m)) = map Some ps @ [None]"
  shows "starts ps (send_start engine prompt m counts)"
  using assms by (simp add: send_start_def starts_def)

lemma reach_from_start:
  assumes "reach (\<lambda>s'. s' = s0) step s" and "init s0"
  shows "reach init step s"
  using assms(1) by (rule reach_on [OF reach_init, rotated]) (rule assms(2))

text \<open>While the client stays, the two threads bring the request to rest.\<close>

lemma patient_run:
  "\<not> sq_lost s \<Longrightarrow> \<exists>t. reach (\<lambda>s'. s' = s) stream_step t \<and> (\<nexists>u. stream_step t u) \<and> \<not> sq_lost t"
proof (induction "stream_work s" arbitrary: s rule: less_induct)
  case less
  show ?case
  proof (cases "settled s")
    case True
    have "reach (\<lambda>s'. s' = s) stream_step s" by (rule reach_init) simp
    with True less.prems show ?thesis using settled_iff by blast
  next
    case False
    have "\<exists>t. stream_step s t \<and> \<not> sq_lost t"
    proof (cases "sq_todo s")
      case (Cons item rest)
      from put [OF this] less.prems show ?thesis by (metis send_request.select_convs(7) send_request.surjective send_request.update_convs(1,2))
    next
      case Nil
      with False obtain x q where "sq_status s = None" "tq_get (sq_queue s) = Some (x, q)"
        by (auto simp: settled_def)
      then show ?thesis using less.prems sends [of s _ q] drained [of s q]
        by (cases x) (metis end_frame(5), metis first_frame(5) send_request.select_convs(7) send_request.surjective
          send_request.update_convs(2,3))
    qed
    then obtain t where t: "stream_step s t" "\<not> sq_lost t" by blast
    from less.hyps [OF step_works [OF t(1)] t(2)] obtain u where
      u: "reach (\<lambda>s'. s' = t) stream_step u" "\<nexists>v. stream_step u v" "\<not> sq_lost u" by blast
    have "reach (\<lambda>s'. s' = s) stream_step s" by (rule reach_init) simp
    then have "reach (\<lambda>s'. s' = s) stream_step t" using t(1) by (rule reach_step)
    from reach_on [OF this u(1)] u(2,3) show ?thesis by blast
  qed
qed

text \<open>What is counted: the end of the request once, the first token when the first item is taken.\<close>

definition counted_from :: "cpp_counts \<Rightarrow> send_request \<Rightarrow> bool" where
  "counted_from c s \<longleftrightarrow>
     cn_requests (sq_counts s) = cn_requests c + (if sq_status s = None then 0 else 1) \<and>
     cn_latency (sq_counts s) = cn_latency c + (if sq_status s = None then 0 else 1) \<and>
     cn_ttft (sq_counts s) = cn_ttft c + (if sq_first_token_seen s then 1 else 0) \<and>
     (sq_first_token_seen s \<longleftrightarrow> sq_written s \<noteq> [] \<or> sq_lost s)"

definition uncounted :: "cpp_counts \<Rightarrow> send_request \<Rightarrow> bool" where
  "uncounted c s \<longleftrightarrow> sq_counts s = c \<and> sq_status s = None \<and> \<not> sq_first_token_seen s \<and> sq_written s = [] \<and> \<not> sq_lost s"

lemma counted_step: "stream_step s t \<Longrightarrow> counted_from c s \<Longrightarrow> counted_from c t"
  by (erule stream_stepE) (simp_all add: counted_from_def observe_first_def end_request_def split: if_splits)

interpretation cpp_counting: safe_machine "uncounted c" stream_step "counted_from c" for c
proof
  show "counted_from c s" if "uncounted c s" for s
    using that by (simp add: uncounted_def counted_from_def)
qed (rule counted_step)

lemma start_uncounted: "py_castable (format_prompt prompt) \<Longrightarrow> uncounted counts (send_start engine prompt m counts)"
  by (simp add: send_start_def uncounted_def Let_def)

text \<open>Where a request with an engine comes to rest.\<close>

lemma delivered_text:
  assumes "gen (format_prompt prompt) = Inr (outputs, None)" and "py_castable (format_prompt prompt)"
    and "growing [] (first_texts outputs)" and "\<forall>ro \<in> set outputs. ro_texts ro \<noteq> []"
    and "reach (\<lambda>s. s = send_start (Some gen) prompt m counts) stream_step s" and "\<nexists>t. stream_step s t"
  shows "sq_status s = Some StatusOk \<and>
      prefix (concat (map rp_text (sq_written s))) (std_string (final_text [] (first_texts outputs))) \<and>
      (\<not> sq_lost s \<longrightarrow> concat (map rp_text (sq_written s)) = std_string (final_text [] (first_texts outputs)) \<and>
        (\<forall>r \<in> set (sq_written s). rp_text r \<noteq> []))"
proof -
  obtain ps m' where g: "generate_loop outputs None 0 False False [] m = (None, map Some ps, m')"
    "concat ps = final_text [] (first_texts outputs)" "[] \<notin> set ps"
    using generate_loop_pieces [OF assms(3,4), of None False False "[]" m] by auto
  then have "fst (snd (generate_stream (Some gen) (format_prompt prompt) [] m)) = map Some ps @ [None]"
    using assms(1) by (simp add: generate_stream_def)
  from start_starts [OF assms(2) this] have st: "starts ps (send_start (Some gen) prompt m counts)" .
  note rest = stream_rest [OF reach_from_start [OF assms(5), of "starts ps"] assms(6), OF st]
  have t: "rp_text (cpp_reply x) = x" for x by (simp add: cpp_reply_def reply_def)
  have full: "concat (map rp_text (map (cpp_reply \<circ> std_string) ps)) = std_string (final_text [] (first_texts outputs))"
    by (simp add: t comp_def std_string_concat flip: g(2))
  have "prefix (concat (map rp_text us)) (concat (map rp_text vs))" if "prefix us vs" for us vs
    using that by (auto simp: prefix_def)
  from this [OF rest(2)] have "prefix (concat (map rp_text (sq_written s))) (std_string (final_text [] (first_texts outputs)))"
    by (simp only: full)
  moreover have "\<forall>r \<in> set (map (cpp_reply \<circ> std_string) ps). rp_text r \<noteq> []" using g(3) t by auto
  ultimately show ?thesis using rest(1,3) full by metis
qed

text \<open>
  C17. The C++ replica delivers the model's text.  For a prompt that Python can decode and an engine whose
  texts grow, every run of the two threads ends.  Where it ends the call has status \<open>OK\<close>, and one request
  and one latency were counted, and one time to a first token unless nothing came.  With the client still
  there the texts of the replies put together are the UTF-8 bytes of the final text, and no reply is
  empty; the bytes of a client that is lost are a beginning of them.
\<close>

theorem cpp_replica_delivers:
  assumes "gen (format_prompt prompt) = Inr (outputs, None)" and "py_castable (format_prompt prompt)"
    and "growing [] (first_texts outputs)" and "\<forall>ro \<in> set outputs. ro_texts ro \<noteq> []"
  shows "wf {(t, s). stream_step s t} \<and>
    (\<forall>s. reach (\<lambda>s. s = send_start (Some gen) prompt m counts) stream_step s \<and> (\<nexists>t. stream_step s t) \<longrightarrow>
      sq_status s = Some StatusOk \<and>
      sq_counts s = \<lparr>cn_ttft = cn_ttft counts + (if sq_written s = [] \<and> \<not> sq_lost s then 0 else 1),
        cn_latency = cn_latency counts + 1, cn_requests = cn_requests counts + 1\<rparr> \<and>
      prefix (concat (map rp_text (sq_written s))) (std_string (final_text [] (first_texts outputs))) \<and>
      (\<not> sq_lost s \<longrightarrow> concat (map rp_text (sq_written s)) = std_string (final_text [] (first_texts outputs)) \<and>
        (\<forall>r \<in> set (sq_written s). rp_text r \<noteq> [])))"
proof (intro conjI allI impI stream_wf)
  fix s assume "reach (\<lambda>s. s = send_start (Some gen) prompt m counts) stream_step s \<and> (\<nexists>t. stream_step s t)"
  then have r: "reach (\<lambda>s. s = send_start (Some gen) prompt m counts) stream_step s" "\<nexists>t. stream_step s t" by blast+
  note d = delivered_text [of gen prompt outputs, OF assms r]
  then show "sq_status s = Some StatusOk"
    "prefix (concat (map rp_text (sq_written s))) (std_string (final_text [] (first_texts outputs)))" by blast+
  show "concat (map rp_text (sq_written s)) = std_string (final_text [] (first_texts outputs))" if "\<not> sq_lost s"
    using d that by blast
  show "\<forall>r \<in> set (sq_written s). rp_text r \<noteq> []" if "\<not> sq_lost s" using d that by blast
  have "counted_from counts s"
    by (rule cpp_counting.reach_safe [OF reach_from_start [OF r(1)], OF start_uncounted [OF assms(2)]])
  with d show "sq_counts s = \<lparr>cn_ttft = cn_ttft counts + (if sq_written s = [] \<and> \<not> sq_lost s then 0 else 1),
      cn_latency = cn_latency counts + 1, cn_requests = cn_requests counts + 1\<rparr>"
    by (cases "sq_counts s") (simp add: counted_from_def)
qed

definition two_steps :: "string \<Rightarrow> generation res" where
  "two_steps prompt = Inr ([\<lparr>ro_texts = [''Hel''], ro_finished = False\<rparr>, \<lparr>ro_texts = [''Hello''], ro_finished = True\<rparr>], None)"

definition zero_metrics :: metrics where
  "zero_metrics = \<lparr>me_latency = 0, me_success = 0, me_error = 0, me_first_token = 0, me_inter_token = 0\<rparr>"

definition zero_counts :: cpp_counts where
  "zero_counts = \<lparr>cn_ttft = 0, cn_latency = 0, cn_requests = 0\<rparr>"

theorem cpp_replica_delivers_witness:
  "\<exists>s. reach (\<lambda>s. s = send_start (Some two_steps) ''hi'' zero_metrics zero_counts) stream_step s \<and>
    sq_status s = Some StatusOk \<and> concat (map rp_text (sq_written s)) = ''Hello'' \<and> cn_requests (sq_counts s) = 1"
proof -
  have c: "py_castable (format_prompt ''hi'')" by (simp add: py_castable_def format_prompt_def)
  then have "\<not> sq_lost (send_start (Some two_steps) ''hi'' zero_metrics zero_counts)"
    by (simp add: send_start_def Let_def)
  from patient_run [OF this] obtain s where
    s: "reach (\<lambda>s. s = send_start (Some two_steps) ''hi'' zero_metrics zero_counts) stream_step s"
      "\<nexists>t. stream_step s t" "\<not> sq_lost s" by blast
  have "std_string ''Hello'' = ''Hello''" by (rule std_string_ascii) simp
  with cpp_replica_delivers [of two_steps "''hi''" "[\<lparr>ro_texts = [''Hel''], ro_finished = False\<rparr>, \<lparr>ro_texts = [''Hello''], ro_finished = True\<rparr>]"
      zero_metrics zero_counts, OF _ c] s
  show ?thesis by (intro exI [of _ s]) (simp add: two_steps_def first_texts_def zero_counts_def)
qed

section \<open>A request that never ends\<close>

text \<open>
  When loading the engine failed, \<open>generate_stream\<close> raises before its \<open>try\<close>: nothing is ever put, not
  even the end marker, and the gRPC thread waits in \<open>get\<close> for good.
\<close>

lemma no_engine_waits:
  assumes "py_castable (format_prompt prompt)" and "reach (\<lambda>s. s = send_start None prompt m counts) stream_step s"
  shows "s = send_start None prompt m counts" and "sq_status s = None" and "\<nexists>t. stream_step s t"
proof -
  let ?s = "send_start None prompt m counts"
  have st: "sq_status ?s = None" "sq_todo ?s = []" "sq_queue ?s = tq_init"
    using assms(1) by (simp_all add: send_start_def generate_stream_def Let_def)
  then have stuck: "\<nexists>t. stream_step ?s t"
    using settled_iff [of ?s] by (simp add: settled_def tq_get_def tq_init_def)
  from assms(2) show s: "s = ?s" by (induction rule: reach.induct) (use stuck in auto)
  with st stuck show "sq_status s = None" "\<nexists>t. stream_step s t" by simp_all
qed

end
