(* ===== verification/CppHandle.thy ===== *)
theory CppHandle
  imports ProxyHandle CppStream
begin

text \<open>
  \<open>src/lib/deployment_handle.h\<close> and \<open>src/lib/deployment_handle.cpp\<close>: the handle of a deployment in the C++
  proxy.  The \<open>ReplicaInfo\<close> objects are shared by pointers, the vector \<open>replicas_\<close> only grows, so an object is
  named by its place in the vector.  Times are nanoseconds of the steady clock; counts are integers
  without bound.

  \<open>cpp_send_request\<close> is a whole request with nothing in between; \<open>cpp_pick\<close> and \<open>cpp_release\<close> are its
  two changes of the counts.  What a callback may throw is an \<open>exn\<close>.
\<close>

section \<open>The handle\<close>

record cpp_replica =
  cr_id :: string
  cr_address :: string
  cr_state :: string
  cr_active :: int
  cr_healthy :: bool
  cr_failure_time :: int

record cpp_handle =
  ch_deployment_id :: string
  ch_deployment_name :: string
  ch_replicas :: "cpp_replica list"
  ch_channels :: "(string, string) dict"

fun add_replicas :: "replica_msg list \<Rightarrow> cpp_handle \<Rightarrow> cpp_handle" where
  "add_replicas [] ch = ch"
| "add_replicas (r # rest) ch =
     add_replicas rest (ch\<lparr>ch_replicas := ch_replicas ch @
         [\<lparr>cr_id = rm_replica_id r, cr_address = rm_address r, cr_state = rm_state r, cr_active = 0,
           cr_healthy = True, cr_failure_time = 0\<rparr>],
       ch_channels := dset (rm_replica_id r) (rm_address r) (ch_channels ch)\<rparr>)"

definition cpp_handle_init :: "deployment_msg \<Rightarrow> cpp_handle" where
  "cpp_handle_init info = add_replicas (dp_replicas info)
     \<lparr>ch_deployment_id = int_text (dp_deployment_id info), ch_deployment_name = dp_deployment_name info,
      ch_replicas = [], ch_channels = []\<rparr>"

section \<open>Choosing a replica\<close>

definition retry_after :: int where
  "retry_after = 15 * 10 ^ 9"

text \<open>A replica that failed more than 15 seconds ago counts as healthy again.\<close>

definition recover :: "int \<Rightarrow> cpp_replica \<Rightarrow> cpp_replica" where
  "recover now r = (if \<not> cr_healthy r \<and> now - cr_failure_time r > retry_after then r\<lparr>cr_healthy := True\<rparr> else r)"

text \<open>The loop over \<open>replicas_\<close> from place \<open>i\<close> on; \<open>best\<close> is \<open>least_loaded\<close>, with its count.\<close>

fun pick_loop :: "int \<Rightarrow> nat \<Rightarrow> (nat \<times> int) option \<Rightarrow> cpp_replica list \<Rightarrow> cpp_replica list \<times> (nat \<times> int) option" where
  "pick_loop now i best [] = ([], best)"
| "pick_loop now i best (r # rest) =
     (let r' = recover now r;
          best' = (if cr_healthy r' \<and> (case best of None \<Rightarrow> True | Some (j, n) \<Rightarrow> cr_active r' < n)
                   then Some (i, cr_active r') else best)
      in case pick_loop now (i + 1) best' rest of (rest', b) \<Rightarrow> (r' # rest', b))"

definition set_active :: "(int \<Rightarrow> int) \<Rightarrow> nat \<Rightarrow> cpp_handle \<Rightarrow> cpp_handle" where
  "set_active f i ch = ch\<lparr>ch_replicas := (ch_replicas ch)
     [i := (ch_replicas ch ! i)\<lparr>cr_active := f (cr_active (ch_replicas ch ! i))\<rparr>]\<rparr>"

text \<open>
  \<open>pick_next_replica\<close>: the place of the replica and the address of its channel (an identifier without a
  channel would give a null pointer: \<open>None\<close>).
\<close>

definition cpp_pick :: "int \<Rightarrow> cpp_handle \<Rightarrow> (nat \<times> string option) option \<times> cpp_handle" where
  "cpp_pick now ch =
     (case pick_loop now 0 None (ch_replicas ch) of
        (replicas, None) \<Rightarrow> (None, ch\<lparr>ch_replicas := replicas\<rparr>)
      | (replicas, Some (i, n)) \<Rightarrow>
          (Some (i, dget (ch_channels ch) (cr_id (replicas ! i))),
           set_active (\<lambda>n. n + 1) i (ch\<lparr>ch_replicas := replicas\<rparr>)))"

text \<open>The destructor of \<open>ReplicaReleaser\<close>.\<close>

definition cpp_release :: "nat \<Rightarrow> cpp_handle \<Rightarrow> cpp_handle" where
  "cpp_release i ch = set_active (\<lambda>n. n - 1) i ch"

text \<open>\<open>mark_replica_unhealthy\<close>: the first replica with the identifier.\<close>

fun mark_first :: "int \<Rightarrow> string \<Rightarrow> cpp_replica list \<Rightarrow> cpp_replica list" where
  "mark_first now k [] = []"
| "mark_first now k (r # rest) =
     (if cr_id r = k then r\<lparr>cr_healthy := False, cr_failure_time := now\<rparr> # rest else r # mark_first now k rest)"

definition mark_replica_unhealthy :: "int \<Rightarrow> string \<Rightarrow> cpp_handle \<Rightarrow> cpp_handle" where
  "mark_replica_unhealthy now k ch = ch\<lparr>ch_replicas := mark_first now k (ch_replicas ch)\<rparr>"

section \<open>A request\<close>

text \<open>
  What a call to a replica gives: it does not start (\<open>finish\<close> then tells the status), or it delivers
  replies and ends with a status.  A deadline of 120 seconds is a status of its own.
\<close>

datatype rpc_call = NotStarted string | Streamed "replica_reply list" grpc_status

text \<open>The argument of \<open>on_token\<close>: a status message (\<open>Inl\<close>) or a text.\<close>

type_synonym token = "string + string"

fun feed_tokens :: "(token \<Rightarrow> 'c \<Rightarrow> unit res \<times> 'c) \<Rightarrow> replica_reply list \<Rightarrow> 'c \<Rightarrow> unit res \<times> 'c" where
  "feed_tokens on_token [] c = (Inr (), c)"
| "feed_tokens on_token (r # rest) c =
     (case on_token (Inr (rp_text r)) c of
        (Inl e, c') \<Rightarrow> (Inl e, c')
      | (Inr u, c') \<Rightarrow> feed_tokens on_token rest c')"

text \<open>
  \<open>send_request\<close>: what leaves it, the state of the callback and the handle.  \<open>replica\<close> is the service at
  the address of a channel; \<open>now\<close> and \<open>later\<close> are the times at the choice and at the end.
\<close>

definition cpp_send_request ::
  "(string option \<Rightarrow> string \<Rightarrow> rpc_call) \<Rightarrow> int \<Rightarrow> int \<Rightarrow> string \<Rightarrow> (token \<Rightarrow> 'c \<Rightarrow> unit res \<times> 'c) \<Rightarrow>
   cpp_handle \<Rightarrow> 'c \<Rightarrow> unit res \<times> 'c \<times> cpp_handle" where
  "cpp_send_request replica now later message on_token ch c =
     (case cpp_pick now ch of
        (None, ch1) \<Rightarrow>
          (case on_token (Inl ''No replicas available'') c of (r, c') \<Rightarrow> (r, c', ch1))
      | (Some (i, channel), ch1) \<Rightarrow>
          (let failed = mark_replica_unhealthy later (cr_id (ch_replicas ch1 ! i)) ch1
           in case replica channel message of
                NotStarted msg \<Rightarrow>
                  (case on_token (Inl msg) c of (r, c') \<Rightarrow> (r, c', cpp_release i failed))
              | Streamed replies status \<Rightarrow>
                  (case feed_tokens on_token replies c of
                     (Inl e, c') \<Rightarrow> (Inl e, c', cpp_release i ch1)
                   | (Inr u, c') \<Rightarrow>
                       (case status of
                          StatusOk \<Rightarrow> (Inr (), c', cpp_release i ch1)
                        | StatusError msg \<Rightarrow>
                            (case on_token (Inl msg) c' of (r, c'') \<Rightarrow> (r, c'', cpp_release i failed))))))"

section \<open>Facts\<close>

lemma add_replicas_frame:
  "ch_replicas (add_replicas rs ch) = ch_replicas ch @ map (\<lambda>r. \<lparr>cr_id = rm_replica_id r, cr_address = rm_address r,
      cr_state = rm_state r, cr_active = 0, cr_healthy = True, cr_failure_time = 0\<rparr>) rs"
  "ch_deployment_name (add_replicas rs ch) = ch_deployment_name ch"
  by (induction rs arbitrary: ch) simp_all

text \<open>The channel of an identifier that only one replica has is its address.\<close>

lemma add_replicas_channels:
  "dget (ch_channels (add_replicas rs ch)) k =
    (case map_of (rev (map (\<lambda>r. (rm_replica_id r, rm_address r)) rs)) k of
       None \<Rightarrow> dget (ch_channels ch) k | Some a \<Rightarrow> Some a)"
  by (induction rs arbitrary: ch) (auto simp: map_add_def split: option.splits)

lemma init_channels:
  assumes "distinct (map rm_replica_id (dp_replicas info))" and "r \<in> set (dp_replicas info)"
  shows "dget (ch_channels (cpp_handle_init info)) (rm_replica_id r) = Some (rm_address r)"
proof -
  let ?kvs = "map (\<lambda>r. (rm_replica_id r, rm_address r)) (dp_replicas info)"
  have "distinct (map fst (rev ?kvs))" using assms(1) by (simp add: rev_map [symmetric] comp_def)
  moreover have "(rm_replica_id r, rm_address r) \<in> set (rev ?kvs)" using assms(2) by auto
  ultimately have "map_of (rev ?kvs) (rm_replica_id r) = Some (rm_address r)" by (rule map_of_is_SomeI)
  then show ?thesis by (simp add: cpp_handle_init_def add_replicas_channels)
qed

lemma recover_frame [simp]:
  "cr_id (recover now r) = cr_id r" "cr_address (recover now r) = cr_address r"
  "cr_active (recover now r) = cr_active r"
  by (simp_all add: recover_def)

lemma pick_loop_replicas: "fst (pick_loop now i best rs) = map (recover now) rs"
  by (induction rs arbitrary: i best) (simp_all add: Let_def case_prod_unfold)

text \<open>The healthy replicas with their places, and the choice among them, in the terms of Python's \<open>min\<close>.\<close>

definition healthy_places :: "int \<Rightarrow> cpp_handle \<Rightarrow> (nat \<times> cpp_replica) list" where
  "healthy_places now ch = filter (\<lambda>(i, r). cr_healthy r) (enumerate 0 (map (recover now) (ch_replicas ch)))"

definition place_count :: "nat \<times> cpp_replica \<Rightarrow> int" where
  "place_count p = cr_active (snd p)"

lemma pick_loop_least:
  "snd (pick_loop now i (Some (fst p, place_count p)) rs) =
    (let m = least_by place_count p (filter (\<lambda>(i, r). cr_healthy r) (enumerate i (map (recover now) rs)))
     in Some (fst m, place_count m))"
proof (induction rs arbitrary: i p)
  case (Cons r rs)
  show ?case
    using Cons.IH [of "i + 1" p] Cons.IH [of "i + 1" "(i, recover now r)"]
    by (simp add: Let_def case_prod_unfold place_count_def)
qed simp

lemma pick_loop_first:
  "snd (pick_loop now i None rs) =
    (case filter (\<lambda>(i, r). cr_healthy r) (enumerate i (map (recover now) rs)) of
       [] \<Rightarrow> None
     | p # ps \<Rightarrow> (let m = least_by place_count p ps in Some (fst m, place_count m)))"
proof (induction rs arbitrary: i)
  case (Cons r rs)
  show ?case
    using Cons.IH [of "i + 1"] pick_loop_least [of now "i + 1" "(i, recover now r)" rs]
    by (simp add: Let_def case_prod_unfold place_count_def)
qed simp

lemma cpp_pick_cases:
  "cpp_pick now ch =
    (case healthy_places now ch of
       [] \<Rightarrow> (None, ch\<lparr>ch_replicas := map (recover now) (ch_replicas ch)\<rparr>)
     | p # ps \<Rightarrow>
         (let i = fst (least_by place_count p ps)
          in (Some (i, dget (ch_channels ch) (cr_id (map (recover now) (ch_replicas ch) ! i))),
              set_active (\<lambda>n. n + 1) i (ch\<lparr>ch_replicas := map (recover now) (ch_replicas ch)\<rparr>))))"
  using pick_loop_replicas [of now 0 None "ch_replicas ch"] pick_loop_first [of now 0 "ch_replicas ch"]
  by (cases "pick_loop now 0 None (ch_replicas ch)")
    (auto simp: cpp_pick_def healthy_places_def Let_def split: list.splits)

lemma healthy_place:
  "(i, r) \<in> set (healthy_places now ch) \<longleftrightarrow>
    i < length (ch_replicas ch) \<and> r = recover now (ch_replicas ch ! i) \<and> cr_healthy r"
  by (auto simp: healthy_places_def in_set_enumerate_eq)

text \<open>What a pick does: a healthy replica with the least count, whose count goes up by one.\<close>

lemma cpp_pick_chosen:
  assumes "cpp_pick now ch = (Some (i, channel), ch')"
  shows "i < length (ch_replicas ch)" and "cr_healthy (recover now (ch_replicas ch ! i))"
    and "channel = dget (ch_channels ch) (cr_id (ch_replicas ch ! i))"
    and "\<And>j. j < length (ch_replicas ch) \<Longrightarrow> cr_healthy (recover now (ch_replicas ch ! j)) \<Longrightarrow>
      cr_active (ch_replicas ch ! i) \<le> cr_active (ch_replicas ch ! j)"
    and "ch_replicas ch' = (map (recover now) (ch_replicas ch))
      [i := (recover now (ch_replicas ch ! i))\<lparr>cr_active := cr_active (ch_replicas ch ! i) + 1\<rparr>]"
    and "ch_channels ch' = ch_channels ch"
proof -
  obtain p ps where h: "healthy_places now ch = p # ps"
    using assms by (auto simp: cpp_pick_cases split: list.splits)
  obtain r where m: "least_by place_count p ps = (fst (least_by place_count p ps), r)" by (metis prod.collapse)
  have i: "i = fst (least_by place_count p ps)" using assms h by (auto simp: cpp_pick_cases Let_def)
  have l: "(i, r) \<in> set (healthy_places now ch)" "\<forall>y \<in> set (healthy_places now ch). place_count (i, r) \<le> place_count y"
    using least_by_least [of place_count p ps] m i h by simp_all
  from l(1) have i': "i < length (ch_replicas ch)" "r = recover now (ch_replicas ch ! i)" "cr_healthy r"
    unfolding healthy_place by blast+
  then show "i < length (ch_replicas ch)" "cr_healthy (recover now (ch_replicas ch ! i))" by auto
  show "cr_active (ch_replicas ch ! i) \<le> cr_active (ch_replicas ch ! j)"
    if "j < length (ch_replicas ch)" "cr_healthy (recover now (ch_replicas ch ! j))" for j
  proof -
    have "(j, recover now (ch_replicas ch ! j)) \<in> set (healthy_places now ch)"
      unfolding healthy_place using that by simp
    with l(2) have "place_count (i, r) \<le> place_count (j, recover now (ch_replicas ch ! j))" by blast
    then show ?thesis by (simp add: place_count_def i'(2))
  qed
  have e: "channel = dget (ch_channels ch) (cr_id (map (recover now) (ch_replicas ch) ! i))"
    "ch' = set_active (\<lambda>n. n + 1) i (ch\<lparr>ch_replicas := map (recover now) (ch_replicas ch)\<rparr>)"
    using assms h i by (auto simp: cpp_pick_cases Let_def)
  then show "channel = dget (ch_channels ch) (cr_id (ch_replicas ch ! i))" using i'(1) by simp
  show "ch_replicas ch' = (map (recover now) (ch_replicas ch))
      [i := (recover now (ch_replicas ch ! i))\<lparr>cr_active := cr_active (ch_replicas ch ! i) + 1\<rparr>]"
    "ch_channels ch' = ch_channels ch"
    using e(2) i'(1) by (simp_all add: set_active_def)
qed

lemma cpp_release_frame [simp]:
  "ch_channels (cpp_release i ch) = ch_channels ch"
  "length (ch_replicas (cpp_release i ch)) = length (ch_replicas ch)"
  by (simp_all add: cpp_release_def set_active_def)

lemma mark_first_frame:
  "map cr_id (mark_first now k rs) = map cr_id rs" "map cr_active (mark_first now k rs) = map cr_active rs"
  "map cr_address (mark_first now k rs) = map cr_address rs"
  by (induction rs) simp_all

section \<open>Every request gives its count back\<close>

definition counts :: "cpp_handle \<Rightarrow> int list" where
  "counts ch = map cr_active (ch_replicas ch)"

lemma counts_release: "i < length (ch_replicas ch) \<Longrightarrow> counts (cpp_release i ch) = (counts ch)[i := counts ch ! i - 1]"
  by (simp add: counts_def cpp_release_def set_active_def map_update)

lemma counts_mark [simp]: "counts (mark_replica_unhealthy now k ch) = counts ch"
  by (simp add: counts_def mark_replica_unhealthy_def mark_first_frame)

lemma counts_pick:
  assumes "cpp_pick now ch = (x, ch')"
  shows "counts ch' = (case x of None \<Rightarrow> counts ch | Some (i, channel) \<Rightarrow> (counts ch)[i := counts ch ! i + 1])"
proof (cases x)
  case None
  with assms have "ch' = ch\<lparr>ch_replicas := map (recover now) (ch_replicas ch)\<rparr>"
    by (auto simp: cpp_pick_cases Let_def split: list.splits)
  with None show ?thesis by (simp add: counts_def comp_def)
next
  case (Some y)
  obtain i channel where y: "y = (i, channel)" by (cases y)
  note c = cpp_pick_chosen [OF assms [unfolded Some y]]
  have "map cr_active (map (recover now) (ch_replicas ch)) = map cr_active (ch_replicas ch)" by simp
  with c(1,5) show ?thesis by (simp add: Some y counts_def map_update comp_def)
qed

lemma cpp_send_request_counts: "counts (snd (snd (cpp_send_request replica now later message on_token ch c))) = counts ch"
proof (cases "cpp_pick now ch")
  case (Pair x ch1)
  show ?thesis
  proof (cases x)
    case None
    then show ?thesis using counts_pick [OF Pair] Pair by (simp add: cpp_send_request_def case_prod_unfold)
  next
    case (Some y)
    obtain i channel where y: "y = (i, channel)" by (cases y)
    note c = cpp_pick_chosen [OF Pair [unfolded Some y]]
    have l: "i < length (ch_replicas ch1)" using c(1,5) by simp
    have l2: "i < length (ch_replicas (mark_replica_unhealthy t k ch1))" for t k
      using l mark_first_frame(1) [of t k "ch_replicas ch1"] by (metis length_map mark_replica_unhealthy_def cpp_handle.select_convs(3) cpp_handle.surjective cpp_handle.update_convs(3))
    have back1: "counts (cpp_release i ch1) = counts ch"
      using counts_release [OF l] counts_pick [OF Pair] c(1) list_update_id [of "counts ch" i]
      by (simp add: Some y counts_def)
    have back2: "counts (cpp_release i (mark_replica_unhealthy t k ch1)) = counts ch" for t k
      using counts_release [OF l2 [of t k]] counts_release [OF l] back1 by simp
    show ?thesis using back1 back2
      by (simp add: cpp_send_request_def Pair Some y Let_def case_prod_unfold split: rpc_call.splits prod.splits sum.splits grpc_status.splits)
  qed
qed

text \<open>What no call of the callback changes, a request does not change.\<close>

lemma feed_frame:
  assumes "\<And>t c. f (snd (on_token t c)) = f c"
  shows "f (snd (feed_tokens on_token rs c)) = f c"
proof (induction rs arbitrary: c)
  case (Cons r rs)
  then show ?case using assms [of "Inr (rp_text r)" c]
    by (cases "on_token (Inr (rp_text r)) c") (auto split: sum.splits)
qed simp

lemma send_request_frame:
  assumes "\<And>t c. f (snd (on_token t c)) = f c"
  shows "f (fst (snd (cpp_send_request replica now later message on_token ch c))) = f c"
proof -
  have "f c' = f c''" if "on_token t c'' = (r, c')" for t c' c'' r
    using assms [of t c''] that by simp
  moreover have "f c' = f c" if "feed_tokens on_token rs c = (r, c')" for rs r c'
    using feed_frame [of f on_token rs c, OF assms] that by simp
  ultimately show ?thesis
    by (auto simp: cpp_send_request_def Let_def case_prod_unfold
        split: prod.splits option.splits rpc_call.splits sum.splits grpc_status.splits)
      (metis assms feed_frame snd_conv)+
qed

section \<open>The two proxies choose alike\<close>

text \<open>
  The handles of a Python proxy and a C++ proxy that show the same replicas with the same counts, all of
  them running and none of them marked.
\<close>

definition twins :: "proxy_handle \<Rightarrow> cpp_handle \<Rightarrow> bool" where
  "twins ph ch \<longleftrightarrow>
     ph_replicas ph = map (\<lambda>r. \<lparr>rt_replica_id = cr_id r, rt_replica_address = cr_address r, rt_state = ''RUNNING''\<rparr>) (ch_replicas ch) \<and>
     distinct (map cr_id (ch_replicas ch)) \<and>
     (\<forall>r \<in> set (ch_replicas ch). cr_healthy r \<and> outstanding ph (cr_id r) = cr_active r \<and>
        dget (ch_channels ch) (cr_id r) = Some (cr_address r))"

lemma recover_healthy: "cr_healthy r \<Longrightarrow> recover now r = r"
  by (simp add: recover_def)

lemma least_by_map: "least_by key (f x) (map f xs) = f (least_by (key \<circ> f) x xs)"
  by (induction xs arbitrary: x) auto

lemma least_by_cong:
  "(\<And>y. y \<in> set (x # xs) \<Longrightarrow> key y = key' y) \<Longrightarrow> least_by key x xs = least_by key' x xs"
  by (induction xs arbitrary: x) auto

text \<open>The choice of twins.\<close>

lemma twins_pick:
  assumes "twins ph ch"
  shows "(ch_replicas ch = [] \<and> fst (pick_next_replica ph) = Inl (ValueError ''min() arg is an empty sequence'') \<and>
      fst (cpp_pick now ch) = None \<and> snd (pick_next_replica ph) = ph \<and> snd (cpp_pick now ch) = ch) \<or>
    (\<exists>i r. i < length (ch_replicas ch) \<and> r = ch_replicas ch ! i \<and>
      pick_next_replica ph = (Inr (cr_address r, cr_id r),
        ph\<lparr>ph_cache := dset (cr_id r) (outstanding ph (cr_id r) + 1) (ph_cache ph)\<rparr>) \<and>
      cpp_pick now ch = (Some (i, Some (cr_address r)), set_active (\<lambda>n. n + 1) i ch))"
proof -
  let ?v = "\<lambda>r. \<lparr>rt_replica_id = cr_id r, rt_replica_address = cr_address r, rt_state = ''RUNNING''\<rparr>"
  have rs: "ph_replicas ph = map ?v (ch_replicas ch)"
    and all: "\<forall>r \<in> set (ch_replicas ch). cr_healthy r \<and> outstanding ph (cr_id r) = cr_active r \<and>
      dget (ch_channels ch) (cr_id r) = Some (cr_address r)"
    using assms by (simp_all add: twins_def)
  have run: "running_replicas ph = map ?v (ch_replicas ch)" by (simp add: running_replicas_def rs)
  have rec: "map (recover now) (ch_replicas ch) = ch_replicas ch"
    using all by (simp add: map_idI recover_healthy)
  have places: "healthy_places now ch = enumerate 0 (ch_replicas ch)"
    unfolding healthy_places_def rec using all
    by (auto simp: filter_id_conv in_set_enumerate_eq)
  have same: "ch\<lparr>ch_replicas := ch_replicas ch\<rparr> = ch" by simp
  show ?thesis
  proof (cases "ch_replicas ch")
    case Nil
    have "cpp_pick now ch = (None, ch)" using places rec same by (simp add: cpp_pick_cases Nil)
    moreover have "pick_next_replica ph = (Inl (ValueError ''min() arg is an empty sequence''), ph)"
      by (simp add: pick_cases run Nil)
    ultimately show ?thesis using Nil by simp
  next
    case (Cons r0 rest)
    let ?p = "least_by place_count (0, r0) (enumerate 1 rest)"
    have pl: "healthy_places now ch = (0, r0) # enumerate 1 rest" by (simp add: places Cons)
    have mem: "?p \<in> set (enumerate 0 (ch_replicas ch))"
      using least_by_least [of place_count "(0, r0)" "enumerate 1 rest"] by (simp add: Cons)
    obtain i r where p: "?p = (i, r)" by (cases ?p)
    with mem have i: "i < length (ch_replicas ch)" "r = ch_replicas ch ! i" by (auto simp: in_set_enumerate_eq)
    have "least_by (\<lambda>r. outstanding ph (rt_replica_id r)) (?v r0) (map ?v rest) = ?v r"
    proof -
      have "map ?v rest = map (?v \<circ> snd) (enumerate 1 rest)"
        by (metis list.map_comp map_snd_enumerate)
      then have "least_by (\<lambda>r. outstanding ph (rt_replica_id r)) (?v r0) (map ?v rest) =
          (?v \<circ> snd) (least_by ((\<lambda>r. outstanding ph (rt_replica_id r)) \<circ> (?v \<circ> snd)) (0, r0) (enumerate 1 rest))"
        using least_by_map [of "\<lambda>r. outstanding ph (rt_replica_id r)" "?v \<circ> snd" "(0 :: nat, r0)" "enumerate 1 rest"] by simp
      also have "least_by ((\<lambda>r. outstanding ph (rt_replica_id r)) \<circ> (?v \<circ> snd)) (0, r0) (enumerate 1 rest) = ?p"
        using all by (intro least_by_cong) (auto simp: place_count_def Cons in_set_enumerate_eq)
      finally show ?thesis by (simp add: p [simplified])
    qed
    then have py: "pick_next_replica ph = (Inr (cr_address r, cr_id r),
        ph\<lparr>ph_cache := dset (cr_id r) (outstanding ph (cr_id r) + 1) (ph_cache ph)\<rparr>)"
      by (simp add: pick_cases run Cons Let_def)
    have "cpp_pick now ch = (Some (i, dget (ch_channels ch) (cr_id r)), set_active (\<lambda>n. n + 1) i ch)"
      using pl rec same p i by (simp add: cpp_pick_cases)
    then show ?thesis using py i all by auto
  qed
qed

text \<open>
  A pair of handles that get the same update and the same requests: each request is a choice in both,
  each end of a request releases the same replica in both.
\<close>

definition twin_start :: "proxy_handle \<times> cpp_handle \<Rightarrow> bool" where
  "twin_start p \<longleftrightarrow> (\<exists>d info. distinct (map rm_replica_id (dp_replicas info)) \<and>
     (\<forall>r \<in> set (dp_replicas info). rm_state r = ''RUNNING'') \<and> p = (dh_init d info, cpp_handle_init info))"

inductive twin_step :: "proxy_handle \<times> cpp_handle \<Rightarrow> proxy_handle \<times> cpp_handle \<Rightarrow> bool" where
  twin_pick: "twin_step (ph, ch) (snd (pick_next_replica ph), snd (cpp_pick now ch))"
| twin_release: "i < length (ch_replicas ch) \<Longrightarrow> 0 < cr_active (ch_replicas ch ! i) \<Longrightarrow>
    twin_step (ph, ch) (dh_release (cr_id (ch_replicas ch ! i)) ph, cpp_release i ch)"

lemma twins_active:
  assumes "twins ph ch" and "i < length (ch_replicas ch)" and "ph_replicas ph' = ph_replicas ph"
    and "\<And>k. outstanding ph' k = (if k = cr_id (ch_replicas ch ! i) then f (outstanding ph k) else outstanding ph k)"
  shows "twins ph' (set_active f i ch)"
proof -
  let ?r = "ch_replicas ch ! i"
  have t: "ph_replicas ph = map (\<lambda>r. \<lparr>rt_replica_id = cr_id r, rt_replica_address = cr_address r, rt_state = ''RUNNING''\<rparr>) (ch_replicas ch)"
    "distinct (map cr_id (ch_replicas ch))"
    and all: "\<And>j. j < length (ch_replicas ch) \<Longrightarrow> cr_healthy (ch_replicas ch ! j) \<and>
      outstanding ph (cr_id (ch_replicas ch ! j)) = cr_active (ch_replicas ch ! j) \<and>
      dget (ch_channels ch) (cr_id (ch_replicas ch ! j)) = Some (cr_address (ch_replicas ch ! j))"
    using assms(1) by (simp_all add: twins_def)
  have "cr_id (ch_replicas ch ! j) \<noteq> cr_id ?r" if "j < length (ch_replicas ch)" "j \<noteq> i" for j
    using t(2) that assms(2) nth_eq_iff_index_eq [of "map cr_id (ch_replicas ch)" j i] by simp
  with all assms(2,4) have "cr_healthy r \<and> outstanding ph' (cr_id r) = cr_active r \<and>
      dget (ch_channels ch) (cr_id r) = Some (cr_address r)"
    if "r \<in> set (ch_replicas (set_active f i ch))" for r
    using that unfolding in_set_conv_nth set_active_def by (auto simp: nth_list_update)
  moreover have "map cr_id (ch_replicas (set_active f i ch)) = map cr_id (ch_replicas ch)"
    by (rule nth_equalityI) (use assms(2) in \<open>auto simp: set_active_def nth_list_update\<close>)
  moreover have "map (\<lambda>r. \<lparr>rt_replica_id = cr_id r, rt_replica_address = cr_address r, rt_state = ''RUNNING''\<rparr>)
      (ch_replicas (set_active f i ch)) = ph_replicas ph"
    unfolding t(1) by (rule nth_equalityI) (use assms(2) in \<open>auto simp: set_active_def nth_list_update\<close>)
  ultimately show ?thesis using t(2) assms(3) by (simp add: twins_def) (simp add: set_active_def)
qed

lemma init_replicas:
  "ch_replicas (cpp_handle_init info) = map (\<lambda>r. \<lparr>cr_id = rm_replica_id r, cr_address = rm_address r,
      cr_state = rm_state r, cr_active = 0, cr_healthy = True, cr_failure_time = 0\<rparr>) (dp_replicas info)"
  by (simp add: cpp_handle_init_def add_replicas_frame)

lemma twins_start:
  assumes "twin_start p"
  shows "twins (fst p) (snd p)"
proof -
  obtain d info where p: "distinct (map rm_replica_id (dp_replicas info))"
    "\<forall>r \<in> set (dp_replicas info). rm_state r = ''RUNNING''" "p = (dh_init d info, cpp_handle_init info)"
    using assms by (auto simp: twin_start_def)
  have "map cr_id (ch_replicas (cpp_handle_init info)) = map rm_replica_id (dp_replicas info)"
    by (simp add: init_replicas)
  with p init_channels [OF p(1)] show ?thesis
    by (auto simp: twins_def routed_def init_replicas comp_def)
qed

lemma twins_step: "twin_step p q \<Longrightarrow> twins (fst p) (snd p) \<Longrightarrow> twins (fst q) (snd q)"
proof (induction rule: twin_step.induct)
  case (twin_pick ph ch now)
  then have tw: "twins ph ch" by simp
  from twins_pick [OF tw, of now] show ?case
  proof (elim disjE exE conjE)
    fix i r assume "i < length (ch_replicas ch)" "r = ch_replicas ch ! i"
      "pick_next_replica ph = (Inr (cr_address r, cr_id r),
        ph\<lparr>ph_cache := dset (cr_id r) (outstanding ph (cr_id r) + 1) (ph_cache ph)\<rparr>)"
      "cpp_pick now ch = (Some (i, Some (cr_address r)), set_active (\<lambda>n. n + 1) i ch)"
    then show ?thesis using twins_active [OF tw, of i _ "\<lambda>n. n + 1"] by (simp add: outstanding_def)
  qed (use tw in simp)
next
  case (twin_release i ch ph)
  then have tw: "twins ph ch" by simp
  then have "0 < outstanding ph (cr_id (ch_replicas ch ! i))" using twin_release.hyps by (simp add: twins_def)
  from release_outstanding [OF this] show ?case
    using twins_active [OF tw twin_release.hyps(1), of _ "\<lambda>n. n - 1"] by (simp add: cpp_release_def)
qed

interpretation twin_machine: safe_machine twin_start twin_step "\<lambda>p. twins (fst p) (snd p)"
  by unfold_locales (rule twins_start, assumption, rule twins_step)

text \<open>
  C22. The two proxies choose alike.  Give a handle of the Python proxy and one of the C++ proxy the same
  deployment, whose replicas are running and have different identifiers.  After any sequence of
  requests that start and end without a failed call, both handles choose the same replica for the next
  request, at the same address, and both refuse when there is none.
\<close>

theorem proxies_choose_alike:
  assumes "reach twin_start twin_step (ph, ch)"
  shows "(case fst (cpp_pick now ch) of
      None \<Rightarrow> fst (pick_next_replica ph) = Inl (ValueError ''min() arg is an empty sequence'')
    | Some (i, channel) \<Rightarrow> i < length (ch_replicas ch) \<and> channel = Some (cr_address (ch_replicas ch ! i)) \<and>
        fst (pick_next_replica ph) = Inr (cr_address (ch_replicas ch ! i), cr_id (ch_replicas ch ! i)) \<and>
        outstanding ph (cr_id (ch_replicas ch ! i)) = cr_active (ch_replicas ch ! i))"
proof -
  have tw: "twins ph ch" using twin_machine.reach_safe [OF assms] by simp
  then have "outstanding ph (cr_id r) = cr_active r" if "r \<in> set (ch_replicas ch)" for r
    using that by (simp add: twins_def)
  with twins_pick [OF tw, of now] show ?thesis by (auto split: option.splits)
qed

definition two_running :: deployment_msg where
  "two_running = \<lparr>dp_deployment_id = 2, dp_deployment_name = ''/v1/chat/tinyllama'', dp_version = ''1.0'', dp_status = ''ACTIVE'',
     dp_replicas = [\<lparr>rm_replica_id = ''1#1'', rm_address = ''10.0.0.1:50101'', rm_state = ''RUNNING''\<rparr>,
                    \<lparr>rm_replica_id = ''2#1'', rm_address = ''10.0.0.2:50101'', rm_state = ''RUNNING''\<rparr>]\<rparr>"

text \<open>After one request both take the second replica.\<close>

theorem proxies_choose_alike_witness:
  "fst (pick_next_replica (snd (pick_next_replica (dh_init 2 two_running)))) = Inr (''10.0.0.2:50101'', ''2#1'')"
proof -
  let ?ph = "dh_init 2 two_running" and ?ch = "cpp_handle_init two_running"
  have "reach twin_start twin_step (?ph, ?ch)"
    by (rule reach_init, unfold twin_start_def, intro exI [of _ 2] exI [of _ two_running])
      (simp add: two_running_def)
  then have "reach twin_start twin_step (snd (pick_next_replica ?ph), snd (cpp_pick 0 ?ch))"
    by (rule reach_step) (rule twin_pick)
  from proxies_choose_alike [OF this, of 0] show ?thesis
    by (simp add: cpp_handle_init_def two_running_def cpp_pick_def set_active_def recover_def dict_eval)
qed

end
