(* ===== verification/CppProxy.thy ===== *)
theory CppProxy
  imports CppHandle HandleTable
begin

text \<open>
  \<open>src/components/headNode/http_proxy.h\<close> and \<open>http_proxy.cpp\<close>: the C++ proxy, which the head starts under
  the name \<open>http_proxy\<close>.  It answers with a chunked body, one chunk for each piece of text.

  Handles are objects that the table and the sessions share, as in \<open>HttpProxy\<close>.  What a session writes to
  its socket is a list of \<open>sent\<close>: the header of a chunked response, a whole response, or bytes.  The
  \<open>k\<close>-th write succeeds if \<open>writable k\<close>; one that fails throws.  The order in which the \<open>map\<close> field of an
  update is walked through is the order of its list.
\<close>

section \<open>Chunks\<close>

definition hex_digit :: "nat \<Rightarrow> char" where
  "hex_digit n = char_of (if n < 10 then 48 + n else 87 + n)"

text \<open>\<open>std::hex\<close>\<close>

fun hex_text :: "nat \<Rightarrow> string" where
  "hex_text n = (if n < 16 then [hex_digit n] else hex_text (n div 16) @ [hex_digit (n mod 16)])"

declare hex_text.simps [simp del]

definition crlf :: string where
  "crlf = [CHR 0x0D, CHR 0x0A]"

definition chunk :: "string \<Rightarrow> string" where
  "chunk t = hex_text (length t) @ crlf @ t @ crlf"

text \<open>\<open>asio::buffer("0\\r\\n\\r\\n")\<close> of a literal: six bytes, the terminating zero is one of them.\<close>

definition trailer :: string where
  "trailer = ''0'' @ crlf @ crlf @ [CHR 0x00]"

text \<open>
  The reader of a chunked body (RFC 9112, without extensions and trailer fields): the body and the bytes
  that follow it.
\<close>

definition is_hex :: "char \<Rightarrow> bool" where
  "is_hex c \<longleftrightarrow> is_digit c \<or> 97 \<le> (of_char c :: nat) \<and> (of_char c :: nat) \<le> 102"

definition hex_digit_value :: "char \<Rightarrow> nat" where
  "hex_digit_value c = (if is_digit c then digit_value c else of_char c - 87)"

definition hex_value :: "string \<Rightarrow> nat" where
  "hex_value s = foldl (\<lambda>a c. 16 * a + hex_digit_value c) 0 s"

lemma after_size_line:
  assumes "takeWhile is_hex s \<noteq> []"
  shows "length (dropWhile is_hex s) < length s"
  using assms by (cases s) (auto simp: le_imp_less_Suc length_dropWhile_le split: if_splits)

function dechunk :: "string \<Rightarrow> (string \<times> string) option" where
  "dechunk s =
     (let h = takeWhile is_hex s; r = dropWhile is_hex s; n = hex_value h; d = drop 2 r
      in if h = [] \<or> take 2 r \<noteq> crlf then None
         else if n = 0 then (if take 2 d = crlf then Some ([], drop 2 d) else None)
         else if take 2 (drop n d) = crlf
         then (case dechunk (drop (n + 2) d) of None \<Rightarrow> None | Some (b, rest) \<Rightarrow> Some (take n d @ b, rest))
         else None)"
  by pat_completeness auto

termination
  by (relation "measure length") (auto dest!: after_size_line)

declare dechunk.simps [simp del]

lemma hex_digit_props:
  assumes "n < 16"
  shows "is_hex (hex_digit n)" and "hex_digit_value (hex_digit n) = n"
  using assms by (auto simp: is_hex_def hex_digit_def hex_digit_value_def is_digit_def digit_value_def)

lemma hex_text_hex: "\<forall>c \<in> set (hex_text n). is_hex c"
proof (induction n rule: hex_text.induct)
  case (1 n)
  then show ?case by (cases "n < 16") (simp_all add: hex_text.simps [of n] hex_digit_props)
qed

lemma hex_text_nonempty [simp]: "hex_text n \<noteq> []"
  by (subst hex_text.simps) simp

lemma hex_value_text [simp]: "hex_value (hex_text n) = n"
proof (induction n rule: hex_text.induct)
  case (1 n)
  then show ?case by (cases "n < 16") (simp_all add: hex_text.simps [of n] hex_value_def hex_digit_props)
qed

lemma cr_not_hex [simp]: "\<not> is_hex (CHR 0x0D)"
  by (simp add: is_hex_def is_digit_def)

lemma hex_line:
  "takeWhile is_hex (hex_text n @ crlf @ d) = hex_text n" "dropWhile is_hex (hex_text n @ crlf @ d) = crlf @ d"
  using hex_text_hex [of n] by (simp_all add: takeWhile_append2 dropWhile_append2 crlf_def)

text \<open>One chunk, and the chunk of no bytes, which is the end of the body.\<close>

lemma dechunk_chunk:
  "dechunk (chunk t @ rest) =
    (if t = [] then Some ([], rest)
     else case dechunk rest of None \<Rightarrow> None | Some (b, rest') \<Rightarrow> Some (t @ b, rest'))"
proof -
  have e: "chunk t @ rest = hex_text (length t) @ crlf @ (t @ crlf @ rest)" by (simp add: chunk_def)
  have c: "take 2 (crlf @ d) = crlf" "drop 2 (crlf @ d) = d" for d by (simp_all add: crlf_def)
  have d: "take 2 (drop (length t) (t @ crlf @ rest)) = crlf" "drop (length t + 2) (t @ crlf @ rest) = rest"
    "take (length t) (t @ crlf @ rest) = t"
    by (simp_all add: crlf_def)
  have nil: "take 2 ([] @ crlf @ rest) = crlf" "drop 2 ([] @ crlf @ rest) = rest"
    by (simp_all add: crlf_def)
  show ?thesis
  proof (cases "t = []")
    case True
    then show ?thesis unfolding e
      by (subst dechunk.simps) (simp only: Let_def hex_line c hex_value_text nil hex_text_nonempty
        list.size simp_thms if_True if_False)
  next
    case False
    then show ?thesis unfolding e
      by (subst dechunk.simps) (simp only: Let_def hex_line c d hex_value_text hex_text_nonempty length_0_conv
        simp_thms if_True if_False)
  qed
qed

lemma chunk_empty: "chunk [] = ''0'' @ crlf @ crlf"
proof -
  have "char_of (48 :: nat) = CHR ''0''" by code_simp
  then show ?thesis by (simp add: chunk_def hex_text.simps hex_digit_def)
qed

lemma trailer_chunk: "trailer = chunk [] @ [CHR 0x00]"
  by (simp add: trailer_def chunk_empty)

text \<open>The reader gets the pieces up to the first empty one, put together.\<close>

lemma dechunk_chunks:
  "[] \<notin> set ts \<Longrightarrow> dechunk (concat (map chunk ts) @ chunk [] @ rest) = Some (concat ts, rest)"
  by (induction ts) (auto simp: dechunk_chunk)

lemma dechunk_pieces: "\<exists>rest. dechunk (concat (map chunk ts) @ trailer) = Some (concat (takeWhile (\<lambda>t. t \<noteq> []) ts), rest)"
  by (induction ts) (auto simp: dechunk_chunk trailer_chunk)

section \<open>The proxy\<close>

text \<open>The Prometheus families: which labels were counted or observed, and how often.\<close>

record cpp_metrics =
  mx_requests :: "(string \<times> string) list"
  mx_latency :: "(string \<times> string) list"
  mx_first_token :: "string list"
  mx_inter_token :: "string list"
  mx_active :: int

record cpp_proxy =
  xp_parent_port :: int
  xp_handles :: "cpp_handle list"
  xp_table :: "(string, nat) dict"
  xp_metrics :: cpp_metrics

definition cpp_proxy_init :: "int \<Rightarrow> cpp_proxy" where
  "cpp_proxy_init parent_port = \<lparr>xp_parent_port = parent_port, xp_handles = [], xp_table = [],
     xp_metrics = \<lparr>mx_requests = [], mx_latency = [], mx_first_token = [], mx_inter_token = [], mx_active = 0\<rparr>\<rparr>"

fun cpp_install :: "(int \<times> deployment_msg) list \<Rightarrow> cpp_proxy \<Rightarrow> cpp_proxy" where
  "cpp_install [] xp = xp"
| "cpp_install ((dep_id, dep_info) # rest) xp =
     cpp_install rest (xp\<lparr>xp_handles := xp_handles xp @ [cpp_handle_init dep_info],
       xp_table := dset (dp_deployment_name dep_info) (length (xp_handles xp)) (xp_table xp)\<rparr>)"

text \<open>\<open>apply_routing_update\<close>: a new table with new handles.\<close>

definition cpp_apply_update :: "routing_update \<Rightarrow> cpp_proxy \<Rightarrow> cpp_proxy" where
  "cpp_apply_update u xp = cpp_install (ru_deployments u) (xp\<lparr>xp_table := []\<rparr>)"

text \<open>One turn of \<open>subscribe_to_head_node\<close>: the updates that a connection delivered, if it was one.\<close>

definition cpp_subscription_turn :: "routing_update list option \<Rightarrow> cpp_proxy \<Rightarrow> cpp_proxy" where
  "cpp_subscription_turn updates xp =
     (case updates of None \<Rightarrow> xp | Some us \<Rightarrow> fold cpp_apply_update us xp)"

section \<open>A session\<close>

datatype sent = Header nat | Whole nat string | Bytes string

text \<open>The variables of a session that its callback changes.\<close>

record session =
  ss_sent :: "sent list"
  ss_first_token :: bool
  ss_last_token_received :: bool
  ss_metrics :: cpp_metrics

definition async_write :: "(nat \<Rightarrow> bool) \<Rightarrow> sent \<Rightarrow> session \<Rightarrow> unit res \<times> session" where
  "async_write writable x ss =
     (if writable (length (ss_sent ss)) then (Inr (), ss\<lparr>ss_sent := ss_sent ss @ [x]\<rparr>)
      else (Inl (GenericError ''write''), ss))"

text \<open>\<open>on_token_received\<close>; the time to the first token is observed for an error, too.\<close>

definition observe_ttft :: "string \<Rightarrow> session \<Rightarrow> session" where
  "observe_ttft name ss =
     (if ss_first_token ss
      then ss\<lparr>ss_first_token := False,
              ss_metrics := (ss_metrics ss)\<lparr>mx_first_token := mx_first_token (ss_metrics ss) @ [name]\<rparr>\<rparr>
      else ss)"

definition on_token_received :: "(nat \<Rightarrow> bool) \<Rightarrow> string \<Rightarrow> token \<Rightarrow> session \<Rightarrow> unit res \<times> session" where
  "on_token_received writable name expected_token ss =
     (let ss1 = observe_ttft name ss
      in case expected_token of
           Inl message \<Rightarrow> (Inl (RuntimeError ''gRPC stream error''), ss1)
         | Inr t \<Rightarrow>
             (case async_write writable (Bytes (chunk t)) ss1 of
                (Inl e, ss2) \<Rightarrow> (Inl e, ss2)
              | (Inr u, ss2) \<Rightarrow>
                  (Inr (), (if ss_last_token_received ss2
                     then ss2\<lparr>ss_metrics := (ss_metrics ss2)\<lparr>mx_inter_token := mx_inter_token (ss_metrics ss2) @ [name]\<rparr>\<rparr>
                     else ss2)\<lparr>ss_last_token_received := True\<rparr>)))"

text \<open>\<open>serve_metrics\<close>: what it throws, it catches.\<close>

definition serve_metrics :: "(nat \<Rightarrow> bool) \<Rightarrow> string \<Rightarrow> session \<Rightarrow> session" where
  "serve_metrics writable metrics_text ss = snd (async_write writable (Whole 200 metrics_text) ss)"

declare serve_metrics_def [simp]

text \<open>
  The \<open>try\<close> block of \<open>http_session\<close> for a request with this target and body: \<open>None\<close> if it returned from
  the session (\<open>/metrics\<close>), else what was thrown, if anything, and the name under which it is counted.
\<close>

definition session_body ::
  "(string option \<Rightarrow> string \<Rightarrow> rpc_call) \<Rightarrow> int \<Rightarrow> int \<Rightarrow> (nat \<Rightarrow> bool) \<Rightarrow> string \<Rightarrow> string \<Rightarrow> string \<Rightarrow> cpp_proxy \<Rightarrow>
   session \<Rightarrow> unit res option \<times> session \<times> cpp_proxy" where
  "session_body replica now later writable metrics_text target body xp ss =
     (if target = ''/metrics'' then (None, serve_metrics writable metrics_text ss, xp)
      else
        (case dget (xp_table xp) target of
           None \<Rightarrow>
             (case async_write writable (Whole 404 ''Deployment not found'') ss of
                (Inl e, ss1) \<Rightarrow> (Some (Inl e), ss1, xp)
              | (Inr u, ss1) \<Rightarrow> (Some (Inl (RuntimeError ''Deployment not found'')), ss1, xp))
         | Some h \<Rightarrow>
             (case async_write writable (Header 200) ss of
                (Inl e, ss1) \<Rightarrow> (Some (Inl e), ss1, xp)
              | (Inr u, ss1) \<Rightarrow>
                  (case cpp_send_request replica now later body (on_token_received writable target)
                      (xp_handles xp ! h) ss1 of
                     (r, ss2, ch) \<Rightarrow> (Some r, ss2, xp\<lparr>xp_handles := (xp_handles xp)[h := ch]\<rparr>)))))"

definition count_request :: "string \<Rightarrow> string \<Rightarrow> cpp_metrics \<Rightarrow> cpp_metrics" where
  "count_request name status m =
     m\<lparr>mx_latency := mx_latency m @ [(name, status)], mx_requests := mx_requests m @ [(name, status)]\<rparr>"

definition gauge :: "int \<Rightarrow> cpp_metrics \<Rightarrow> cpp_metrics" where
  "gauge n m = m\<lparr>mx_active := mx_active m + n\<rparr>"

text \<open>
  \<open>http_session\<close>: what was written and the proxy afterwards.  The request is \<open>None\<close> if reading it failed.
\<close>

definition cpp_http_session ::
  "(string option \<Rightarrow> string \<Rightarrow> rpc_call) \<Rightarrow> int \<Rightarrow> int \<Rightarrow> (nat \<Rightarrow> bool) \<Rightarrow> string \<Rightarrow> (string \<times> string) option \<Rightarrow>
   cpp_proxy \<Rightarrow> sent list \<times> cpp_proxy" where
  "cpp_http_session replica now later writable metrics_text req xp =
     (let ss = \<lparr>ss_sent = [], ss_first_token = True, ss_last_token_received = False,
            ss_metrics = gauge 1 (xp_metrics xp)\<rparr>;
          (ending, ss1, xp1) =
            (case req of
               None \<Rightarrow> (Some (Inl (GenericError ''read'')), ss, xp)
             | Some (target, body) \<Rightarrow> session_body replica now later writable metrics_text target body xp ss);
          name = (case req of None \<Rightarrow> ''unknown'' | Some (target, body) \<Rightarrow> target);
          ss2 = (case ending of
                   None \<Rightarrow> ss1
                 | Some r \<Rightarrow>
                     snd (async_write writable (Bytes trailer) (ss1\<lparr>ss_metrics :=
                       count_request name (case r of Inl e \<Rightarrow> ''error'' | Inr u \<Rightarrow> ''success'') (ss_metrics ss1)\<rparr>)))
      in (ss_sent ss2, xp1\<lparr>xp_metrics := gauge (- 1) (ss_metrics ss2)\<rparr>))"

text \<open>What an HTTP client reads: the status and the body, once the response is complete.\<close>

definition sent_bytes :: "sent list \<Rightarrow> string" where
  "sent_bytes ws = concat (map (\<lambda>x. case x of Bytes b \<Rightarrow> b | _ \<Rightarrow> []) ws)"

definition client_reads :: "sent list \<Rightarrow> (nat \<times> string) option" where
  "client_reads ws =
     (case ws of
        Whole status body # rest \<Rightarrow> Some (status, body)
      | Header status # rest \<Rightarrow> (case dechunk (sent_bytes rest) of None \<Rightarrow> None | Some (body, after) \<Rightarrow> Some (status, body))
      | _ \<Rightarrow> None)"

section \<open>Facts\<close>

lemma write_frame [simp]:
  "ss_first_token (snd (async_write w x ss)) = ss_first_token ss"
  "ss_metrics (snd (async_write w x ss)) = ss_metrics ss"
  by (simp_all add: async_write_def)

lemma observe_frame [simp]: "ss_sent (observe_ttft name ss) = ss_sent ss"
  by (simp add: observe_ttft_def)

text \<open>A callback whose writes succeed sends one chunk for each reply.\<close>

lemma on_token_writes:
  assumes "\<And>k. writable k"
  shows "\<exists>ss'. on_token_received writable name (Inr t) ss = (Inr (), ss') \<and> ss_sent ss' = ss_sent ss @ [Bytes (chunk t)]"
  using assms by (simp add: on_token_received_def async_write_def Let_def)

lemma feed_writes:
  assumes "\<And>k. writable k"
  shows "\<exists>ss'. feed_tokens (on_token_received writable name) replies ss = (Inr (), ss') \<and>
    ss_sent ss' = ss_sent ss @ map (\<lambda>r. Bytes (chunk (rp_text r))) replies"
proof (induction replies arbitrary: ss)
  case (Cons r replies)
  obtain ss1 where "on_token_received writable name (Inr (rp_text r)) ss = (Inr (), ss1)"
    "ss_sent ss1 = ss_sent ss @ [Bytes (chunk (rp_text r))]"
    using on_token_writes [of writable, OF assms] by blast
  with Cons.IH [of ss1] show ?case by auto
qed simp

lemma sent_bytes_chunks: "sent_bytes (map (\<lambda>r. Bytes (chunk (rp_text r))) replies @ [Bytes trailer]) =
    concat (map chunk (map rp_text replies)) @ trailer"
  by (simp add: sent_bytes_def comp_def)

text \<open>The table of the proxy.\<close>

interpretation xp_tables: handle_table xp_handles xp_table "\<lambda>d dep. cpp_handle_init dep"
  "\<lambda>d dep xp. xp\<lparr>xp_handles := xp_handles xp @ [cpp_handle_init dep],
     xp_table := dset (dp_deployment_name dep) (length (xp_handles xp)) (xp_table xp)\<rparr>" cpp_install
  by unfold_locales simp_all

lemma cpp_handles_install:
  "\<exists>hs. xp_handles (cpp_install deps xp) = xp_handles xp @ hs"
  by (induction deps xp rule: cpp_install.induct) auto

lemma observe_metrics [simp]:
  "mx_requests (ss_metrics (observe_ttft name ss)) = mx_requests (ss_metrics ss)"
  "mx_active (ss_metrics (observe_ttft name ss)) = mx_active (ss_metrics ss)"
  by (simp_all add: observe_ttft_def)

lemma on_token_metrics:
  "(mx_requests (ss_metrics (snd (on_token_received w name t ss))), mx_active (ss_metrics (snd (on_token_received w name t ss)))) =
    (mx_requests (ss_metrics ss), mx_active (ss_metrics ss))"
  by (simp add: on_token_received_def Let_def async_write_def split: sum.splits)

text \<open>The \<open>try\<close> block neither counts a request nor moves the gauge, and every count of a handle comes back.\<close>

lemma session_body_frame:
  "mx_requests (ss_metrics (fst (snd (session_body replica now later w mt target body xp ss)))) = mx_requests (ss_metrics ss)"
  "mx_active (ss_metrics (fst (snd (session_body replica now later w mt target body xp ss)))) = mx_active (ss_metrics ss)"
  "map counts (xp_handles (snd (snd (session_body replica now later w mt target body xp ss)))) = map counts (xp_handles xp)"
  "fst (session_body replica now later w mt target body xp ss) = None \<longleftrightarrow> target = ''/metrics''"
proof -
  have fr: "(mx_requests (ss_metrics (fst (snd (cpp_send_request replica now later body (on_token_received w target) ch ss1)))),
      mx_active (ss_metrics (fst (snd (cpp_send_request replica now later body (on_token_received w target) ch ss1))))) =
      (mx_requests (ss_metrics ss1), mx_active (ss_metrics ss1))" for ch ss1
    by (rule send_request_frame [of "\<lambda>ss. (mx_requests (ss_metrics ss), mx_active (ss_metrics ss))" "on_token_received w target"])
      (rule on_token_metrics)
  have m: "mx_requests (ss_metrics ss2) = mx_requests (ss_metrics ss1)" "mx_active (ss_metrics ss2) = mx_active (ss_metrics ss1)"
    "counts ch' = counts ch"
    if "cpp_send_request replica now later body (on_token_received w target) ch ss1 = (r, ss2, ch')" for ch ss1 r ss2 ch'
    using fr [of ch ss1]
      cpp_send_request_counts [of replica now later body "on_token_received w target" ch ss1] that by simp_all
  have u: "map counts (hs[h := ch']) = map counts hs" if "counts ch' = counts (hs ! h)" for hs h ch'
    using that by (metis list_update_id map_update)
  show "mx_requests (ss_metrics (fst (snd (session_body replica now later w mt target body xp ss)))) = mx_requests (ss_metrics ss)"
    "mx_active (ss_metrics (fst (snd (session_body replica now later w mt target body xp ss)))) = mx_active (ss_metrics ss)"
    "map counts (xp_handles (snd (snd (session_body replica now later w mt target body xp ss)))) = map counts (xp_handles xp)"
    "fst (session_body replica now later w mt target body xp ss) = None \<longleftrightarrow> target = ''/metrics''"
    by (auto simp: session_body_def async_write_def u dest: m split: option.splits prod.splits)
qed

text \<open>
  C15. A session leaves no trace but its count.  Let a session of the C++ proxy run with no other session and
  no routing update in between.  Whatever it meets (a request that cannot be read, an unknown deployment,
  no replica, a call that does not start or breaks, a client that goes away at any write), afterwards
  every replica has as many outstanding requests as before and the gauge of active requests is back; the
  session was counted once, under its target as \<open>success\<close> or \<open>error\<close>, or as \<open>unknown\<close> and \<open>error\<close> when its
  request could not be read, except for \<open>/metrics\<close>, which is not counted.
\<close>

theorem session_restores_counts:
  "map counts (xp_handles (snd (cpp_http_session replica now later writable metrics_text req xp))) =
     map counts (xp_handles xp) \<and>
   mx_active (xp_metrics (snd (cpp_http_session replica now later writable metrics_text req xp))) = mx_active (xp_metrics xp) \<and>
   (\<exists>status \<in> {''success'', ''error''}.
     mx_requests (xp_metrics (snd (cpp_http_session replica now later writable metrics_text req xp))) =
       mx_requests (xp_metrics xp) @
         (case req of None \<Rightarrow> [(''unknown'', ''error'')]
          | Some (target, body) \<Rightarrow> if target = ''/metrics'' then [] else [(target, status)]))"
proof (cases req)
  case None
  then show ?thesis by (auto simp: cpp_http_session_def async_write_def Let_def gauge_def count_request_def)
next
  case (Some p)
  obtain target body where p: "p = (target, body)" by (cases p)
  let ?ss = "\<lparr>ss_sent = [], ss_first_token = True, ss_last_token_received = False, ss_metrics = gauge 1 (xp_metrics xp)\<rparr>"
  obtain ending ss1 xp1 where b: "session_body replica now later writable metrics_text target body xp ?ss = (ending, ss1, xp1)"
    by (metis prod_cases3)
  note f = session_body_frame [of replica now later writable metrics_text target body xp ?ss, unfolded b, simplified]
  show ?thesis
  proof (cases ending)
    case None
    with b f Some p show ?thesis by (auto simp: cpp_http_session_def Let_def gauge_def)
  next
    case (Some r)
    with b f \<open>req = Some p\<close> p show ?thesis
      by (cases r) (auto simp: cpp_http_session_def Let_def gauge_def count_request_def)
  qed
qed

text \<open>What the client of a known deployment reads.\<close>

lemma client_of_session:
  assumes "\<And>k. writable k" and "target \<noteq> ''/metrics''" and "dget (xp_table xp) target = Some h"
  shows "client_reads (fst (cpp_http_session replica now later writable metrics_text (Some (target, body)) xp)) =
     Some (200, case cpp_pick now (xp_handles xp ! h) of
       (Some (i, channel), ch) \<Rightarrow>
         (case replica channel body of
            NotStarted msg \<Rightarrow> []
          | Streamed replies status \<Rightarrow> concat (takeWhile (\<lambda>t. t \<noteq> []) (map rp_text replies)))
     | (None, ch) \<Rightarrow> [])"
proof -
  let ?f = "on_token_received writable target"
  let ?s0 = "\<lparr>ss_sent = [Header 200], ss_first_token = True, ss_last_token_received = False, ss_metrics = gauge 1 (xp_metrics xp)\<rparr>"
  let ?req = "cpp_send_request replica now later body ?f (xp_handles xp ! h) ?s0"
  have out: "fst (cpp_http_session replica now later writable metrics_text (Some (target, body)) xp) =
      ss_sent (fst (snd ?req)) @ [Bytes trailer]"
    using assms by (cases ?req) (simp add: cpp_http_session_def session_body_def async_write_def Let_def)
  have bad: "ss_sent (snd (?f (Inl msg) ss)) = ss_sent ss" for msg ss
    by (simp add: on_token_received_def Let_def)
  let ?rs = "case cpp_pick now (xp_handles xp ! h) of
       (Some (i, channel), ch) \<Rightarrow>
         (case replica channel body of NotStarted msg \<Rightarrow> [] | Streamed replies status \<Rightarrow> replies)
     | (None, ch) \<Rightarrow> []"
  have "ss_sent (fst (snd ?req)) = Header 200 # map (\<lambda>r. Bytes (chunk (rp_text r))) ?rs"
  proof (cases "cpp_pick now (xp_handles xp ! h)")
    case (Pair x ch)
    show ?thesis
    proof (cases x)
      case None
      with Pair show ?thesis by (simp add: cpp_send_request_def case_prod_unfold bad)
    next
      case (Some y)
      obtain i channel where y: "y = (i, channel)" by (cases y)
      show ?thesis
      proof (cases "replica channel body")
        case (NotStarted msg)
        with Pair Some y show ?thesis by (simp add: cpp_send_request_def case_prod_unfold Let_def bad)
      next
        case (Streamed replies status)
        obtain ss' where "feed_tokens ?f replies ?s0 = (Inr (), ss')"
          "ss_sent ss' = Header 200 # map (\<lambda>r. Bytes (chunk (rp_text r))) replies"
          using feed_writes [of writable target replies ?s0, OF assms(1)] by auto
        with Pair Some y Streamed show ?thesis
          by (cases status) (simp_all add: cpp_send_request_def case_prod_unfold Let_def bad)
      qed
    qed
  qed
  with out have sent: "fst (cpp_http_session replica now later writable metrics_text (Some (target, body)) xp) =
      Header 200 # map (\<lambda>r. Bytes (chunk (rp_text r))) ?rs @ [Bytes trailer]" by simp
  obtain rest where "dechunk (concat (map chunk (map rp_text ?rs)) @ trailer) =
      Some (concat (takeWhile (\<lambda>t. t \<noteq> []) (map rp_text ?rs)), rest)"
    using dechunk_pieces by blast
  then have "client_reads (fst (cpp_http_session replica now later writable metrics_text (Some (target, body)) xp)) =
      Some (200, concat (takeWhile (\<lambda>t. t \<noteq> []) (map rp_text ?rs)))"
    unfolding sent client_reads_def list.case sent.case sent_bytes_chunks by simp
  then show ?thesis by (auto split: prod.splits option.splits rpc_call.splits)
qed

text \<open>
  C29. A broken stream looks complete.  When every write to the client succeeds and the target is a deployment
  the table has (and not \<open>/metrics\<close>), what the C++ proxy sends is a complete chunked response with status
  200 whose body is the texts of the replies, up to the first empty one, put together.  The status with
  which the call to the replica ended does not enter it, nor the \<open>is_error\<close> of a reply; a call that does not
  start, or no replica to call, gives an empty body with status 200.
\<close>

theorem broken_stream_looks_complete:
  assumes "\<And>k. writable k" and "target \<noteq> ''/metrics''" and "dget (xp_table xp) target = Some h"
  shows "client_reads (fst (cpp_http_session replica now later writable metrics_text (Some (target, body)) xp)) =
     Some (200, case cpp_pick now (xp_handles xp ! h) of
       (Some (i, channel), ch) \<Rightarrow>
         (case replica channel body of
            NotStarted msg \<Rightarrow> []
          | Streamed replies status \<Rightarrow> concat (takeWhile (\<lambda>t. t \<noteq> []) (map rp_text replies)))
     | (None, ch) \<Rightarrow> [])"
  using assms by (rule client_of_session)

definition demo_cpp_proxy :: cpp_proxy where
  "demo_cpp_proxy = cpp_apply_update \<lparr>ru_deployments = [(2, two_running)], ru_timestamp = 1\<rparr> (cpp_proxy_init 50052)"

theorem broken_stream_looks_complete_witness:
  "client_reads (fst (cpp_http_session (\<lambda>channel message. Streamed [reply ''Hel'' False] (StatusError ''UNAVAILABLE'')) 0 1
     (\<lambda>k. True) ''metrics'' (Some (''/v1/chat/tinyllama'', ''hi'')) demo_cpp_proxy)) = Some (200, ''Hel'')"
proof -
  have t: "dget (xp_table demo_cpp_proxy) ''/v1/chat/tinyllama'' = Some 0"
    by (simp add: demo_cpp_proxy_def cpp_apply_update_def cpp_proxy_init_def two_running_def dict_eval)
  have p: "fst (cpp_pick 0 (xp_handles demo_cpp_proxy ! 0)) = Some (0, Some ''10.0.0.1:50101'')"
    by (simp add: demo_cpp_proxy_def cpp_apply_update_def cpp_proxy_init_def two_running_def cpp_handle_init_def
        cpp_pick_def set_active_def recover_def dict_eval)
  show ?thesis
    by (subst broken_stream_looks_complete [OF _ _ t]) (use p in \<open>auto simp: reply_def split: prod.splits\<close>)
qed

end
