(* ===== verification/ReplicaPorts.thy ===== *)
theory ReplicaPorts
  imports CppReplica SchedulerProps
begin

text \<open>
  The replica processes of one worker are children of its scheduler and share its network.  Each process of
  \<open>src/components/replica_server.cc\<close> binds two ports for metrics: the Python \<open>ReplicaManager\<close> the one of its
  command line, before it registers, and the C++ exposer the next one, after it has registered.  The
  machine runs the processes that a scheduler started, in any order and interleaving.

  A process that cannot bind either port ends: \<open>start_http_server\<close> raises in the constructor
  (\<open>cpp_main\<close>: \<open>Terminates\<close> before the registration), the exposer throws after it.
\<close>

section \<open>The host\<close>

datatype stage = Loaded | Enrolled | Up | Gone

record host =
  ho_ports :: "(int, nat) dict"
  ho_stages :: "(nat, stage) dict"

definition host_boot :: host where
  "host_boot = \<lparr>ho_ports = [], ho_stages = []\<rparr>"

text \<open>The port of \<open>--metrics_port\<close>, as \<open>main\<close> reads it.\<close>

definition metrics_port_of :: "string list \<Rightarrow> int option" where
  "metrics_port_of cmd =
     (case cpp_parse_args (tl cmd) no_args of
        None \<Rightarrow> None
      | Some o' \<Rightarrow> if args_complete o' then stoi (cv_metrics_port o') else None)"

definition set_stage :: "nat \<Rightarrow> stage \<Rightarrow> host \<Rightarrow> host" where
  "set_stage i st ho = ho\<lparr>ho_stages := dset i st (ho_stages ho)\<rparr>"

definition bind_port :: "nat \<Rightarrow> int \<Rightarrow> host \<Rightarrow> host" where
  "bind_port i p ho = ho\<lparr>ho_ports := dset p i (ho_ports ho)\<rparr>"

text \<open>A process that ends gives its ports back.\<close>

definition host_ends :: "nat \<Rightarrow> host \<Rightarrow> host" where
  "host_ends i ho = set_stage i Gone (ho\<lparr>ho_ports := filter (\<lambda>(p, j). j \<noteq> i) (ho_ports ho)\<rparr>)"

inductive host_step :: "string list list \<Rightarrow> host \<Rightarrow> host \<Rightarrow> bool" for launched where
  loads: "i < length launched \<Longrightarrow> dget (ho_stages ho) i = None \<Longrightarrow> metrics_port_of (launched ! i) = Some p \<Longrightarrow>
    p \<notin> dkeys (ho_ports ho) \<Longrightarrow> host_step launched ho (set_stage i Loaded (bind_port i p ho))"
| load_fails: "i < length launched \<Longrightarrow> dget (ho_stages ho) i = None \<Longrightarrow>
    host_step launched ho (host_ends i ho)"
| enrols: "dget (ho_stages ho) i = Some Loaded \<Longrightarrow> host_step launched ho (set_stage i Enrolled ho)"
| exposes: "dget (ho_stages ho) i = Some Enrolled \<Longrightarrow> metrics_port_of (launched ! i) = Some p \<Longrightarrow>
    p + 1 \<notin> dkeys (ho_ports ho) \<Longrightarrow> host_step launched ho (set_stage i Up (bind_port i (p + 1) ho))"
| expose_fails: "dget (ho_stages ho) i = Some Enrolled \<Longrightarrow> metrics_port_of (launched ! i) = Some p \<Longrightarrow>
    p + 1 \<in> dkeys (ho_ports ho) \<Longrightarrow> host_step launched ho (host_ends i ho)"
| dies: "dget (ho_stages ho) i = Some st \<Longrightarrow> host_step launched ho (host_ends i ho)"

inductive_cases host_stepE: "host_step launched ho ho'"

section \<open>Who holds which port\<close>

definition holds_ports :: "string list list \<Rightarrow> (int, nat) dict \<Rightarrow> nat \<Rightarrow> stage \<Rightarrow> bool" where
  "holds_ports launched ports i st \<longleftrightarrow>
     (case metrics_port_of (launched ! i) of
        None \<Rightarrow> False
      | Some p \<Rightarrow> dget ports p = Some i \<and> (st = Up \<longrightarrow> dget ports (p + 1) = Some i))"

definition ports_ok :: "string list list \<Rightarrow> host \<Rightarrow> bool" where
  "ports_ok launched ho \<longleftrightarrow>
     (\<forall>i st. dget (ho_stages ho) i = Some st \<and> st \<noteq> Gone \<longrightarrow> holds_ports launched (ho_ports ho) i st)"

text \<open>One process changes its stage and its ports; the ports of the others stay.\<close>

lemma ports_ok_change:
  assumes "ports_ok launched ho" and "ho_stages ho' = dset i st (ho_stages ho)"
    and "\<And>q j. dget (ho_ports ho) q = Some j \<Longrightarrow> j \<noteq> i \<Longrightarrow> dget (ho_ports ho') q = Some j"
    and "st \<noteq> Gone \<Longrightarrow> holds_ports launched (ho_ports ho') i st"
  shows "ports_ok launched ho'"
  unfolding ports_ok_def
proof (intro allI impI, elim conjE)
  fix j st' assume st: "dget (ho_stages ho') j = Some st'" "st' \<noteq> Gone"
  show "holds_ports launched (ho_ports ho') j st'"
  proof (cases "j = i")
    case True
    with st assms(2,4) show ?thesis by simp
  next
    case False
    with st assms(1,2) have "holds_ports launched (ho_ports ho) j st'" by (simp add: ports_ok_def)
    with False assms(3) show ?thesis by (auto simp: holds_ports_def split: option.splits)
  qed
qed

lemma dget_filter_keeps: "dget d p = Some k \<Longrightarrow> k \<noteq> i \<Longrightarrow> dget (filter (\<lambda>(p, j). j \<noteq> i) d) p = Some k"
  by (induction d) (auto simp: dget_Cons split: if_splits)

lemma ports_ok_ends: "ports_ok launched ho \<Longrightarrow> ports_ok launched (host_ends i ho)"
  by (erule ports_ok_change [where i = i and st = Gone])
    (simp_all add: host_ends_def set_stage_def dget_filter_keeps)

lemma ports_ok_step: "host_step launched ho ho' \<Longrightarrow> ports_ok launched ho \<Longrightarrow> ports_ok launched ho'"
proof (induction rule: host_step.induct)
  case (loads i ho p)
  from loads.prems show ?case
    by (rule ports_ok_change [where i = i and st = Loaded])
      (use loads.hyps in \<open>auto simp: set_stage_def bind_port_def holds_ports_def dkeys_iff\<close>)
next
  case (enrols ho i)
  then have "holds_ports launched (ho_ports ho) i Loaded" by (simp add: ports_ok_def)
  then have "holds_ports launched (ho_ports ho) i Enrolled" by (simp add: holds_ports_def split: option.splits)
  with enrols.prems show ?case
    by (rule_tac ports_ok_change [where i = i and st = Enrolled]) (simp_all add: set_stage_def)
next
  case (exposes ho i p)
  then have "holds_ports launched (ho_ports ho) i Enrolled" by (simp add: ports_ok_def)
  with exposes show ?case
    by (rule_tac ports_ok_change [where i = i and st = Up])
      (auto simp: set_stage_def bind_port_def holds_ports_def dkeys_iff)
qed (rule ports_ok_ends, assumption)+

interpretation host_machine: safe_machine "\<lambda>ho. ho = host_boot" "host_step launched" "ports_ok launched" for launched
proof
  show "ports_ok launched ho" if "ho = host_boot" for ho
    using that by (simp add: ports_ok_def host_boot_def)
qed (rule ports_ok_step)

section \<open>Neighbours\<close>

lemma metrics_port_command:
  assumes "port \<noteq> []" and "0 \<le> k" and "9000 + k < 2 ^ 31"
  shows "metrics_port_of (replica_command k port name dep np) = Some (9000 + k)"
  using assms by (simp add: metrics_port_of_def cpp_reads_command args_complete_def)

text \<open>Two live processes whose ports follow each other: the first one cannot be up.\<close>

lemma neighbours:
  assumes "ports_ok launched ho" and "metrics_port_of (launched ! i) = Some p" and "metrics_port_of (launched ! j) = Some (p + 1)"
    and "dget (ho_stages ho) i = Some Up" and "dget (ho_stages ho) j = Some st" and "st \<noteq> Gone"
  shows "False"
proof -
  have "holds_ports launched (ho_ports ho) i Up" "holds_ports launched (ho_ports ho) j st"
    using assms by (simp_all add: ports_ok_def)
  then have "dget (ho_ports ho) (p + 1) = Some i" "dget (ho_ports ho) (p + 1) = Some j"
    using assms(2,3) by (simp_all add: holds_ports_def)
  then have "p = p + 1" using assms(2,3) by simp
  then show False by simp
qed

lemma launches_two:
  assumes "create_replica_rpc request None sc = (Inr (Inr a), sc1)" and "create_replica_rpc request' None sc1 = (Inr (Inr a'), sc2)"
  shows "sc_launched sc2 = sc_launched sc @
    [replica_command (sc_replica_num sc + 1) (int_text (50101 + sc_replica_num sc)) (cq_deployment_name request)
       (int_text (cq_deployment_id request)) (int_text (sc_node_port sc)),
     replica_command (sc_replica_num sc + 2) (int_text (50102 + sc_replica_num sc)) (cq_deployment_name request')
       (int_text (cq_deployment_id request')) (int_text (sc_node_port sc))]"
proof -
  have one: "sc_launched s' = sc_launched s @ [replica_command (sc_replica_num s + 1) (int_text (50100 + (sc_replica_num s + 1)))
      (cq_deployment_name rq) (int_text (cq_deployment_id rq)) (int_text (sc_node_port s))] \<and>
      sc_replica_num s' = sc_replica_num s + 1 \<and> sc_node_port s' = sc_node_port s"
    if "create_replica_rpc rq None s = (Inr (Inr b), s')" for rq s b s'
    using that by (auto simp: create_replica_rpc_def start_replica_cpp_def Let_def split: sum.splits prod.splits)
  from one [OF assms(1)] one [OF assms(2)] show ?thesis by (simp add: add.commute)
qed

text \<open>
  C27. Two replicas of one worker.  When a scheduler starts two replicas, one after the other, the exposer
  of the first wants the metrics port of the second.  However the two processes run, in every state of
  the host in which the first one is up the second has not come up, or is gone: the two never serve
  together, although both creation calls started a process and each may have registered.
\<close>

theorem neighbours_never_both_up:
  assumes "create_replica_rpc request None sc = (Inr (Inr a), sc1)" and "create_replica_rpc request' None sc1 = (Inr (Inr a'), sc2)"
    and "0 \<le> sc_replica_num sc" and "sc_replica_num sc < 2 ^ 31 - 9002"
    and "reach (\<lambda>ho. ho = host_boot) (host_step (sc_launched sc2)) ho"
  shows "dget (ho_stages ho) (length (sc_launched sc)) \<noteq> Some Up \<or>
    dget (ho_stages ho) (length (sc_launched sc) + 1) \<in> {None, Some Gone}"
proof -
  have ok: "ports_ok (sc_launched sc2) ho" using assms(5) by (rule host_machine.reach_safe)
  let ?i = "length (sc_launched sc)"
  have p: "metrics_port_of (sc_launched sc2 ! ?i) = Some (9001 + sc_replica_num sc)"
    "metrics_port_of (sc_launched sc2 ! (?i + 1)) = Some (9001 + sc_replica_num sc + 1)"
    using launches_two [OF assms(1,2)] assms(3,4) by (auto simp: nth_append metrics_port_command)
  show ?thesis
    using neighbours [OF ok p] by (cases "dget (ho_stages ho) (?i + 1)") auto
qed

definition two_replicas :: "scheduler \<times> scheduler" where
  "two_replicas =
     (let request = \<lparr>cq_base_node_address = ''10.0.0.1:50052'', cq_deployment_id = 2, cq_num_cpus = 0, cq_num_gpus = 0,
            cq_deployment_name = ''/v1/chat/tinyllama''\<rparr>;
          sc = sched_init 1 ''10.0.0.1'' 50051 ''10.0.0.9'' ''50052'';
          sc1 = snd (create_replica_rpc request None sc)
      in (sc1, snd (create_replica_rpc request None sc1)))"

text \<open>The first replica is up and the second one had to give up.\<close>

lemma two_replicas_facts:
  defines "request \<equiv> \<lparr>cq_base_node_address = ''10.0.0.1:50052'', cq_deployment_id = 2, cq_num_cpus = 0,
    cq_num_gpus = 0, cq_deployment_name = ''/v1/chat/tinyllama''\<rparr>"
  shows "create_replica_rpc request None (sched_init 1 ''10.0.0.1'' 50051 ''10.0.0.9'' ''50052'') = (Inr (Inr 0), fst two_replicas)"
    and "create_replica_rpc request None (fst two_replicas) = (Inr (Inr 1), snd two_replicas)"
  unfolding request_def two_replicas_def
  by (simp_all add: Let_def create_replica_rpc_def start_replica_cpp_def sched_init_def create_future_def fm_init_def dict_eval)

theorem neighbours_never_both_up_witness:
  "\<exists>ho. reach (\<lambda>ho. ho = host_boot) (host_step (sc_launched (snd two_replicas))) ho \<and> dget (ho_stages ho) 0 = Some Up \<and>
    dget (ho_stages ho) 1 \<in> {None, Some Gone}"
proof -
  let ?l = "sc_launched (snd two_replicas)"
  have l: "?l = [replica_command 1 (int_text 50101) ''/v1/chat/tinyllama'' (int_text 2) (int_text 50051),
      replica_command 2 (int_text 50102) ''/v1/chat/tinyllama'' (int_text 2) (int_text 50051)]"
    using launches_two [OF two_replicas_facts] by (simp add: sched_init_def)
  let ?a = "set_stage 0 Loaded (bind_port 0 9001 host_boot)" and ?r = "\<lambda>ho. reach (\<lambda>ho. ho = host_boot) (host_step ?l) ho"
  have p: "metrics_port_of (?l ! 0) = Some 9001" by (simp add: l metrics_port_command)
  have "?r host_boot" by (rule reach_init) simp
  then have "?r ?a" by (rule reach_step) (rule loads, use p in \<open>simp_all add: l host_boot_def\<close>)
  then have "?r (set_stage 0 Enrolled ?a)" by (rule reach_step) (rule enrols, simp add: set_stage_def)
  then have r: "?r (set_stage 0 Up (bind_port 0 (9001 + 1) (set_stage 0 Enrolled ?a)))"
    by (rule reach_step) (rule exposes, use p in \<open>simp_all add: set_stage_def bind_port_def host_boot_def\<close>)
  let ?ho = "set_stage 0 Up (bind_port 0 (9001 + 1) (set_stage 0 Enrolled ?a))"
  have "dget (ho_stages ?ho) 0 = Some Up" by (simp add: set_stage_def)
  moreover have "dget (ho_stages ?ho) 0 \<noteq> Some Up \<or> dget (ho_stages ?ho) 1 \<in> {None, Some Gone}"
    using neighbours_never_both_up [OF two_replicas_facts _ _ r] by (simp add: sched_init_def)
  ultimately show ?thesis using r by blast
qed

end
