(* ===== verification/CppSystem.thy ===== *)
theory CppSystem
  imports CppProxy ReplicaPorts EndToEnd
begin

text \<open>
  The C++ processes in the system: the replica that a scheduler starts registers as what it was started
  for, and a client of the C++ proxy reads the text of the model.
\<close>

section \<open>The C++ proxy and the head\<close>

text \<open>After the head's latest snapshot the names of the head lead to its replicas.\<close>

lemma cpp_proxy_follows_head:
  assumes hd: "head_ok hc" and u: "hc_snapshot hc = Some u" and r: "routes (hc_dm hc) d = Some (name, version, infos)"
  shows "\<exists>h dep. dget (xp_table (cpp_apply_update u xp)) name = Some h \<and>
    xp_handles (cpp_apply_update u xp) ! h = cpp_handle_init dep \<and>
    map (\<lambda>r. (rm_replica_id r, rm_address r)) (dp_replicas dep) = map (\<lambda>info. (ri_replica_num info, ri_address info)) infos"
proof -
  have t: "ru_deployments u = table_of (hc_dm hc)" using hd u by (simp add: head_ok_def published_def)
  obtain dep where dep: "(d, dep) \<in> set (ru_deployments u)" "dp_deployment_name dep = name"
    "map routed (dp_replicas dep) = map routed_info infos"
    using table_entry [OF r] t by auto
  have "map (\<lambda>r. (rt_replica_id r, rt_replica_address r)) (map routed (dp_replicas dep)) =
      map (\<lambda>r. (rt_replica_id r, rt_replica_address r)) (map routed_info infos)"
    by (simp only: dep(3))
  then have "map (\<lambda>r. (rm_replica_id r, rm_address r)) (dp_replicas dep) = map (\<lambda>info. (ri_replica_num info, ri_address info)) infos"
    by (simp add: routed_def routed_info_def comp_def)
  moreover have "distinct (map (\<lambda>x. dp_deployment_name (snd x)) (ru_deployments u))"
    using hd by (simp add: t table_names head_ok_def static_ok_def first_names_def)
  from xp_tables.named_entry [OF this dep(1), of "xp\<lparr>xp_table := []\<rparr>"] dep(2)
  have "\<exists>h. dget (xp_table (cpp_apply_update u xp)) name = Some h \<and> xp_handles (cpp_apply_update u xp) ! h = cpp_handle_init dep"
    by (auto simp: cpp_apply_update_def)
  ultimately show ?thesis by blast
qed

text \<open>A new handle with a replica picks one of its replicas, by the address of one of them.\<close>

lemma fresh_handle_picks:
  assumes "dp_replicas dep \<noteq> []"
  shows "\<exists>i r ch. cpp_pick now (cpp_handle_init dep) = (Some (i, Some (rm_address r)), ch) \<and> r \<in> set (dp_replicas dep)"
proof -
  have rec: "map (recover now) (ch_replicas (cpp_handle_init dep)) = ch_replicas (cpp_handle_init dep)"
    by (simp add: init_replicas recover_def)
  have "healthy_places now (cpp_handle_init dep) \<noteq> []"
    using assms unfolding healthy_places_def rec by (cases "dp_replicas dep") (simp_all add: init_replicas)
  then obtain i channel ch where p: "cpp_pick now (cpp_handle_init dep) = (Some (i, channel), ch)"
    by (auto simp: cpp_pick_cases Let_def neq_Nil_conv)
  note c = cpp_pick_chosen [OF p]
  have "cr_id (ch_replicas (cpp_handle_init dep) ! i) \<in> rm_replica_id ` set (dp_replicas dep)"
    using c(1) by (simp add: init_replicas)
  then have "cr_id (ch_replicas (cpp_handle_init dep) ! i) \<in> fst ` set (rev (map (\<lambda>r. (rm_replica_id r, rm_address r)) (dp_replicas dep)))"
    by force
  then obtain a where a: "map_of (rev (map (\<lambda>r. (rm_replica_id r, rm_address r)) (dp_replicas dep)))
      (cr_id (ch_replicas (cpp_handle_init dep) ! i)) = Some a"
    by (metis map_of_eq_None_iff not_None_eq)
  then have "channel = Some a" using c(3) by (simp add: cpp_handle_init_def add_replicas_channels)
  moreover have "\<exists>r \<in> set (dp_replicas dep). a = rm_address r" using map_of_SomeD [OF a] by auto
  ultimately show ?thesis using p by blast
qed

section \<open>From the client to the model\<close>

text \<open>What the service at a channel answers, if a C++ replica with this engine serves it to its end.\<close>

definition served_by_cpp :: "(string \<Rightarrow> generation res) \<Rightarrow> string \<Rightarrow> rpc_call \<Rightarrow> bool" where
  "served_by_cpp gen message answer \<longleftrightarrow>
     (\<exists>m counts s. reach (\<lambda>s. s = send_start (Some gen) message m counts) stream_step s \<and>
        (\<nexists>t. stream_step s t) \<and> \<not> sq_lost s \<and> answer = Streamed (sq_written s) StatusOk)"

lemma served_text:
  assumes "served_by_cpp gen message answer" and "gen (format_prompt message) = Inr (outputs, None)"
    and "py_castable (format_prompt message)" and "growing [] (first_texts outputs)" and "\<forall>ro \<in> set outputs. ro_texts ro \<noteq> []"
  shows "\<exists>replies. answer = Streamed replies StatusOk \<and>
    concat (takeWhile (\<lambda>t. t \<noteq> []) (map rp_text replies)) = std_string (final_text [] (first_texts outputs))"
proof -
  obtain m counts s where s: "reach (\<lambda>s. s = send_start (Some gen) message m counts) stream_step s"
    "\<nexists>t. stream_step s t" "\<not> sq_lost s" "answer = Streamed (sq_written s) StatusOk"
    using assms(1) by (auto simp: served_by_cpp_def)
  have t: "concat (map rp_text (sq_written s)) = std_string (final_text [] (first_texts outputs))"
    "\<forall>r \<in> set (sq_written s). rp_text r \<noteq> []"
    using delivered_text [of gen message outputs, OF assms(2-5) s(1,2)] s(3) by blast+
  then have "takeWhile (\<lambda>t. t \<noteq> []) (map rp_text (sq_written s)) = map rp_text (sq_written s)"
    by (simp add: takeWhile_eq_all_conv)
  with t(1) s(4) show ?thesis by metis
qed

text \<open>
  C16. The client of the C++ proxy gets the model's text.  In every reachable state of the control plane,
  when the C++ proxy has applied the head's latest snapshot and a client posts a prompt to a deployment
  with replicas, the proxy calls a replica that is registered with a scheduler for this deployment;
  when such replicas run the C++ server to the end of the stream, with an engine whose texts grow, the
  client reads a complete response with status 200 whose body is the final text in UTF-8.
\<close>

theorem cpp_client_gets_model_text:
  assumes "reach cluster_start cluster_step cl" and "hc_snapshot (cl_head cl) = Some u"
    and "routes (hc_dm (cl_head cl)) d = Some (name, version, infos)" and "infos \<noteq> []"
    and "gen (format_prompt body) = Inr (outputs, None)" and "py_castable (format_prompt body)"
    and "growing [] (first_texts outputs)" and "\<forall>ro \<in> set outputs. ro_texts ro \<noteq> []" and "\<And>k. writable k"
    and "\<And>w sc k h. dget (cl_workers cl) w = Some sc \<Longrightarrow> dget (sc_registry sc) k = Some h \<Longrightarrow> rh_deployment_id h = d \<Longrightarrow>
      served_by_cpp gen body (replica (Some (host_port (sc_node_address sc) (rh_port h))) body)"
  shows "client_reads (fst (cpp_http_session replica now later writable metrics_text (Some (name, body)) (cpp_apply_update u xp))) =
    Some (200, std_string (final_text [] (first_texts outputs)))"
proof -
  note ok = cluster_okD [OF cluster_machine.reach_safe [OF assms(1)]]
  obtain h dep where h: "dget (xp_table (cpp_apply_update u xp)) name = Some h"
    "xp_handles (cpp_apply_update u xp) ! h = cpp_handle_init dep"
    and rs: "map (\<lambda>r. (rm_replica_id r, rm_address r)) (dp_replicas dep) = map (\<lambda>info. (ri_replica_num info, ri_address info)) infos"
    using cpp_proxy_follows_head [OF ok(1) assms(2,3), of xp] by blast
  have "dp_replicas dep \<noteq> []" using rs assms(4) by auto
  then obtain i r ch where p: "cpp_pick now (cpp_handle_init dep) = (Some (i, Some (rm_address r)), ch)"
    "r \<in> set (dp_replicas dep)" using fresh_handle_picks by blast
  then have "(rm_replica_id r, rm_address r) \<in> set (map (\<lambda>info. (ri_replica_num info, ri_address info)) infos)"
    unfolding rs [symmetric] by force
  then obtain info where info: "info \<in> set infos" "rm_address r = ri_address info" by auto
  then have "backed (cl_workers cl) d info" using ok(6) assms(3) by (auto simp: serves_def)
  then obtain w sc k hd where "dget (cl_workers cl) w = Some sc" "dget (sc_registry sc) k = Some hd" "rh_deployment_id hd = d"
    "ri_address info = host_port (sc_node_address sc) (rh_port hd)"
    unfolding backed_def by (metis replica_info.select_convs(2))
  from assms(10) [OF this(1-3)] this(4) info(2)
  have "served_by_cpp gen body (replica (Some (rm_address r)) body)" by simp
  from served_text [OF this assms(5-8)] obtain replies where
    "replica (Some (rm_address r)) body = Streamed replies StatusOk"
    "concat (takeWhile (\<lambda>t. t \<noteq> []) (map rp_text replies)) = std_string (final_text [] (first_texts outputs))"
    by blast
  moreover have "name \<noteq> ''/metrics''" using deployment_names [OF ok(1) assms(3)] by auto
  ultimately show ?thesis using client_of_session [OF assms(9) _ h(1)] p(1) h(2) by simp
qed

definition hello_cpp :: "string option \<Rightarrow> string \<Rightarrow> rpc_call" where
  "hello_cpp channel message = Streamed (map (cpp_reply \<circ> std_string) [''Hel'', ''lo'']) StatusOk"

lemma hello_served: "served_by_cpp two_steps ''hi'' (hello_cpp channel message)"
proof -
  have c: "py_castable (format_prompt ''hi'')" by (simp add: py_castable_def format_prompt_def)
  have "fst (snd (generate_stream (Some two_steps) (format_prompt ''hi'') [] zero_metrics)) = map Some [''Hel'', ''lo''] @ [None]"
    by (simp add: generate_stream_def two_steps_def zero_metrics_def)
  from start_starts [OF c this] have st: "starts [''Hel'', ''lo''] (send_start (Some two_steps) ''hi'' zero_metrics zero_counts)" .
  then have "\<not> sq_lost (send_start (Some two_steps) ''hi'' zero_metrics zero_counts)" by (simp add: starts_def)
  from patient_run [OF this] obtain s where
    s: "reach (\<lambda>s. s = send_start (Some two_steps) ''hi'' zero_metrics zero_counts) stream_step s"
      "\<nexists>t. stream_step s t" "\<not> sq_lost s" by blast
  have "sq_written s = map (cpp_reply \<circ> std_string) [''Hel'', ''lo'']"
    using stream_rest(3) [OF reach_from_start [OF s(1), of "starts [''Hel'', ''lo'']"] s(2,3)] st by blast
  with s show ?thesis unfolding served_by_cpp_def hello_cpp_def by metis
qed

theorem cpp_client_gets_model_text_witness:
  "\<exists>u. hc_snapshot (cl_head run_answered) = Some u \<and>
    client_reads (fst (cpp_http_session hello_cpp 0 1 (\<lambda>k. True) ''metrics'' (Some (''/v1/chat/tinyllama'', ''hi''))
      (cpp_apply_update u (cpp_proxy_init 50052)))) = Some (200, ''Hello'')"
proof -
  obtain u where u: "hc_snapshot (cl_head run_answered) = Some u" using run_answered_snapshot by blast
  let ?os = "[\<lparr>ro_texts = [''Hel''], ro_finished = False\<rparr>, \<lparr>ro_texts = [''Hello''], ro_finished = True\<rparr>]"
  have g: "two_steps (format_prompt ''hi'') = Inr (?os, None)" by (simp add: two_steps_def)
  have c: "py_castable (format_prompt ''hi'')" by (simp add: py_castable_def format_prompt_def)
  have "std_string ''Hello'' = ''Hello''" by (rule std_string_ascii) simp
  with cpp_client_gets_model_text [where replica = hello_cpp and writable = "\<lambda>k. True" and now = 0 and later = 1 and
      metrics_text = "''metrics''" and xp = "cpp_proxy_init 50052" and gen = two_steps and body = "''hi''" and outputs = ?os, OF run_answered_reach u run_answered_route _ g c]
  have "client_reads (fst (cpp_http_session hello_cpp 0 1 (\<lambda>k. True) ''metrics'' (Some (''/v1/chat/tinyllama'', ''hi''))
      (cpp_apply_update u (cpp_proxy_init 50052)))) = Some (200, ''Hello'')"
    by (simp add: first_texts_def hello_served)
  with u show ?thesis by blast
qed

section \<open>What a replica registers as\<close>

text \<open>The handler of the scheduler as the stub of the C++ process; nothing answers at another address.\<close>

definition scheduler_stub :: "string \<Rightarrow> replica_status \<Rightarrow> scheduler \<Rightarrow> bool option \<times> scheduler" where
  "scheduler_stub address status sc =
     (if address = ''0.0.0.0:'' @ int_text (sc_node_port sc)
      then (case register_replica_rpc status sc of (ack, sc') \<Rightarrow> (Some ack, sc')) else (None, sc))"

text \<open>
  C20. A replica registers as what it was started for.  The process that a scheduler starts for a creation
  call reads its command line, loads the model of the deployment's name, binds its metrics port and
  registers at this scheduler with the number, the port and the deployment of the call, which is what
  the machine of the control plane assumes of registrations.  It does so before it knows whether it can
  serve: if the exposer's port (the next one) is taken the process ends, if its own port is taken it
  crashes, and in both cases it stays registered.
\<close>

theorem launched_process_registers:
  assumes "create_replica_rpc request None sc = (Inr (Inr a), sc')" and "model_ids (cq_deployment_name request) = Some model_id"
    and "0 \<le> sc_replica_num sc" and "sc_replica_num sc < 2 ^ 31 - 9001"
    and "0 \<le> cq_deployment_id request" and "cq_deployment_id request < 2 ^ 31" and "0 \<le> pid" and "pid < 2 ^ 32"
    and "metrics_failure (9001 + sc_replica_num sc) = None"
  shows "\<exists>status mgr. from_launch status sc' \<and> rs_replica_id status = sc_replica_num sc' \<and>
    rs_deployment_id status = cq_deployment_id request \<and> qm_model_id mgr = model_id \<and>
    cpp_main model_ids load metrics_failure listening exposed scheduler_stub pid (tl (last (sc_launched sc'))) sc' =
      (if \<not> exposed (9002 + sc_replica_num sc) then Terminates
       else if \<not> listening (''0.0.0.0:'' @ rs_port status) then Crashes else Serves mgr,
       snd (register_replica_rpc status sc'))"
proof -
  let ?k = "sc_replica_num sc + 1" and ?d = "cq_deployment_id request" and ?name = "cq_deployment_name request"
  let ?port = "int_text (50100 + ?k)"
  let ?status = "\<lparr>rs_state = ''RUNNING'', rs_replica_id = ?k, rs_pid = pid, rs_port = ?port, rs_deployment_id = ?d,
    rs_deployment_name = ?name\<rparr>"
  have l: "sc_launched sc' = sc_launched sc @ [replica_command ?k ?port ?name (int_text ?d) (int_text (sc_node_port sc'))]"
    "sc_replica_num sc' = ?k"
    using assms(1) by (auto simp: create_replica_rpc_def start_replica_cpp_def Let_def split: sum.splits prod.splits)
  have "scheduler_stub (''0.0.0.0:'' @ int_text (sc_node_port sc')) ?status sc' = (Some True, snd (register_replica_rpc ?status sc'))"
    by (simp add: scheduler_stub_def register_replica_rpc_def Let_def)
  then have "cpp_main model_ids load metrics_failure listening exposed scheduler_stub pid
        (tl (replica_command ?k ?port ?name (int_text ?d) (int_text (sc_node_port sc')))) sc' =
      (if \<not> exposed (9001 + ?k) then Terminates
       else if \<not> listening (''0.0.0.0:'' @ ?port) then Crashes
       else Serves \<lparr>qm_deployment_name = ?name, qm_deployment_id = ?d, qm_metrics_port = 9000 + ?k, qm_model_id = model_id,
         qm_engine = (case load (queue_engine_args model_id) of Inl e \<Rightarrow> None | Inr gen \<Rightarrow> Some gen)\<rparr>,
       snd (register_replica_rpc ?status sc'))"
    using assms(3,4,9) by (intro cpp_main_command assms(2,5-8)) (simp_all add: add.commute)
  then have "cpp_main model_ids load metrics_failure listening exposed scheduler_stub pid (tl (last (sc_launched sc'))) sc' =
      (if \<not> exposed (9001 + ?k) then Terminates
       else if \<not> listening (''0.0.0.0:'' @ ?port) then Crashes
       else Serves \<lparr>qm_deployment_name = ?name, qm_deployment_id = ?d, qm_metrics_port = 9000 + ?k, qm_model_id = model_id,
         qm_engine = (case load (queue_engine_args model_id) of Inl e \<Rightarrow> None | Inr gen \<Rightarrow> Some gen)\<rparr>,
       snd (register_replica_rpc ?status sc'))"
    unfolding l(1) last_snoc .
  moreover have "from_launch ?status sc'" using l by (auto simp: from_launch_def)
  moreover have "9001 + ?k = 9002 + sc_replica_num sc" by simp
  ultimately show ?thesis
    using l(2) by (intro exI [of _ ?status] exI [of _ "\<lparr>qm_deployment_name = ?name, qm_deployment_id = ?d,
      qm_metrics_port = 9000 + ?k, qm_model_id = model_id,
      qm_engine = (case load (queue_engine_args model_id) of Inl e \<Rightarrow> None | Inr gen \<Rightarrow> Some gen)\<rparr>"]) simp
qed

text \<open>The second metrics port is taken: the process ends, the scheduler has registered it.\<close>

theorem launched_process_registers_witness:
  "\<exists>status. fst (cpp_main (\<lambda>name. Some ''gpt2'') (\<lambda>args. Inl (GenericError ''no GPU'')) (\<lambda>p. None) (\<lambda>address. True)
      (\<lambda>p. p \<noteq> 9002) scheduler_stub 4711 (tl (last (sc_launched run_waiting))) run_waiting) = Terminates \<and>
    from_launch status run_waiting \<and> rs_replica_id status = 1"
proof -
  have n: "sc_replica_num demo_sched = 0" by (simp add: demo_sched_def sched_init_def)
  from launched_process_registers [where model_ids = "\<lambda>name. Some ''gpt2''" and model_id = "''gpt2''" and
      load = "\<lambda>args. Inl (GenericError ''no GPU'')" and metrics_failure = "\<lambda>p. None" and pid = 4711 and
      listening = "\<lambda>address. True" and exposed = "\<lambda>p. p \<noteq> 9002", OF run_facts(7)]
  show ?thesis by (auto simp: n run_facts(4,8))
qed

end
