(* ===== verification/CppSessions.thy ===== *)
theory CppSessions
  imports CppProxy HandleTable
begin

text \<open>
  The C++ proxy with many sessions at once (\<open>src/components/headNode/http_proxy.cpp\<close>).  The \<open>io_context\<close> runs
  on several threads, so a session is cut into steps where it is suspended or waits for a mutex, and
  other sessions and routing updates come in between:

  \<^item> it is accepted, reads its request, looks the handle up and writes the header;
  \<^item> it chooses a replica under the mutex of the handle, which may no longer be in the table;
  \<^item> it passes on the texts it reads, one by one, until the call fails or ends;
  \<^item> the destructor of \<open>ReplicaReleaser\<close> takes no mutex to give the count back: it reads the count and
    then writes it, and others may come in between;
  \<^item> it counts itself, writes the end of the body and closes its socket.

  The choice is one step, also towards a release: a release that came between the reading and the writing of
  \<open>active_requests++\<close> would be one more way to lose a count, and is left out.
\<close>

datatype session_phase =
    Reading
  | Holding nat
  | Calling nat nat "string option"
  | Releases nat nat "unit res"
  | Loaded nat nat int "unit res"
  | Closing "unit res"

text \<open>
  The variables of a session, and where it is: the handle, the place of its replica and the channel, the
  count that the destructor has read, and how the \<open>try\<close> block was left.
\<close>

record cpp_session =
  cs_name :: string
  cs_sent :: "sent list"
  cs_first_token :: bool
  cs_last_token_received :: bool
  cs_phase :: session_phase

text \<open>The proxy, its sessions, and what the sessions that are over have written.\<close>

record cpp_serving =
  sv_proxy :: cpp_proxy
  sv_sessions :: "(nat, cpp_session) dict"
  sv_closed :: "(nat \<times> sent list) list"

definition sv_handle :: "cpp_serving \<Rightarrow> nat \<Rightarrow> cpp_handle" where
  "sv_handle sv h = xp_handles (sv_proxy sv) ! h"

definition sv_put_handle :: "nat \<Rightarrow> cpp_handle \<Rightarrow> cpp_serving \<Rightarrow> cpp_serving" where
  "sv_put_handle h ch sv = sv\<lparr>sv_proxy := (sv_proxy sv)\<lparr>xp_handles := (xp_handles (sv_proxy sv))[h := ch]\<rparr>\<rparr>"

text \<open>A session as \<open>CppProxy\<close> has it, with the metrics of the proxy, and what it leaves behind.\<close>

definition sv_view :: "cpp_session \<Rightarrow> cpp_serving \<Rightarrow> session" where
  "sv_view cs sv = \<lparr>ss_sent = cs_sent cs, ss_first_token = cs_first_token cs,
     ss_last_token_received = cs_last_token_received cs, ss_metrics = xp_metrics (sv_proxy sv)\<rparr>"

definition sv_put :: "nat \<Rightarrow> string \<Rightarrow> session \<Rightarrow> session_phase \<Rightarrow> cpp_serving \<Rightarrow> cpp_serving" where
  "sv_put j name ss ph sv =
     sv\<lparr>sv_proxy := (sv_proxy sv)\<lparr>xp_metrics := ss_metrics ss\<rparr>,
        sv_sessions := dset j \<lparr>cs_name = name, cs_sent = ss_sent ss, cs_first_token = ss_first_token ss,
          cs_last_token_received = ss_last_token_received ss, cs_phase = ph\<rparr> (sv_sessions sv)\<rparr>"

definition session_over :: "nat \<Rightarrow> session \<Rightarrow> cpp_serving \<Rightarrow> cpp_serving" where
  "session_over j ss sv =
     sv\<lparr>sv_proxy := (sv_proxy sv)\<lparr>xp_metrics := gauge (- 1) (ss_metrics ss)\<rparr>,
        sv_sessions := ddel j (sv_sessions sv), sv_closed := sv_closed sv @ [(j, ss_sent ss)]\<rparr>"

section \<open>The steps of a session\<close>

text \<open>\<open>http_listener\<close> accepts a connection.\<close>

definition session_starts :: "nat \<Rightarrow> cpp_serving \<Rightarrow> cpp_serving" where
  "session_starts j sv = sv_put j ''unknown'' \<lparr>ss_sent = [], ss_first_token = True, ss_last_token_received = False,
     ss_metrics = gauge 1 (xp_metrics (sv_proxy sv))\<rparr> Reading sv"

text \<open>The request has been read (or not), up to the header of the answer.\<close>

definition session_reads ::
  "(nat \<Rightarrow> bool) \<Rightarrow> string \<Rightarrow> string option \<Rightarrow> nat \<Rightarrow> cpp_session \<Rightarrow> cpp_serving \<Rightarrow> cpp_serving" where
  "session_reads writable metrics_text req j cs sv =
     (let ss = sv_view cs sv
      in case req of
           None \<Rightarrow> sv_put j (cs_name cs) ss (Closing (Inl (GenericError ''read''))) sv
         | Some target \<Rightarrow>
             if target = ''/metrics''
             then session_over j (serve_metrics writable metrics_text ss) sv
             else
               (case dget (xp_table (sv_proxy sv)) target of
                  None \<Rightarrow>
                    (case async_write writable (Whole 404 ''Deployment not found'') ss of
                       (Inl e, ss1) \<Rightarrow> sv_put j target ss1 (Closing (Inl e)) sv
                     | (Inr u, ss1) \<Rightarrow> sv_put j target ss1 (Closing (Inl (RuntimeError ''Deployment not found''))) sv)
                | Some h \<Rightarrow>
                    (case async_write writable (Header 200) ss of
                       (Inl e, ss1) \<Rightarrow> sv_put j target ss1 (Closing (Inl e)) sv
                     | (Inr u, ss1) \<Rightarrow> sv_put j target ss1 (Holding h) sv)))"

text \<open>\<open>pick_next_replica\<close>; without a replica the callback is called with an error.\<close>

definition session_chooses :: "(nat \<Rightarrow> bool) \<Rightarrow> int \<Rightarrow> nat \<Rightarrow> cpp_session \<Rightarrow> nat \<Rightarrow> cpp_serving \<Rightarrow> cpp_serving" where
  "session_chooses writable now j cs h sv =
     (case cpp_pick now (sv_handle sv h) of
        (None, ch) \<Rightarrow>
          (case on_token_received writable (cs_name cs) (Inl ''No replicas available'') (sv_view cs sv) of
             (r, ss) \<Rightarrow> sv_put j (cs_name cs) ss (Closing r) (sv_put_handle h ch sv))
      | (Some (i, channel), ch) \<Rightarrow>
          sv_put j (cs_name cs) (sv_view cs sv) (Calling h i channel) (sv_put_handle h ch sv))"

text \<open>A reply has been read: the callback writes it, or throws.\<close>

definition session_passes ::
  "(nat \<Rightarrow> bool) \<Rightarrow> string \<Rightarrow> nat \<Rightarrow> cpp_session \<Rightarrow> nat \<Rightarrow> nat \<Rightarrow> string option \<Rightarrow> cpp_serving \<Rightarrow> cpp_serving" where
  "session_passes writable t j cs h i channel sv =
     (case on_token_received writable (cs_name cs) (Inr t) (sv_view cs sv) of
        (Inl e, ss) \<Rightarrow> sv_put j (cs_name cs) ss (Releases h i (Inl e)) sv
      | (Inr u, ss) \<Rightarrow> sv_put j (cs_name cs) ss (Calling h i channel) sv)"

text \<open>The call did not start or ended with an error.\<close>

definition session_fails ::
  "(nat \<Rightarrow> bool) \<Rightarrow> int \<Rightarrow> string \<Rightarrow> nat \<Rightarrow> cpp_session \<Rightarrow> nat \<Rightarrow> nat \<Rightarrow> cpp_serving \<Rightarrow> cpp_serving" where
  "session_fails writable later msg j cs h i sv =
     (case on_token_received writable (cs_name cs) (Inl msg) (sv_view cs sv) of
        (r, ss) \<Rightarrow> sv_put j (cs_name cs) ss (Releases h i r)
          (sv_put_handle h (mark_replica_unhealthy later (cr_id (ch_replicas (sv_handle sv h) ! i)) (sv_handle sv h)) sv))"

text \<open>The call ended well.\<close>

definition session_ends :: "nat \<Rightarrow> cpp_session \<Rightarrow> nat \<Rightarrow> nat \<Rightarrow> cpp_serving \<Rightarrow> cpp_serving" where
  "session_ends j cs h i sv = sv_put j (cs_name cs) (sv_view cs sv) (Releases h i (Inr ())) sv"

text \<open>The destructor of \<open>ReplicaReleaser\<close>: \<open>active_requests--\<close> without the mutex.\<close>

definition session_loads :: "nat \<Rightarrow> cpp_session \<Rightarrow> nat \<Rightarrow> nat \<Rightarrow> unit res \<Rightarrow> cpp_serving \<Rightarrow> cpp_serving" where
  "session_loads j cs h i r sv =
     sv_put j (cs_name cs) (sv_view cs sv) (Loaded h i (cr_active (ch_replicas (sv_handle sv h) ! i)) r) sv"

definition session_stores :: "nat \<Rightarrow> cpp_session \<Rightarrow> nat \<Rightarrow> nat \<Rightarrow> int \<Rightarrow> unit res \<Rightarrow> cpp_serving \<Rightarrow> cpp_serving" where
  "session_stores j cs h i n r sv =
     sv_put j (cs_name cs) (sv_view cs sv) (Closing r) (sv_put_handle h (set_active (\<lambda>_. n - 1) i (sv_handle sv h)) sv)"

text \<open>The rest of \<open>http_session\<close>.\<close>

definition session_leaves :: "(nat \<Rightarrow> bool) \<Rightarrow> nat \<Rightarrow> cpp_session \<Rightarrow> unit res \<Rightarrow> cpp_serving \<Rightarrow> cpp_serving" where
  "session_leaves writable j cs r sv =
     session_over j (snd (async_write writable (Bytes trailer) ((sv_view cs sv)\<lparr>ss_metrics :=
       count_request (cs_name cs) (case r of Inl e \<Rightarrow> ''error'' | Inr u \<Rightarrow> ''success'') (xp_metrics (sv_proxy sv))\<rparr>))) sv"

definition serving_start :: "cpp_serving \<Rightarrow> bool" where
  "serving_start sv \<longleftrightarrow> (\<exists>parent_port. sv = \<lparr>sv_proxy = cpp_proxy_init parent_port, sv_sessions = [], sv_closed = []\<rparr>)"

definition in_phase :: "cpp_serving \<Rightarrow> nat \<Rightarrow> cpp_session \<Rightarrow> session_phase \<Rightarrow> bool" where
  "in_phase sv j cs ph \<longleftrightarrow> dget (sv_sessions sv) j = Some cs \<and> cs_phase cs = ph"

text \<open>What a session does in the phase it is in.\<close>

inductive session_step :: "cpp_serving \<Rightarrow> cpp_serving \<Rightarrow> bool" where
  accepts: "dget (sv_sessions sv) j = None \<Longrightarrow> session_step sv (session_starts j sv)"
| reads: "in_phase sv j cs Reading \<Longrightarrow> session_step sv (session_reads writable metrics_text req j cs sv)"
| chooses: "in_phase sv j cs (Holding h) \<Longrightarrow> session_step sv (session_chooses writable now j cs h sv)"
| passes: "in_phase sv j cs (Calling h i channel) \<Longrightarrow>
    session_step sv (session_passes writable t j cs h i channel sv)"
| fails: "in_phase sv j cs (Calling h i channel) \<Longrightarrow>
    session_step sv (session_fails writable later msg j cs h i sv)"
| ends: "in_phase sv j cs (Calling h i channel) \<Longrightarrow> session_step sv (session_ends j cs h i sv)"
| loads: "in_phase sv j cs (Releases h i r) \<Longrightarrow> session_step sv (session_loads j cs h i r sv)"
| stores: "in_phase sv j cs (Loaded h i n r) \<Longrightarrow> session_step sv (session_stores j cs h i n r sv)"
| leaves: "in_phase sv j cs (Closing r) \<Longrightarrow> session_step sv (session_leaves writable j cs r sv)"

text \<open>The proxy: sessions and routing updates.\<close>

definition sv_apply :: "routing_update \<Rightarrow> cpp_serving \<Rightarrow> cpp_serving" where
  "sv_apply u sv = sv\<lparr>sv_proxy := cpp_apply_update u (sv_proxy sv)\<rparr>"

inductive serving_step :: "cpp_serving \<Rightarrow> cpp_serving \<Rightarrow> bool" where
  serving_update: "serving_step sv (sv_apply u sv)"
| serving_session: "session_step sv sv' \<Longrightarrow> serving_step sv sv'"

section \<open>What no session changes\<close>

text \<open>The replicas and the channels of a handle without counts and health; the addresses of its channels.\<close>

type_synonym face = "(string \<times> string \<times> string) list \<times> (string, string) dict"

definition shape :: "cpp_handle \<Rightarrow> face" where
  "shape ch = (map (\<lambda>r. (cr_id r, cr_address r, cr_state r)) (ch_replicas ch), ch_channels ch)"

definition shapes :: "cpp_serving \<Rightarrow> face list" where
  "shapes sv = map shape (xp_handles (sv_proxy sv))"

definition wired :: "face \<Rightarrow> bool" where
  "wired s \<longleftrightarrow> (\<forall>r \<in> set (fst s). dget (snd s) (fst r) \<noteq> None)"

definition shape_calls :: "face \<Rightarrow> string set" where
  "shape_calls s = {a. \<exists>r \<in> set (fst s). dget (snd s) (fst r) = Some a}"

fun phase_ok :: "face list \<Rightarrow> session_phase \<Rightarrow> bool" where
  "phase_ok ss (Holding h) = (h < length ss)"
| "phase_ok ss (Calling h i channel) = (h < length ss \<and> i < length (fst (ss ! h)) \<and> channel \<noteq> None)"
| "phase_ok ss (Releases h i r) = (h < length ss \<and> i < length (fst (ss ! h)))"
| "phase_ok ss (Loaded h i n r) = (h < length ss \<and> i < length (fst (ss ! h)))"
| "phase_ok ss ph = True"

fun phase_calls :: "face list \<Rightarrow> session_phase \<Rightarrow> string set" where
  "phase_calls ss (Holding h) = shape_calls (ss ! h)"
| "phase_calls ss (Calling h i channel) = set_option channel"
| "phase_calls ss ph = {}"

definition serving_ok :: "cpp_serving \<Rightarrow> bool" where
  "serving_ok sv \<longleftrightarrow> dict_ok (sv_sessions sv) \<and>
     (\<forall>name h. dget (xp_table (sv_proxy sv)) name = Some h \<longrightarrow> h < length (shapes sv)) \<and>
     (\<forall>s \<in> set (shapes sv). wired s) \<and>
     (\<forall>j cs. dget (sv_sessions sv) j = Some cs \<longrightarrow> phase_ok (shapes sv) (cs_phase cs))"

text \<open>The names and addresses to which the proxy sends requests, or may send them.\<close>

definition sv_calls :: "cpp_serving \<Rightarrow> (string \<times> string) set" where
  "sv_calls sv =
     {(name, a). \<exists>h. dget (xp_table (sv_proxy sv)) name = Some h \<and> a \<in> shape_calls (shapes sv ! h)} \<union>
     {(name, a). \<exists>j cs. dget (sv_sessions sv) j = Some cs \<and> cs_name cs = name \<and> a \<in> phase_calls (shapes sv) (cs_phase cs)}"

lemma serving_okD:
  assumes "serving_ok sv"
  shows "dict_ok (sv_sessions sv)"
    and "dget (xp_table (sv_proxy sv)) name = Some h \<Longrightarrow> h < length (shapes sv)"
    and "s \<in> set (shapes sv) \<Longrightarrow> wired s"
    and "dget (sv_sessions sv) j = Some cs \<Longrightarrow> phase_ok (shapes sv) (cs_phase cs)"
  using assms unfolding serving_ok_def by blast+

lemma shapes_length [simp]: "length (shapes sv) = length (xp_handles (sv_proxy sv))"
  by (simp add: shapes_def)

lemma shapes_nth [simp]: "h < length (xp_handles (sv_proxy sv)) \<Longrightarrow> shapes sv ! h = shape (sv_handle sv h)"
  by (simp add: shapes_def sv_handle_def)

lemma shape_places [simp]: "length (fst (shape ch)) = length (ch_replicas ch)"
  by (simp add: shape_def)

lemma shape_calls_place:
  "i < length (ch_replicas ch) \<Longrightarrow> dget (ch_channels ch) (cr_id (ch_replicas ch ! i)) = Some a \<Longrightarrow> a \<in> shape_calls (shape ch)"
  by (auto simp: shape_calls_def shape_def)

lemma mark_first_face:
  "map (\<lambda>r. (cr_id r, cr_address r, cr_state r)) (mark_first now k rs) = map (\<lambda>r. (cr_id r, cr_address r, cr_state r)) rs"
  by (induction rs) simp_all

lemma recover_state [simp]: "cr_state (recover now r) = cr_state r"
  by (simp add: recover_def)

lemma face_same:
  "shape (mark_replica_unhealthy now k ch) = shape ch" "shape (set_active f i ch) = shape ch"
  "shape (cpp_release i ch) = shape ch" "shape (snd (cpp_pick now ch)) = shape ch"
proof -
  show s: "shape (set_active f i ch) = shape ch" for f i ch
    by (cases "i < length (ch_replicas ch)")
      (simp_all add: shape_def set_active_def map_update list_update_same_conv list_update_beyond)
  then show "shape (cpp_release i ch) = shape ch" by (simp add: cpp_release_def)
  show "shape (mark_replica_unhealthy now k ch) = shape ch"
    by (simp add: shape_def mark_replica_unhealthy_def mark_first_face)
  have "shape (ch\<lparr>ch_replicas := map (recover now) (ch_replicas ch)\<rparr>) = shape ch" by (simp add: shape_def comp_def)
  with s show "shape (snd (cpp_pick now ch)) = shape ch"
    by (simp add: cpp_pick_cases Let_def split: list.splits)
qed

lemma put_parts [simp]:
  "sv_sessions (sv_put_handle h ch sv) = sv_sessions sv" "xp_table (sv_proxy (sv_put_handle h ch sv)) = xp_table (sv_proxy sv)"
  "xp_metrics (sv_proxy (sv_put_handle h ch sv)) = xp_metrics (sv_proxy sv)"
  "xp_handles (sv_proxy (sv_put_handle h ch sv)) = (xp_handles (sv_proxy sv))[h := ch]"
  "sv_closed (sv_put_handle h ch sv) = sv_closed sv"
  "xp_table (sv_proxy (sv_put j name ss ph sv)) = xp_table (sv_proxy sv)"
  "xp_handles (sv_proxy (sv_put j name ss ph sv)) = xp_handles (sv_proxy sv)"
  "xp_table (sv_proxy (session_over j ss sv)) = xp_table (sv_proxy sv)"
  "xp_handles (sv_proxy (session_over j ss sv)) = xp_handles (sv_proxy sv)"
  "shapes (sv_put j name ss ph sv) = shapes sv" "shapes (session_over j ss sv) = shapes sv"
  by (simp_all add: sv_put_handle_def sv_put_def session_over_def shapes_def)

lemma shapes_put [simp]: "shape ch = shape (sv_handle sv h) \<Longrightarrow> shapes (sv_put_handle h ch sv) = shapes sv"
  by (cases "h < length (xp_handles (sv_proxy sv))")
    (simp_all add: shapes_def sv_handle_def map_update list_update_same_conv list_update_beyond)

text \<open>A session goes to a phase in which it knows nothing new, or is over.\<close>

definition session_moves :: "cpp_serving \<Rightarrow> cpp_serving \<Rightarrow> bool" where
  "session_moves sv sv' \<longleftrightarrow> shapes sv' = shapes sv \<and> xp_table (sv_proxy sv') = xp_table (sv_proxy sv) \<and>
     (\<exists>j. sv_sessions sv' = ddel j (sv_sessions sv) \<or>
       (\<exists>cs. sv_sessions sv' = dset j cs (sv_sessions sv) \<and> phase_ok (shapes sv) (cs_phase cs) \<and>
         (\<forall>a \<in> phase_calls (shapes sv) (cs_phase cs). (cs_name cs, a) \<in> sv_calls sv)))"

lemma moves_put:
  assumes "shapes sv' = shapes sv" and "xp_table (sv_proxy sv') = xp_table (sv_proxy sv)"
    and "sv_sessions sv' = sv_sessions sv" and "phase_ok (shapes sv) ph"
    and "\<And>a. a \<in> phase_calls (shapes sv) ph \<Longrightarrow> (name, a) \<in> sv_calls sv"
  shows "session_moves sv (sv_put j name ss ph sv')"
  using assms unfolding session_moves_def by (auto simp: sv_put_def intro!: exI [of _ j]) (simp add: shapes_def)

lemma moves_over: "session_moves sv (session_over j ss sv)"
  by (auto simp: session_moves_def session_over_def shapes_def)

lemma moves_ok:
  assumes "session_moves sv sv'" and "serving_ok sv"
  shows "serving_ok sv'" and "sv_calls sv' \<subseteq> sv_calls sv"
proof -
  note m = assms(1) [unfolded session_moves_def] and ok = serving_okD [OF assms(2)]
  from m ok(1) have "dict_ok (sv_sessions sv')" by auto
  moreover have "phase_ok (shapes sv') (cs_phase cs)" if "dget (sv_sessions sv') j = Some cs" for j cs
    using m that ok(4) by (auto split: if_splits)
  ultimately show "serving_ok sv'" using m ok(2,3) by (simp add: serving_ok_def)
  show "sv_calls sv' \<subseteq> sv_calls sv"
    using m by (auto simp: sv_calls_def split: if_splits)
qed

lemma in_phaseD:
  assumes "in_phase sv j cs ph"
  shows "dget (sv_sessions sv) j = Some cs" and "cs_phase cs = ph"
  using assms by (simp_all add: in_phase_def)

lemma known_calls:
  assumes "in_phase sv j cs ph" and "a \<in> phase_calls (shapes sv) ph"
  shows "(cs_name cs, a) \<in> sv_calls sv"
  using assms by (auto simp: sv_calls_def in_phase_def)

lemma reads_moves:
  assumes "serving_ok sv"
  shows "session_moves sv (session_reads w mt req j cs sv)"
proof -
  have "(name, a) \<in> sv_calls sv" if "dget (xp_table (sv_proxy sv)) name = Some h" "a \<in> shape_calls (shapes sv ! h)" for name h a
    using that by (auto simp: sv_calls_def)
  then show ?thesis using serving_okD(2) [OF assms]
    by (auto simp: session_reads_def Let_def intro!: moves_put moves_over split: option.splits prod.splits sum.splits)
qed

lemma chooses_moves:
  assumes "serving_ok sv" and "in_phase sv j cs (Holding h)"
  shows "session_moves sv (session_chooses w now j cs h sv)"
proof (cases "cpp_pick now (sv_handle sv h)")
  case (Pair x ch)
  have sh: "shape ch = shape (sv_handle sv h)" using face_same(4) [of now "sv_handle sv h"] Pair by simp
  show ?thesis
  proof (cases x)
    case None
    with Pair sh show ?thesis by (auto simp: session_chooses_def intro!: moves_put split: prod.splits)
  next
    case (Some y)
    obtain i channel where y: "y = (i, channel)" by (cases y)
    note c = cpp_pick_chosen [OF Pair [unfolded Some y]]
    have h: "h < length (xp_handles (sv_proxy sv))"
      using serving_okD(4) [OF assms(1) in_phaseD(1) [OF assms(2)]] in_phaseD(2) [OF assms(2)] by simp
    have "wired (shape (sv_handle sv h))" using serving_okD(3) [OF assms(1), of "shapes sv ! h"] h by (simp del: shapes_nth) simp
    with c(1) have "dget (ch_channels (sv_handle sv h)) (cr_id (ch_replicas (sv_handle sv h) ! i)) \<noteq> None"
      by (simp add: wired_def shape_def)
    then obtain a where a: "channel = Some a" using c(3) by auto
    have "a \<in> shape_calls (shape (sv_handle sv h))" using shape_calls_place [OF c(1)] c(3) a by simp
    then have "(cs_name cs, a) \<in> sv_calls sv" using known_calls [OF assms(2)] h by simp
    with Pair Some y sh h c(1) a show ?thesis by (auto simp: session_chooses_def intro!: moves_put)
  qed
qed

lemma session_step_moves:
  assumes "session_step sv sv'" and "serving_ok sv"
  shows "session_moves sv sv'"
proof -
  have ph: "phase_ok (shapes sv) ph" if "in_phase sv j cs ph" for j cs ph
    using serving_okD(4) [OF assms(2) in_phaseD(1) [OF that]] in_phaseD(2) [OF that] by simp
  note k = known_calls
  from assms(1) show ?thesis
  proof cases
    case (accepts j)
    then show ?thesis by (auto simp: session_starts_def intro!: moves_put)
  next
    case (reads j cs writable metrics_text req)
    then show ?thesis using reads_moves [OF assms(2)] by simp
  next
    case (chooses j cs h writable now)
    then show ?thesis using chooses_moves [OF assms(2)] by simp
  next
    case (passes j cs h i channel writable t)
    then show ?thesis using ph [OF passes(2)] k [OF passes(2)]
      by (auto simp: session_passes_def intro!: moves_put split: prod.splits sum.splits)
  next
    case (fails j cs h i channel writable later msg)
    then show ?thesis using ph [OF fails(2)]
      by (auto simp: session_fails_def face_same intro!: moves_put split: prod.splits)
  next
    case (ends j cs h i channel)
    then show ?thesis using ph [OF ends(2)] by (auto simp: session_ends_def intro!: moves_put)
  next
      case (loads j cs h i r)
    then show ?thesis using ph [OF loads(2)] by (auto simp: session_loads_def intro!: moves_put)
  next
    case (stores j cs h i n r)
    then show ?thesis by (auto simp: session_stores_def face_same intro!: moves_put)
  next
    case (leaves j cs r writable)
    then show ?thesis by (simp add: session_leaves_def moves_over)
  qed
qed

text \<open>An update: the handles of old stay where they are, the new ones have a channel for each replica.\<close>

lemma init_shape:
  "wired (shape (cpp_handle_init dep))" "shape_calls (shape (cpp_handle_init dep)) \<subseteq> rm_address ` set (dp_replicas dep)"
proof -
  let ?kvs = "map (\<lambda>r. (rm_replica_id r, rm_address r)) (dp_replicas dep)"
  have c: "dget (ch_channels (cpp_handle_init dep)) k = map_of (rev ?kvs) k" for k
    by (simp add: cpp_handle_init_def add_replicas_channels split: option.splits)
  have "map_of (rev ?kvs) (rm_replica_id r) \<noteq> None" if "r \<in> set (dp_replicas dep)" for r
    unfolding map_of_eq_None_iff using that by force
  then show "wired (shape (cpp_handle_init dep))"
    unfolding wired_def shape_def by (auto simp: c init_replicas)
  have "a \<in> rm_address ` set (dp_replicas dep)" if "map_of (rev ?kvs) k = Some a" for k a
    using map_of_SomeD [OF that] by auto
  then show "shape_calls (shape (cpp_handle_init dep)) \<subseteq> rm_address ` set (dp_replicas dep)"
    by (auto simp: shape_calls_def shape_def c)
qed

lemma install_serving:
  assumes "serving_ok sv"
  shows "serving_ok (sv\<lparr>sv_proxy := cpp_install deps (sv_proxy sv)\<rparr>) \<and>
    sv_calls (sv\<lparr>sv_proxy := cpp_install deps (sv_proxy sv)\<rparr>) \<subseteq>
      sv_calls sv \<union> {(name, a). \<exists>(d, dep) \<in> set deps. dp_deployment_name dep = name \<and> a \<in> rm_address ` set (dp_replicas dep)}"
  using assms
proof (induction deps arbitrary: sv)
  case (Cons x deps)
  obtain d dep where x: "x = (d, dep)" by (cases x)
  let ?sv = "sv\<lparr>sv_proxy := (sv_proxy sv)\<lparr>xp_handles := xp_handles (sv_proxy sv) @ [cpp_handle_init dep],
     xp_table := dset (dp_deployment_name dep) (length (xp_handles (sv_proxy sv))) (xp_table (sv_proxy sv))\<rparr>\<rparr>"
  note ok = serving_okD [OF Cons.prems]
  have sh: "shapes ?sv = shapes sv @ [shape (cpp_handle_init dep)]" by (simp add: shapes_def)
  have ph: "phase_ok (shapes ?sv) p" "phase_calls (shapes ?sv) p = phase_calls (shapes sv) p" if "phase_ok (shapes sv) p" for p
    using that by (cases p; simp add: sh nth_append)+
  have "serving_ok ?sv"
    using ok(1) ok(2) ok(3) ok(4) ph(1) init_shape(1) unfolding serving_ok_def
    by (auto simp: sh less_Suc_eq simp del: shapes_nth split: if_splits)
  moreover have "sv_calls ?sv \<subseteq> sv_calls sv \<union> {(name, a). dp_deployment_name dep = name \<and> a \<in> rm_address ` set (dp_replicas dep)}"
    using ok(2) ok(4) ph(2) init_shape(2) [of dep] unfolding sv_calls_def
    by (auto simp: sh nth_append simp del: shapes_nth split: if_splits)
  ultimately show ?case using Cons.IH [of ?sv] by (auto simp: x)
qed simp

lemma apply_serving:
  assumes "serving_ok sv"
  shows "serving_ok (sv_apply u sv)" and "sv_calls (sv_apply u sv) \<subseteq> sv_calls sv \<union> update_calls u"
proof -
  let ?sv = "sv\<lparr>sv_proxy := (sv_proxy sv)\<lparr>xp_table := []\<rparr>\<rparr>"
  have "serving_ok ?sv" using assms by (simp add: serving_ok_def shapes_def)
  moreover have "sv_calls ?sv \<subseteq> sv_calls sv" by (auto simp: sv_calls_def shapes_def)
  moreover have "sv_apply u sv = ?sv\<lparr>sv_proxy := cpp_install (ru_deployments u) (sv_proxy ?sv)\<rparr>"
    by (simp add: sv_apply_def cpp_apply_update_def)
  ultimately show "serving_ok (sv_apply u sv)" "sv_calls (sv_apply u sv) \<subseteq> sv_calls sv \<union> update_calls u"
    using install_serving [of ?sv "ru_deployments u"] unfolding update_calls_def by auto
qed

lemma start_serving: "serving_start sv \<Longrightarrow> serving_ok sv \<and> sv_calls sv = {}"
  by (auto simp: serving_start_def serving_ok_def sv_calls_def shapes_def cpp_proxy_init_def)

interpretation serving_machine: safe_machine serving_start "serving_step" serving_ok
proof unfold_locales
  show "serving_ok t" if "serving_step s t" "serving_ok s" for s t
    using that by cases (auto simp: apply_serving intro: moves_ok(1) session_step_moves)
qed (simp add: start_serving)

section \<open>The counts\<close>

fun phase_at :: "session_phase \<Rightarrow> (nat \<times> nat) option" where
  "phase_at (Calling h i channel) = Some (h, i)"
| "phase_at (Releases h i r) = Some (h, i)"
| "phase_at (Loaded h i n r) = Some (h, i)"
| "phase_at ph = None"

definition stands :: "nat \<Rightarrow> nat \<Rightarrow> session_phase \<Rightarrow> int" where
  "stands h i ph = (if phase_at ph = Some (h, i) then 1 else 0)"

text \<open>The sessions that have chosen the replica at a place of a handle and not yet given it back; its count.\<close>

definition on_call :: "cpp_serving \<Rightarrow> nat \<Rightarrow> nat \<Rightarrow> int" where
  "on_call sv h i = dsum (\<lambda>j cs. stands h i (cs_phase cs)) (sv_sessions sv)"

definition active_count :: "cpp_serving \<Rightarrow> nat \<Rightarrow> nat \<Rightarrow> int" where
  "active_count sv h i = cr_active (ch_replicas (sv_handle sv h) ! i)"

text \<open>By how much the count of a replica is too high.\<close>

definition excess :: "cpp_serving \<Rightarrow> nat \<Rightarrow> nat \<Rightarrow> int" where
  "excess sv h i = active_count sv h i - on_call sv h i"

definition gauge_gap :: "cpp_serving \<Rightarrow> int" where
  "gauge_gap sv = mx_active (xp_metrics (sv_proxy sv)) - int (length (sv_sessions sv))"

definition kept :: "cpp_serving \<Rightarrow> cpp_serving \<Rightarrow> bool" where
  "kept sv sv' \<longleftrightarrow> gauge_gap sv' = gauge_gap sv \<and>
     (\<forall>h < length (xp_handles (sv_proxy sv)). \<forall>i < length (ch_replicas (sv_handle sv h)). excess sv' h i = excess sv h i)"

lemma stands_simps [simp]:
  "stands h i (Calling h' i' c) = (if h' = h \<and> i' = i then 1 else 0)" "stands h i (Releases h' i' r) = (if h' = h \<and> i' = i then 1 else 0)"
  "stands h i (Loaded h' i' n r) = (if h' = h \<and> i' = i then 1 else 0)"
  "stands h i Reading = 0" "stands h i (Holding h') = 0" "stands h i (Closing r) = 0"
  by (auto simp: stands_def)

lemma dict_length: "dsum (\<lambda>k v. 1) d = int (length d)"
  by (induction d) auto

text \<open>One session changes its phase, and with it one count.\<close>

definition was_at :: "cpp_serving \<Rightarrow> nat \<Rightarrow> nat \<Rightarrow> nat \<Rightarrow> int" where
  "was_at sv j h i = (case dget (sv_sessions sv) j of None \<Rightarrow> 0 | Some cs \<Rightarrow> stands h i (cs_phase cs))"

lemma on_call_put:
  "dict_ok (sv_sessions sv) \<Longrightarrow> on_call (sv_put j name ss ph sv) h i = on_call sv h i - was_at sv j h i + stands h i ph"
  by (simp add: on_call_def sv_put_def dsum_dset dpart_def was_at_def)

lemma on_call_over: "dict_ok (sv_sessions sv) \<Longrightarrow> on_call (session_over j ss sv) h i = on_call sv h i - was_at sv j h i"
  by (simp add: on_call_def session_over_def dsum_ddel dpart_def was_at_def)

lemma length_put:
  assumes "dict_ok (sv_sessions sv)"
  shows "int (length (sv_sessions (sv_put j name ss ph sv))) =
      int (length (sv_sessions sv)) + (if dget (sv_sessions sv) j = None then 1 else 0)"
    and "dget (sv_sessions sv) j \<noteq> None \<Longrightarrow>
      int (length (sv_sessions (session_over j ss sv))) = int (length (sv_sessions sv)) - 1"
  using assms unfolding dict_length [symmetric]
  by (auto simp: sv_put_def session_over_def dsum_dset dsum_ddel dpart_def split: option.splits)

lemma handle_same [simp]:
  "sv_handle (sv_put j name ss ph sv) h = sv_handle sv h" "sv_handle (session_over j ss sv) h = sv_handle sv h"
  by (simp_all add: sv_handle_def)

lemma handle_put:
  "sv_handle (sv_put_handle h ch sv) h' = (if h' = h \<and> h < length (xp_handles (sv_proxy sv)) then ch else sv_handle sv h')"
  by (auto simp: sv_handle_def nth_list_update list_update_beyond)

lemma excess_put:
  assumes "dict_ok (sv_sessions sv)" and "h < length (xp_handles (sv_proxy sv))"
  shows "excess (sv_put j name ss ph (sv_put_handle h ch sv)) h' i =
    (if h' = h then cr_active (ch_replicas ch ! i) else active_count sv h' i) -
    (on_call sv h' i - was_at sv j h' i + stands h' i ph)"
proof -
  have "on_call (sv_put j name ss ph (sv_put_handle h ch sv)) h' i = on_call sv h' i - was_at sv j h' i + stands h' i ph"
    using on_call_put [of "sv_put_handle h ch sv" j name ss ph h' i] assms(1) by (simp add: on_call_def was_at_def)
  with assms(2) show ?thesis by (simp add: excess_def active_count_def handle_put)
qed

lemma gap_put:
  assumes "dict_ok (sv_sessions sv)"
    and "mx_active (ss_metrics ss) = mx_active (xp_metrics (sv_proxy sv)) + (if dget (sv_sessions sv) j = None then 1 else 0)"
  shows "gauge_gap (sv_put j name ss ph (sv_put_handle h ch sv)) = gauge_gap sv"
proof -
  have "int (length (sv_sessions (sv_put j name ss ph (sv_put_handle h ch sv)))) =
      int (length (sv_sessions sv)) + (if dget (sv_sessions sv) j = None then 1 else 0)"
    using length_put(1) [of "sv_put_handle h ch sv"] assms(1) by simp
  moreover have "xp_metrics (sv_proxy (sv_put j name ss ph (sv_put_handle h ch sv))) = ss_metrics ss" by (simp add: sv_put_def)
  ultimately show ?thesis using assms(2) by (simp add: gauge_gap_def)
qed

lemma kept_put:
  assumes ok: "serving_ok sv" and h: "h < length (xp_handles (sv_proxy sv))"
    and act: "\<And>i. i < length (ch_replicas (sv_handle sv h)) \<Longrightarrow>
      cr_active (ch_replicas ch ! i) = active_count sv h i - was_at sv j h i + stands h i ph"
    and other: "\<And>h' i. h' \<noteq> h \<Longrightarrow> was_at sv j h' i = stands h' i ph"
    and mx: "mx_active (ss_metrics ss) = mx_active (xp_metrics (sv_proxy sv)) + (if dget (sv_sessions sv) j = None then 1 else 0)"
  shows "kept sv (sv_put j name ss ph (sv_put_handle h ch sv))"
  using gap_put [OF serving_okD(1) [OF ok] mx] excess_put [OF serving_okD(1) [OF ok] h] act other
  unfolding kept_def by (simp add: excess_def)

text \<open>The same without a change of a handle.\<close>

lemma put_handle_same: "sv_put_handle h (sv_handle sv h) sv = sv"
  by (simp add: sv_put_handle_def sv_handle_def)

lemma kept_phase:
  assumes "serving_ok sv" and "\<And>h i. was_at sv j h i = stands h i ph"
    and "mx_active (ss_metrics ss) = mx_active (xp_metrics (sv_proxy sv)) + (if dget (sv_sessions sv) j = None then 1 else 0)"
  shows "kept sv (sv_put j name ss ph sv)"
  using gap_put [OF serving_okD(1) [OF assms(1)] assms(3), of name ph 0 "sv_handle sv 0"] assms(2)
    on_call_put [OF serving_okD(1) [OF assms(1)]]
  unfolding kept_def by (simp add: excess_def active_count_def put_handle_same)

lemma kept_over:
  assumes ok: "serving_ok sv" and was: "\<And>h i. was_at sv j h i = 0"
    and j: "dget (sv_sessions sv) j \<noteq> None" and mx: "mx_active (ss_metrics ss) = mx_active (xp_metrics (sv_proxy sv))"
  shows "kept sv (session_over j ss sv)"
proof -
  note d = serving_okD(1) [OF ok]
  have "mx_active (xp_metrics (sv_proxy (session_over j ss sv))) = mx_active (xp_metrics (sv_proxy sv)) - 1"
    using mx by (simp add: session_over_def gauge_def)
  with was length_put(2) [OF d j, of ss] on_call_over [OF d, of j ss] show ?thesis
    by (simp add: kept_def excess_def active_count_def gauge_gap_def)
qed

lemma at_phase: "in_phase sv j cs ph \<Longrightarrow> was_at sv j h i = stands h i ph"
  by (auto simp: was_at_def in_phase_def)

lemma token_gauge [simp]:
  "mx_active (ss_metrics (snd (on_token_received w name t ss))) = mx_active (ss_metrics ss)"
  using on_token_metrics [of w name t ss] by simp

lemma view_gauge [simp]: "ss_metrics (sv_view cs sv) = xp_metrics (sv_proxy sv)"
  by (simp add: sv_view_def)

lemma write_result: "async_write w x ss = (r, ss') \<Longrightarrow> ss_metrics ss' = ss_metrics ss"
  by (auto simp: async_write_def split: if_splits)

lemma token_result: "on_token_received w name t ss = (r, ss') \<Longrightarrow> mx_active (ss_metrics ss') = mx_active (ss_metrics ss)"
  using token_gauge [of w name t ss] by simp

lemma pick_counts:
  assumes "cpp_pick now ch = (x, ch')" and "i < length (ch_replicas ch)"
  shows "cr_active (ch_replicas ch' ! i) =
    cr_active (ch_replicas ch ! i) + (case x of None \<Rightarrow> 0 | Some (i', c) \<Rightarrow> if i' = i then 1 else 0)"
proof -
  have l: "length (ch_replicas ch') = length (ch_replicas ch)"
    using face_same(4) [of now ch] assms(1) shape_places by (metis snd_conv)
  have c: "counts ch' ! i = cr_active (ch_replicas ch' ! i)" "counts ch ! i = cr_active (ch_replicas ch ! i)"
    using assms(2) l by (simp_all add: counts_def)
  have "i < length (counts ch)" using assms(2) by (simp add: counts_def)
  with counts_pick [OF assms(1)] show ?thesis
    by (auto simp: c [symmetric] nth_list_update split: option.splits prod.splits)
qed

lemma chooses_kept:
  assumes ok: "serving_ok sv" and ph: "in_phase sv j cs (Holding h)"
  shows "kept sv (session_chooses w now j cs h sv)"
proof -
  note s = in_phaseD(1) [OF ph] at_phase [OF ph]
  have h: "h < length (xp_handles (sv_proxy sv))" using serving_okD(4) [OF ok s(1)] in_phaseD(2) [OF ph] by simp
  obtain x ch where p: "cpp_pick now (sv_handle sv h) = (x, ch)" by fastforce
  note pc = pick_counts [OF p]
  show ?thesis
  proof (cases x)
    case None
    obtain r ss where t: "on_token_received w (cs_name cs) (Inl ''No replicas available'') (sv_view cs sv) = (r, ss)"
      by fastforce
    show ?thesis unfolding session_chooses_def p None t option.case prod.case
      by (rule kept_put [OF ok h]) (use s pc None token_result [OF t] in \<open>simp_all add: active_count_def\<close>)
  next
    case (Some y)
    obtain i channel where y: "y = (i, channel)" by (cases y)
    show ?thesis unfolding session_chooses_def p Some y option.case prod.case
      by (rule kept_put [OF ok h]) (use s pc Some y in \<open>simp_all add: active_count_def\<close>)
  qed
qed

lemma fails_kept:
  assumes ok: "serving_ok sv" and ph: "in_phase sv j cs (Calling h i channel)"
  shows "kept sv (session_fails w later msg j cs h i sv)"
proof -
  note s = in_phaseD(1) [OF ph] at_phase [OF ph]
  have h: "h < length (xp_handles (sv_proxy sv))" using serving_okD(4) [OF ok s(1)] in_phaseD(2) [OF ph] by simp
  obtain r ss where t: "on_token_received w (cs_name cs) (Inl msg) (sv_view cs sv) = (r, ss)" by fastforce
  let ?ch = "mark_replica_unhealthy later (cr_id (ch_replicas (sv_handle sv h) ! i)) (sv_handle sv h)"
  have "cr_active (ch_replicas ?ch ! k) = cr_active (ch_replicas (sv_handle sv h) ! k)"
    if "k < length (ch_replicas (sv_handle sv h))" for k
    using counts_mark [of later "cr_id (ch_replicas (sv_handle sv h) ! i)" "sv_handle sv h"] that
      shape_places [of ?ch] shape_places [of "sv_handle sv h"] unfolding counts_def face_same
    by (metis length_map nth_map)
  then show ?thesis unfolding session_fails_def t prod.case
    by (intro kept_put [OF ok h]) (use s token_result [OF t] in \<open>simp_all add: active_count_def\<close>)
qed

lemma reads_kept:
  assumes "serving_ok sv" and "in_phase sv j cs Reading"
  shows "kept sv (session_reads w mt req j cs sv)"
  using in_phaseD(1) [OF assms(2)] at_phase [OF assms(2)]
  by (auto simp: session_reads_def Let_def dest: write_result intro!: kept_phase [OF assms(1)] kept_over [OF assms(1)]
      split: option.splits prod.splits sum.splits)

lemma passes_kept:
  assumes ok: "serving_ok sv" and ph: "in_phase sv j cs (Calling h i channel)"
  shows "kept sv (session_passes w t j cs h i channel sv)"
proof -
  note s = in_phaseD(1) [OF ph] at_phase [OF ph]
  obtain r ss where t: "on_token_received w (cs_name cs) (Inr t) (sv_view cs sv) = (r, ss)" by fastforce
  have "kept sv (sv_put j (cs_name cs) ss (Releases h i e) sv)" "kept sv (sv_put j (cs_name cs) ss (Calling h i channel) sv)" for e
    by (rule kept_phase [OF ok]; use s token_result [OF t] in simp)+
  then show ?thesis unfolding session_passes_def t by (simp split: sum.splits)
qed

text \<open>Every step but the store of a release keeps what the counts are too high by.\<close>

lemma session_step_kept:
  assumes "session_step sv sv'" and ok: "serving_ok sv"
  shows "kept sv sv' \<or> (\<exists>j cs h i n r. in_phase sv j cs (Loaded h i n r) \<and> sv' = session_stores j cs h i n r sv)"
  using assms(1)
proof cases
  case (accepts j)
  have "kept sv sv'" unfolding accepts(1) session_starts_def
    by (rule kept_phase [OF ok]) (simp_all add: accepts(2) was_at_def gauge_def)
  then show ?thesis ..
next
  case (ends j cs h i channel)
  note s = in_phaseD(1) [OF ends(2)] at_phase [OF ends(2)]
  have "kept sv sv'" unfolding ends(1) session_ends_def by (rule kept_phase [OF ok]) (use s in simp_all)
  then show ?thesis ..
next
  case (loads j cs h i r)
  note s = in_phaseD(1) [OF loads(2)] at_phase [OF loads(2)]
  have "kept sv sv'" unfolding loads(1) session_loads_def by (rule kept_phase [OF ok]) (use s in simp_all)
  then show ?thesis ..
next
  case (leaves j cs r writable)
  note s = in_phaseD(1) [OF leaves(2)] at_phase [OF leaves(2)]
  have "kept sv sv'" unfolding leaves(1) session_leaves_def
    by (rule kept_over [OF ok]) (use s in \<open>simp_all add: count_request_def\<close>)
  then show ?thesis ..
qed (use ok in \<open>blast intro: reads_kept chooses_kept passes_kept fails_kept\<close>)+

lemma stores_excess:
  assumes ok: "serving_ok sv" and ph: "in_phase sv j cs (Loaded h i n r)"
  shows "gauge_gap (session_stores j cs h i n r sv) = gauge_gap sv"
    and "excess (session_stores j cs h i n r sv) h' i' =
      excess sv h' i' + (if (h', i') = (h, i) then n - active_count sv h i else 0)"
proof -
  note s = in_phaseD(1) [OF ph] at_phase [OF ph] and d = serving_okD(1) [OF ok]
  have h: "h < length (xp_handles (sv_proxy sv))" "i < length (ch_replicas (sv_handle sv h))"
    using serving_okD(4) [OF ok s(1)] in_phaseD(2) [OF ph] by auto
  show "gauge_gap (session_stores j cs h i n r sv) = gauge_gap sv"
    unfolding session_stores_def by (rule gap_put [OF d]) (simp add: s(1))
  have "cr_active (ch_replicas (set_active (\<lambda>_. n - 1) i (sv_handle sv h)) ! i') =
      (if i' = i then n - 1 else active_count sv h i')"
    using h(2) by (auto simp: set_active_def active_count_def)
  then show "excess (session_stores j cs h i n r sv) h' i' =
      excess sv h' i' + (if (h', i') = (h, i) then n - active_count sv h i else 0)"
    unfolding session_stores_def excess_put [OF d h(1)] s(2) by (auto simp: excess_def)
qed

text \<open>An update leaves the handles of old and brings new ones, on which nobody is.\<close>

lemmas install_handles = xp_tables.handles_entry

lemma install_metrics: "xp_metrics (cpp_install deps xp) = xp_metrics xp"
  by (induction deps arbitrary: xp) auto

lemma apply_excess:
  assumes ok: "serving_ok sv"
  shows "gauge_gap (sv_apply u sv) = gauge_gap sv"
    and "h < length (xp_handles (sv_proxy (sv_apply u sv))) \<Longrightarrow> i < length (ch_replicas (sv_handle (sv_apply u sv) h)) \<Longrightarrow>
      excess (sv_apply u sv) h i = (if h < length (xp_handles (sv_proxy sv)) then excess sv h i else 0)"
proof -
  note parts = sv_apply_def cpp_apply_update_def install_handles install_metrics
  show "gauge_gap (sv_apply u sv) = gauge_gap sv" by (simp add: gauge_gap_def parts)
  assume h: "h < length (xp_handles (sv_proxy (sv_apply u sv)))" and i: "i < length (ch_replicas (sv_handle (sv_apply u sv) h))"
  have "stands h' i' (cs_phase cs) = 0"
    if "dget (sv_sessions sv) j = Some cs" "\<not> h' < length (xp_handles (sv_proxy sv))" for h' i' j cs
    using serving_okD(4) [OF ok that(1)] that(2) by (cases "cs_phase cs") auto
  then have new: "on_call sv h i = 0" if "\<not> h < length (xp_handles (sv_proxy sv))"
    unfolding on_call_def using mem_dget [OF serving_okD(1) [OF ok]] that by (intro dsum_zero) blast
  have calls: "on_call (sv_apply u sv) h i = on_call sv h i" by (simp add: on_call_def parts)
  show "excess (sv_apply u sv) h i = (if h < length (xp_handles (sv_proxy sv)) then excess sv h i else 0)"
  proof (cases "h < length (xp_handles (sv_proxy sv))")
    case True
    have "active_count (sv_apply u sv) h i = active_count sv h i" using True
      by (simp add: active_count_def sv_handle_def parts nth_append)
    with True show ?thesis by (simp add: excess_def calls)
  next
    case False
    then obtain dep where dep: "sv_handle (sv_apply u sv) h = cpp_handle_init dep"
      using h by (cases "ru_deployments u ! (h - length (xp_handles (sv_proxy sv)))")
        (auto simp: sv_handle_def parts nth_append)
    then have "active_count (sv_apply u sv) h i = 0" using i by (simp add: active_count_def init_replicas)
    with False new show ?thesis by (simp add: excess_def calls)
  qed
qed



text \<open>A request is on its way to the first of two replicas.\<close>

definition demo_sv0 :: cpp_serving where
  "demo_sv0 = sv_apply \<lparr>ru_deployments = [(2, two_running)], ru_timestamp = 1\<rparr>
     \<lparr>sv_proxy = cpp_proxy_init 50052, sv_sessions = [], sv_closed = []\<rparr>"

definition demo_sv1 :: cpp_serving where
  "demo_sv1 = session_starts 7 demo_sv0"

definition demo_cs1 :: cpp_session where
  "demo_cs1 = the (dget (sv_sessions demo_sv1) 7)"

definition demo_sv2 :: cpp_serving where
  "demo_sv2 = session_reads (\<lambda>k. True) ''metrics'' (Some ''/v1/chat/tinyllama'') 7 demo_cs1 demo_sv1"

definition demo_cs2 :: cpp_session where
  "demo_cs2 = the (dget (sv_sessions demo_sv2) 7)"

definition demo_sv3 :: cpp_serving where
  "demo_sv3 = session_chooses (\<lambda>k. True) 0 7 demo_cs2 0 demo_sv2"


lemma demo_phases:
  "dget (sv_sessions demo_sv0) 7 = None" "in_phase demo_sv1 7 demo_cs1 Reading" "in_phase demo_sv2 7 demo_cs2 (Holding 0)"
  by code_simp+

lemma demo_reach: "reach serving_start serving_step demo_sv3"
proof -
  let ?s = "\<lparr>sv_proxy = cpp_proxy_init 50052, sv_sessions = [], sv_closed = []\<rparr>"
  have "reach serving_start serving_step ?s" by (rule reach_init) (auto simp: serving_start_def)
  then have "reach serving_start serving_step demo_sv0"
    by (rule reach_step) (unfold demo_sv0_def, rule serving_update)
  then have "reach serving_start serving_step demo_sv1"
    by (rule reach_step) (unfold demo_sv1_def, rule serving_session, rule session_step.accepts, rule demo_phases(1))
  then have "reach serving_start serving_step demo_sv2"
    by (rule reach_step) (unfold demo_sv2_def, rule serving_session, rule session_step.reads, rule demo_phases(2))
  then show ?thesis
    by (rule reach_step) (unfold demo_sv3_def, rule serving_session, rule session_step.chooses, rule demo_phases(3))
qed

text \<open>The sessions that have chosen a replica and not yet given it back.\<close>

definition callers :: "cpp_serving \<Rightarrow> nat \<Rightarrow> nat \<Rightarrow> int" where
  "callers sv h i = int (length (filter (\<lambda>(j, cs). phase_at (cs_phase cs) = Some (h, i)) (sv_sessions sv)))"

lemma excess_callers: "excess sv h i = active_count sv h i - callers sv h i"
proof -
  have "dsum (\<lambda>j cs. stands h i (cs_phase cs)) d = int (length (filter (\<lambda>(j, cs). phase_at (cs_phase cs) = Some (h, i)) d))"
    for d :: "(nat, cpp_session) dict"
    by (induction d) (auto simp: stands_def)
  then show ?thesis by (simp add: excess_def on_call_def callers_def)
qed



text \<open>So the counts are exact in the runs in which no count changes between the two halves of a release.\<close>

definition loads_current :: "cpp_serving \<Rightarrow> bool" where
  "loads_current sv \<longleftrightarrow> (\<forall>(j, cs) \<in> set (sv_sessions sv).
     case cs_phase cs of Loaded h i n r \<Rightarrow> n = active_count sv h i | _ \<Rightarrow> True)"

definition excess_free :: "cpp_serving \<Rightarrow> bool" where
  "excess_free sv \<longleftrightarrow> serving_ok sv \<and> loads_current sv \<and>
     (\<forall>h < length (xp_handles (sv_proxy sv)). \<forall>i < length (ch_replicas (sv_handle sv h)). excess sv h i = 0)"

lemma current_step:
  assumes "serving_step sv sv'" and "loads_current sv'" and "excess_free sv"
  shows "excess_free sv'"
proof -
  have ok: "serving_ok sv" "loads_current sv" and zero: "h < length (xp_handles (sv_proxy sv)) \<Longrightarrow>
      i < length (ch_replicas (sv_handle sv h)) \<Longrightarrow> excess sv h i = 0" for h i
    using assms(3) unfolding excess_free_def by blast+
  have "excess sv' h i = 0" if hi: "h < length (xp_handles (sv_proxy sv'))" "i < length (ch_replicas (sv_handle sv' h))" for h i
    using assms(1)
  proof cases
    case (serving_update u)
    have "i < length (ch_replicas (sv_handle sv h))" if "h < length (xp_handles (sv_proxy sv))"
      using hi(2) that unfolding serving_update
      by (simp add: sv_apply_def cpp_apply_update_def install_handles sv_handle_def nth_append)
    with serving_update hi apply_excess(2) [OF ok(1), of h u i] zero show ?thesis by simp
  next
    case serving_session
    have l: "shapes sv' = shapes sv" using session_step_moves [OF serving_session ok(1)] by (simp add: session_moves_def)
    then have h: "h < length (xp_handles (sv_proxy sv))" using hi(1) by (metis shapes_length)
    then have i: "i < length (ch_replicas (sv_handle sv h))" using hi l by (metis shapes_nth shape_places)
    from session_step_kept [OF serving_session ok(1)] show ?thesis
    proof (elim disjE exE conjE)
      assume "kept sv sv'"
      with h i zero show ?thesis by (simp add: kept_def)
    next
      fix j cs h1 i1 n r assume st: "in_phase sv j cs (Loaded h1 i1 n r)" "sv' = session_stores j cs h1 i1 n r sv"
      have "n = active_count sv h1 i1"
        using ok(2) dget_mem [OF in_phaseD(1) [OF st(1)]] in_phaseD(2) [OF st(1)] unfolding loads_current_def by fastforce
      with stores_excess(2) [OF ok(1) st(1), of h i] zero [OF h i] st(2) show ?thesis by auto
    qed
  qed
  with serving_machine.step_safe [OF assms(1) ok(1)] assms(2) show ?thesis by (simp add: excess_free_def)
qed

interpretation current_machine: safe_machine serving_start "\<lambda>s t. serving_step s t \<and> loads_current t" excess_free
proof unfold_locales
  show "excess_free sv" if "serving_start sv" for sv
    using that start_serving [OF that] by (auto simp: serving_start_def excess_free_def loads_current_def cpp_proxy_init_def)
qed (auto intro: current_step)

lemma cpp_counts_exact:
  assumes "reach serving_start (\<lambda>s t. serving_step s t \<and> loads_current t) sv"
    and "h < length (xp_handles (sv_proxy sv))" and "i < length (ch_replicas (sv_handle sv h))"
  shows "active_count sv h i = callers sv h i"
  using current_machine.reach_safe [OF assms(1)] assms(2,3) by (simp add: excess_free_def excess_callers)

section \<open>A session with nothing in between\<close>

definition cs_of :: "string \<Rightarrow> session \<Rightarrow> session_phase \<Rightarrow> cpp_session" where
  "cs_of name ss ph = \<lparr>cs_name = name, cs_sent = ss_sent ss, cs_first_token = ss_first_token ss,
     cs_last_token_received = ss_last_token_received ss, cs_phase = ph\<rparr>"

text \<open>The proxy of \<open>sv\<close> with one more session and with other handles.\<close>

definition mid :: "nat \<Rightarrow> string \<Rightarrow> session \<Rightarrow> session_phase \<Rightarrow> cpp_handle list \<Rightarrow> cpp_serving \<Rightarrow> cpp_serving" where
  "mid j name ss ph hs sv =
     sv\<lparr>sv_proxy := (sv_proxy sv)\<lparr>xp_handles := hs, xp_metrics := ss_metrics ss\<rparr>,
        sv_sessions := dset j (cs_of name ss ph) (sv_sessions sv)\<rparr>"

lemma dset_dset [simp]: "dset k v (dset k v' d) = dset k v d"
  by (induction d) (auto simp: dset_Cons dset_Nil)

lemma ddel_dset [simp]: "dget d k = None \<Longrightarrow> ddel k (dset k v d) = d"
  by (induction d) (auto simp: dset_Cons dset_Nil ddel_Cons dget_Cons split: if_splits)

lemma mid_parts [simp]:
  "in_phase (mid j name ss ph hs sv) j (cs_of name ss ph) ph"
  "sv_view (cs_of name ss ph) (mid j name ss ph hs sv) = ss"
  "sv_put j name' ss' ph' (mid j name ss ph hs sv) = mid j name' ss' ph' hs sv"
  "sv_put_handle h ch (mid j name ss ph hs sv) = mid j name ss ph (hs[h := ch]) sv"
  "sv_handle (mid j name ss ph hs sv) h = hs ! h" "cs_name (cs_of name ss ph) = name"
  "xp_table (sv_proxy (mid j name ss ph hs sv)) = xp_table (sv_proxy sv)"
  "xp_metrics (sv_proxy (mid j name ss ph hs sv)) = ss_metrics ss"
  by (simp_all add: mid_def cs_of_def in_phase_def sv_view_def sv_put_def sv_put_handle_def sv_handle_def)

text \<open>Runs of the proxy.\<close>

definition goes :: "cpp_serving \<Rightarrow> cpp_serving \<Rightarrow> bool" where
  "goes sv sv' \<longleftrightarrow> reach (\<lambda>s. s = sv) serving_step sv'"

lemma goes_refl [simp]: "goes sv sv"
  by (simp add: goes_def reach_init)

lemma goes_on: "goes sv sv1 \<Longrightarrow> goes sv1 sv2 \<Longrightarrow> goes sv sv2"
  unfolding goes_def by (rule reach_on)

lemma goes_step: "session_step sv sv' \<Longrightarrow> goes sv sv'"
  unfolding goes_def by (rule reach_step [OF reach_init]) (auto intro: serving_session)

lemma goes_feed:
  assumes "feed_tokens (on_token_received w name) replies ss = (res, ss')"
  shows "goes (mid j name ss (Calling h i c) hs sv)
    (mid j name ss' (case res of Inl e \<Rightarrow> Releases h i (Inl e) | Inr u \<Rightarrow> Calling h i c) hs sv)"
  using assms
proof (induction replies arbitrary: ss)
  case (Cons x replies)
  obtain r ss1 where t: "on_token_received w name (Inr (rp_text x)) ss = (r, ss1)" by fastforce
  note step = goes_step [OF session_step.passes [OF mid_parts(1) [of j name ss "Calling h i c" hs sv], of w "rp_text x"]]
  show ?case
  proof (cases r)
    case (Inl e)
    with Cons.prems t have "res = Inl e" "ss' = ss1" by auto
    with step t Inl show ?thesis by (simp add: session_passes_def)
  next
    case (Inr u)
    with Cons.prems t have "feed_tokens (on_token_received w name) replies ss1 = (res, ss')" by simp
    from Cons.IH [OF this] step t Inr show ?thesis by (auto simp: session_passes_def intro: goes_on)
  qed
qed auto

lemma goes_release:
  assumes "h < length hs"
  shows "goes (mid j name ss (Releases h i r) hs sv) (mid j name ss (Closing r) (hs[h := cpp_release i (hs ! h)]) sv)"
proof -
  let ?n = "cr_active (ch_replicas (hs ! h) ! i)"
  have l: "goes (mid j name ss (Releases h i r) hs sv) (mid j name ss (Loaded h i ?n r) hs sv)"
    using goes_step [OF session_step.loads [OF mid_parts(1) [of j name ss "Releases h i r" hs sv]]]
    by (simp add: session_loads_def)
  have "goes (mid j name ss (Loaded h i ?n r) hs sv)
      (mid j name ss (Closing r) (hs[h := set_active (\<lambda>_. ?n - 1) i (hs ! h)]) sv)"
    using goes_step [OF session_step.stores [OF mid_parts(1) [of j name ss "Loaded h i ?n r" hs sv]]]
    by (simp add: session_stores_def)
  moreover have "set_active (\<lambda>_. ?n - 1) i (hs ! h) = cpp_release i (hs ! h)"
    by (simp add: set_active_def cpp_release_def)
  ultimately show ?thesis using goes_on [OF l] by simp
qed

lemma goes_fail:
  assumes "on_token_received w name (Inl msg) ss = (r, ss')" and "h < length hs"
  shows "goes (mid j name ss (Calling h i c) hs sv)
    (mid j name ss' (Closing r) (hs[h := cpp_release i (mark_replica_unhealthy later (cr_id (ch_replicas (hs ! h) ! i)) (hs ! h))]) sv)"
proof -
  let ?hs = "hs[h := mark_replica_unhealthy later (cr_id (ch_replicas (hs ! h) ! i)) (hs ! h)]"
  have "goes (mid j name ss (Calling h i c) hs sv) (mid j name ss' (Releases h i r) ?hs sv)"
    using goes_step [OF session_step.fails [OF mid_parts(1) [of j name ss "Calling h i c" hs sv], of w later msg]] assms(1)
    by (simp add: session_fails_def)
  moreover have "goes (mid j name ss' (Releases h i r) ?hs sv) (mid j name ss' (Closing r) (?hs[h := cpp_release i (?hs ! h)]) sv)"
    by (rule goes_release) (simp add: assms(2))
  ultimately show ?thesis using assms(2) by (auto intro: goes_on)
qed

lemma goes_send:
  assumes send: "cpp_send_request replica now later body (on_token_received w name) (hs ! h) ss = (r, ss', ch)" and h: "h < length hs"
  shows "goes (mid j name ss (Holding h) hs sv) (mid j name ss' (Closing r) (hs[h := ch]) sv)"
proof -
  note step = goes_step [OF session_step.chooses [OF mid_parts(1) [of j name ss "Holding h" hs sv], of w now]]
  obtain x ch1 where p: "cpp_pick now (hs ! h) = (x, ch1)" by fastforce
  show ?thesis
  proof (cases x)
    case None
    with send step p show ?thesis by (auto simp: cpp_send_request_def session_chooses_def split: prod.splits)
  next
    case (Some y)
    obtain i c where y: "y = (i, c)" by (cases y)
    let ?hs = "hs[h := ch1]"
    have h': "h < length ?hs" using h by simp
    have s1: "goes (mid j name ss (Holding h) hs sv) (mid j name ss (Calling h i c) ?hs sv)"
      using step p Some y by (simp add: session_chooses_def)
    note fail = goes_fail [OF _ h', of w name _ _ _ _ j i c sv later]
    have done_: "goes (mid j name ss1 (Calling h i c) ?hs sv) (mid j name ss1 (Closing (Inr ())) (?hs[h := cpp_release i ch1]) sv)" for ss1
      using goes_on [OF goes_step [OF session_step.ends [OF mid_parts(1) [of j name ss1 "Calling h i c" ?hs sv]]]]
        goes_release [OF h', of j name ss1 i "Inr ()" sv] h
      by (simp add: session_ends_def)
    show ?thesis
    proof (cases "replica c body")
      case (NotStarted msg)
      with send p Some y fail [of msg ss r ss'] h s1 show ?thesis
        by (auto simp: cpp_send_request_def Let_def intro: goes_on split: prod.splits)
    next
      case (Streamed replies status)
      obtain res ss1 where f: "feed_tokens (on_token_received w name) replies ss = (res, ss1)" by fastforce
      note s2 = goes_on [OF s1 goes_feed [OF f]]
      show ?thesis
      proof (cases res)
        case (Inl e)
        have "r = Inl e" "ss' = ss1" "ch = cpp_release i ch1"
          using send p Some y Streamed f Inl by (auto simp: cpp_send_request_def Let_def)
        with s2 Inl goes_release [OF h', of j name ss1 i "Inl e" sv] h show ?thesis by (auto intro: goes_on)
      next
        case (Inr u)
        show ?thesis
        proof (cases status)
          case StatusOk
          have "r = Inr ()" "ss' = ss1" "ch = cpp_release i ch1"
            using send p Some y Streamed f Inr StatusOk by (auto simp: cpp_send_request_def Let_def)
          with s2 Inr done_ [of ss1] h show ?thesis by (auto intro: goes_on)
        next
          case (StatusError msg)
          have "on_token_received w name (Inl msg) ss1 = (r, ss')"
            "ch = cpp_release i (mark_replica_unhealthy later (cr_id (ch_replicas ch1 ! i)) ch1)"
            using send p Some y Streamed f Inr StatusError by (auto simp: cpp_send_request_def Let_def split: prod.splits)
          with s2 Inr fail [of msg ss1 r ss'] h show ?thesis by (auto intro: goes_on)
        qed
      qed
    qed
  qed
qed

lemma over_mid:
  "dget (sv_sessions sv) j = None \<Longrightarrow> session_over j ss' (mid j name ss ph hs sv) =
    sv\<lparr>sv_proxy := (sv_proxy sv)\<lparr>xp_handles := hs, xp_metrics := gauge (- 1) (ss_metrics ss')\<rparr>,
       sv_closed := sv_closed sv @ [(j, ss_sent ss')]\<rparr>"
  by (simp add: session_over_def mid_def)

lemma body_handles:
  "session_body replica now later w mt target body xp ss = (ending, ss', xp') \<Longrightarrow> xp' = xp\<lparr>xp_handles := xp_handles xp'\<rparr>"
  by (auto simp: session_body_def split: if_splits option.splits prod.splits sum.splits)

lemma goes_body:
  assumes ok: "serving_ok sv"
    and body: "session_body replica now later w mt target body (sv_proxy sv) ss = (ending, ss', xp')"
  shows "goes (mid j ''unknown'' ss Reading (xp_handles (sv_proxy sv)) sv)
    (case ending of
       None \<Rightarrow> session_over j ss' (mid j ''unknown'' ss Reading (xp_handles (sv_proxy sv)) sv)
     | Some r \<Rightarrow> mid j target ss' (Closing r) (xp_handles xp') sv)"
proof -
  note step = goes_step [OF session_step.reads [OF mid_parts(1) [of j "''unknown''" ss Reading "xp_handles (sv_proxy sv)" sv],
    of w mt "Some target"]]
  show ?thesis
  proof (cases "target = ''/metrics''")
    case True
    with step body show ?thesis by (auto simp: session_body_def session_reads_def Let_def)
  next
    case False
    note target = False
    show ?thesis
    proof (cases "dget (xp_table (sv_proxy sv)) target")
      case None
      with step body target show ?thesis
        by (auto simp: session_body_def session_reads_def Let_def split: prod.splits sum.splits)
    next
      case (Some h)
      have h: "h < length (xp_handles (sv_proxy sv))" using serving_okD(2) [OF ok Some] by simp
      obtain r1 ss1 where a: "async_write w (Header 200) ss = (r1, ss1)" by fastforce
      show ?thesis
      proof (cases r1)
        case (Inl e)
        with step body target Some a show ?thesis by (auto simp: session_body_def session_reads_def Let_def)
      next
        case (Inr u)
        obtain r ss2 ch where send: "cpp_send_request replica now later body (on_token_received w target)
            (xp_handles (sv_proxy sv) ! h) ss1 = (r, ss2, ch)"
          using prod_cases3 by metis
        have "goes (mid j ''unknown'' ss Reading (xp_handles (sv_proxy sv)) sv)
            (mid j target ss1 (Holding h) (xp_handles (sv_proxy sv)) sv)"
          using step target Some a Inr by (simp add: session_reads_def Let_def)
        from goes_on [OF this goes_send [OF send h]] body target Some a Inr send
        show ?thesis by (auto simp: session_body_def)
      qed
    qed
  qed
qed

text \<open>
  C13. A session is its steps.  In every reachable state, in which other sessions may be anywhere, a new
  session to which nothing comes in between takes the proxy through the steps above, with the release in
  its two halves, to exactly the state that \<open>cpp_http_session\<close> computes: the same handles,
  table and metrics, the other sessions where they were, and the same bytes written; for every request,
  whatever the replica does and whichever write fails.
\<close>

theorem session_runs_as_steps:
  assumes "reach serving_start serving_step sv" and "dget (sv_sessions sv) j = None"
  shows "reach (\<lambda>s. s = sv) serving_step
    (case cpp_http_session replica now later writable metrics_text req (sv_proxy sv) of
       (written, xp) \<Rightarrow> sv\<lparr>sv_proxy := xp, sv_closed := sv_closed sv @ [(j, written)]\<rparr>)"
proof -
  note ok = serving_machine.reach_safe [OF assms(1)]
  let ?ss = "\<lparr>ss_sent = [], ss_first_token = True, ss_last_token_received = False, ss_metrics = gauge 1 (xp_metrics (sv_proxy sv))\<rparr>"
  let ?hs = "xp_handles (sv_proxy sv)"
  have start: "session_starts j sv = mid j ''unknown'' ?ss Reading ?hs sv"
    by (simp add: session_starts_def sv_put_def mid_def cs_of_def)
  have s1: "goes sv (mid j ''unknown'' ?ss Reading ?hs sv)"
    using goes_step [OF session_step.accepts [OF assms(2)]] by (simp add: start)
  have leave: "goes (mid j name ss (Closing r) hs sv) (session_over j (snd (async_write writable (Bytes trailer)
      (ss\<lparr>ss_metrics := count_request name (case r of Inl e \<Rightarrow> ''error'' | Inr u \<Rightarrow> ''success'') (ss_metrics ss)\<rparr>)))
      (mid j name ss (Closing r) hs sv))" for name ss r hs
    using goes_step [OF session_step.leaves [OF mid_parts(1) [of j name ss "Closing r" hs sv], of writable]]
    by (simp add: session_leaves_def)
  note fin = over_mid [OF assms(2)]
  show ?thesis
  proof (cases req)
    case None
    have "goes (mid j ''unknown'' ?ss Reading ?hs sv) (mid j ''unknown'' ?ss (Closing (Inl (GenericError ''read''))) ?hs sv)"
      using goes_step [OF session_step.reads [OF mid_parts(1) [of j "''unknown''" ?ss Reading ?hs sv], of writable metrics_text None]]
      by (simp add: session_reads_def Let_def)
    from goes_on [OF goes_on [OF s1 this] leave] None show ?thesis
      by (simp add: cpp_http_session_def Let_def fin goes_def)
  next
    case (Some p)
    obtain target body where p: "p = (target, body)" by (cases p)
    obtain ending ss' xp' where b: "session_body replica now later writable metrics_text target body (sv_proxy sv) ?ss = (ending, ss', xp')"
      by (metis prod_cases3)
    note s2 = goes_on [OF s1 goes_body [OF ok b, of j]]
    note xp = body_handles [OF b]
    show ?thesis
    proof (cases ending)
      case None
      have "xp' = sv_proxy sv" using b None by (auto simp: session_body_def split: if_splits option.splits prod.splits sum.splits)
      with s2 None Some p b show ?thesis by (simp add: cpp_http_session_def Let_def fin goes_def)
    next
      case (Some r)
      have e: "(sv_proxy sv)\<lparr>xp_handles := xp_handles xp', xp_metrics := m\<rparr> = xp'\<lparr>xp_metrics := m\<rparr>" for m
        by (subst (2) xp) simp
      from goes_on [OF s2 [unfolded Some option.case] leave] \<open>req = Some p\<close> Some p b show ?thesis
        by (simp add: cpp_http_session_def Let_def fin goes_def e)
    qed
  qed
qed

definition half_a_word :: "string option \<Rightarrow> string \<Rightarrow> rpc_call" where
  "half_a_word channel message = Streamed [reply ''Hel'' False] (StatusError ''UNAVAILABLE'')"

theorem session_runs_as_steps_witness:
  "\<exists>sv written. reach (\<lambda>s. s = demo_sv3) serving_step sv \<and> sv_sessions sv = sv_sessions demo_sv3 \<and>
    sv_closed sv = [(8, written)] \<and> client_reads written = Some (200, ''Hel'')"
proof -
  let ?req = "Some (''/v1/chat/tinyllama'', ''hi'')"
  obtain written xp where s: "cpp_http_session half_a_word 0 1 (\<lambda>k. True) ''metrics'' ?req (sv_proxy demo_sv3) = (written, xp)"
    by fastforce
  have "client_reads (fst (cpp_http_session half_a_word 0 1 (\<lambda>k. True) ''metrics'' ?req (sv_proxy demo_sv3))) = Some (200, ''Hel'')"
    by code_simp
  moreover have "dget (sv_sessions demo_sv3) 8 = None" "sv_closed demo_sv3 = []" by code_simp+
  with session_runs_as_steps [OF demo_reach, of 8 half_a_word 0 1 "\<lambda>k. True" "''metrics''" ?req] s
  have "reach (\<lambda>s. s = demo_sv3) serving_step (demo_sv3\<lparr>sv_proxy := xp, sv_closed := [(8, written)]\<rparr>)"
    by simp
  ultimately show ?thesis
    by (intro exI [of _ "demo_sv3\<lparr>sv_proxy := xp, sv_closed := [(8, written)]\<rparr>"] exI [of _ written]) (simp add: s)
qed

end
