(* ===== verification/CppFleet.thy ===== *)
theory CppFleet
  imports WholeSystem CppSystem CppSessions
begin

text \<open>
  The head with C++ proxies: the machine of \<open>Fleet\<close> with the sessions of \<open>CppSessions\<close>.  A C++ proxy takes an
  update at any time.
\<close>

section \<open>The C++ proxy as a proxy of the fleet\<close>

definition calls_backed :: "(int, scheduler) dict \<Rightarrow> (string \<times> string) set \<Rightarrow> bool" where
  "calls_backed workers calls \<longleftrightarrow>
     (\<forall>(name, a) \<in> calls. \<exists>d info. (d, name) \<in> set first_names \<and> backed workers d info \<and> a = ri_address info)"

text \<open>All that the proxy calls is backed, and the names of its table are names of the head.\<close>

definition cpp_relies :: "(int, scheduler) dict \<Rightarrow> cpp_serving \<Rightarrow> bool" where
  "cpp_relies workers sv \<longleftrightarrow> calls_backed workers (sv_calls sv) \<and> dkeys (xp_table (sv_proxy sv)) \<subseteq> snd ` set first_names"

definition cpp_displays :: "cpp_serving \<Rightarrow> routing_update \<Rightarrow> bool" where
  "cpp_displays sv u \<longleftrightarrow>
     (\<forall>(d, dep) \<in> set (ru_deployments u). \<exists>h. dget (xp_table (sv_proxy sv)) (dp_deployment_name dep) = Some h \<and>
        h < length (shapes sv) \<and>
        fst (shapes sv ! h) = map (\<lambda>r. (rm_replica_id r, rm_address r, rm_state r)) (dp_replicas dep))"

lemma update_calls_backed:
  assumes "table_backed workers (ru_deployments u)"
  shows "calls_backed workers (update_calls u)"
  unfolding calls_backed_def update_calls_def
proof clarify
  fix d dep r assume "(d, dep) \<in> set (ru_deployments u)" "r \<in> set (dp_replicas dep)"
  with assms obtain info where "(d, dp_deployment_name dep) \<in> set first_names" "r = replica_to_msg info" "backed workers d info"
    unfolding table_backed_def by blast
  then show "\<exists>d' info. (d', dp_deployment_name dep) \<in> set first_names \<and> backed workers d' info \<and> rm_address r = ri_address info"
    by (intro exI [of _ d] exI [of _ info]) (simp add: replica_to_msg_def)
qed

lemma cpp_apply_known: "dkeys (xp_table (sv_proxy (sv_apply u sv))) \<subseteq> (\<lambda>x. dp_deployment_name (snd x)) ` set (ru_deployments u)"
proof
  fix name assume "name \<in> dkeys (xp_table (sv_proxy (sv_apply u sv)))"
  then obtain h where "dget (xp_table (cpp_install (ru_deployments u) ((sv_proxy sv)\<lparr>xp_table := []\<rparr>))) name = Some h"
    by (auto simp: dkeys_iff sv_apply_def cpp_apply_update_def)
  from xp_tables.known_entry [OF this]
  show "name \<in> (\<lambda>x. dp_deployment_name (snd x)) ` set (ru_deployments u)" by auto
qed

lemma apply_displays:
  assumes "table_backed workers (ru_deployments u)"
  shows "cpp_displays (sv_apply u sv) u"
  unfolding cpp_displays_def
proof clarify
  fix d dep assume dep: "(d, dep) \<in> set (ru_deployments u)"
  have "distinct (map (\<lambda>x. dp_deployment_name (snd x)) (ru_deployments u))" using assms by (simp add: table_backed_def)
  from xp_tables.named_entry [OF this dep, of "(sv_proxy sv)\<lparr>xp_table := []\<rparr>"]
  obtain h where "dget (xp_table (sv_proxy (sv_apply u sv))) (dp_deployment_name dep) = Some h"
    "h < length (xp_handles (sv_proxy (sv_apply u sv)))" "sv_handle (sv_apply u sv) h = cpp_handle_init dep"
    by (auto simp: sv_apply_def cpp_apply_update_def sv_handle_def)
  then show "\<exists>h. dget (xp_table (sv_proxy (sv_apply u sv))) (dp_deployment_name dep) = Some h \<and>
      h < length (shapes (sv_apply u sv)) \<and>
      fst (shapes (sv_apply u sv) ! h) = map (\<lambda>r. (rm_replica_id r, rm_address r, rm_state r)) (dp_replicas dep)"
    by (intro exI [of _ h]) (simp add: shape_def init_replicas)
qed

interpretation cpp_port: proxy_port serving_start sv_apply "session_step" serving_ok
  cpp_relies cpp_displays
proof unfold_locales
  show "cpp_relies workers (sv_apply u sv)"
    if "serving_ok sv" "cpp_relies workers sv" "table_backed workers (ru_deployments u)" for sv workers u
  proof -
    have "(\<lambda>x. dp_deployment_name (snd x)) ` set (ru_deployments u) \<subseteq> snd ` set first_names"
    proof clarify
      fix d dep assume "(d, dep) \<in> set (ru_deployments u)"
      with that(3) have "(d, dp_deployment_name dep) \<in> set first_names" unfolding table_backed_def by blast
      then show "dp_deployment_name (snd (d, dep)) \<in> snd ` set first_names" by (rule rev_image_eqI) simp
    qed
    with cpp_apply_known [of u sv] have "dkeys (xp_table (sv_proxy (sv_apply u sv))) \<subseteq> snd ` set first_names" by (rule subset_trans)
    moreover have "calls_backed workers (sv_calls (sv_apply u sv))"
      using apply_serving(2) [OF that(1), of u] update_calls_backed [OF that(3)] that(2)
      unfolding cpp_relies_def calls_backed_def by blast
    ultimately show ?thesis by (simp add: cpp_relies_def)
  qed
  show "cpp_relies workers sv'"
    if "session_step sv sv'" "serving_ok sv" "cpp_relies workers sv" for sv sv' workers
  proof -
    note m = session_step_moves [OF that(1,2)]
    then have "xp_table (sv_proxy sv') = xp_table (sv_proxy sv)" by (simp add: session_moves_def)
    with moves_ok(2) [OF m that(2)] that(3) show ?thesis unfolding cpp_relies_def calls_backed_def by auto
  qed
  show "cpp_displays sv' u" if "session_step sv sv'" "serving_ok sv" "cpp_displays sv u" for sv sv' u
    using session_step_moves [OF that(1,2)] that(3) by (simp add: session_moves_def cpp_displays_def)
  show "cpp_relies workers' sv"
    if "cpp_relies workers sv" "\<And>d info. backed workers d info \<Longrightarrow> backed workers' d info" for workers workers' sv
    using that unfolding cpp_relies_def calls_backed_def by blast
  show "serving_ok sv'" if "session_step sv sv'" "serving_ok sv" for sv sv'
    using moves_ok(1) [OF session_step_moves [OF that] that(2)] .
  show "cpp_relies workers sv" if "serving_start sv" for sv workers
    using that start_serving [OF that] by (auto simp: cpp_relies_def calls_backed_def serving_start_def cpp_proxy_init_def dkeys_def)
qed (auto simp: start_serving apply_serving apply_displays)

definition cpp_fleet_step :: "cpp_serving fleet \<Rightarrow> cpp_serving fleet \<Rightarrow> bool" where
  "cpp_fleet_step = fleet_step serving_start (\<lambda>sv. True) (\<lambda>sv. True) sv_apply session_step"

lemma cpp_fleet_good: "reach fleet_start cpp_fleet_step ft \<Longrightarrow> cpp_port.fleet_good ft"
  unfolding cpp_fleet_step_def by (rule cpp_port.good_reach)

lemma calls_registered:
  assumes "cpp_port.fleet_good ft" and "dget (ft_proxies ft) p = Some sv" and "(name, a) \<in> sv_calls sv"
  shows "\<exists>d. (d, name) \<in> set first_names \<and> registered_at (ft_workers ft) d a"
  using cpp_port.fleet_goodD(4) [OF assms(1,2)] assms(3) backed_registered unfolding cpp_relies_def calls_backed_def by fastforce

lemma table_named:
  assumes "cpp_port.fleet_good ft" and "dget (ft_proxies ft) p = Some sv" and "dget (xp_table (sv_proxy sv)) name = Some h"
  shows "\<exists>d. (d, name) \<in> set first_names \<and> (\<forall>d'. (d', name) \<in> set first_names \<longrightarrow> d' = d)"
proof -
  have "name \<in> dkeys (xp_table (sv_proxy sv))" using assms(3) by (simp add: dkeys_iff)
  with cpp_port.fleet_goodD(4) [OF assms(1,2)] have "name \<in> snd ` set first_names" unfolding cpp_relies_def by blast
  then obtain d where d: "(d, name) \<in> set first_names" by auto
  have "inj_on snd (set first_names)" using distinct_map [of snd first_names] by (simp add: first_names_def)
  then have "d' = d" if "(d', name) \<in> set first_names" for d'
    using inj_onD [where f = snd and A = "set first_names", OF \<open>inj_on snd (set first_names)\<close> _ that d] by simp
  with d show ?thesis by blast
qed

text \<open>What a handle of the table picks is one of its calls.\<close>

lemma table_pick:
  assumes ok: "serving_ok sv" and h: "dget (xp_table (sv_proxy sv)) name = Some h"
    and pick: "cpp_pick now (sv_handle sv h) = (Some (i, channel), ch)"
  shows "\<exists>a. channel = Some a \<and> (name, a) \<in> sv_calls sv"
proof -
  note c = cpp_pick_chosen [OF pick]
  have l: "h < length (xp_handles (sv_proxy sv))" using serving_okD(2) [OF ok h] by simp
  then have "wired (shape (sv_handle sv h))" using serving_okD(3) [OF ok, of "shapes sv ! h"] by (simp del: shapes_nth) simp
  then obtain a where a: "channel = Some a" using c(1,3) by (fastforce simp: wired_def shape_def)
  then have "a \<in> shape_calls (shapes sv ! h)" using shape_calls_place [OF c(1)] c(3) l by simp
  with h a show ?thesis by (auto simp: sv_calls_def)
qed

text \<open>The table of an update, read as the head's replicas.\<close>

lemma displays_routes:
  assumes "cpp_displays sv u" and "ru_deployments u = table_of dm" and "routes dm d = Some (name, version, infos)"
  shows "\<exists>h. dget (xp_table (sv_proxy sv)) name = Some h \<and>
    map (\<lambda>r. (cr_id r, cr_address r, cr_state r)) (ch_replicas (sv_handle sv h)) =
      map (\<lambda>info. (ri_replica_num info, ri_address info, ri_state info)) infos"
proof -
  obtain dep where dep: "(d, dep) \<in> set (ru_deployments u)" "dp_deployment_name dep = name"
    "map routed (dp_replicas dep) = map routed_info infos"
    using table_entry [OF assms(3)] assms(2) by auto
  have "map (\<lambda>r. (rt_replica_id r, rt_replica_address r, rt_state r)) (map routed (dp_replicas dep)) =
      map (\<lambda>r. (rt_replica_id r, rt_replica_address r, rt_state r)) (map routed_info infos)"
    by (simp only: dep(3))
  then have e: "map (\<lambda>r. (rm_replica_id r, rm_address r, rm_state r)) (dp_replicas dep) =
      map (\<lambda>info. (ri_replica_num info, ri_address info, ri_state info)) infos"
    by (simp add: routed_def routed_info_def comp_def)
  obtain h where "dget (xp_table (sv_proxy sv)) name = Some h" "h < length (shapes sv)"
    "fst (shapes sv ! h) = map (\<lambda>r. (rm_replica_id r, rm_address r, rm_state r)) (dp_replicas dep)"
    using assms(1) dep(1,2) unfolding cpp_displays_def by blast
  with e show ?thesis by (intro exI [of _ h]) (simp add: shape_def)
qed

section \<open>A run\<close>

text \<open>A C++ proxy joins the sample run of the control plane and takes a request.\<close>

definition cpp_run_start :: cpp_serving where
  "cpp_run_start = \<lparr>sv_proxy = cpp_proxy_init 50052, sv_sessions = [], sv_closed = []\<rparr>"

definition cpp_run_proxy :: cpp_serving where
  "cpp_run_proxy = sv_apply run_update cpp_run_start"

definition cpp_fleet :: "cpp_serving \<Rightarrow> cpp_serving fleet" where
  "cpp_fleet sv = \<lparr>ft_cluster = run_answered\<lparr>cl_head := subscribe 0 12 (cl_head run_answered)\<rparr>,
     ft_proxies = [(0, sv)], ft_links = [(0, (0, 1))]\<rparr>"

lemma cpp_run_reach: "reach fleet_start cpp_fleet_step (cpp_fleet cpp_run_proxy)"
proof -
  let ?f0 = "\<lparr>ft_cluster = run_answered, ft_proxies = [], ft_links = []\<rparr> :: cpp_serving fleet"
  let ?f2 = "\<lparr>ft_cluster = run_answered\<lparr>cl_head := subscribe 0 12 (cl_head run_answered)\<rparr>,
     ft_proxies = [(0, cpp_run_start)], ft_links = [(0, (0, 0))]\<rparr> :: cpp_serving fleet"
  have "reach fleet_start cpp_fleet_step ?f0"
    unfolding cpp_fleet_step_def by (rule fleet_control_reach [OF run_answered_reach])
  moreover have "cpp_fleet_step ?f0 (ft_put 0 cpp_run_start ?f0)"
    unfolding cpp_fleet_step_def by (rule fleet_step.fleet_starts) (auto simp: serving_start_def cpp_run_start_def)
  ultimately have "reach fleet_start cpp_fleet_step (ft_put 0 cpp_run_start ?f0)" by (rule reach_step)
  moreover have "cpp_fleet_step (ft_put 0 cpp_run_start ?f0) ?f2"
    unfolding cpp_fleet_step_def
    using fleet_step.fleet_subscribes [of "ft_put 0 cpp_run_start ?f0" 0 cpp_run_start "\<lambda>sv. True" 0 _ _ _ _ 12] run_answered_subs
    by (simp add: fleet_parts dict_eval)
  ultimately have "reach fleet_start cpp_fleet_step ?f2" by (rule reach_step)
  moreover have "cpp_fleet_step ?f2 (cpp_fleet cpp_run_proxy)"
    unfolding cpp_fleet_step_def
    using fleet_step.fleet_receives [of ?f2 0 cpp_run_start 0 0 "\<lparr>sb_last = 0, sb_phase = Sending run_update, sb_sent = [run_update]\<rparr>" "\<lambda>sv. True"]
    by (simp add: fleet_parts dict_eval subscribe_def Let_def run_update_def cpp_fleet_def cpp_run_proxy_def)
  ultimately show ?thesis by (rule reach_step)
qed

lemma cpp_run_parts [simp]:
  "dget (ft_proxies (cpp_fleet sv)) 0 = Some sv" "ft_workers (cpp_fleet sv) = cl_workers run_answered"
  "ft_head (cpp_fleet sv) = sy_head run_system" "ft_put 0 sv (cpp_fleet sv') = cpp_fleet sv"
  by (simp_all add: cpp_fleet_def fleet_parts dict_eval run_system_def sy_head_def)

lemma cpp_run_serves:
  assumes "session_step sv sv'" and "reach fleet_start cpp_fleet_step (cpp_fleet sv)"
  shows "reach fleet_start cpp_fleet_step (cpp_fleet sv')"
proof -
  have "cpp_fleet_step (cpp_fleet sv) (cpp_fleet sv')"
    using fleet_step.fleet_serves [of "cpp_fleet sv" 0 sv "session_step" sv'] assms(1) by (simp add: cpp_fleet_step_def)
  with assms(2) show ?thesis by (rule reach_step)
qed

lemma cpp_run_route:
  "\<exists>h i a ch. dget (xp_table (sv_proxy cpp_run_proxy)) ''/v1/chat/tinyllama'' = Some h \<and>
    cpp_pick now (sv_handle cpp_run_proxy h) = (Some (i, Some a), ch)"
proof -
  have hd: "head_ok (sy_head run_system)"
    using py_port.fleet_goodD(1) [OF system_machine.reach_safe [OF run_system_reach, unfolded system_ok_def]] cluster_okD(1)
    by (auto simp: sy_head_def)
  have r: "routes (hc_dm (sy_head run_system)) 2 = Some (''/v1/chat/tinyllama'', ''1.0'',
      [\<lparr>ri_replica_num = replica_key (int_text 1) (int_text 1),
        ri_address = host_port ''10.0.0.1'' (int_text 50101), ri_state = ''RUNNING''\<rparr>])"
    using run_answered_route by (simp add: run_system_facts(5))
  from cpp_proxy_follows_head [OF hd run_system_facts(4) r, of "sv_proxy cpp_run_start"]
  obtain h dep where h: "dget (xp_table (sv_proxy cpp_run_proxy)) ''/v1/chat/tinyllama'' = Some h"
    "sv_handle cpp_run_proxy h = cpp_handle_init dep" "dp_replicas dep \<noteq> []"
    by (auto simp: cpp_run_proxy_def sv_apply_def sv_handle_def)
  with fresh_handle_picks [OF h(3), of now] show ?thesis by auto
qed

section \<open>Properties\<close>

text \<open>
  C10. A request to the C++ proxy is answered by a replica that exists.  In every reachable state of a head
  with C++ proxies, with any update lost, late or still to come and with other sessions anywhere, take a
  proxy whose table has the target of a request, and a client that reads all that is written to it.  The
  target is the name of a deployment.  If the handle has no healthy replica, the client reads an empty
  body; else the request goes to the address of a replica that is registered with a scheduler for
  exactly this deployment, and the client reads the texts of this replica up to the first empty one.
\<close>

theorem cpp_request_served_by_registered_replica:
  assumes "reach fleet_start cpp_fleet_step ft" and "dget (ft_proxies ft) p = Some sv"
    and "dget (xp_table (sv_proxy sv)) target = Some h" and "\<And>k. writable k"
  shows "\<exists>d. (d, target) \<in> set first_names \<and>
    (case fst (cpp_pick now (sv_handle sv h)) of
      None \<Rightarrow> client_reads (fst (cpp_http_session replica now later writable metrics_text (Some (target, body)) (sv_proxy sv))) =
        Some (200, [])
    | Some (i, channel) \<Rightarrow> \<exists>address. channel = Some address \<and> registered_at (ft_workers ft) d address \<and>
        client_reads (fst (cpp_http_session replica now later writable metrics_text (Some (target, body)) (sv_proxy sv))) =
          Some (200, case replica (Some address) body of
            NotStarted msg \<Rightarrow> []
          | Streamed replies status \<Rightarrow> concat (takeWhile (\<lambda>t. t \<noteq> []) (map rp_text replies))))"
proof -
  note g = cpp_fleet_good [OF assms(1)]
  obtain d where d: "(d, target) \<in> set first_names" "\<And>d'. (d', target) \<in> set first_names \<Longrightarrow> d' = d"
    using table_named [OF g assms(2,3)] by blast
  then have "target \<noteq> ''/metrics''" by (auto simp: first_names_def)
  note r = client_of_session [OF assms(4) this assms(3), where replica = replica and now = now and later = later
    and metrics_text = metrics_text and body = body]
  obtain x ch where p: "cpp_pick now (sv_handle sv h) = (x, ch)" by fastforce
  show ?thesis
  proof (cases x)
    case None
    with r p d(1) show ?thesis by (auto simp: sv_handle_def)
  next
    case (Some y)
    obtain i channel where y: "y = (i, channel)" by (cases y)
    obtain a where a: "channel = Some a" "(target, a) \<in> sv_calls sv"
      using table_pick [OF cpp_port.fleet_goodD(3) [OF g assms(2)] assms(3)] p Some y by blast
    have "registered_at (ft_workers ft) d a" using calls_registered [OF g assms(2) a(2)] d(2) by blast
    with r p Some y a(1) d(1) show ?thesis by (intro exI [of _ d]) (simp add: sv_handle_def)
  qed
qed

theorem cpp_request_served_by_registered_replica_witness:
  "client_reads (fst (cpp_http_session (\<lambda>channel message. Streamed [reply ''Hel'' False, reply ''lo'' False] StatusOk) 0 1
     (\<lambda>k. True) ''metrics'' (Some (''/v1/chat/tinyllama'', ''hi'')) (sv_proxy cpp_run_proxy))) = Some (200, ''Hello'')"
proof -
  obtain h i a ch where h: "dget (xp_table (sv_proxy cpp_run_proxy)) ''/v1/chat/tinyllama'' = Some h"
    "cpp_pick 0 (sv_handle cpp_run_proxy h) = (Some (i, Some a), ch)"
    using cpp_run_route [of 0] by blast
  from cpp_request_served_by_registered_replica [OF cpp_run_reach cpp_run_parts(1) h(1),
      where now = 0 and replica = "\<lambda>channel message. Streamed [reply ''Hel'' False, reply ''lo'' False] StatusOk" and later = 1
      and writable = "\<lambda>k. True" and metrics_text = "''metrics''" and body = "''hi''"] h(2)
  show ?thesis by (auto simp: reply_def)
qed

text \<open>
  C11. A session stays with a registered replica.  In every reachable state of a head with C++ proxies,
  however many updates have replaced the table since the session looked its handle up, and although
  the release takes no mutex, a session that calls a replica has a channel, and its address is that of a
  replica registered with a scheduler for the deployment whose name the request has.
\<close>

theorem cpp_sessions_go_to_registered_replicas:
  assumes "reach fleet_start cpp_fleet_step ft" and "dget (ft_proxies ft) p = Some sv"
    and "in_phase sv j cs (Calling h i channel)"
  shows "\<exists>d address. channel = Some address \<and> (d, cs_name cs) \<in> set first_names \<and> registered_at (ft_workers ft) d address"
proof -
  note g = cpp_fleet_good [OF assms(1)]
  have "channel \<noteq> None"
    using serving_okD(4) [OF cpp_port.fleet_goodD(3) [OF g assms(2)] in_phaseD(1) [OF assms(3)]] in_phaseD(2) [OF assms(3)]
    by simp
  then obtain a where a: "channel = Some a" by blast
  then have "(cs_name cs, a) \<in> sv_calls sv" using known_calls [OF assms(3)] by simp
  with calls_registered [OF g assms(2)] a show ?thesis by blast
qed

text \<open>The session of the sample run.\<close>

lemma read_step:
  assumes "dget (sv_sessions sv) j = Some cs" and "cs_phase cs = Reading"
    and "dget (xp_table (sv_proxy sv)) target = Some h" and "target \<noteq> ''/metrics''"
  shows "\<exists>sv' cs'. session_step sv sv' \<and> in_phase sv' j cs' (Holding h) \<and> cs_name cs' = target \<and>
    xp_handles (sv_proxy sv') = xp_handles (sv_proxy sv)"
proof -
  let ?sv = "session_reads (\<lambda>k. True) [] (Some target) j cs sv"
  let ?ss = "snd (async_write (\<lambda>k. True) (Header 200) (sv_view cs sv))"
  have e: "?sv = sv_put j target ?ss (Holding h) sv"
    using assms(3,4) by (simp add: session_reads_def Let_def async_write_def)
  have "session_step sv ?sv" using assms(1,2) by (intro session_step.reads) (simp add: in_phase_def)
  then show ?thesis unfolding e by (intro exI conjI, assumption) (auto simp: in_phase_def sv_put_def)
qed

theorem cpp_sessions_go_to_registered_replicas_witness:
  "\<exists>sv cs h i address d. reach fleet_start cpp_fleet_step (cpp_fleet sv) \<and>
    in_phase sv 7 cs (Calling h i (Some address)) \<and> registered_at (cl_workers run_answered) d address"
proof -
  obtain h i a ch where h: "dget (xp_table (sv_proxy cpp_run_proxy)) ''/v1/chat/tinyllama'' = Some h"
    "cpp_pick 0 (sv_handle cpp_run_proxy h) = (Some (i, Some a), ch)"
    using cpp_run_route [of 0] by blast
  let ?s1 = "session_starts 7 cpp_run_proxy"
  have "dget (sv_sessions cpp_run_proxy) 7 = None" by (simp add: cpp_run_proxy_def sv_apply_def cpp_run_start_def)
  then have "session_step cpp_run_proxy ?s1" by (rule session_step.accepts)
  then have r1: "reach fleet_start cpp_fleet_step (cpp_fleet ?s1)" using cpp_run_reach by (rule cpp_run_serves)
  obtain cs where "dget (sv_sessions ?s1) 7 = Some cs" "cs_phase cs = Reading"
    by (simp add: session_starts_def sv_put_def)
  moreover have t: "dget (xp_table (sv_proxy ?s1)) ''/v1/chat/tinyllama'' = Some h" using h(1) by (simp add: session_starts_def)
  ultimately obtain s2 cs2 where s2: "session_step ?s1 s2" "in_phase s2 7 cs2 (Holding h)"
    "xp_handles (sv_proxy s2) = xp_handles (sv_proxy ?s1)"
    using read_step [of ?s1 7 cs "''/v1/chat/tinyllama''" h] by auto
  have r2: "reach fleet_start cpp_fleet_step (cpp_fleet s2)" by (rule cpp_run_serves [OF s2(1) r1])
  let ?s3 = "session_chooses (\<lambda>k. True) 0 7 cs2 h s2"
  have r3: "reach fleet_start cpp_fleet_step (cpp_fleet ?s3)"
    by (rule cpp_run_serves [OF session_step.chooses [OF s2(2)] r2])
  have "cpp_pick 0 (sv_handle s2 h) = (Some (i, Some a), ch)"
    using h(2) s2(3) by (simp add: sv_handle_def session_starts_def)
  then have "\<exists>cs3. in_phase ?s3 7 cs3 (Calling h i (Some a))"
    by (simp add: session_chooses_def in_phase_def) (simp add: sv_put_def)
  then obtain cs3 where c: "in_phase ?s3 7 cs3 (Calling h i (Some a))" by blast
  obtain d where "registered_at (cl_workers run_answered) d a"
    using cpp_sessions_go_to_registered_replicas [OF r3 cpp_run_parts(1) c] by auto
  with r3 c show ?thesis by blast
qed

text \<open>
  C12. No C++ proxy is stuck with an old table.  From every reachable state of a head with C++ proxies there
  is a way, in which neither the head's deployments nor the sessions of the proxy change, to a state in
  which the proxy routes the name of every deployment of the head, and no other name, to a handle with
  exactly the head's replicas, in order, with identifier, address and state, whatever updates it has lost
  before.  The way is that its subscription breaks and is made anew, and the first update is applied.
\<close>

theorem cpp_proxy_can_catch_up:
  assumes "reach fleet_start cpp_fleet_step ft" and "dget (ft_proxies ft) p = Some sv"
  shows "\<exists>ft' sv'. reach (\<lambda>s. s = ft) cpp_fleet_step ft' \<and> dget (ft_proxies ft') p = Some sv' \<and>
    sv_sessions sv' = sv_sessions sv \<and> hc_dm (ft_head ft') = hc_dm (ft_head ft) \<and>
    dkeys (xp_table (sv_proxy sv')) = routed_names (hc_dm (ft_head ft)) \<and>
    (\<forall>d name version infos. routes (hc_dm (ft_head ft)) d = Some (name, version, infos) \<longrightarrow>
      (\<exists>h. dget (xp_table (sv_proxy sv')) name = Some h \<and>
        map (\<lambda>r. (cr_id r, cr_address r, cr_state r)) (ch_replicas (sv_handle sv' h)) =
          map (\<lambda>info. (ri_replica_num info, ri_address info, ri_state info)) infos))"
proof -
  note g = cpp_fleet_good [OF assms(1)]
  obtain ft' u where c: "reach (\<lambda>s. s = ft) cpp_fleet_step ft'" "dget (ft_proxies ft') p = Some (sv_apply u sv)"
    "cpp_displays (sv_apply u sv) u" "ru_deployments u = table_of (hc_dm (ft_head ft))"
    "hc_dm (ft_head ft') = hc_dm (ft_head ft)"
    using cpp_port.catch_up [OF g assms(2), of "\<lambda>sv. True" "\<lambda>sv. True"] unfolding cpp_fleet_step_def by blast
  have "dm_shape (hc_dm (ft_head ft))"
    using cluster_okD(1) [OF cpp_port.fleet_goodD(1) [OF g]] by (simp add: head_ok_def ft_head_def)
  then have "dkeys (xp_table (sv_proxy (sv_apply u sv))) \<subseteq> routed_names (hc_dm (ft_head ft))"
    using cpp_apply_known [of u sv] table_known c(4) by fastforce
  moreover have "routed_names (hc_dm (ft_head ft)) \<subseteq> dkeys (xp_table (sv_proxy (sv_apply u sv)))"
    using displays_routes [OF c(3,4)] by (fastforce simp: routed_names_def dkeys_iff)
  moreover have "sv_sessions (sv_apply u sv) = sv_sessions sv" by (simp add: sv_apply_def)
  ultimately show ?thesis using c displays_routes [OF c(3,4)] by (intro exI [of _ ft'] exI [of _ "sv_apply u sv"]) blast
qed

theorem cpp_proxy_can_catch_up_witness:
  "\<exists>ft' sv' h. reach (\<lambda>s. s = cpp_fleet cpp_run_proxy) cpp_fleet_step ft' \<and> dget (ft_proxies ft') 0 = Some sv' \<and>
    dget (xp_table (sv_proxy sv')) ''/v1/chat/tinyllama'' = Some h \<and>
    map cr_address (ch_replicas (sv_handle sv' h)) = [host_port ''10.0.0.1'' (int_text 50101)]"
proof -
  have r: "routes (hc_dm (ft_head (cpp_fleet cpp_run_proxy))) 2 = Some (''/v1/chat/tinyllama'', ''1.0'',
      [\<lparr>ri_replica_num = replica_key (int_text 1) (int_text 1),
        ri_address = host_port ''10.0.0.1'' (int_text 50101), ri_state = ''RUNNING''\<rparr>])"
    using run_answered_route by (simp add: run_system_facts(5))
  from cpp_proxy_can_catch_up [OF cpp_run_reach cpp_run_parts(1)] r
  obtain ft' sv' h where c: "reach (\<lambda>s. s = cpp_fleet cpp_run_proxy) cpp_fleet_step ft'"
    "dget (ft_proxies ft') 0 = Some sv'" "dget (xp_table (sv_proxy sv')) ''/v1/chat/tinyllama'' = Some h"
    "map (\<lambda>r. (cr_id r, cr_address r, cr_state r)) (ch_replicas (sv_handle sv' h)) =
      [(replica_key (int_text 1) (int_text 1), host_port ''10.0.0.1'' (int_text 50101), ''RUNNING'')]"
    by fastforce
  from c(4) have "map cr_address (ch_replicas (sv_handle sv' h)) = [host_port ''10.0.0.1'' (int_text 50101)]"
    by (auto simp: map_eq_Cons_conv)
  with c(1-3) show ?thesis by (intro exI conjI)
qed

end
