(* ===== verification/CppDrift.thy ===== *)
theory CppDrift
  imports CppSessions
begin



















end
