(* ===== verification/ProxyManager.thy ===== *)
theory ProxyManager
  imports Helpers
begin

text \<open>
  \<open>src/lib/proxy_manager.py\<close>: the head controller starts the proxy process and watches it.

  Processes and gRPC channels are objects on heaps (\<open>True\<close> while the process runs, the channel is
  open), \<open>pm_process\<close> and \<open>pm_channel\<close> the ones the attributes refer to.  A process that was sent
  \<open>terminate()\<close> counts as ended.  The heartbeat loop is one round per function call; between rounds a
  process may end by itself.  What starting the binary and pinging the proxy yield are arguments.
\<close>

datatype start_outcome = StartRaised exn | Started bool

record proxy_manager =
  pm_node_port :: int
  pm_http_port :: int
  pm_grpc_port :: int
  pm_alive :: bool
  pm_procs :: "bool list"
  pm_process :: "nat option"
  pm_channels :: "bool list"
  pm_channel :: "nat option"
  pm_commands :: "string list list"

definition proxy_command :: "proxy_manager \<Rightarrow> string list" where
  "proxy_command pm = [''http_proxy'', ''--http_port'', int_text (pm_http_port pm),
     ''--parent_port'', int_text (pm_node_port pm), ''--grpc_port'', int_text (pm_grpc_port pm)]"

text \<open>\<open>Started running\<close>: \<open>Popen\<close> returned, and \<open>running\<close> is \<open>poll() is None\<close>.\<close>

definition start_http_proxy :: "start_outcome \<Rightarrow> proxy_manager \<Rightarrow> proxy_manager" where
  "start_http_proxy outcome pm =
     (case outcome of
        StartRaised e \<Rightarrow> pm\<lparr>pm_alive := False\<rparr>
      | Started running \<Rightarrow>
          pm\<lparr>pm_process := Some (length (pm_procs pm)), pm_procs := pm_procs pm @ [running],
             pm_alive := running, pm_commands := pm_commands pm @ [proxy_command pm]\<rparr>)"

definition pm_init :: "start_outcome \<Rightarrow> int \<Rightarrow> int \<Rightarrow> int \<Rightarrow> proxy_manager" where
  "pm_init outcome node_port http_port grpc_port =
     start_http_proxy outcome
       \<lparr>pm_node_port = node_port, pm_http_port = http_port, pm_grpc_port = grpc_port, pm_alive = False,
        pm_procs = [], pm_process = None, pm_channels = [], pm_channel = None, pm_commands = []\<rparr>"

definition open_channel :: "proxy_manager \<Rightarrow> proxy_manager" where
  "open_channel pm = pm\<lparr>pm_channel := Some (length (pm_channels pm)), pm_channels := pm_channels pm @ [True]\<rparr>"

definition close_channel :: "proxy_manager \<Rightarrow> proxy_manager" where
  "close_channel pm = (case pm_channel pm of
     None \<Rightarrow> pm | Some c \<Rightarrow> pm\<lparr>pm_channels := (pm_channels pm)[c := False]\<rparr>)"

definition terminate_process :: "proxy_manager \<Rightarrow> proxy_manager" where
  "terminate_process pm = (case pm_process pm of
     None \<Rightarrow> pm | Some p \<Rightarrow> pm\<lparr>pm_procs := (pm_procs pm)[p := False]\<rparr>)"

text \<open>\<open>send_heartbeat\<close> before its loop.\<close>

definition heartbeat_begin :: "start_outcome \<Rightarrow> proxy_manager \<Rightarrow> proxy_manager" where
  "heartbeat_begin outcome pm =
     open_channel (if pm_alive pm then pm else start_http_proxy outcome pm)"

text \<open>
  One round of the loop: \<open>answer\<close> is the result of the three pings, \<open>outcome\<close> that of a restart.  An
  exception object as the answer is a failure; any other value, \<open>None\<close> too, is not.
\<close>

definition proxy_heartbeat_round :: "bool sent \<Rightarrow> start_outcome \<Rightarrow> proxy_manager \<Rightarrow> proxy_manager" where
  "proxy_heartbeat_round answer outcome pm =
     (if \<not> pm_alive pm then open_channel (close_channel (start_http_proxy outcome pm))
      else case answer of
        GotExn e \<Rightarrow> terminate_process (close_channel (pm\<lparr>pm_alive := False\<rparr>))
      | _ \<Rightarrow> pm)"

definition process_ends :: "nat \<Rightarrow> proxy_manager \<Rightarrow> proxy_manager" where
  "process_ends p pm = pm\<lparr>pm_procs := (pm_procs pm)[p := False]\<rparr>"

section \<open>One loop, one process, one channel\<close>

definition running_procs :: "proxy_manager \<Rightarrow> nat set" where
  "running_procs pm = {p. p < length (pm_procs pm) \<and> pm_procs pm ! p}"

definition open_chans :: "proxy_manager \<Rightarrow> nat set" where
  "open_chans pm = {c. c < length (pm_channels pm) \<and> pm_channels pm ! c}"

definition pm_ok :: "proxy_manager \<Rightarrow> bool" where
  "pm_ok pm \<longleftrightarrow> (\<forall>p \<in> running_procs pm. pm_alive pm \<and> pm_process pm = Some p) \<and>
     (\<forall>c \<in> open_chans pm. pm_channel pm = Some c)"

inductive heartbeat_step :: "proxy_manager \<Rightarrow> proxy_manager \<Rightarrow> bool" where
  round: "heartbeat_step pm (proxy_heartbeat_round answer outcome pm)"
| ends: "heartbeat_step pm (process_ends p pm)"

definition heartbeat_start :: "proxy_manager \<Rightarrow> bool" where
  "heartbeat_start pm \<longleftrightarrow> (\<exists>o1 o2 node_port http_port grpc_port.
     pm = heartbeat_begin o2 (pm_init o1 node_port http_port grpc_port))"

lemma switch_off: "x < length xs \<Longrightarrow> xs[c := False] ! x \<longleftrightarrow> xs ! x \<and> x \<noteq> c"
  by (cases "c < length xs") (auto simp: nth_list_update)

lemma procs_update: "running_procs (pm\<lparr>pm_procs := (pm_procs pm)[p := False]\<rparr>) = running_procs pm - {p}"
  by (auto simp: running_procs_def switch_off)

lemma chans_update: "open_chans (pm\<lparr>pm_channels := (pm_channels pm)[c := False]\<rparr>) = open_chans pm - {c}"
  by (auto simp: open_chans_def switch_off)

lemma start_ok:
  assumes "running_procs pm = {}"
  shows "\<forall>p \<in> running_procs (start_http_proxy outcome pm).
      pm_alive (start_http_proxy outcome pm) \<and> pm_process (start_http_proxy outcome pm) = Some p"
    and "open_chans (start_http_proxy outcome pm) = open_chans pm"
    and "pm_channel (start_http_proxy outcome pm) = pm_channel pm"
  using assms by (cases outcome; force simp: start_http_proxy_def running_procs_def open_chans_def nth_append less_Suc_eq)+

lemma open_effect:
  "running_procs (open_channel pm) = running_procs pm" "pm_alive (open_channel pm) = pm_alive pm"
  "pm_process (open_channel pm) = pm_process pm"
  "open_chans (open_channel pm) = insert (length (pm_channels pm)) (open_chans pm)"
  "pm_channel (open_channel pm) = Some (length (pm_channels pm))"
  by (auto simp: open_channel_def running_procs_def open_chans_def nth_append less_Suc_eq)

lemma close_effect:
  assumes "\<forall>c \<in> open_chans pm. pm_channel pm = Some c"
  shows "open_chans (close_channel pm) = {}" "running_procs (close_channel pm) = running_procs pm"
    "pm_alive (close_channel pm) = pm_alive pm" "pm_process (close_channel pm) = pm_process pm"
proof -
  show "open_chans (close_channel pm) = {}"
  proof (cases "pm_channel pm")
    case (Some c)
    then have "open_chans (close_channel pm) = open_chans pm - {c}"
      by (simp add: close_channel_def chans_update)
    with Some assms show ?thesis by auto
  qed (use assms in \<open>simp add: close_channel_def\<close>)
qed (simp_all add: close_channel_def running_procs_def split: option.splits)

lemma pm_ok_round:
  assumes ok: "pm_ok pm"
  shows "pm_ok (proxy_heartbeat_round answer outcome pm)"
proof (cases "pm_alive pm")
  case False
  let ?s = "start_http_proxy outcome pm"
  have none: "running_procs pm = {}" using ok False by (auto simp: pm_ok_def)
  note s = start_ok [OF none, of outcome]
  have ch: "\<forall>c \<in> open_chans ?s. pm_channel ?s = Some c" using ok s(2,3) by (simp add: pm_ok_def)
  note c = close_effect [OF ch]
  show ?thesis
    using False s(1) c by (simp add: proxy_heartbeat_round_def pm_ok_def open_effect)
next
  case True
  have ch: "\<forall>c \<in> open_chans (pm\<lparr>pm_alive := False\<rparr>). pm_channel (pm\<lparr>pm_alive := False\<rparr>) = Some c"
    using ok by (simp add: pm_ok_def open_chans_def)
  note c = close_effect [OF ch]
  let ?c = "close_channel (pm\<lparr>pm_alive := False\<rparr>)"
  have "running_procs (terminate_process ?c) = {}"
  proof (cases "pm_process ?c")
    case None
    then have "running_procs pm = {}" using ok c(4) by (auto simp: pm_ok_def)
    with None c(2) show ?thesis by (simp add: terminate_process_def running_procs_def)
  next
    case (Some p)
    then have "running_procs (terminate_process ?c) = running_procs ?c - {p}"
      by (simp add: terminate_process_def procs_update)
    moreover have "running_procs ?c = running_procs pm" using c(2) by (simp add: running_procs_def)
    ultimately show ?thesis using ok Some c(4) by (auto simp: pm_ok_def)
  qed
  moreover have "open_chans (terminate_process ?c) = {}"
    using c(1) by (simp add: terminate_process_def open_chans_def split: option.splits)
  ultimately have "pm_ok (terminate_process ?c)" by (simp add: pm_ok_def)
  with True ok show ?thesis by (cases answer) (simp_all add: proxy_heartbeat_round_def)
qed

lemma pm_ok_begin: "pm_ok (heartbeat_begin o2 (pm_init o1 node_port http_port grpc_port))"
proof -
  let ?z = "\<lparr>pm_node_port = node_port, pm_http_port = http_port, pm_grpc_port = grpc_port, pm_alive = False,
    pm_procs = [], pm_process = None, pm_channels = [], pm_channel = None, pm_commands = []\<rparr>"
  let ?i = "pm_init o1 node_port http_port grpc_port"
  have z: "running_procs ?z = {}" "open_chans ?z = {}" by (simp_all add: running_procs_def open_chans_def)
  have i: "\<forall>p \<in> running_procs ?i. pm_alive ?i \<and> pm_process ?i = Some p" "open_chans ?i = {}"
    using start_ok [OF z(1), of o1] z(2) by (simp_all add: pm_init_def)
  show ?thesis
  proof (cases "pm_alive ?i")
    case True
    with i show ?thesis by (simp add: heartbeat_begin_def pm_ok_def open_effect)
  next
    case False
    then have "running_procs ?i = {}" using i(1) by auto
    from start_ok [OF this, of o2] i(2) False show ?thesis
      by (simp add: heartbeat_begin_def pm_ok_def open_effect)
  qed
qed

interpretation heartbeat_machine: safe_machine heartbeat_start heartbeat_step pm_ok
proof unfold_locales
  show "pm_ok s" if "heartbeat_start s" for s
    using that pm_ok_begin by (auto simp: heartbeat_start_def)
  show "pm_ok t" if "heartbeat_step s t" "pm_ok s" for s t
    using that
  proof (induction rule: heartbeat_step.induct)
    case (round pm answer outcome)
    then show ?case by (intro pm_ok_round)
  next
    case (ends pm p)
    have "open_chans (process_ends p pm) = open_chans pm" by (simp add: process_ends_def open_chans_def)
    moreover have "running_procs (process_ends p pm) = running_procs pm - {p}"
      by (simp add: process_ends_def procs_update)
    ultimately show ?case using ends by (auto simp: pm_ok_def process_ends_def)
  qed
qed

section \<open>Properties\<close>

definition demo_pm :: proxy_manager where
  "demo_pm = heartbeat_begin (Started True) (pm_init (Started True) 50052 8000 50053)"

lemma demo_pm_reach: "reach heartbeat_start heartbeat_step demo_pm"
  unfolding demo_pm_def by (rule reach_init) (unfold heartbeat_start_def, blast)

text \<open>
  One heartbeat loop never runs two proxies.  Through any sequence of answered and failed pings,
  successful and failed restarts and proxies that end by themselves, at most one proxy process runs,
  none unless the manager believes it alive, and at most one channel is open, the one in use.
\<close>

theorem single_proxy_single_channel:
  assumes "reach heartbeat_start heartbeat_step pm"
  shows "running_procs pm \<subseteq> (if pm_alive pm then set_option (pm_process pm) else {}) \<and>
    open_chans pm \<subseteq> set_option (pm_channel pm)"
  using heartbeat_machine.reach_safe [OF assms] by (auto simp: pm_ok_def)

theorem single_proxy_single_channel_witness:
  "running_procs demo_pm \<subseteq> {0} \<and> open_chans demo_pm \<subseteq> {0}"
proof -
  have "pm_alive demo_pm" "pm_process demo_pm = Some 0" "pm_channel demo_pm = Some 0"
    by (simp_all add: demo_pm_def heartbeat_begin_def pm_init_def start_http_proxy_def open_channel_def)
  with single_proxy_single_channel [OF demo_pm_reach] show ?thesis by simp
qed

text \<open>
  A dead proxy is replaced within two rounds.  In every state of the loop in which the manager
  believes the proxy alive, a round whose pings all fail ends the process and closes the channel, and
  the next round, if the binary starts, has a new running process and a new open channel, believed
  alive.
\<close>

theorem proxy_recovers:
  assumes "reach heartbeat_start heartbeat_step pm" and "pm_alive pm"
  shows "running_procs (proxy_heartbeat_round (GotExn e) o1 pm) = {} \<and>
    open_chans (proxy_heartbeat_round (GotExn e) o1 pm) = {} \<and>
    (let pm' = proxy_heartbeat_round answer (Started True) (proxy_heartbeat_round (GotExn e) o1 pm)
     in pm_alive pm' \<and> running_procs pm' = set_option (pm_process pm') \<and> pm_process pm' \<noteq> None \<and>
        open_chans pm' = set_option (pm_channel pm') \<and> pm_channel pm' \<noteq> None)"
proof -
  let ?d = "proxy_heartbeat_round (GotExn e) o1 pm"
  have ok: "pm_ok pm" using heartbeat_machine.reach_safe [OF assms(1)] .
  have dead: "\<not> pm_alive ?d"
    using assms(2) by (simp add: proxy_heartbeat_round_def close_channel_def terminate_process_def split: option.splits)
  have okd: "pm_ok ?d" by (rule pm_ok_round [OF ok])
  then have none: "running_procs ?d = {}" using dead by (auto simp: pm_ok_def)
  have ch: "\<forall>c \<in> open_chans (pm\<lparr>pm_alive := False\<rparr>). pm_channel (pm\<lparr>pm_alive := False\<rparr>) = Some c"
    using ok by (simp add: pm_ok_def open_chans_def)
  have closed: "open_chans ?d = {}"
    using close_effect(1) [OF ch] assms(2)
    by (simp add: proxy_heartbeat_round_def terminate_process_def open_chans_def split: option.splits)
  let ?s = "start_http_proxy (Started True) ?d"
  have chs: "\<forall>c \<in> open_chans ?s. pm_channel ?s = Some c" using start_ok(2) [OF none] closed by simp
  have "running_procs ?s = {length (pm_procs ?d)}" "pm_process ?s = Some (length (pm_procs ?d))" "pm_alive ?s"
    using none by (auto simp: start_http_proxy_def running_procs_def nth_append less_Suc_eq)
  with dead close_effect [OF chs] none closed show ?thesis
    by (simp add: proxy_heartbeat_round_def [of answer] open_effect Let_def)
qed

theorem proxy_recovers_witness:
  "pm_alive (proxy_heartbeat_round (Got True) (Started True)
     (proxy_heartbeat_round (GotExn (RpcError ''UNAVAILABLE'')) (Started True) demo_pm))"
proof -
  have "pm_alive demo_pm"
    by (simp add: demo_pm_def heartbeat_begin_def pm_init_def start_http_proxy_def open_channel_def)
  from proxy_recovers [OF demo_pm_reach this, of "RpcError ''UNAVAILABLE''" "Started True" "Got True"]
  show ?thesis by (simp add: Let_def)
qed

end
