(* ===== verification/CommandLines.thy ===== *)
theory CommandLines
  imports Scheduler ReplicaEngine ProxyManager HttpProxy NodeInfo
begin

text \<open>
  The command lines the program builds and the \<open>main\<close> functions that read them: the replica process
  (\<open>add_replica_vllm.py\<close>) and the proxy (\<open>http_proxy.py\<close>), both with \<open>argparse\<close>.

  An argument list is read as \<open>--name value\<close> pairs, the form the program uses; the last of two equal
  flags wins.  The \<open>--name=value\<close> form and abbreviated flags are not modelled (they are rejected).
\<close>

section \<open>\<open>argparse\<close>\<close>

text \<open>
  What can stand as the value of an option: not something that looks like an option itself, which
  negative numbers and texts with a space do not.
\<close>

fun negative_number :: "string \<Rightarrow> bool" where
  "negative_number [] = False"
| "negative_number (c # cs) \<longleftrightarrow> c = CHR ''-'' \<and> cs \<noteq> [] \<and>
     (let ds = dropWhile is_digit cs
      in ds = [] \<or> hd ds = CHR ''.'' \<and> tl ds \<noteq> [] \<and> (\<forall>d \<in> set (tl ds). is_digit d))"

definition option_value :: "string \<Rightarrow> bool" where
  "option_value v \<longleftrightarrow> v = [] \<or> hd v \<noteq> CHR ''-'' \<or> v = ''-'' \<or> negative_number v \<or> CHR '' '' \<in> set v"

fun read_options :: "string list \<Rightarrow> string list \<Rightarrow> (string, string) dict \<Rightarrow> (string, string) dict option" where
  "read_options flags [] d = Some d"
| "read_options flags [x] d = None"
| "read_options flags (flag # v # rest) d =
     (if flag \<in> set flags \<and> option_value v then read_options flags rest (dset flag v d) else None)"

text \<open>\<open>parse_args\<close> with its required options; \<open>None\<close> is the exit with the usage message.\<close>

definition parse_args :: "string list \<Rightarrow> string list \<Rightarrow> string list \<Rightarrow> (string, string) dict option" where
  "parse_args required optional args =
     (case read_options (required @ optional) args [] of
        None \<Rightarrow> None
      | Some d \<Rightarrow> if \<forall>flag \<in> set required. dget d flag \<noteq> None then Some d else None)"

definition arg :: "(string, string) dict \<Rightarrow> string \<Rightarrow> string" where
  "arg d flag = the (dget d flag)"

text \<open>An option with \<open>type=int\<close>, with its default.\<close>

definition int_arg :: "(string, string) dict \<Rightarrow> string \<Rightarrow> int \<Rightarrow> int option" where
  "int_arg d flag dflt =
     (case dget d flag of
        None \<Rightarrow> Some dflt
      | Some v \<Rightarrow> (case int_of_text v of Inl e \<Rightarrow> None | Inr n \<Rightarrow> Some n))"

section \<open>The replica process\<close>

text \<open>\<open>ReplicaManager\<close> of \<open>add_replica_vllm.py\<close>; \<open>rg_parent\<close> is the address of its stub.\<close>

record replica_manager =
  rg_parent_port :: string
  rg_metrics_port :: int
  rg_replica_id :: int
  rg_port :: string
  rg_deployment_name :: string
  rg_deployment_id :: int
  rg_state :: string
  rg_num_cpus :: int
  rg_num_gpus :: int
  rg_active_requests :: int
  rg_parent :: string
  rg_pid :: int
  rg_health_update_interval :: int
  rg_model_id :: string
  rg_engine :: engine

text \<open>
  \<open>__init__\<close>; \<open>metrics_failure\<close> is what \<open>start_http_server\<close> raises, if anything.
\<close>

definition manager_init ::
  "(string \<Rightarrow> string option) \<Rightarrow> (engine_args \<Rightarrow> (string \<Rightarrow> generation res) res) \<Rightarrow> exn option \<Rightarrow> int \<Rightarrow>
   string \<Rightarrow> int \<Rightarrow> string \<Rightarrow> string \<Rightarrow> int \<Rightarrow> int \<Rightarrow> int \<Rightarrow> int \<Rightarrow> replica_manager res" where
  "manager_init model_ids load metrics_failure pid parent_port replica_id port deployment_name deployment_id
     metrics_port num_cpus num_gpus =
     (case metrics_failure of
        Some e \<Rightarrow> Inl e
      | None \<Rightarrow>
          (case server_init_model model_ids load deployment_name of
             Inl e \<Rightarrow> Inl e
           | Inr (model_id, engine) \<Rightarrow>
               Inr \<lparr>rg_parent_port = parent_port, rg_metrics_port = metrics_port, rg_replica_id = replica_id,
                    rg_port = port, rg_deployment_name = deployment_name, rg_deployment_id = deployment_id,
                    rg_state = ''idle'', rg_num_cpus = num_cpus, rg_num_gpus = num_gpus,
                    rg_active_requests = 0, rg_parent = host_port ''0.0.0.0'' parent_port, rg_pid = pid,
                    rg_health_update_interval = 5, rg_model_id = model_id, rg_engine = engine\<rparr>))"

text \<open>\<open>main\<close> up to the start of the server.\<close>

datatype 'a started = Usage | Failed exn | Started 'a

definition replica_flags :: "string list" where
  "replica_flags = [''--replica_id'', ''--parent_port'', ''--port'', ''--deployment_name'', ''--deployment_id'',
     ''--num_cpus'', ''--num_gpus'', ''--metrics_port'']"

definition with_int :: "string \<Rightarrow> (int \<Rightarrow> 'a started) \<Rightarrow> 'a started" where
  "with_int v k = (case int_of_text v of Inl e \<Rightarrow> Failed e | Inr n \<Rightarrow> k n)"

definition replica_main ::
  "(string \<Rightarrow> string option) \<Rightarrow> (engine_args \<Rightarrow> (string \<Rightarrow> generation res) res) \<Rightarrow> exn option \<Rightarrow> int \<Rightarrow>
   string list \<Rightarrow> replica_manager started" where
  "replica_main model_ids load metrics_failure pid argv =
     (case parse_args replica_flags [] argv of
        None \<Rightarrow> Usage
      | Some d \<Rightarrow>
          with_int (arg d ''--replica_id'') (\<lambda>replica_id.
          with_int (arg d ''--deployment_id'') (\<lambda>deployment_id.
          with_int (arg d ''--metrics_port'') (\<lambda>metrics_port.
          with_int (arg d ''--num_cpus'') (\<lambda>num_cpus.
          with_int (arg d ''--num_gpus'') (\<lambda>num_gpus.
            case manager_init model_ids load metrics_failure pid (arg d ''--parent_port'') replica_id
                (arg d ''--port'') (arg d ''--deployment_name'') deployment_id metrics_port num_cpus num_gpus of
              Inl e \<Rightarrow> Failed e
            | Inr mgr \<Rightarrow> Started mgr))))))"

text \<open>The message of \<open>register_replica\<close>.\<close>

definition manager_status :: "replica_manager \<Rightarrow> replica_status res" where
  "manager_status mgr =
     (if uint32_ok (rg_replica_id mgr) \<and> uint32_ok (rg_pid mgr) \<and> uint32_ok (rg_deployment_id mgr)
      then Inr \<lparr>rs_state = rg_state mgr, rs_replica_id = rg_replica_id mgr, rs_pid = rg_pid mgr,
             rs_port = rg_port mgr, rs_deployment_id = rg_deployment_id mgr,
             rs_deployment_name = rg_deployment_name mgr\<rparr>
      else Inl out_of_range)"

section \<open>The proxy process\<close>

text \<open>\<open>main\<close> of \<open>http_proxy.py\<close>: the port of the HTTP server and the proxy with its two other ports.\<close>

definition proxy_main :: "string list \<Rightarrow> (int \<times> proxy) option" where
  "proxy_main argv =
     (case parse_args [''--parent_port''] [''--http_port'', ''--grpc_port''] argv of
        None \<Rightarrow> None
      | Some d \<Rightarrow>
          (case (int_arg d ''--parent_port'' 0, int_arg d ''--http_port'' 8000, int_arg d ''--grpc_port'' 50052) of
             (Some parent_port, Some http_port, Some grpc_port) \<Rightarrow> Some (http_port, px_init parent_port grpc_port)
           | _ \<Rightarrow> None))"

section \<open>The programs read what is written for them\<close>

lemma value_of_int [simp]: "option_value (int_text n)"
proof (cases "n < 0")
  case True
  have "dropWhile is_digit (nat_text (nat (- n))) = []" by (simp add: dropWhile_eq_Nil_conv nat_text_chars(1))
  with True show ?thesis by (simp add: option_value_def int_text_def)
next
  case False
  then have "hd (int_text n) \<in> set (nat_text (nat n))" by (simp add: int_text_def)
  then have "hd (int_text n) \<noteq> CHR ''-''" by (rule nat_text_chars(4))
  then show ?thesis by (simp add: option_value_def)
qed

lemma replica_reads_command:
  assumes "option_value port" and "option_value name" and "option_value parent_port"
    and "model_ids name = Some model_id"
  shows "replica_main model_ids load None pid (tl (replica_command k port name (int_text d) parent_port)) =
    Started \<lparr>rg_parent_port = parent_port, rg_metrics_port = 9000 + k, rg_replica_id = k,
      rg_port = port, rg_deployment_name = name, rg_deployment_id = d, rg_state = ''idle'', rg_num_cpus = 1,
      rg_num_gpus = 1, rg_active_requests = 0, rg_parent = host_port ''0.0.0.0'' parent_port, rg_pid = pid,
      rg_health_update_interval = 5, rg_model_id = model_id,
      rg_engine = (case load (server_engine_args model_id) of Inl e \<Rightarrow> None | Inr gen \<Rightarrow> Some gen)\<rparr>"
  using assms
  by (simp add: replica_main_def replica_command_def parse_args_def replica_flags_def arg_def with_int_def dict_eval
      manager_init_def server_init_model_def init_model_def)

lemma proxy_reads_command:
  "proxy_main (tl (proxy_command pm)) = Some (pm_http_port pm, px_init (pm_node_port pm) (pm_grpc_port pm))"
  by (simp add: proxy_main_def proxy_command_def parse_args_def int_arg_def dict_eval)

end
