(* ===== verification/CppMain.thy ===== *)
theory CppMain
  imports CppSessions CommandLines "HOL-Library.Word"
begin

text \<open>
  The process of the C++ proxy: \<open>main\<close> of \<open>src/components/headNode/http_proxy.cpp\<close>, its health service and its
  listener.  Ports are \<open>unsigned short\<close>.

  Boost's \<open>parse_command_line\<close> is not in the repository: it is the parameter \<open>parse\<close>, which for the options
  with their defaults and the arguments after the first gives whether \<open>--help\<close> is there and the values, or
  throws.  \<open>bind\<close> is what constructing the acceptor throws, if anything; \<open>listen\<close>, whether \<open>BuildAndStart\<close>
  gives a server (it gives a null pointer when the port is taken); \<open>cores\<close> is \<open>hardware_concurrency()\<close>.
\<close>

section \<open>The options\<close>

type_synonym port = "16 word"

definition cpp_options :: "(string, port) dict" where
  "cpp_options = [(''http_port'', 8000), (''parent_port'', 50051), (''grpc_port'', 50052)]"

definition port_text :: "port \<Rightarrow> string" where
  "port_text p = int_text (uint p)"

text \<open>
  What the documentation of \<open>parse_command_line\<close> promises: \<open>--name value\<close> pairs with names of options, each
  at most once, and decimal values set these options, the others keep their defaults.
\<close>

definition long_options :: "(string \<times> port) list \<Rightarrow> string list" where
  "long_options vs = concat (map (\<lambda>(name, p). [''--'' @ name, port_text p]) vs)"

definition po_documented :: "((string, port) dict \<Rightarrow> string list \<Rightarrow> (bool \<times> (string, port) dict) res) \<Rightarrow> bool" where
  "po_documented parse \<longleftrightarrow> (\<forall>options vs. distinct (map fst vs) \<and> set (map fst vs) \<subseteq> set (map fst options) \<longrightarrow>
     parse options (long_options vs) = Inr (False, fold (\<lambda>(name, p). dset name p) vs options))"

section \<open>The process\<close>

record cpp_process =
  cp_http_port :: port
  cp_health :: "string option"
  cp_threads :: nat
  cp_serving :: cpp_serving

text \<open>What \<open>main\<close> comes to: it returns, or the contexts run.\<close>

datatype cpp_outcome = Exits int | Runs cpp_process

definition http_proxy_main ::
  "((string, port) dict \<Rightarrow> string list \<Rightarrow> (bool \<times> (string, port) dict) res) \<Rightarrow> (port \<Rightarrow> exn option) \<Rightarrow>
   (string \<Rightarrow> bool) \<Rightarrow> nat \<Rightarrow> string list \<Rightarrow> cpp_outcome" where
  "http_proxy_main parse bind listen cores argv =
     (case parse cpp_options (tl argv) of
        Inl e \<Rightarrow> Exits 1
      | Inr (help, vm) \<Rightarrow>
          if help then Exits 1
          else
            (case (dget vm ''http_port'', dget vm ''parent_port'', dget vm ''grpc_port'') of
               (Some http_port, Some parent_port, Some grpc_port) \<Rightarrow>
                 (case bind http_port of
                    Some e \<Rightarrow> Exits 1
                  | None \<Rightarrow>
                      (let address = ''0.0.0.0:'' @ port_text grpc_port
                       in Runs \<lparr>cp_http_port = http_port,
                            cp_health = (if listen address then Some address else None), cp_threads = cores,
                            cp_serving = \<lparr>sv_proxy = cpp_proxy_init (uint parent_port), sv_sessions = [],
                              sv_closed = []\<rparr>\<rparr>))
             | _ \<Rightarrow> Exits 1))"

text \<open>
  A signal: \<open>server->Shutdown()\<close>, which without a server is undefined behaviour (\<open>None\<close>); then everything stops
  and \<open>main\<close> returns.
\<close>

definition cpp_shutdown :: "cpp_process \<Rightarrow> int option" where
  "cpp_shutdown cp = (case cp_health cp of None \<Rightarrow> None | Some address \<Rightarrow> Some 0)"

text \<open>\<open>HealthService::Ping\<close>\<close>

definition cpp_ping :: "cpp_process \<Rightarrow> bool \<times> grpc_status" where
  "cpp_ping cp = (True, StatusOk)"

text \<open>One turn of \<open>http_listener\<close>: a connection becomes the session \<open>j\<close>, an error is printed.\<close>

definition listener_turn :: "unit res \<Rightarrow> nat \<Rightarrow> cpp_serving \<Rightarrow> cpp_serving" where
  "listener_turn accepted j sv = (case accepted of Inl e \<Rightarrow> sv | Inr u \<Rightarrow> session_starts j sv)"

lemma listener_is_step:
  "dget (sv_sessions sv) j = None \<Longrightarrow> listener_turn accepted j sv = sv \<or> session_step sv (listener_turn accepted j sv)"
  by (cases accepted) (auto simp: listener_turn_def intro: session_step.accepts)

text \<open>The address at which a turn of \<open>subscribe_to_head_node\<close> looks for the head.\<close>

definition subscription_address :: "cpp_proxy \<Rightarrow> string" where
  "subscription_address xp = ''0.0.0.0:'' @ int_text (xp_parent_port xp)"

section \<open>The head starts it with its ports\<close>

definition is_port :: "int \<Rightarrow> bool" where
  "is_port n \<longleftrightarrow> 0 \<le> n \<and> n < 2 ^ 16"

lemma port_word: "is_port n \<Longrightarrow> uint (word_of_int n :: port) = n"
  by (simp add: is_port_def uint_word_of_int)

lemma command_options:
  assumes "is_port (pm_http_port pm)" and "is_port (pm_node_port pm)" and "is_port (pm_grpc_port pm)"
  shows "tl (proxy_command pm) = long_options [(''http_port'', word_of_int (pm_http_port pm)),
    (''parent_port'', word_of_int (pm_node_port pm)), (''grpc_port'', word_of_int (pm_grpc_port pm))]"
  using assms by (simp add: proxy_command_def long_options_def port_text_def port_word)

text \<open>
  C21. The C++ proxy gets the ports of the head.  Whatever ports the head's \<open>ProxyManager\<close> was made with, if
  they are ports at all, the program reads them from the command line that the manager runs.  If the HTTP
  port cannot be bound, it ends with status 1.  Else it listens for clients at this port with one thread
  per core, subscribes at the head's own port, and has no deployment and no session yet; it runs its
  health service at the port that the manager pings if this port can be opened, and if not it runs on
  without a health service.
\<close>

theorem cpp_proxy_gets_its_ports:
  assumes "po_documented parse" and "is_port (pm_http_port pm)" and "is_port (pm_node_port pm)"
    and "is_port (pm_grpc_port pm)"
  shows "http_proxy_main parse bind listen cores (proxy_command pm) =
      (case bind (word_of_int (pm_http_port pm)) of
         Some e \<Rightarrow> Exits 1
       | None \<Rightarrow> Runs \<lparr>cp_http_port = word_of_int (pm_http_port pm),
           cp_health = (let address = host_port ''0.0.0.0'' (int_text (pm_grpc_port pm))
             in if listen address then Some address else None),
           cp_threads = cores,
           cp_serving = \<lparr>sv_proxy = cpp_proxy_init (pm_node_port pm), sv_sessions = [], sv_closed = []\<rparr>\<rparr>) \<and>
    uint (word_of_int (pm_http_port pm) :: port) = pm_http_port pm \<and>
    subscription_address (cpp_proxy_init (pm_node_port pm)) = host_port ''0.0.0.0'' (int_text (pm_node_port pm))"
proof -
  let ?vs = "[(''http_port'', word_of_int (pm_http_port pm) :: port),
    (''parent_port'', word_of_int (pm_node_port pm)), (''grpc_port'', word_of_int (pm_grpc_port pm))]"
  have "distinct (map fst ?vs) \<and> set (map fst ?vs) \<subseteq> set (map fst cpp_options)" by (simp add: cpp_options_def)
  then have p: "parse cpp_options (tl (proxy_command pm)) = Inr (False, ?vs)"
    using assms(1) unfolding command_options [OF assms(2-4)] po_documented_def
    by (simp add: cpp_options_def dict_eval)
  show ?thesis
    using assms(2-4) port_word
    by (simp add: http_proxy_main_def p dict_eval Let_def subscription_address_def cpp_proxy_init_def port_text_def
        host_port_def split: option.splits)
qed

text \<open>A reader of such arguments that keeps the promise.\<close>

fun read_pairs :: "string list \<Rightarrow> (string, port) dict \<Rightarrow> (string, port) dict res" where
  "read_pairs [] d = Inr d"
| "read_pairs [flag] d = Inl (ValueError ''missing argument'')"
| "read_pairs (flag # v # rest) d =
     (case int_of_text v of
        Inl e \<Rightarrow> Inl e
      | Inr n \<Rightarrow> if drop 2 flag \<in> fst ` set d then read_pairs rest (dset (drop 2 flag) (word_of_int n) d)
          else Inl (ValueError ''unrecognised option''))"

definition pair_parser :: "(string, port) dict \<Rightarrow> string list \<Rightarrow> (bool \<times> (string, port) dict) res" where
  "pair_parser options args = (case read_pairs args options of Inl e \<Rightarrow> Inl e | Inr d \<Rightarrow> Inr (False, d))"

lemma read_long_options:
  "set (map fst vs) \<subseteq> dkeys d \<Longrightarrow> read_pairs (long_options vs) d = Inr (fold (\<lambda>(name, p). dset name p) vs d)"
proof (induction vs arbitrary: d)
  case (Cons x vs)
  obtain name p where x: "x = (name, p)" by (cases x)
  have "name \<in> fst ` set d" "set (map fst vs) \<subseteq> dkeys (dset name p d)"
    using Cons.prems x unfolding dkeys_dset by (auto simp: dkeys_def)
  with Cons.IH [of "dset name p d"] show ?case by (simp add: long_options_def x port_text_def)
qed (simp add: long_options_def)

lemma pair_parser_documented: "po_documented pair_parser"
  unfolding po_documented_def pair_parser_def by (auto simp: read_long_options dkeys_def)

theorem cpp_proxy_gets_its_ports_witness:
  "\<exists>cp. http_proxy_main pair_parser (\<lambda>p. None) (\<lambda>address. True) 8
      (proxy_command (pm_init (StartRaised KeyError) 50052 8000 50053)) = Runs cp \<and>
    cp_health cp = Some (host_port ''0.0.0.0'' (int_text 50053)) \<and> serving_start (cp_serving cp)"
proof -
  let ?pm = "pm_init (StartRaised KeyError) 50052 8000 50053"
  have pm: "pm_http_port ?pm = 8000" "pm_node_port ?pm = 50052" "pm_grpc_port ?pm = 50053"
    by (simp_all add: pm_init_def start_http_proxy_def)
  from cpp_proxy_gets_its_ports [OF pair_parser_documented, of ?pm "\<lambda>p. None" "\<lambda>address. True" 8]
  show ?thesis by (simp add: is_port_def pm Let_def serving_start_def) blast
qed

end
