(* ===== verification/WorkerLoops.thy ===== *)
theory WorkerLoops
  imports SchedulerProps "HOL-Library.Sublist"
begin

text \<open>
  The worker process as \<open>serve\<close> of \<open>src/components/scheduler.py\<close> runs it: the handlers and two tasks, the
  heartbeat loop over the replicas and the health updates to the head.  A task that raises is over, the
  server and the other task go on; nothing looks at the exception.

  The tasks are cut at their awaits, so the handlers come in between: a round of the heartbeat loop takes
  a snapshot of the registry and pings its replicas one by one; a round of the health updates makes a
  report, sends this report up to three times, and ends with what \<open>try_send_with_retries\<close> gives.  The sleeps
  are the steps of others.
\<close>

text \<open>The rest of the snapshot that is still to be pinged; the report and how often it was sent.\<close>

datatype beat_state = Beat_resting | Beat_pinging "(int \<times> replica_handle) list" | Beat_raised exn

datatype health_state = Health_resting | Health_sending health_update nat | Health_returned

text \<open>\<open>wk_pings\<close> (with whether it was answered), \<open>wk_restarts\<close> and \<open>wk_reports\<close> log what the tasks did.\<close>

record worker =
  wk_scheduler :: scheduler
  wk_heartbeat :: beat_state
  wk_health :: health_state
  wk_pings :: "(int \<times> bool) list"
  wk_restarts :: "(int \<times> string \<times> string \<times> string) list"
  wk_reports :: "health_update list"

text \<open>The two \<open>create_task\<close> calls.\<close>

definition start_tasks :: "scheduler \<Rightarrow> worker" where
  "start_tasks sc = \<lparr>wk_scheduler = sc, wk_heartbeat = Beat_resting, wk_health = Health_resting,
     wk_pings = [], wk_restarts = [], wk_reports = []\<rparr>"

text \<open>
  \<open>start_heartbeat_loop\<close>: the snapshot; one replica of it, whose ping came to \<open>answer\<close>; the end of the round.
  A restart is a task of its own; its arguments are evaluated here.  No code changes the status of a handle
  to \<open>DEAD\<close>, so the copies of the snapshot show what its objects show.
\<close>

definition beat_begins :: "worker \<Rightarrow> worker" where
  "beat_begins wk = wk\<lparr>wk_heartbeat := Beat_pinging (sc_registry (wk_scheduler wk))\<rparr>"

definition beat_pings :: "bool sent \<Rightarrow> int \<Rightarrow> replica_handle \<Rightarrow> (int \<times> replica_handle) list \<Rightarrow> worker \<Rightarrow> worker" where
  "beat_pings answer replica_id h rest wk =
     (if rh_status h = ''DEAD'' then wk\<lparr>wk_heartbeat := Beat_pinging rest\<rparr>
      else if answered answer then
        wk\<lparr>wk_pings := wk_pings wk @ [(replica_id, True)], wk_heartbeat := Beat_pinging rest\<rparr>
      else
        (let wk1 = wk\<lparr>wk_pings := wk_pings wk @ [(replica_id, False)]\<rparr>
         in case handle_deployment_name h of
              Inl e \<Rightarrow> wk1\<lparr>wk_heartbeat := Beat_raised e\<rparr>
            | Inr name \<Rightarrow> wk1\<lparr>wk_heartbeat := Beat_pinging rest,
                wk_restarts := wk_restarts wk @ [(replica_id, rh_port h, int_text (rh_deployment_id h), name)]\<rparr>))"

definition beat_rests :: "worker \<Rightarrow> worker" where
  "beat_rests wk = wk\<lparr>wk_heartbeat := Beat_resting\<rparr>"

text \<open>
  \<open>_send_health_updates\<close>: the report; one attempt of \<open>try_send_with_retries\<close>; the end of the round with its
  output.
\<close>

definition health_begins :: "worker \<Rightarrow> worker" where
  "health_begins wk = wk\<lparr>wk_health := Health_sending (health_report (wk_scheduler wk)) 0\<rparr>"

definition health_sends :: "health_update \<Rightarrow> nat \<Rightarrow> worker \<Rightarrow> worker" where
  "health_sends rep n wk = wk\<lparr>wk_reports := wk_reports wk @ [rep], wk_health := Health_sending rep (Suc n)\<rparr>"

definition health_ends :: "health_reply sent \<Rightarrow> worker \<Rightarrow> worker" where
  "health_ends answer wk =
     (case health_round_finish answer (wk_scheduler wk) of
        (on, sc) \<Rightarrow> wk\<lparr>wk_scheduler := sc, wk_health := (if on then Health_resting else Health_returned)\<rparr>)"

definition with_scheduler :: "scheduler \<Rightarrow> worker \<Rightarrow> worker" where
  "with_scheduler sc wk = wk\<lparr>wk_scheduler := sc\<rparr>"

text \<open>An attempt is answered, or the third one has failed as well.\<close>

fun send_over :: "nat \<Rightarrow> 'a sent \<Rightarrow> bool" where
  "send_over n (Got v) = (0 < n)"
| "send_over n (GotExn e) = (n = 3)"
| "send_over n GotNone = False"

inductive worker_step :: "worker \<Rightarrow> worker \<Rightarrow> bool" where
  worker_creates: "\<not> sc_stopped (wk_scheduler wk) \<Longrightarrow>
    worker_step wk (with_scheduler (snd (create_replica_rpc request failure (wk_scheduler wk))) wk)"
| worker_registers: "\<not> sc_stopped (wk_scheduler wk) \<Longrightarrow>
    worker_step wk (with_scheduler (snd (register_replica_rpc status (wk_scheduler wk))) wk)"
| worker_processes: "\<not> sc_stopped (wk_scheduler wk) \<Longrightarrow>
    worker_step wk (with_scheduler (replica_processing k (wk_scheduler wk)) wk)"
| worker_cancels: "\<not> sc_stopped (wk_scheduler wk) \<Longrightarrow>
    worker_step wk (with_scheduler (await_cancelled a (wk_scheduler wk)) wk)"
| worker_beats: "\<not> sc_stopped (wk_scheduler wk) \<Longrightarrow> wk_heartbeat wk = Beat_resting \<Longrightarrow> worker_step wk (beat_begins wk)"
| worker_pings: "\<not> sc_stopped (wk_scheduler wk) \<Longrightarrow> wk_heartbeat wk = Beat_pinging ((k, h) # rest) \<Longrightarrow>
    worker_step wk (beat_pings answer k h rest wk)"
| worker_rests: "\<not> sc_stopped (wk_scheduler wk) \<Longrightarrow> wk_heartbeat wk = Beat_pinging [] \<Longrightarrow> worker_step wk (beat_rests wk)"
| worker_reports: "\<not> sc_stopped (wk_scheduler wk) \<Longrightarrow> wk_health wk = Health_resting \<Longrightarrow> worker_step wk (health_begins wk)"
| worker_sends: "\<not> sc_stopped (wk_scheduler wk) \<Longrightarrow> wk_health wk = Health_sending rep n \<Longrightarrow> n < 3 \<Longrightarrow>
    worker_step wk (health_sends rep n wk)"
| worker_ends: "\<not> sc_stopped (wk_scheduler wk) \<Longrightarrow> wk_health wk = Health_sending rep n \<Longrightarrow> send_over n answer \<Longrightarrow>
    worker_step wk (health_ends answer wk)"

definition worker_start :: "worker \<Rightarrow> bool" where
  "worker_start wk \<longleftrightarrow> (\<exists>sc. sched_start sc \<and> wk = start_tasks sc)"

section \<open>A round of pings\<close>

text \<open>The pings of a snapshot, one after the other: what \<open>heartbeat_round\<close> computes.\<close>

fun beat_all :: "(int \<Rightarrow> bool sent) \<Rightarrow> (int \<times> replica_handle) list \<Rightarrow> worker \<Rightarrow> worker" where
  "beat_all ping [] wk = wk"
| "beat_all ping ((k, h) # rest) wk =
     (let wk1 = beat_pings (ping k) k h rest wk
      in if wk_heartbeat wk1 = Beat_pinging rest then beat_all ping rest wk1 else wk1)"

lemma beat_all_round:
  assumes "wk_heartbeat wk = Beat_pinging regs" and "heartbeat_round ping regs = (r, restarts, pinged)"
  shows "wk_heartbeat (beat_all ping regs wk) = (case r of Inl e \<Rightarrow> Beat_raised e | Inr u \<Rightarrow> Beat_pinging []) \<and>
    wk_restarts (beat_all ping regs wk) = wk_restarts wk @ restarts \<and>
    map fst (wk_pings (beat_all ping regs wk)) = map fst (wk_pings wk) @ pinged"
  using assms
proof (induction ping regs arbitrary: wk r restarts pinged rule: heartbeat_round.induct)
  case (2 ping k h rest)
  then show ?case
    by (auto simp: Let_def beat_pings_def handle_deployment_name_def split: if_splits prod.splits)
qed auto

section \<open>What the tasks come to\<close>

text \<open>What the steps of the tasks leave as it is.\<close>

lemma task_parts [simp]:
  "wk_scheduler (beat_begins wk) = wk_scheduler wk" "wk_scheduler (beat_pings ans k h rest wk) = wk_scheduler wk"
  "wk_scheduler (beat_rests wk) = wk_scheduler wk" "wk_scheduler (health_begins wk) = wk_scheduler wk"
  "wk_scheduler (health_sends rep n wk) = wk_scheduler wk"
  "wk_restarts (beat_begins wk) = wk_restarts wk" "wk_restarts (beat_pings ans k h rest wk) = wk_restarts wk"
  "wk_restarts (beat_rests wk) = wk_restarts wk" "wk_restarts (health_begins wk) = wk_restarts wk"
  "wk_restarts (health_sends rep n wk) = wk_restarts wk" "wk_restarts (health_ends out wk) = wk_restarts wk"
  "wk_restarts (with_scheduler sc wk) = wk_restarts wk"
  "wk_reports (beat_begins wk) = wk_reports wk" "wk_reports (beat_pings ans k h rest wk) = wk_reports wk"
  "wk_reports (beat_rests wk) = wk_reports wk" "wk_reports (health_begins wk) = wk_reports wk"
  "wk_reports (health_sends rep n wk) = wk_reports wk @ [rep]" "wk_reports (health_ends out wk) = wk_reports wk"
  "wk_reports (with_scheduler sc wk) = wk_reports wk"
  "wk_health (beat_begins wk) = wk_health wk" "wk_health (beat_pings ans k h rest wk) = wk_health wk"
  "wk_health (beat_rests wk) = wk_health wk" "wk_health (with_scheduler sc wk) = wk_health wk"
  "wk_heartbeat (health_begins wk) = wk_heartbeat wk" "wk_heartbeat (health_sends rep n wk) = wk_heartbeat wk"
  "wk_heartbeat (health_ends out wk) = wk_heartbeat wk" "wk_heartbeat (with_scheduler sc wk) = wk_heartbeat wk"
  "wk_pings (health_begins wk) = wk_pings wk" "wk_pings (health_sends rep n wk) = wk_pings wk"
  "wk_pings (health_ends out wk) = wk_pings wk" "wk_pings (with_scheduler sc wk) = wk_pings wk"
  "wk_pings (beat_begins wk) = wk_pings wk" "wk_pings (beat_rests wk) = wk_pings wk"
  by (simp_all add: beat_begins_def beat_pings_def beat_rests_def health_begins_def health_sends_def health_ends_def
      with_scheduler_def handle_deployment_name_def Let_def case_prod_unfold)

text \<open>The worker's scheduler is one of \<open>SchedulerProps\<close>.\<close>

lemma worker_sched_step:
  "worker_step wk wk' \<Longrightarrow> sched_step (wk_scheduler wk) (wk_scheduler wk') \<or> wk_scheduler wk' = wk_scheduler wk"
proof (induction rule: worker_step.induct)
  case (worker_ends wk rep n answer)
  have "wk_scheduler (health_ends answer wk) = snd (health_round_finish answer (wk_scheduler wk))"
    by (simp add: health_ends_def case_prod_unfold)
  then show ?case using sched_step.health by simp
qed (auto simp: with_scheduler_def task_parts intro: sched_step.intros)

text \<open>A ping without an answer is the last one: the task has raised.\<close>

definition worker_ok :: "worker \<Rightarrow> bool" where
  "worker_ok wk \<longleftrightarrow> sched_ok (wk_scheduler wk) \<and> wk_restarts wk = [] \<and>
     ((\<exists>k. (k, False) \<in> set (wk_pings wk)) \<longrightarrow> wk_heartbeat wk = Beat_raised (AttributeError ''deployment_name''))"

lemma unanswered_raises:
  assumes "worker_step wk wk'"
    and "(\<exists>k. (k, False) \<in> set (wk_pings wk)) \<longrightarrow> wk_heartbeat wk = Beat_raised (AttributeError ''deployment_name'')"
  shows "(\<exists>k. (k, False) \<in> set (wk_pings wk')) \<longrightarrow> wk_heartbeat wk' = Beat_raised (AttributeError ''deployment_name'')"
  using assms
proof cases
  case (worker_pings k h rest answer)
  with assms(2) show ?thesis by (auto simp: beat_pings_def handle_deployment_name_def Let_def)
qed (use assms(2) in auto)

interpretation worker_machine: safe_machine worker_start worker_step worker_ok
proof unfold_locales
  show "worker_ok wk" if "worker_start wk" for wk
    using that sched_machine.init_safe by (auto simp: worker_start_def worker_ok_def start_tasks_def)
  show "worker_ok wk'" if "worker_step wk wk'" "worker_ok wk" for wk wk'
  proof -
    have "sched_ok (wk_scheduler wk')"
      using worker_sched_step [OF that(1)] that(2) sched_machine.step_safe by (auto simp: worker_ok_def)
    moreover have "wk_restarts wk' = wk_restarts wk" using that(1) by cases simp_all
    ultimately show ?thesis using that(2) unanswered_raises [OF that(1)] by (simp add: worker_ok_def)
  qed
qed

text \<open>A registered replica keeps its place in the registry, its port and its deployment.\<close>

definition same_entry :: "replica_handle \<Rightarrow> scheduler \<Rightarrow> int \<Rightarrow> bool" where
  "same_entry h sc k \<longleftrightarrow> (\<exists>h'. dget (sc_registry sc) k = Some h' \<and> rh_port h' = rh_port h \<and>
     rh_deployment_id h' = rh_deployment_id h \<and> rh_status h' \<noteq> ''DEAD'')"

lemma entry_stays:
  assumes "sched_step sc sc'" and "sched_ok sc" and "same_entry h sc k"
  shows "same_entry h sc' k"
proof -
  have reg: "sc_registry (snd (create_replica_rpc request failure sc)) = sc_registry sc"
    "sc_registry (await_cancelled a sc) = sc_registry sc" for request failure a
    by (auto simp: create_replica_rpc_def start_replica_cpp_def await_cancelled_def Let_def
        split: option.splits sum.splits prod.splits)
  have fin: "sc_registry (snd (health_round_finish out sc)) = sc_registry sc" for out
    using cleanup_nothing [of sc] assms(2)
    by (auto simp: health_round_finish_def send_kill_signal_def sched_ok_def split: sent.splits)
  from assms(1) show ?thesis
  proof cases
    case (register status)
    with assms(3) show ?thesis
      by (auto simp: same_entry_def register_replica_rpc_def Let_def dkeys_iff)
  next
    case (processing k')
    with assms(3) show ?thesis
      by (auto simp: same_entry_def replica_processing_def split: option.splits)
  qed (use assms(3) reg fin in \<open>simp_all add: same_entry_def ping_rpc_def\<close>)
qed

text \<open>An entry of the registry is in every report.\<close>

definition listed :: "replica_handle \<Rightarrow> int \<Rightarrow> health_update \<Rightarrow> bool" where
  "listed h k rep \<longleftrightarrow> (\<exists>rs \<in> set (hu_replica_states rep). rst_replica_id rs = k \<and> rst_replica_port rs = rh_port h \<and>
     rst_deployment_id rs = rh_deployment_id h \<and> rst_status rs \<noteq> ''DEAD'')"

lemma entry_listed: "same_entry h sc k \<Longrightarrow> listed h k (health_report sc)"
  by (force simp: same_entry_def listed_def health_report_def dest: dget_mem)

text \<open>The attempts that the report being sent has left.\<close>

definition left_over :: "worker \<Rightarrow> health_update list" where
  "left_over wk = (case wk_health wk of Health_sending rep n \<Rightarrow> replicate (3 - n) rep | _ \<Rightarrow> [])"

text \<open>From a state with a registered replica on: first what was left over, then reports that list it.\<close>

definition goes_on_reporting :: "replica_handle \<Rightarrow> int \<Rightarrow> worker \<Rightarrow> worker \<Rightarrow> bool" where
  "goes_on_reporting h k wk wk' \<longleftrightarrow> worker_ok wk' \<and> same_entry h (wk_scheduler wk') k \<and>
     (\<exists>again reps. wk_reports wk' = wk_reports wk @ again @ reps \<and> prefix again (left_over wk) \<and>
        (\<forall>rep \<in> set reps. listed h k rep) \<and>
        (\<forall>rep n. wk_health wk' = Health_sending rep n \<longrightarrow>
           listed h k rep \<or> reps = [] \<and> left_over wk = again @ replicate (3 - n) rep)) \<and>
     (\<forall>e. wk_heartbeat wk = Beat_raised e \<longrightarrow> wk_heartbeat wk' = Beat_raised e \<and> wk_pings wk' = wk_pings wk)"

lemma reports_on:
  assumes st: "worker_step wk1 wk2" and entry: "same_entry h (wk_scheduler wk1) k"
    and reps: "wk_reports wk1 = wk_reports wk @ again @ reps" "prefix again (left_over wk)" "\<forall>rep \<in> set reps. listed h k rep"
    and sending: "\<And>rep n. wk_health wk1 = Health_sending rep n \<Longrightarrow>
      listed h k rep \<or> reps = [] \<and> left_over wk = again @ replicate (3 - n) rep"
  shows "\<exists>again reps. wk_reports wk2 = wk_reports wk @ again @ reps \<and> prefix again (left_over wk) \<and>
    (\<forall>rep \<in> set reps. listed h k rep) \<and>
    (\<forall>rep n. wk_health wk2 = Health_sending rep n \<longrightarrow>
       listed h k rep \<or> reps = [] \<and> left_over wk = again @ replicate (3 - n) rep)"
proof -
  have same: ?thesis if "wk_reports wk2 = wk_reports wk1" "wk_health wk2 = wk_health wk1"
    by (rule exI [of _ again], rule exI [of _ reps]) (use that reps sending in auto)
  from st show ?thesis
  proof cases
    case worker_reports
    show ?thesis
      by (rule exI [of _ again], rule exI [of _ reps])
        (use reps entry_listed [OF entry] in \<open>auto simp: worker_reports(1) health_begins_def\<close>)
  next
    case (worker_sends rep n)
    have w: "wk_reports wk2 = wk_reports wk @ again @ reps @ [rep]" "wk_health wk2 = Health_sending rep (Suc n)"
      using reps(1) by (simp_all add: worker_sends(1) health_sends_def)
    from sending [OF worker_sends(3)] show ?thesis
    proof (elim disjE conjE)
      assume "listed h k rep"
      with w reps show ?thesis by - (rule exI [of _ again], rule exI [of _ "reps @ [rep]"], auto)
    next
      assume none: "reps = []" and l: "left_over wk = again @ replicate (3 - n) rep"
      have "3 - n = Suc (3 - Suc n)" using worker_sends(4) by simp
      then have "left_over wk = (again @ [rep]) @ replicate (3 - Suc n) rep" using l by simp
      with w none show ?thesis by - (rule exI [of _ "again @ [rep]"], rule exI [of _ "[]"], auto)
    qed
  next
    case (worker_ends rep n answer)
    then show ?thesis
      by - (rule exI [of _ again], rule exI [of _ reps],
        use reps in \<open>auto simp: health_ends_def case_prod_unfold split: if_splits\<close>)
  qed (rule same; simp)+
qed

lemma reporting_step:
  assumes "worker_step wk1 wk2" and g: "goes_on_reporting h k wk wk1"
  shows "goes_on_reporting h k wk wk2"
proof -
  note g' = g [unfolded goes_on_reporting_def]
  have ok: "worker_ok wk2" using worker_machine.step_safe [OF assms(1)] g' by blast
  have entry: "same_entry h (wk_scheduler wk2) k"
    using worker_sched_step [OF assms(1)] entry_stays g' by (auto simp: worker_ok_def)
  have reps: "\<exists>again reps. wk_reports wk2 = wk_reports wk @ again @ reps \<and> prefix again (left_over wk) \<and>
    (\<forall>rep \<in> set reps. listed h k rep) \<and>
    (\<forall>rep n. wk_health wk2 = Health_sending rep n \<longrightarrow>
       listed h k rep \<or> reps = [] \<and> left_over wk = again @ replicate (3 - n) rep)"
    using g' reports_on [OF assms(1)] by blast
  have "wk_heartbeat wk2 = Beat_raised e \<and> wk_pings wk2 = wk_pings wk" if "wk_heartbeat wk = Beat_raised e" for e
    using assms(1) g' that by cases auto
  then show ?thesis using ok entry reps by (simp add: goes_on_reporting_def)
qed

interpretation reporting: safe_machine "\<lambda>s. s = wk \<and> goes_on_reporting h k wk wk" worker_step "goes_on_reporting h k wk"
  by unfold_locales (auto intro: reporting_step)

text \<open>
  C33. A silent replica is reported like any other.  From the moment a replica is registered with a worker,
  every report the worker sends lists it under its port and deployment with a status that is not dead,
  whether it answers or not, but for the attempts that the report being sent at that moment has left,
  which come first.  Nothing restarts a replica.  A ping without an answer ends the heartbeat task with
  \<open>AttributeError\<close>, and once the task has raised nobody is pinged any more.
\<close>

theorem silent_replica_reported_forever:
  assumes "reach worker_start worker_step wk" and "dget (sc_registry (wk_scheduler wk)) k = Some h"
    and "reach (\<lambda>s. s = wk) worker_step wk'"
  shows "(\<exists>again reps. wk_reports wk' = wk_reports wk @ again @ reps \<and>
      (case wk_health wk of Health_sending rep n \<Rightarrow> prefix again (replicate (3 - n) rep) | _ \<Rightarrow> again = []) \<and>
      (\<forall>rep \<in> set reps. \<exists>rs \<in> set (hu_replica_states rep). rst_replica_id rs = k \<and> rst_replica_port rs = rh_port h \<and>
        rst_deployment_id rs = rh_deployment_id h \<and> rst_status rs \<noteq> ''DEAD'')) \<and>
    wk_restarts wk' = [] \<and>
    ((\<exists>k'. (k', False) \<in> set (wk_pings wk')) \<longrightarrow> wk_heartbeat wk' = Beat_raised (AttributeError ''deployment_name'')) \<and>
    (\<forall>e. wk_heartbeat wk = Beat_raised e \<longrightarrow> wk_heartbeat wk' = Beat_raised e \<and> wk_pings wk' = wk_pings wk)"
proof -
  have ok: "worker_ok wk" by (rule worker_machine.reach_safe [OF assms(1)])
  then have "same_entry h (wk_scheduler wk) k"
    using assms(2) dget_mem by (fastforce simp: same_entry_def worker_ok_def sched_ok_def)
  with ok have "goes_on_reporting h k wk wk"
    by (auto simp: goes_on_reporting_def left_over_def)
  with assms(3) have "reach (\<lambda>s. s = wk \<and> goes_on_reporting h k wk wk) worker_step wk'"
    by (induction rule: reach.induct) (auto intro: reach.intros)
  from reporting.reach_safe [OF this] have g: "goes_on_reporting h k wk wk'" .
  then obtain again reps where a: "wk_reports wk' = wk_reports wk @ again @ reps" "prefix again (left_over wk)"
    "\<forall>rep \<in> set reps. listed h k rep"
    unfolding goes_on_reporting_def by blast
  from a(2) have "case wk_health wk of Health_sending rep n \<Rightarrow> prefix again (replicate (3 - n) rep) | _ \<Rightarrow> again = []"
    by (cases "wk_health wk") (simp_all add: left_over_def)
  with a(1,3) have "\<exists>again reps. wk_reports wk' = wk_reports wk @ again @ reps \<and>
      (case wk_health wk of Health_sending rep n \<Rightarrow> prefix again (replicate (3 - n) rep) | _ \<Rightarrow> again = []) \<and>
      (\<forall>rep \<in> set reps. \<exists>rs \<in> set (hu_replica_states rep). rst_replica_id rs = k \<and> rst_replica_port rs = rh_port h \<and>
        rst_deployment_id rs = rh_deployment_id h \<and> rst_status rs \<noteq> ''DEAD'')"
    unfolding listed_def by blast
  with g show ?thesis unfolding goes_on_reporting_def worker_ok_def by blast
qed

text \<open>One replica registers, does not answer the first round, and is reported twice in a round.\<close>

definition demo_worker :: worker where
  "demo_worker = beat_pings GotNone 1 (replica_init 4711 1 1 2 ''50101'') [] (beat_begins (start_tasks demo_registered))"

definition demo_reporting :: worker where
  "demo_reporting = health_sends (health_report demo_registered) 1 (health_sends (health_report demo_registered) 0
     (health_begins demo_worker))"

lemma demo_worker_facts:
  "sc_registry demo_registered = [(1, replica_init 4711 1 1 2 ''50101'')]" "\<not> sc_stopped demo_registered"
  "wk_scheduler demo_worker = demo_registered" "wk_heartbeat demo_worker = Beat_raised (AttributeError ''deployment_name'')"
  "wk_health demo_worker = Health_resting" "wk_pings demo_worker = [(1, False)]" "wk_reports demo_worker = []"
  "length (wk_reports demo_reporting) = 2"
proof -
  show r: "sc_registry demo_registered = [(1, replica_init 4711 1 1 2 ''50101'')]"
    by (simp add: demo_registered_def register_replica_rpc_def demo_waiting_facts demo_status_def Let_def dict_eval)
  show "\<not> sc_stopped demo_registered"
    by (simp add: demo_registered_def register_replica_rpc_def demo_waiting_facts demo_status_def Let_def)
      (simp add: demo_waiting_sched_def create_replica_rpc_def start_replica_cpp_def demo_sched_def sched_init_def Let_def
        create_future_def fm_init_def)
  show w: "wk_scheduler demo_worker = demo_registered" "wk_heartbeat demo_worker = Beat_raised (AttributeError ''deployment_name'')"
    "wk_health demo_worker = Health_resting" "wk_pings demo_worker = [(1, False)]" "wk_reports demo_worker = []"
    by (simp_all add: demo_worker_def start_tasks_def)
      (simp_all add: beat_pings_def beat_begins_def replica_init_def handle_deployment_name_def Let_def)
  show "length (wk_reports demo_reporting) = 2"
    using w by (simp add: demo_reporting_def)
qed

lemma demo_worker_reach:
  "reach worker_start worker_step demo_worker" "reach (\<lambda>s. s = demo_worker) worker_step demo_reporting"
proof -
  have stopped: "\<not> sc_stopped demo_sched" "\<not> sc_stopped demo_waiting_sched"
    by (simp_all add: demo_waiting_sched_def create_replica_rpc_def start_replica_cpp_def demo_sched_def sched_init_def
        Let_def create_future_def fm_init_def)
  have s: "wk_scheduler (start_tasks sc) = sc" "with_scheduler sc' (start_tasks sc) = start_tasks sc'"
    "wk_heartbeat (start_tasks sc) = Beat_resting" for sc sc'
    by (simp_all add: start_tasks_def with_scheduler_def)
  have "reach worker_start worker_step (start_tasks demo_sched)"
    by (rule reach_init) (unfold worker_start_def demo_sched_def sched_start_def, blast)
  then have "reach worker_start worker_step (start_tasks demo_waiting_sched)"
    by (rule reach_step) (use worker_creates [of "start_tasks demo_sched" demo_creation None] stopped s in
      \<open>simp add: demo_waiting_sched_def\<close>)
  then have "reach worker_start worker_step (start_tasks demo_registered)"
    by (rule reach_step) (use worker_registers [of "start_tasks demo_waiting_sched" demo_status] stopped s in
      \<open>simp add: demo_registered_def\<close>)
  then have "reach worker_start worker_step (beat_begins (start_tasks demo_registered))"
    by (rule reach_step) (rule worker_beats, simp_all add: s demo_worker_facts(2))
  then show "reach worker_start worker_step demo_worker"
    by (rule reach_step) (unfold demo_worker_def, rule worker_pings,
      simp_all add: s demo_worker_facts(2), simp add: beat_begins_def s demo_worker_facts(1))
  have "reach (\<lambda>s. s = demo_worker) worker_step demo_worker" by (rule reach_init) (rule refl)
  then have "reach (\<lambda>s. s = demo_worker) worker_step (health_begins demo_worker)"
    by (rule reach_step) (rule worker_reports, simp_all add: demo_worker_facts)
  then have "reach (\<lambda>s. s = demo_worker) worker_step (health_sends (health_report demo_registered) 0 (health_begins demo_worker))"
    by (rule reach_step) (rule worker_sends, simp_all add: demo_worker_facts health_begins_def)
  then show "reach (\<lambda>s. s = demo_worker) worker_step demo_reporting"
    by (rule reach_step) (unfold demo_reporting_def, rule worker_sends, simp_all add: demo_worker_facts, simp add: health_sends_def)
qed

theorem silent_replica_reported_forever_witness:
  "\<exists>rep rep'. wk_reports demo_reporting = [rep, rep'] \<and> 1 \<in> rst_replica_id ` set (hu_replica_states rep') \<and>
    wk_heartbeat demo_reporting = Beat_raised (AttributeError ''deployment_name'') \<and> wk_pings demo_reporting = [(1, False)]"
proof -
  have "dget (sc_registry (wk_scheduler demo_worker)) 1 = Some (replica_init 4711 1 1 2 ''50101'')"
    by (simp add: demo_worker_facts dict_eval)
  from silent_replica_reported_forever [OF demo_worker_reach(1) this demo_worker_reach(2)]
  obtain reps where r: "wk_reports demo_reporting = reps" "\<forall>rep \<in> set reps. 1 \<in> rst_replica_id ` set (hu_replica_states rep)"
    "wk_heartbeat demo_reporting = Beat_raised (AttributeError ''deployment_name'')" "wk_pings demo_reporting = [(1, False)]"
    using demo_worker_facts(4-7) by (force simp: image_iff)
  obtain rep rep' where "reps = [rep, rep']" using demo_worker_facts(8) r(1)
    by (auto simp: length_Suc_conv numeral_2_eq_2)
  with r show ?thesis by auto
qed

end
