(* ===== verification/Services.thy ===== *)
theory Services
  imports Messages
begin

text \<open>
  The generated service modules (\<open>src/generated/*_pb2_grpc.py\<close>): per service the class of the client
  stub, the base class of the servicer, the function that registers a servicer with a server, and the
  experimental interface.

  A stub is the dictionary of its attributes, each what \<open>channel.unary_unary\<close> or \<open>unary_stream\<close> was
  called with: the arity, the path, and the message classes whose serializer and deserializer it got.
  A servicer object is the list of the classes of its method resolution order, each a dictionary of
  methods, and a server the list of the generic handlers it was given.  The two sides of a service are
  written down separately, and that they fit together is what the lemmas show.
\<close>

section \<open>Messages and methods\<close>

datatype message_class =
    Empty_class | Ack_class
  | MetricsRequest_class | MetricsReply_class | HealthStatusUpdate_class | HealthStatusReply_class
  | RegisterRequest_class | RegisterReply_class | SubscriptionRequest_class | RoutingUpdate_class
  | ReplicaCreationRequest_class | ReplicaCreationReply_class | ReplicaStatus_class | Reply_class
  | ReplicaRequest_class | ReplicaReply_class

datatype message =
    Empty | Ack bool
  | MetricsRequest metrics_request | MetricsReply bool
  | HealthStatusUpdate health_update | HealthStatusReply health_reply
  | RegisterRequest register_request | RegisterReply bool
  | SubscriptionRequest string | RoutingUpdate routing_update
  | ReplicaCreationRequest creation_request | ReplicaCreationReply creation_reply
  | ReplicaStatus replica_status | Reply bool
  | ReplicaRequest string | ReplicaReply replica_reply

fun class_of :: "message \<Rightarrow> message_class" where
  "class_of Empty = Empty_class" | "class_of (Ack _) = Ack_class"
| "class_of (MetricsRequest _) = MetricsRequest_class" | "class_of (MetricsReply _) = MetricsReply_class"
| "class_of (HealthStatusUpdate _) = HealthStatusUpdate_class"
| "class_of (HealthStatusReply _) = HealthStatusReply_class"
| "class_of (RegisterRequest _) = RegisterRequest_class" | "class_of (RegisterReply _) = RegisterReply_class"
| "class_of (SubscriptionRequest _) = SubscriptionRequest_class"
| "class_of (RoutingUpdate _) = RoutingUpdate_class"
| "class_of (ReplicaCreationRequest _) = ReplicaCreationRequest_class"
| "class_of (ReplicaCreationReply _) = ReplicaCreationReply_class"
| "class_of (ReplicaStatus _) = ReplicaStatus_class" | "class_of (Reply _) = Reply_class"
| "class_of (ReplicaRequest _) = ReplicaRequest_class" | "class_of (ReplicaReply _) = ReplicaReply_class"

lemma class_of_iff:
  "class_of rq = Empty_class \<longleftrightarrow> rq = Empty"
  "class_of rq = Ack_class \<longleftrightarrow> (\<exists>v. rq = Ack v)"
  "class_of rq = MetricsRequest_class \<longleftrightarrow> (\<exists>v. rq = MetricsRequest v)"
  "class_of rq = MetricsReply_class \<longleftrightarrow> (\<exists>v. rq = MetricsReply v)"
  "class_of rq = HealthStatusUpdate_class \<longleftrightarrow> (\<exists>v. rq = HealthStatusUpdate v)"
  "class_of rq = HealthStatusReply_class \<longleftrightarrow> (\<exists>v. rq = HealthStatusReply v)"
  "class_of rq = RegisterRequest_class \<longleftrightarrow> (\<exists>v. rq = RegisterRequest v)"
  "class_of rq = RegisterReply_class \<longleftrightarrow> (\<exists>v. rq = RegisterReply v)"
  "class_of rq = SubscriptionRequest_class \<longleftrightarrow> (\<exists>v. rq = SubscriptionRequest v)"
  "class_of rq = RoutingUpdate_class \<longleftrightarrow> (\<exists>v. rq = RoutingUpdate v)"
  "class_of rq = ReplicaCreationRequest_class \<longleftrightarrow> (\<exists>v. rq = ReplicaCreationRequest v)"
  "class_of rq = ReplicaCreationReply_class \<longleftrightarrow> (\<exists>v. rq = ReplicaCreationReply v)"
  "class_of rq = ReplicaStatus_class \<longleftrightarrow> (\<exists>v. rq = ReplicaStatus v)"
  "class_of rq = Reply_class \<longleftrightarrow> (\<exists>v. rq = Reply v)"
  "class_of rq = ReplicaRequest_class \<longleftrightarrow> (\<exists>v. rq = ReplicaRequest v)"
  "class_of rq = ReplicaReply_class \<longleftrightarrow> (\<exists>v. rq = ReplicaReply v)"
  by (cases rq; simp)+

text \<open>
  What a method does with a request up to its first suspension that is not for the reader of its
  answer: it returns a message, yields messages, waits for a future, or raises, with the status code
  that it had set.
\<close>

datatype outcome = Returns message | Yields "message list" | Awaits nat | Raises "string option" exn

type_synonym 's rpc_method = "message \<Rightarrow> 's \<Rightarrow> outcome \<times> 's"
type_synonym 's pyclass = "(string, 's rpc_method) dict"
type_synonym 's servicer = "'s pyclass list"

datatype arity = Unary_Unary | Unary_Stream

record stub_method =
  sm_arity :: arity
  sm_path :: string
  sm_request :: message_class
  sm_reply :: message_class

definition stub_method :: "arity \<Rightarrow> string \<Rightarrow> message_class \<Rightarrow> message_class \<Rightarrow> stub_method" where
  "stub_method a path q r = \<lparr>sm_arity = a, sm_path = path, sm_request = q, sm_reply = r\<rparr>"

record 's method_handler =
  mh_arity :: arity
  mh_behaviour :: "'s rpc_method"
  mh_request :: message_class
  mh_reply :: message_class

text \<open>One entry of a \<open>rpc_method_handlers\<close> literal: the method, its arity, request and reply class.\<close>

type_synonym method_row = "string \<times> arity \<times> message_class \<times> message_class"
type_synonym 's server = "(string \<times> (string, 's method_handler) dict) list"

text \<open>The lookup of an attribute along the method resolution order.\<close>

fun getattr :: "'s servicer \<Rightarrow> string \<Rightarrow> 's rpc_method res" where
  "getattr [] name = Inl (AttributeError name)"
| "getattr (cls # mro) name = (case dget cls name of Some f \<Rightarrow> Inr f | None \<Rightarrow> getattr mro name)"

text \<open>The body of every method of a generated base class.\<close>

definition not_implemented :: "'s rpc_method" where
  "not_implemented request s =
     (Raises (Some ''UNIMPLEMENTED'') (GenericError ''Method not implemented!''), s)"

text \<open>The dictionary \<open>rpc_method_handlers\<close>, built row by row, and its registration under the service's name.\<close>

fun method_handlers ::
  "method_row list \<Rightarrow> 's servicer \<Rightarrow>
   (string, 's method_handler) dict res" where
  "method_handlers [] servicer = Inr []"
| "method_handlers ((name, a, q, r) # rows) servicer =
     (case getattr servicer name of
        Inl e \<Rightarrow> Inl e
      | Inr f \<Rightarrow>
          (case method_handlers rows servicer of
             Inl e \<Rightarrow> Inl e
           | Inr handlers \<Rightarrow>
               Inr ((name, \<lparr>mh_arity = a, mh_behaviour = f, mh_request = q, mh_reply = r\<rparr>) # handlers)))"

definition add_service ::
  "string \<Rightarrow> method_row list \<Rightarrow> 's servicer \<Rightarrow> 's server \<Rightarrow>
   's server res" where
  "add_service service rows servicer server =
     (case method_handlers rows servicer of
        Inl e \<Rightarrow> Inl e
      | Inr handlers \<Rightarrow> Inr (server @ [(service, handlers)]))"

text \<open>
  The experimental interface: one static method per call, which hands its arguments on to
  \<open>grpc.experimental\<close>, in the order of that function.
\<close>

record 'a call_options =
  co_options :: 'a
  co_channel_credentials :: 'a
  co_call_credentials :: 'a
  co_insecure :: 'a
  co_compression :: 'a
  co_wait_for_ready :: 'a
  co_timeout :: 'a
  co_metadata :: 'a

record 'a library_call =
  lc_method :: stub_method
  lc_request :: message
  lc_target :: string
  lc_arguments :: "'a list"

type_synonym 'a static_method = "message \<Rightarrow> string \<Rightarrow> 'a call_options \<Rightarrow> 'a library_call"

definition experimental :: "arity \<Rightarrow> string \<Rightarrow> message_class \<Rightarrow> message_class \<Rightarrow> 'a static_method" where
  "experimental a path q r request target opts =
     \<lparr>lc_method = stub_method a path q r, lc_request = request, lc_target = target,
      lc_arguments = [co_options opts, co_channel_credentials opts, co_insecure opts,
        co_call_credentials opts, co_compression opts, co_wait_for_ready opts, co_timeout opts,
        co_metadata opts]\<rparr>"

section \<open>\<open>WorkerManagementService\<close> (\<open>headnode_service_pb2_grpc.py\<close>)\<close>

definition WorkerManagementServiceStub :: "(string, stub_method) dict" where
  "WorkerManagementServiceStub =
     [(''SendHealthStatus'', stub_method Unary_Unary ''/protos.WorkerManagementService/SendHealthStatus''
        HealthStatusUpdate_class HealthStatusReply_class),
      (''RegisterNode'', stub_method Unary_Unary ''/protos.WorkerManagementService/RegisterNode''
        RegisterRequest_class RegisterReply_class),
      (''RecordMetrics'', stub_method Unary_Unary ''/protos.WorkerManagementService/RecordMetrics''
        MetricsRequest_class MetricsReply_class)]"

definition WorkerManagementServiceServicer :: "'s pyclass" where
  "WorkerManagementServiceServicer =
     [(''SendHealthStatus'', not_implemented), (''RegisterNode'', not_implemented), (''RecordMetrics'', not_implemented)]"

definition WorkerManagementService_methods :: "method_row list" where
  "WorkerManagementService_methods =
     [(''SendHealthStatus'', Unary_Unary, HealthStatusUpdate_class, HealthStatusReply_class),
      (''RegisterNode'', Unary_Unary, RegisterRequest_class, RegisterReply_class),
      (''RecordMetrics'', Unary_Unary, MetricsRequest_class, MetricsReply_class)]"

definition add_WorkerManagementServiceServicer_to_server ::
  "'s servicer \<Rightarrow> 's server \<Rightarrow> 's server res" where
  "add_WorkerManagementServiceServicer_to_server = add_service ''protos.WorkerManagementService'' WorkerManagementService_methods"

definition WorkerManagementServiceApi :: "(string, 'a static_method) dict" where
  "WorkerManagementServiceApi =
     [(''SendHealthStatus'', experimental Unary_Unary ''/protos.WorkerManagementService/SendHealthStatus''
        HealthStatusUpdate_class HealthStatusReply_class),
      (''RegisterNode'', experimental Unary_Unary ''/protos.WorkerManagementService/RegisterNode''
        RegisterRequest_class RegisterReply_class),
      (''RecordMetrics'', experimental Unary_Unary ''/protos.WorkerManagementService/RecordMetrics''
        MetricsRequest_class MetricsReply_class)]"

section \<open>\<open>ProxyManagementService\<close> (\<open>headnode_service_pb2_grpc.py\<close>)\<close>

definition ProxyManagementServiceStub :: "(string, stub_method) dict" where
  "ProxyManagementServiceStub =
     [(''SubscribeToRoutingUpdates'', stub_method Unary_Stream ''/protos.ProxyManagementService/SubscribeToRoutingUpdates''
        SubscriptionRequest_class RoutingUpdate_class)]"

definition ProxyManagementServiceServicer :: "'s pyclass" where
  "ProxyManagementServiceServicer =
     [(''SubscribeToRoutingUpdates'', not_implemented)]"

definition ProxyManagementService_methods :: "method_row list" where
  "ProxyManagementService_methods =
     [(''SubscribeToRoutingUpdates'', Unary_Stream, SubscriptionRequest_class, RoutingUpdate_class)]"

definition add_ProxyManagementServiceServicer_to_server ::
  "'s servicer \<Rightarrow> 's server \<Rightarrow> 's server res" where
  "add_ProxyManagementServiceServicer_to_server = add_service ''protos.ProxyManagementService'' ProxyManagementService_methods"

definition ProxyManagementServiceApi :: "(string, 'a static_method) dict" where
  "ProxyManagementServiceApi =
     [(''SubscribeToRoutingUpdates'', experimental Unary_Stream ''/protos.ProxyManagementService/SubscribeToRoutingUpdates''
        SubscriptionRequest_class RoutingUpdate_class)]"

section \<open>\<open>ReplicaService\<close> (\<open>worker_service_pb2_grpc.py\<close>)\<close>

definition ReplicaServiceStub :: "(string, stub_method) dict" where
  "ReplicaServiceStub =
     [(''RegisterReplica'', stub_method Unary_Unary ''/protos.ReplicaService/RegisterReplica''
        ReplicaStatus_class Reply_class)]"

definition ReplicaServiceServicer :: "'s pyclass" where
  "ReplicaServiceServicer =
     [(''RegisterReplica'', not_implemented)]"

definition ReplicaService_methods :: "method_row list" where
  "ReplicaService_methods =
     [(''RegisterReplica'', Unary_Unary, ReplicaStatus_class, Reply_class)]"

definition add_ReplicaServiceServicer_to_server ::
  "'s servicer \<Rightarrow> 's server \<Rightarrow> 's server res" where
  "add_ReplicaServiceServicer_to_server = add_service ''protos.ReplicaService'' ReplicaService_methods"

definition ReplicaServiceApi :: "(string, 'a static_method) dict" where
  "ReplicaServiceApi =
     [(''RegisterReplica'', experimental Unary_Unary ''/protos.ReplicaService/RegisterReplica''
        ReplicaStatus_class Reply_class)]"

section \<open>\<open>HeadNodeService\<close> (\<open>worker_service_pb2_grpc.py\<close>)\<close>

definition HeadNodeServiceStub :: "(string, stub_method) dict" where
  "HeadNodeServiceStub =
     [(''CreateReplica'', stub_method Unary_Unary ''/protos.HeadNodeService/CreateReplica''
        ReplicaCreationRequest_class ReplicaCreationReply_class),
      (''Ping'', stub_method Unary_Unary ''/protos.HeadNodeService/Ping''
        Empty_class Ack_class)]"

definition HeadNodeServiceServicer :: "'s pyclass" where
  "HeadNodeServiceServicer =
     [(''CreateReplica'', not_implemented), (''Ping'', not_implemented)]"

definition HeadNodeService_methods :: "method_row list" where
  "HeadNodeService_methods =
     [(''CreateReplica'', Unary_Unary, ReplicaCreationRequest_class, ReplicaCreationReply_class),
      (''Ping'', Unary_Unary, Empty_class, Ack_class)]"

definition add_HeadNodeServiceServicer_to_server ::
  "'s servicer \<Rightarrow> 's server \<Rightarrow> 's server res" where
  "add_HeadNodeServiceServicer_to_server = add_service ''protos.HeadNodeService'' HeadNodeService_methods"

definition HeadNodeServiceApi :: "(string, 'a static_method) dict" where
  "HeadNodeServiceApi =
     [(''CreateReplica'', experimental Unary_Unary ''/protos.HeadNodeService/CreateReplica''
        ReplicaCreationRequest_class ReplicaCreationReply_class),
      (''Ping'', experimental Unary_Unary ''/protos.HeadNodeService/Ping''
        Empty_class Ack_class)]"

section \<open>\<open>WorkerService\<close> (\<open>replica_service_pb2_grpc.py\<close>)\<close>

definition WorkerServiceStub :: "(string, stub_method) dict" where
  "WorkerServiceStub =
     [(''SendRequest'', stub_method Unary_Stream ''/protos.WorkerService/SendRequest''
        ReplicaRequest_class ReplicaReply_class),
      (''Ping'', stub_method Unary_Unary ''/protos.WorkerService/Ping''
        Empty_class Ack_class)]"

definition WorkerServiceServicer :: "'s pyclass" where
  "WorkerServiceServicer =
     [(''SendRequest'', not_implemented), (''Ping'', not_implemented)]"

definition WorkerService_methods :: "method_row list" where
  "WorkerService_methods =
     [(''SendRequest'', Unary_Stream, ReplicaRequest_class, ReplicaReply_class),
      (''Ping'', Unary_Unary, Empty_class, Ack_class)]"

definition add_WorkerServiceServicer_to_server ::
  "'s servicer \<Rightarrow> 's server \<Rightarrow> 's server res" where
  "add_WorkerServiceServicer_to_server = add_service ''protos.WorkerService'' WorkerService_methods"

definition WorkerServiceApi :: "(string, 'a static_method) dict" where
  "WorkerServiceApi =
     [(''SendRequest'', experimental Unary_Stream ''/protos.WorkerService/SendRequest''
        ReplicaRequest_class ReplicaReply_class),
      (''Ping'', experimental Unary_Unary ''/protos.WorkerService/Ping''
        Empty_class Ack_class)]"

section \<open>\<open>HealthService\<close> (\<open>proxy_service_pb2_grpc.py\<close>)\<close>

definition HealthServiceStub :: "(string, stub_method) dict" where
  "HealthServiceStub =
     [(''Ping'', stub_method Unary_Unary ''/protos.HealthService/Ping''
        Empty_class Ack_class)]"

definition HealthServiceServicer :: "'s pyclass" where
  "HealthServiceServicer =
     [(''Ping'', not_implemented)]"

definition HealthService_methods :: "method_row list" where
  "HealthService_methods =
     [(''Ping'', Unary_Unary, Empty_class, Ack_class)]"

definition add_HealthServiceServicer_to_server ::
  "'s servicer \<Rightarrow> 's server \<Rightarrow> 's server res" where
  "add_HealthServiceServicer_to_server = add_service ''protos.HealthService'' HealthService_methods"

definition HealthServiceApi :: "(string, 'a static_method) dict" where
  "HealthServiceApi =
     [(''Ping'', experimental Unary_Unary ''/protos.HealthService/Ping''
        Empty_class Ack_class)]"

section \<open>\<open>HeartbeatService\<close> (\<open>common_pb2_grpc.py\<close>)\<close>

definition HeartbeatServiceStub :: "(string, stub_method) dict" where
  "HeartbeatServiceStub =
     [(''Ping'', stub_method Unary_Unary ''/protos.HeartbeatService/Ping''
        Empty_class Ack_class)]"

definition HeartbeatServiceServicer :: "'s pyclass" where
  "HeartbeatServiceServicer =
     [(''Ping'', not_implemented)]"

definition HeartbeatService_methods :: "method_row list" where
  "HeartbeatService_methods =
     [(''Ping'', Unary_Unary, Empty_class, Ack_class)]"

definition add_HeartbeatServiceServicer_to_server ::
  "'s servicer \<Rightarrow> 's server \<Rightarrow> 's server res" where
  "add_HeartbeatServiceServicer_to_server = add_service ''protos.HeartbeatService'' HeartbeatService_methods"

definition HeartbeatServiceApi :: "(string, 'a static_method) dict" where
  "HeartbeatServiceApi =
     [(''Ping'', experimental Unary_Unary ''/protos.HeartbeatService/Ping''
        Empty_class Ack_class)]"

section \<open>Stub and server fit together\<close>

text \<open>
  The method a call of a stub reaches at a server: the first handler registered under the call's path,
  \<open>/\<close>service\<open>/\<close>method, if it has the arity of the call and takes and gives messages of the same classes.
\<close>

definition method_path :: "string \<Rightarrow> string \<Rightarrow> string" where
  "method_path service name = ''/'' @ service @ ''/'' @ name"

definition handlers_at :: "string \<Rightarrow> 's server \<Rightarrow> 's method_handler list" where
  "handlers_at path server = concat (map (\<lambda>(service, handlers).
     map snd (filter (\<lambda>(name, h). method_path service name = path) handlers)) server)"

definition served :: "stub_method \<Rightarrow> 's server \<Rightarrow> 's rpc_method option" where
  "served m server =
     (case handlers_at (sm_path m) server of
        [] \<Rightarrow> None
      | h # rest \<Rightarrow>
          if mh_arity h = sm_arity m \<and> mh_request h = sm_request m \<and> mh_reply h = sm_reply m
          then Some (mh_behaviour h) else None)"

definition plain_name :: "string \<Rightarrow> bool" where
  "plain_name s \<longleftrightarrow> CHR ''/'' \<notin> set s"

definition server_ok :: "'s server \<Rightarrow> bool" where
  "server_ok server \<longleftrightarrow> distinct (map fst server) \<and>
     (\<forall>(service, handlers) \<in> set server. plain_name service \<and> distinct (map fst handlers))"

lemma method_path_inj:
  assumes "plain_name s" and "plain_name s'"
  shows "method_path s n = method_path s' n' \<longleftrightarrow> s = s' \<and> n = n'"
proof
  assume "method_path s n = method_path s' n'"
  then have "s @ CHR ''/'' # n = s' @ CHR ''/'' # n'" by (simp add: method_path_def)
  with assms show "s = s' \<and> n = n'"
    by (simp add: plain_name_def append_eq_append_conv2) (auto simp: append_eq_Cons_conv Cons_eq_append_conv)
qed simp

text \<open>What registration puts into the server.\<close>

lemma method_handlers_names:
  "method_handlers rows servicer = Inr handlers \<Longrightarrow> map fst handlers = map fst rows"
  by (induction rows arbitrary: handlers) (auto split: sum.splits)

lemma method_handlers_row:
  assumes "method_handlers rows servicer = Inr handlers" and "(name, a, q, r) \<in> set rows"
  shows "\<exists>f. getattr servicer name = Inr f \<and>
    (name, \<lparr>mh_arity = a, mh_behaviour = f, mh_request = q, mh_reply = r\<rparr>) \<in> set handlers"
  using assms by (induction rows arbitrary: handlers) (auto split: sum.splits)

lemma method_handlers_missing:
  assumes "name \<in> fst ` set rows" and "getattr servicer name = Inl e"
  shows "\<exists>e'. method_handlers rows servicer = Inl e'"
  using assms by (induction rows) (force split: sum.splits)+

lemma in_handlers_at:
  "h \<in> set (handlers_at path server) \<longleftrightarrow> (\<exists>service handlers name. (service, handlers) \<in> set server \<and>
     (name, h) \<in> set handlers \<and> method_path service name = path)"
proof
  assume "h \<in> set (handlers_at path server)"
  then show "\<exists>service handlers name. (service, handlers) \<in> set server \<and> (name, h) \<in> set handlers \<and>
      method_path service name = path" unfolding handlers_at_def set_concat set_map by (clarsimp, blast)
next
  assume "\<exists>service handlers name. (service, handlers) \<in> set server \<and> (name, h) \<in> set handlers \<and>
    method_path service name = path"
  then obtain service handlers name where "(service, handlers) \<in> set server" "(name, h) \<in> set handlers"
    "method_path service name = path" by blast
  then show "h \<in> set (handlers_at path server)"
    by (auto simp: handlers_at_def intro!: bexI [of _ "(service, handlers)"] image_eqI [of _ snd "(name, h)"])
qed

lemma served_at:
  assumes ok: "server_ok server" and entry: "(service, handlers) \<in> set server" "(name, h) \<in> set handlers"
    and path: "sm_path m = method_path service name"
  shows "served m server = (if mh_arity h = sm_arity m \<and> mh_request h = sm_request m \<and> mh_reply h = sm_reply m
    then Some (mh_behaviour h) else None)"
proof -
  have "h' = h" if h': "(s, hs) \<in> set server" "(n, h') \<in> set hs" "method_path s n = sm_path m" for s hs n h'
  proof -
    have "plain_name s" "plain_name service" "distinct (map fst hs)"
      using ok h'(1) entry(1) unfolding server_ok_def by auto
    then have "s = service" "n = name" using method_path_inj h'(3) path by auto
    moreover from this have "hs = handlers"
      using ok h'(1) entry(1) eq_key_imp_eq_value unfolding server_ok_def by metis
    ultimately show "h' = h" using \<open>distinct (map fst hs)\<close> entry(2) h'(2) eq_key_imp_eq_value by metis
  qed
  then have sub: "set (handlers_at (sm_path m) server) \<subseteq> {h}" unfolding in_handlers_at subset_iff by blast
  have "h \<in> set (handlers_at (sm_path m) server)"
    unfolding in_handlers_at by (intro exI conjI) (rule entry, rule entry, rule path [symmetric])
  with sub show ?thesis unfolding served_def by (cases "handlers_at (sm_path m) server") auto
qed

text \<open>
  A service whose stub and whose handlers list the same methods, in the same order, under the paths of
  the service, with the same arities and message classes.
\<close>

locale grpc_service =
  fixes service :: string and stub :: "(string, stub_method) dict"
    and rows :: "method_row list"
  assumes stub_rows: "stub = map (\<lambda>(name, a, q, r). (name, stub_method a (method_path service name) q r)) rows"
    and names: "plain_name service" "distinct (map fst rows)"
begin

lemma registered_ok:
  assumes "server_ok server" and "service \<notin> fst ` set server" and "add_service service rows servicer server = Inr server'"
  shows "server_ok server'"
proof -
  obtain handlers where h: "method_handlers rows servicer = Inr handlers" "server' = server @ [(service, handlers)]"
    using assms(3) by (auto simp: add_service_def split: sum.splits)
  have "map fst handlers = map fst rows" by (rule method_handlers_names [OF h(1)])
  moreover from this have "fst ` set handlers = fst ` set rows" by (metis list.set_map)
  ultimately show ?thesis using assms(1,2) names h(2) by (force simp: server_ok_def)
qed

text \<open>A call of the stub reaches the method that the servicer object has under its name.\<close>

lemma call_served:
  assumes ok: "server_ok server" "service \<notin> fst ` set server" and add: "add_service service rows servicer server = Inr server'"
    and m: "dget stub name = Some m"
  shows "\<exists>f. getattr servicer name = Inr f \<and> served m server' = Some f"
proof -
  obtain handlers where h: "method_handlers rows servicer = Inr handlers" "server' = server @ [(service, handlers)]"
    using add by (auto simp: add_service_def split: sum.splits)
  have "(name, m) \<in> set stub" using m by (simp add: dget_def map_of_SomeD)
  then obtain a q r where row: "(name, a, q, r) \<in> set rows" "m = stub_method a (method_path service name) q r"
    by (auto simp: stub_rows)
  obtain f where f: "getattr servicer name = Inr f"
    "(name, \<lparr>mh_arity = a, mh_behaviour = f, mh_request = q, mh_reply = r\<rparr>) \<in> set handlers"
    using method_handlers_row [OF h(1) row(1)] by blast
  have "(service, handlers) \<in> set server'" by (simp add: h(2))
  from served_at [OF registered_ok [OF ok add] this f(2), of m] f(1) row(2)
  show ?thesis by (simp add: stub_method_def)
qed

text \<open>Registration fails for an object that lacks one of the methods.\<close>

lemma registration_needs_methods:
  assumes "dget stub name \<noteq> None" and "getattr servicer name = Inl e"
  shows "\<exists>e'. add_service service rows servicer server = Inl e'"
proof -
  have "name \<in> fst ` set stub" using assms(1) by (simp add: dget_def map_of_eq_None_iff)
  then have "name \<in> fst ` set rows" by (force simp: stub_rows)
  from method_handlers_missing [OF this assms(2)] show ?thesis by (auto simp: add_service_def)
qed

lemma registration_works:
  assumes "\<And>name e. getattr servicer name = Inl e \<Longrightarrow> dget stub name = None"
  shows "\<exists>server'. add_service service rows servicer server = Inr server'"
proof -
  have "\<exists>f. getattr servicer name = Inr f" if "name \<in> fst ` set rows" for name
  proof -
    have "map fst stub = map fst rows" by (simp add: stub_rows comp_def split_def)
    with that have "name \<in> fst ` set stub" by (metis list.set_map)
    then have "dget stub name \<noteq> None" by (simp add: dget_def map_of_eq_None_iff)
    with assms [of name] show ?thesis by (cases "getattr servicer name") auto
  qed
  then have "\<exists>handlers. method_handlers rows servicer = Inr handlers"
  proof (induction rows)
    case Nil
    show ?case by simp
  next
    case (Cons row rows)
    obtain name a q r where row: "row = (name, a, q, r)" by (cases row)
    with Cons.prems obtain f where "getattr servicer name = Inr f" by force
    moreover obtain handlers where "method_handlers rows servicer = Inr handlers" using Cons by force
    ultimately show ?case by (simp add: row)
  qed
  then show ?thesis by (auto simp: add_service_def)
qed

text \<open>Calls of other services are served as before.\<close>

lemma others_kept:
  assumes "server_ok server" "service \<notin> fst ` set server" and "add_service service rows servicer server = Inr server'"
    and "sm_path m = method_path other name" and "plain_name other" and "other \<noteq> service"
  shows "served m server' = served m server"
proof -
  obtain handlers where h: "server' = server @ [(service, handlers)]"
    using assms(3) by (auto simp: add_service_def split: sum.splits)
  have "method_path service n \<noteq> sm_path m" for n
    using method_path_inj [OF names(1) assms(5)] assms(4,6) by auto
  then have "handlers_at (sm_path m) server' = handlers_at (sm_path m) server"
    by (simp add: handlers_at_def h)
  then show ?thesis by (simp add: served_def)
qed

end

section \<open>The generated services\<close>

lemma plain_names [simp]: "plain_name ''protos.WorkerManagementService''"
  "plain_name ''protos.ProxyManagementService''"
  "plain_name ''protos.ReplicaService''"
  "plain_name ''protos.HeadNodeService''"
  "plain_name ''protos.WorkerService''"
  "plain_name ''protos.HealthService''"
  "plain_name ''protos.HeartbeatService''"
  by (simp_all add: plain_name_def)

interpretation worker_management: grpc_service "''protos.WorkerManagementService''" WorkerManagementServiceStub WorkerManagementService_methods
  by unfold_locales (simp_all add: WorkerManagementServiceStub_def WorkerManagementService_methods_def method_path_def)

interpretation proxy_management: grpc_service "''protos.ProxyManagementService''" ProxyManagementServiceStub ProxyManagementService_methods
  by unfold_locales (simp_all add: ProxyManagementServiceStub_def ProxyManagementService_methods_def method_path_def)

interpretation replica_service: grpc_service "''protos.ReplicaService''" ReplicaServiceStub ReplicaService_methods
  by unfold_locales (simp_all add: ReplicaServiceStub_def ReplicaService_methods_def method_path_def)

interpretation head_node: grpc_service "''protos.HeadNodeService''" HeadNodeServiceStub HeadNodeService_methods
  by unfold_locales (simp_all add: HeadNodeServiceStub_def HeadNodeService_methods_def method_path_def)

interpretation worker_service: grpc_service "''protos.WorkerService''" WorkerServiceStub WorkerService_methods
  by unfold_locales (simp_all add: WorkerServiceStub_def WorkerService_methods_def method_path_def)

interpretation health_service: grpc_service "''protos.HealthService''" HealthServiceStub HealthService_methods
  by unfold_locales (simp_all add: HealthServiceStub_def HealthService_methods_def method_path_def)

interpretation heartbeat: grpc_service "''protos.HeartbeatService''" HeartbeatServiceStub HeartbeatService_methods
  by unfold_locales (simp_all add: HeartbeatServiceStub_def HeartbeatService_methods_def method_path_def)

text \<open>All services of the program: name, stub, registration.\<close>

definition generated_services ::
  "(string \<times> (string, stub_method) dict \<times> ('s servicer \<Rightarrow> 's server \<Rightarrow> 's server res)) list" where
  "generated_services =
     [(''protos.WorkerManagementService'', WorkerManagementServiceStub, add_WorkerManagementServiceServicer_to_server),
      (''protos.ProxyManagementService'', ProxyManagementServiceStub, add_ProxyManagementServiceServicer_to_server),
      (''protos.ReplicaService'', ReplicaServiceStub, add_ReplicaServiceServicer_to_server),
      (''protos.HeadNodeService'', HeadNodeServiceStub, add_HeadNodeServiceServicer_to_server),
      (''protos.WorkerService'', WorkerServiceStub, add_WorkerServiceServicer_to_server),
      (''protos.HealthService'', HealthServiceStub, add_HealthServiceServicer_to_server),
      (''protos.HeartbeatService'', HeartbeatServiceStub, add_HeartbeatServiceServicer_to_server)]"

lemma generated_service:
  assumes "(service, stub, add) \<in> set generated_services"
  obtains rows where "grpc_service service stub rows" and "add = add_service service rows"
  using assms worker_management.grpc_service_axioms proxy_management.grpc_service_axioms
    replica_service.grpc_service_axioms head_node.grpc_service_axioms worker_service.grpc_service_axioms
    health_service.grpc_service_axioms heartbeat.grpc_service_axioms
  unfolding generated_services_def
    add_WorkerManagementServiceServicer_to_server_def
    add_ProxyManagementServiceServicer_to_server_def
    add_ReplicaServiceServicer_to_server_def
    add_HeadNodeServiceServicer_to_server_def
    add_WorkerServiceServicer_to_server_def
    add_HealthServiceServicer_to_server_def
    add_HeartbeatServiceServicer_to_server_def
  by auto

text \<open>
  The experimental interface makes the calls of the stub: same names, same paths, arities and message
  classes, and every option handed on.
\<close>

definition api_of :: "(string, stub_method) dict \<Rightarrow> (string, 'a static_method) dict" where
  "api_of stub = map (\<lambda>(name, m). (name, experimental (sm_arity m) (sm_path m) (sm_request m) (sm_reply m))) stub"

lemma api_makes_stub_calls:
  "WorkerManagementServiceApi = api_of WorkerManagementServiceStub"
  "ProxyManagementServiceApi = api_of ProxyManagementServiceStub"
  "ReplicaServiceApi = api_of ReplicaServiceStub"
  "HeadNodeServiceApi = api_of HeadNodeServiceStub"
  "WorkerServiceApi = api_of WorkerServiceStub"
  "HealthServiceApi = api_of HealthServiceStub"
  "HeartbeatServiceApi = api_of HeartbeatServiceStub"
  by (simp_all add: api_of_def stub_method_def WorkerManagementServiceApi_def WorkerManagementServiceStub_def
    ProxyManagementServiceApi_def ProxyManagementServiceStub_def
    ReplicaServiceApi_def ReplicaServiceStub_def
    HeadNodeServiceApi_def HeadNodeServiceStub_def
    WorkerServiceApi_def WorkerServiceStub_def
    HealthServiceApi_def HealthServiceStub_def
    HeartbeatServiceApi_def HeartbeatServiceStub_def)

end
