(* ===== verification/Servers.thy ===== *)
theory Servers
  imports Services CommandLines HeadController
begin

text \<open>
  The gRPC servers of the four kinds of process, as their start-up code builds them: the servicer
  classes of the program with the handlers of the other theories as their methods, registered with a
  server that listens on a port.  A method gets a message and works on the state of its process; a
  message of another class than the method's has no such fields, and reading one raises.
\<close>

section \<open>Methods\<close>

definition bad_request :: "'s rpc_method" where
  "bad_request request s = (Raises None (AttributeError ''field''), s)"

definition outcome_of :: "('a \<Rightarrow> message) \<Rightarrow> 'a res \<times> 's \<Rightarrow> outcome \<times> 's" where
  "outcome_of wrap result = (case result of (Inl e, s) \<Rightarrow> (Raises None e, s) | (Inr v, s) \<Rightarrow> (Returns (wrap v), s))"

definition reply_with :: "('a \<Rightarrow> message) \<Rightarrow> 'a \<times> 's \<Rightarrow> outcome \<times> 's" where
  "reply_with wrap result = (case result of (v, s) \<Rightarrow> (Returns (wrap v), s))"

text \<open>
  \<open>HeadController\<close>; \<open>now\<close> is the clock, \<open>i\<close> the name of the stream a subscription opens.  The outcome of
  \<open>SubscribeToRoutingUpdates\<close> is what it yields before its first suspension, one update; what it
  yields later is in \<open>RoutingPublisher\<close> (\<open>run_subscriber\<close>).
\<close>

definition HeadController_class :: "int \<Rightarrow> nat \<Rightarrow> head_state pyclass" where
  "HeadController_class now i =
     [(''SendHealthStatus'', \<lambda>m hc. case m of
         HealthStatusUpdate rq \<Rightarrow> outcome_of HealthStatusReply (head_send_health_status now rq hc)
       | _ \<Rightarrow> bad_request m hc),
      (''RecordMetrics'', \<lambda>m hc. case m of
         MetricsRequest rq \<Rightarrow> reply_with MetricsReply (record_metrics rq hc) | _ \<Rightarrow> bad_request m hc),
      (''RegisterNode'', \<lambda>m hc. case m of
         RegisterRequest rq \<Rightarrow> reply_with RegisterReply (register_node rq hc) | _ \<Rightarrow> bad_request m hc),
      (''SubscribeToRoutingUpdates'', \<lambda>m hc. case m of
         SubscriptionRequest proxy_id \<Rightarrow>
           (Yields [RoutingUpdate (get_current_routing_table now (hc_dm hc))], subscribe i now hc)
       | _ \<Rightarrow> bad_request m hc)]"

definition head_servicer :: "int \<Rightarrow> nat \<Rightarrow> head_state servicer" where
  "head_servicer now i = [HeadController_class now i, WorkerManagementServiceServicer, ProxyManagementServiceServicer]"

text \<open>\<open>HeadNodeManager\<close> of the scheduler; \<open>failure\<close> is what starting the process raises, if anything.\<close>

definition HeadNodeManager_class :: "exn option \<Rightarrow> scheduler pyclass" where
  "HeadNodeManager_class failure =
     [(''CreateReplica'', \<lambda>m sc. case m of
         ReplicaCreationRequest rq \<Rightarrow>
           (case create_replica_rpc rq failure sc of
              (Inl e, sc') \<Rightarrow> (Raises None e, sc')
            | (Inr (Inl error_reply), sc') \<Rightarrow> (Returns (ReplicaCreationReply error_reply), sc')
            | (Inr (Inr a), sc') \<Rightarrow> (Awaits a, sc'))
       | _ \<Rightarrow> bad_request m sc),
      (''Ping'', \<lambda>m sc. reply_with Ack (ping_rpc sc)),
      (''RegisterReplica'', \<lambda>m sc. case m of
         ReplicaStatus rq \<Rightarrow> reply_with Reply (register_replica_rpc rq sc) | _ \<Rightarrow> bad_request m sc)]"

definition scheduler_servicer :: "exn option \<Rightarrow> scheduler servicer" where
  "scheduler_servicer failure = [HeadNodeManager_class failure, HeadNodeServiceServicer, ReplicaServiceServicer]"

text \<open>\<open>MinimalHealthServicer\<close> of the proxy.\<close>

definition MinimalHealthServicer_class :: "proxy pyclass" where
  "MinimalHealthServicer_class = [(''Ping'', \<lambda>m px. reply_with Ack (proxy_ping px))]"

definition proxy_servicer :: "proxy servicer" where
  "proxy_servicer = [MinimalHealthServicer_class, HealthServiceServicer]"

text \<open>\<open>ReplicaManager\<close> of the Python replica; its state is the metrics.\<close>

definition ReplicaManager_class :: "engine \<Rightarrow> metrics pyclass" where
  "ReplicaManager_class engine =
     [(''SendRequest'', \<lambda>m me. case m of
         ReplicaRequest raw_prompt \<Rightarrow>
           (case vllm_send_request engine raw_prompt me of (replies, me') \<Rightarrow> (Yields (map ReplicaReply replies), me'))
       | _ \<Rightarrow> bad_request m me),
      (''Ping'', \<lambda>m me. (Returns (Ack True), me))]"

definition replica_servicer :: "engine \<Rightarrow> metrics servicer" where
  "replica_servicer engine = [ReplicaManager_class engine, WorkerServiceServicer]"

section \<open>The head process\<close>

text \<open>
  \<open>main\<close> of the head with the parts of \<open>HeadController.__init__\<close>: the state of the controller and the
  proxy manager, which starts its proxy; \<open>start\<close> is how that went.
\<close>

definition head_process ::
  "string res \<Rightarrow> (string \<Rightarrow> string res) \<Rightarrow> start_outcome \<Rightarrow> string list \<Rightarrow> (head_state \<times> proxy_manager) started" where
  "head_process token_answer ip_answer start argv =
     (case parse_args [''--http_port'', ''--node_port'', ''--grpc_port''] [] argv of
        None \<Rightarrow> Usage
      | Some d \<Rightarrow>
          (case (int_arg d ''--http_port'' 0, int_arg d ''--node_port'' 0, int_arg d ''--grpc_port'' 0) of
             (Some http_port, Some node_port, Some grpc_port) \<Rightarrow>
               (case head_main token_answer ip_answer node_port of
                  Inl e \<Rightarrow> Failed e
                | Inr hc \<Rightarrow> Started (hc, pm_init start node_port http_port grpc_port))
           | _ \<Rightarrow> Usage))"

section \<open>Servers\<close>

record 's grpc_server =
  gs_handlers :: "'s server"
  gs_addresses :: "string list"

definition grpc_server :: "'s server res \<Rightarrow> string \<Rightarrow> 's grpc_server res" where
  "grpc_server handlers address =
     (case handlers of Inl e \<Rightarrow> Inl e | Inr hs \<Rightarrow> Inr \<lparr>gs_handlers = hs, gs_addresses = [address]\<rparr>)"

definition head_server :: "int \<Rightarrow> nat \<Rightarrow> int \<Rightarrow> head_state grpc_server res" where
  "head_server now i node_port = grpc_server
     (case add_WorkerManagementServiceServicer_to_server (head_servicer now i) [] of
        Inl e \<Rightarrow> Inl e
      | Inr server \<Rightarrow> add_ProxyManagementServiceServicer_to_server (head_servicer now i) server)
     (host_port ''0.0.0.0'' (int_text node_port))"

definition scheduler_server :: "exn option \<Rightarrow> int \<Rightarrow> scheduler grpc_server res" where
  "scheduler_server failure node_port = grpc_server
     (case add_HeadNodeServiceServicer_to_server (scheduler_servicer failure) [] of
        Inl e \<Rightarrow> Inl e
      | Inr server \<Rightarrow> add_ReplicaServiceServicer_to_server (scheduler_servicer failure) server)
     (host_port ''0.0.0.0'' (int_text node_port))"

definition proxy_server :: "int \<Rightarrow> proxy grpc_server res" where
  "proxy_server grpc_port = grpc_server (add_HealthServiceServicer_to_server proxy_servicer [])
     (host_port ''[::]'' (int_text grpc_port))"

definition replica_server :: "replica_manager \<Rightarrow> metrics grpc_server res" where
  "replica_server mgr = grpc_server (add_WorkerServiceServicer_to_server (replica_servicer (rg_engine mgr)) [])
     (host_port ''0.0.0.0'' (rg_port mgr))"

text \<open>A call of a stub's method at a server; \<open>None\<close> is a method the stub does not have.\<close>

definition call_at :: "(string, stub_method) dict \<Rightarrow> string \<Rightarrow> 's grpc_server res \<Rightarrow> 's rpc_method option" where
  "call_at stub name server =
     (case (dget stub name, server) of
        (Some m, Inr gs) \<Rightarrow> served m (gs_handlers gs)
      | _ \<Rightarrow> None)"

lemmas server_eval = call_at_def served_def handlers_at_def grpc_server_def add_service_def dict_eval
  stub_method_def method_path_def host_port_def

section \<open>Calls and their handlers\<close>

text \<open>The generated registration functions accept the four servicers.\<close>

lemma servicers_complete:
  "getattr (head_servicer now i) name = Inl e \<Longrightarrow>
     dget WorkerManagementServiceStub name = None \<and> dget ProxyManagementServiceStub name = None"
  "getattr (scheduler_servicer failure) name = Inl e \<Longrightarrow>
     dget HeadNodeServiceStub name = None \<and> dget ReplicaServiceStub name = None"
  "getattr proxy_servicer name = Inl e \<Longrightarrow> dget HealthServiceStub name = None"
  "getattr (replica_servicer engine) name = Inl e \<Longrightarrow> dget WorkerServiceStub name = None"
  by (auto simp: head_servicer_def scheduler_servicer_def proxy_servicer_def replica_servicer_def
      HeadController_class_def HeadNodeManager_class_def MinimalHealthServicer_class_def ReplicaManager_class_def
      WorkerManagementServiceServicer_def ProxyManagementServiceServicer_def HeadNodeServiceServicer_def
      ReplicaServiceServicer_def HealthServiceServicer_def WorkerServiceServicer_def
      WorkerManagementServiceStub_def ProxyManagementServiceStub_def HeadNodeServiceStub_def ReplicaServiceStub_def
      HealthServiceStub_def WorkerServiceStub_def dget_Cons split: if_splits option.splits)

text \<open>One service, or two services, of one object, on a fresh server.\<close>

definition all_served :: "(string, stub_method) dict \<Rightarrow> 's servicer \<Rightarrow> 's server \<Rightarrow> bool" where
  "all_served stub servicer server \<longleftrightarrow>
     (\<forall>name m. dget stub name = Some m \<longrightarrow> (\<exists>f. getattr servicer name = Inr f \<and> served m server = Some f))"

lemma one_service:
  assumes g: "grpc_service service stub rows" and complete: "\<And>name e. getattr servicer name = Inl e \<Longrightarrow> dget stub name = None"
  shows "\<exists>server. add_service service rows servicer [] = Inr server \<and> all_served stub servicer server \<and>
    server_ok server \<and> fst ` set server = {service}"
proof -
  obtain server where r: "add_service service rows servicer [] = Inr server"
    using grpc_service.registration_works [OF g, of servicer "[]"] complete by blast
  have "server_ok []" by (simp add: server_ok_def)
  moreover have "service \<notin> fst ` set []" by simp
  moreover have "fst ` set server = {service}" using r by (auto simp: add_service_def split: sum.splits)
  ultimately show ?thesis
    using r grpc_service.call_served [OF g _ _ r] grpc_service.registered_ok [OF g _ _ r] unfolding all_served_def by blast
qed

lemma two_services:
  assumes g: "grpc_service service stub rows" "grpc_service service' stub' rows'" and ne: "service \<noteq> service'"
    and complete: "\<And>name e. getattr servicer name = Inl e \<Longrightarrow> dget stub name = None \<and> dget stub' name = None"
  shows "\<exists>server server'. add_service service rows servicer [] = Inr server \<and>
    add_service service' rows' servicer server = Inr server' \<and> all_served stub servicer server' \<and>
    all_served stub' servicer server'"
proof -
  obtain server where r: "add_service service rows servicer [] = Inr server" "all_served stub servicer server"
    "server_ok server" "fst ` set server = {service}"
    using one_service [OF g(1), of servicer] complete by blast
  obtain server' where r': "add_service service' rows' servicer server = Inr server'"
    using grpc_service.registration_works [OF g(2), of servicer server] complete by blast
  have fresh: "service' \<notin> fst ` set server" using r(4) ne by simp
  have "all_served stub' servicer server'"
    using grpc_service.call_served [OF g(2) r(3) fresh r'] unfolding all_served_def by blast
  moreover have "served m server' = served m server" if "dget stub name = Some m" for name m
  proof -
    have "(name, m) \<in> set stub" using that by (simp add: dget_def map_of_SomeD)
    then have "\<exists>a q r. m = stub_method a (method_path service name) q r"
      using grpc_service.stub_rows [OF g(1)] by auto
    then have "sm_path m = method_path service name" by (auto simp: stub_method_def)
    from grpc_service.others_kept [OF g(2) r(3) fresh r' this grpc_service.names(1) [OF g(1)] ne] show ?thesis .
  qed
  ultimately show ?thesis using r(1,2) r' unfolding all_served_def by metis
qed

lemma call_at_served:
  assumes "all_served stub servicer (gs_handlers gs)" and "dget stub name = Some m" and "getattr servicer name = Inr f"
  shows "call_at stub name (Inr gs) = Some f"
  using assms unfolding all_served_def call_at_def by force

lemma head_server_up:
  "\<exists>gs. head_server now i node_port = Inr gs \<and> gs_addresses gs = [host_port ''0.0.0.0'' (int_text node_port)] \<and>
     all_served WorkerManagementServiceStub (head_servicer now i) (gs_handlers gs) \<and>
     all_served ProxyManagementServiceStub (head_servicer now i) (gs_handlers gs)"
  using two_services [OF worker_management.grpc_service_axioms proxy_management.grpc_service_axioms, of "head_servicer now i"]
    servicers_complete(1)
  by (auto simp: head_server_def grpc_server_def add_WorkerManagementServiceServicer_to_server_def
      add_ProxyManagementServiceServicer_to_server_def)

lemma scheduler_server_up:
  "\<exists>gs. scheduler_server failure node_port = Inr gs \<and> gs_addresses gs = [host_port ''0.0.0.0'' (int_text node_port)] \<and>
     all_served HeadNodeServiceStub (scheduler_servicer failure) (gs_handlers gs) \<and>
     all_served ReplicaServiceStub (scheduler_servicer failure) (gs_handlers gs)"
  using two_services [OF head_node.grpc_service_axioms replica_service.grpc_service_axioms, of "scheduler_servicer failure"]
    servicers_complete(2)
  by (auto simp: scheduler_server_def grpc_server_def add_HeadNodeServiceServicer_to_server_def
      add_ReplicaServiceServicer_to_server_def)

lemma proxy_server_up:
  "\<exists>gs. proxy_server grpc_port = Inr gs \<and> gs_addresses gs = [host_port ''[::]'' (int_text grpc_port)] \<and>
     all_served HealthServiceStub proxy_servicer (gs_handlers gs)"
  using one_service [OF health_service.grpc_service_axioms, of proxy_servicer] servicers_complete(3)
  by (auto simp: proxy_server_def grpc_server_def add_HealthServiceServicer_to_server_def)

lemma replica_server_up:
  "\<exists>gs. replica_server mgr = Inr gs \<and> gs_addresses gs = [host_port ''0.0.0.0'' (rg_port mgr)] \<and>
     all_served WorkerServiceStub (replica_servicer (rg_engine mgr)) (gs_handlers gs)"
  using one_service [OF worker_service.grpc_service_axioms, of "replica_servicer (rg_engine mgr)"] servicers_complete(4)
  by (auto simp: replica_server_def grpc_server_def add_WorkerServiceServicer_to_server_def)

text \<open>So a call of a stub is one of the servicer object's methods.\<close>

lemma served_calls:
  "dget WorkerManagementServiceStub name = Some m \<Longrightarrow> getattr (head_servicer now i) name = Inr f \<Longrightarrow>
     call_at WorkerManagementServiceStub name (head_server now i node_port) = Some f"
  "dget ProxyManagementServiceStub name = Some m \<Longrightarrow> getattr (head_servicer now i) name = Inr f \<Longrightarrow>
     call_at ProxyManagementServiceStub name (head_server now i node_port) = Some f"
  "dget HeadNodeServiceStub name = Some m \<Longrightarrow> getattr (scheduler_servicer failure) name = Inr g \<Longrightarrow>
     call_at HeadNodeServiceStub name (scheduler_server failure node_port) = Some g"
  "dget ReplicaServiceStub name = Some m \<Longrightarrow> getattr (scheduler_servicer failure) name = Inr g \<Longrightarrow>
     call_at ReplicaServiceStub name (scheduler_server failure node_port) = Some g"
  "dget HealthServiceStub name = Some m \<Longrightarrow> getattr proxy_servicer name = Inr h \<Longrightarrow>
     call_at HealthServiceStub name (proxy_server grpc_port) = Some h"
  "dget WorkerServiceStub name = Some m \<Longrightarrow> getattr (replica_servicer (rg_engine mgr)) name = Inr k \<Longrightarrow>
     call_at WorkerServiceStub name (replica_server mgr) = Some k"
  using head_server_up [of now i node_port] scheduler_server_up [of failure node_port] proxy_server_up [of grpc_port]
    replica_server_up [of mgr] call_at_served by force+

text \<open>The attributes of the servicer objects and of the stubs, by name.\<close>

lemmas servicer_eval = head_servicer_def scheduler_servicer_def proxy_servicer_def replica_servicer_def
  HeadController_class_def HeadNodeManager_class_def MinimalHealthServicer_class_def ReplicaManager_class_def
  dget_Cons

lemma dget_stubs:
  "dget WorkerManagementServiceStub name =
    (if name = ''SendHealthStatus'' then Some (stub_method Unary_Unary ''/protos.WorkerManagementService/SendHealthStatus''
      HealthStatusUpdate_class HealthStatusReply_class) else (if name = ''RegisterNode'' then Some (stub_method Unary_Unary ''/protos.WorkerManagementService/RegisterNode''
      RegisterRequest_class RegisterReply_class) else (if name = ''RecordMetrics'' then Some (stub_method Unary_Unary ''/protos.WorkerManagementService/RecordMetrics''
      MetricsRequest_class MetricsReply_class) else None)))"
  "dget ProxyManagementServiceStub name =
    (if name = ''SubscribeToRoutingUpdates'' then Some (stub_method Unary_Stream ''/protos.ProxyManagementService/SubscribeToRoutingUpdates''
      SubscriptionRequest_class RoutingUpdate_class) else None)"
  "dget ReplicaServiceStub name =
    (if name = ''RegisterReplica'' then Some (stub_method Unary_Unary ''/protos.ReplicaService/RegisterReplica''
      ReplicaStatus_class Reply_class) else None)"
  "dget HeadNodeServiceStub name =
    (if name = ''CreateReplica'' then Some (stub_method Unary_Unary ''/protos.HeadNodeService/CreateReplica''
      ReplicaCreationRequest_class ReplicaCreationReply_class) else (if name = ''Ping'' then Some (stub_method Unary_Unary ''/protos.HeadNodeService/Ping''
      Empty_class Ack_class) else None))"
  "dget WorkerServiceStub name =
    (if name = ''SendRequest'' then Some (stub_method Unary_Stream ''/protos.WorkerService/SendRequest''
      ReplicaRequest_class ReplicaReply_class) else (if name = ''Ping'' then Some (stub_method Unary_Unary ''/protos.WorkerService/Ping''
      Empty_class Ack_class) else None))"
  "dget HealthServiceStub name =
    (if name = ''Ping'' then Some (stub_method Unary_Unary ''/protos.HealthService/Ping''
      Empty_class Ack_class) else None)"
  by (simp_all add: dget_Cons WorkerManagementServiceStub_def
    ProxyManagementServiceStub_def
    ReplicaServiceStub_def
    HeadNodeServiceStub_def
    WorkerServiceStub_def
    HealthServiceStub_def)

section \<open>Properties\<close>

text \<open>
  Which handler a call reaches, with the Python servers set up as the start-up code does.  Nine calls
  are covered: \<open>RegisterNode\<close>, \<open>SendHealthStatus\<close> and \<open>SubscribeToRoutingUpdates\<close> at the head (of the
  last one the answer up to its first update), \<open>CreateReplica\<close>, \<open>Ping\<close> and \<open>RegisterReplica\<close> at a
  scheduler, \<open>Ping\<close> at the Python proxy, \<open>SendRequest\<close> and \<open>Ping\<close> at a Python replica.  Each is
  served by the operation of that component.  The C++ proxy and replica have servers of their own
  (\<open>CppMain\<close>, \<open>CppReplica\<close>); the calls that have no handler are in \<open>HeadStore\<close> and \<open>ReplicaHandle\<close>.
\<close>

lemma calls_reach_their_handlers:
  "map_option (\<lambda>f. f (RegisterRequest rq) hc) (call_at WorkerManagementServiceStub ''RegisterNode''
      (head_server now i node_port)) = Some (reply_with RegisterReply (register_node rq hc)) \<and>
   map_option (\<lambda>f. f (HealthStatusUpdate hu) hc) (call_at WorkerManagementServiceStub ''SendHealthStatus''
      (head_server now i node_port)) = Some (outcome_of HealthStatusReply (head_send_health_status now hu hc)) \<and>
   map_option (\<lambda>f. f (SubscriptionRequest proxy_id) hc) (call_at ProxyManagementServiceStub
      ''SubscribeToRoutingUpdates'' (head_server now i node_port)) =
     Some (Yields [RoutingUpdate (get_current_routing_table now (hc_dm hc))], subscribe i now hc) \<and>
   map_option (\<lambda>f. f (ReplicaCreationRequest cq) sc) (call_at HeadNodeServiceStub ''CreateReplica''
      (scheduler_server failure port)) = Some (case create_replica_rpc cq failure sc of
        (Inl e, sc') \<Rightarrow> (Raises None e, sc')
      | (Inr (Inl error_reply), sc') \<Rightarrow> (Returns (ReplicaCreationReply error_reply), sc')
      | (Inr (Inr a), sc') \<Rightarrow> (Awaits a, sc')) \<and>
   map_option (\<lambda>f. f Empty sc) (call_at HeadNodeServiceStub ''Ping'' (scheduler_server failure port)) =
     Some (Returns (Ack True), sc) \<and>
   map_option (\<lambda>f. f (ReplicaStatus status) sc) (call_at ReplicaServiceStub ''RegisterReplica''
      (scheduler_server failure port)) = Some (reply_with Reply (register_replica_rpc status sc)) \<and>
   map_option (\<lambda>f. f Empty px) (call_at HealthServiceStub ''Ping'' (proxy_server grpc_port)) =
     Some (Returns (Ack True), px) \<and>
   map_option (\<lambda>f. f (ReplicaRequest prompt) me) (call_at WorkerServiceStub ''SendRequest'' (replica_server mgr)) =
     Some (case vllm_send_request (rg_engine mgr) prompt me of (replies, me') \<Rightarrow> (Yields (map ReplicaReply replies), me')) \<and>
   map_option (\<lambda>f. f Empty me) (call_at WorkerServiceStub ''Ping'' (replica_server mgr)) = Some (Returns (Ack True), me)"
proof -
  have head: "call_at WorkerManagementServiceStub ''RegisterNode'' (head_server now i node_port) =
      dget (HeadController_class now i) ''RegisterNode''"
    "call_at WorkerManagementServiceStub ''SendHealthStatus'' (head_server now i node_port) =
      dget (HeadController_class now i) ''SendHealthStatus''"
    "call_at ProxyManagementServiceStub ''SubscribeToRoutingUpdates'' (head_server now i node_port) =
      dget (HeadController_class now i) ''SubscribeToRoutingUpdates''"
    by (simp_all add: served_calls dget_stubs servicer_eval)
  have scheduler: "call_at HeadNodeServiceStub ''CreateReplica'' (scheduler_server failure port) =
      dget (HeadNodeManager_class failure) ''CreateReplica''"
    "call_at HeadNodeServiceStub ''Ping'' (scheduler_server failure port) = dget (HeadNodeManager_class failure) ''Ping''"
    "call_at ReplicaServiceStub ''RegisterReplica'' (scheduler_server failure port) =
      dget (HeadNodeManager_class failure) ''RegisterReplica''"
    by (simp_all add: served_calls dget_stubs servicer_eval)
  have others: "call_at HealthServiceStub ''Ping'' (proxy_server grpc_port) = dget MinimalHealthServicer_class ''Ping''"
    "call_at WorkerServiceStub ''SendRequest'' (replica_server mgr) = dget (ReplicaManager_class (rg_engine mgr)) ''SendRequest''"
    "call_at WorkerServiceStub ''Ping'' (replica_server mgr) = dget (ReplicaManager_class (rg_engine mgr)) ''Ping''"
    by (simp_all add: served_calls dget_stubs servicer_eval)
  show ?thesis
    by (intro conjI) (simp_all add: head scheduler others servicer_eval reply_with_def ping_rpc_def proxy_ping_def)
qed

text \<open>A method that keeps to the types of its stub.\<close>

definition fits_stub :: "stub_method \<Rightarrow> outcome \<Rightarrow> bool" where
  "fits_stub m out =
     (case out of
        Returns r \<Rightarrow> sm_arity m = Unary_Unary \<and> class_of r = sm_reply m
      | Yields rs \<Rightarrow> sm_arity m = Unary_Stream \<and> (\<forall>r \<in> set rs. class_of r = sm_reply m)
      | Awaits a \<Rightarrow> sm_arity m = Unary_Unary
      | Raises code e \<Rightarrow> code \<noteq> Some ''UNIMPLEMENTED'')"

definition well_typed :: "stub_method \<Rightarrow> 's rpc_method \<Rightarrow> bool" where
  "well_typed m f \<longleftrightarrow> (\<forall>rq s. class_of rq = sm_request m \<longrightarrow> fits_stub m (fst (f rq s)))"

lemma all_typed:
  assumes "all_served stub servicer (gs_handlers gs)" and "distinct (map fst stub)"
    and "\<And>name m f. dget stub name = Some m \<Longrightarrow> getattr servicer name = Inr f \<Longrightarrow> well_typed m f"
  shows "list_all (\<lambda>(name, m). \<exists>f. call_at stub name (Inr gs) = Some f \<and> well_typed m f) stub"
proof -
  have "\<exists>f. call_at stub name (Inr gs) = Some f \<and> well_typed m f" if "(name, m) \<in> set stub" for name m
  proof -
    have m: "dget stub name = Some m" using that assms(2) by (simp add: dget_def)
    then obtain f where "getattr servicer name = Inr f" using assms(1) unfolding all_served_def by blast
    with assms(3) [OF m] call_at_served [OF assms(1) m] show ?thesis by blast
  qed
  then show ?thesis by (auto simp: list_all_iff)
qed

lemma distinct_stubs [simp]:
  "distinct (map fst WorkerManagementServiceStub)" "distinct (map fst ProxyManagementServiceStub)"
  "distinct (map fst HeadNodeServiceStub)" "distinct (map fst ReplicaServiceStub)"
  "distinct (map fst HealthServiceStub)" "distinct (map fst WorkerServiceStub)"
  by (simp_all add: WorkerManagementServiceStub_def ProxyManagementServiceStub_def ReplicaServiceStub_def
    HeadNodeServiceStub_def WorkerServiceStub_def HealthServiceStub_def)

lemma typed_outcome:
  assumes "\<forall>v. class_of (W v) = r" and "\<And>rq s. class_of rq = q \<Longrightarrow> f rq s \<in> range (outcome_of W) \<union> range (reply_with W)"
  shows "well_typed (stub_method Unary_Unary path q r) f"
proof -
  have "fits_stub (stub_method Unary_Unary path q r) (fst p)"
    if "p \<in> range (outcome_of W) \<union> range (reply_with W)" for p :: "outcome \<times> 's"
    using that assms(1)
    by (auto simp: outcome_of_def reply_with_def stub_method_def fits_stub_def split: sum.splits prod.splits)
  with assms(2) show ?thesis by (metis well_typed_def stub_method_def stub_method.select_convs(3))
qed

lemma typed_stream:
  assumes "\<forall>v. class_of (W v) = r" and "\<And>rq s. class_of rq = q \<Longrightarrow> \<exists>vs. fst (f rq s) = Yields (map W vs)"
  shows "well_typed (stub_method Unary_Stream path q r) f"
proof -
  have "fits_stub (stub_method Unary_Stream path q r) (Yields (map W vs))" for vs
    using assms(1) by (simp add: stub_method_def fits_stub_def)
  then show ?thesis using assms(2) by (metis well_typed_def stub_method_def stub_method.select_convs(3))
qed

lemma head_typed:
  assumes "getattr (head_servicer now i) name = Inr f"
  shows "dget WorkerManagementServiceStub name = Some m \<Longrightarrow> well_typed m f"
    and "dget ProxyManagementServiceStub name = Some m \<Longrightarrow> well_typed m f"
proof -
  have "well_typed (stub_method Unary_Unary p HealthStatusUpdate_class HealthStatusReply_class) f"
    if "name = ''SendHealthStatus''" for p
    using assms that by (intro typed_outcome [of HealthStatusReply]) (auto simp: servicer_eval class_of_iff)
  moreover have "well_typed (stub_method Unary_Unary p RegisterRequest_class RegisterReply_class) f"
    if "name = ''RegisterNode''" for p
    using assms that by (intro typed_outcome [of RegisterReply]) (auto simp: servicer_eval class_of_iff)
  moreover have "well_typed (stub_method Unary_Unary p MetricsRequest_class MetricsReply_class) f"
    if "name = ''RecordMetrics''" for p
    using assms that by (intro typed_outcome [of MetricsReply]) (auto simp: servicer_eval class_of_iff)
  ultimately show "dget WorkerManagementServiceStub name = Some m \<Longrightarrow> well_typed m f"
    by (auto simp: dget_stubs split: if_splits)
  have "well_typed (stub_method Unary_Stream p SubscriptionRequest_class RoutingUpdate_class) f"
    if "name = ''SubscribeToRoutingUpdates''" for p
    using assms that by (intro typed_stream [of RoutingUpdate])
      (auto simp: servicer_eval class_of_iff image_iff intro: exI [of _ "[u]" for u])
  then show "dget ProxyManagementServiceStub name = Some m \<Longrightarrow> well_typed m f"
    by (auto simp: dget_stubs split: if_splits)
qed

lemma scheduler_typed:
  assumes "getattr (scheduler_servicer failure) name = Inr f"
  shows "dget HeadNodeServiceStub name = Some m \<Longrightarrow> well_typed m f"
    and "dget ReplicaServiceStub name = Some m \<Longrightarrow> well_typed m f"
proof -
  have "well_typed (stub_method Unary_Unary p ReplicaCreationRequest_class ReplicaCreationReply_class) f"
    if "name = ''CreateReplica''" for p
    using assms that
    by (auto simp: servicer_eval class_of_iff well_typed_def fits_stub_def stub_method_def split: sum.splits prod.splits)
  moreover have "well_typed (stub_method Unary_Unary p Empty_class Ack_class) f" if "name = ''Ping''" for p
    using assms that by (intro typed_outcome [of Ack]) (auto simp: servicer_eval)
  ultimately show "dget HeadNodeServiceStub name = Some m \<Longrightarrow> well_typed m f"
    by (auto simp: dget_stubs split: if_splits)
  have "well_typed (stub_method Unary_Unary p ReplicaStatus_class Reply_class) f"
    if "name = ''RegisterReplica''" for p
    using assms that by (intro typed_outcome [of Reply]) (auto simp: servicer_eval class_of_iff)
  then show "dget ReplicaServiceStub name = Some m \<Longrightarrow> well_typed m f"
    by (auto simp: dget_stubs split: if_splits)
qed

lemma proxy_typed:
  assumes "getattr proxy_servicer name = Inr f" and "dget HealthServiceStub name = Some m"
  shows "well_typed m f"
proof -
  have "well_typed (stub_method Unary_Unary p Empty_class Ack_class) f" if "name = ''Ping''" for p
    using assms(1) that by (intro typed_outcome [of Ack]) (auto simp: servicer_eval)
  with assms(2) show ?thesis by (auto simp: dget_stubs split: if_splits)
qed

lemma replica_typed:
  assumes "getattr (replica_servicer engine) name = Inr f" and "dget WorkerServiceStub name = Some m"
  shows "well_typed m f"
proof -
  have "well_typed (stub_method Unary_Stream p ReplicaRequest_class ReplicaReply_class) f"
    if "name = ''SendRequest''" for p
    using assms(1) that by (intro typed_stream [of ReplicaReply])
      (auto simp: servicer_eval class_of_iff image_iff split: prod.splits)
  moreover have "well_typed (stub_method Unary_Unary p Empty_class Ack_class) f" if "name = ''Ping''" for p
    using assms(1) that by (auto simp: servicer_eval well_typed_def fits_stub_def stub_method_def)
  ultimately show ?thesis using assms(2) by (auto simp: dget_stubs split: if_splits)
qed

text \<open>
  The methods and the types of the generated interface, at the Python servers.  Each method of the six
  stubs is served by a method that, given a message of the class the stub sends, does not fail as
  unimplemented; what it returns or yields is of the class that the stub decodes, once or as a
  stream as the stub expects.  Of a method that goes on waiting (\<open>CreateReplica\<close>, when the process was
  started) this says only that one answer is expected, and of a subscription only the first update.
\<close>

lemma served_methods_typed:
  "list_all (\<lambda>(name, m). \<exists>f. call_at WorkerManagementServiceStub name (head_server now i node_port) = Some f \<and>
      well_typed m f) WorkerManagementServiceStub \<and>
   list_all (\<lambda>(name, m). \<exists>f. call_at ProxyManagementServiceStub name (head_server now i node_port) = Some f \<and>
      well_typed m f) ProxyManagementServiceStub \<and>
   list_all (\<lambda>(name, m). \<exists>f. call_at HeadNodeServiceStub name (scheduler_server failure port) = Some f \<and>
      well_typed m f) HeadNodeServiceStub \<and>
   list_all (\<lambda>(name, m). \<exists>f. call_at ReplicaServiceStub name (scheduler_server failure port) = Some f \<and>
      well_typed m f) ReplicaServiceStub \<and>
   list_all (\<lambda>(name, m). \<exists>f. call_at HealthServiceStub name (proxy_server grpc_port) = Some f \<and>
      well_typed m f) HealthServiceStub \<and>
   list_all (\<lambda>(name, m). \<exists>f. call_at WorkerServiceStub name (replica_server mgr) = Some f \<and>
      well_typed m f) WorkerServiceStub"
proof (intro conjI)
  obtain gs where gs: "head_server now i node_port = Inr gs"
    "all_served WorkerManagementServiceStub (head_servicer now i) (gs_handlers gs)"
    "all_served ProxyManagementServiceStub (head_servicer now i) (gs_handlers gs)"
    using head_server_up by blast
  show "list_all (\<lambda>(name, m). \<exists>f. call_at WorkerManagementServiceStub name (head_server now i node_port) = Some f \<and>
      well_typed m f) WorkerManagementServiceStub"
    unfolding gs(1) by (rule all_typed [OF gs(2)]) (simp_all add: head_typed(1))
  show "list_all (\<lambda>(name, m). \<exists>f. call_at ProxyManagementServiceStub name (head_server now i node_port) = Some f \<and>
      well_typed m f) ProxyManagementServiceStub"
    unfolding gs(1) by (rule all_typed [OF gs(3)]) (simp_all add: head_typed(2))
next
  obtain gs where gs: "scheduler_server failure port = Inr gs"
    "all_served HeadNodeServiceStub (scheduler_servicer failure) (gs_handlers gs)"
    "all_served ReplicaServiceStub (scheduler_servicer failure) (gs_handlers gs)"
    using scheduler_server_up by blast
  show "list_all (\<lambda>(name, m). \<exists>f. call_at HeadNodeServiceStub name (scheduler_server failure port) = Some f \<and>
      well_typed m f) HeadNodeServiceStub"
    unfolding gs(1) by (rule all_typed [OF gs(2)]) (simp_all add: scheduler_typed(1))
  show "list_all (\<lambda>(name, m). \<exists>f. call_at ReplicaServiceStub name (scheduler_server failure port) = Some f \<and>
      well_typed m f) ReplicaServiceStub"
    unfolding gs(1) by (rule all_typed [OF gs(3)]) (simp_all add: scheduler_typed(2))
next
  obtain gs where gs: "proxy_server grpc_port = Inr gs" "all_served HealthServiceStub proxy_servicer (gs_handlers gs)"
    using proxy_server_up by blast
  show "list_all (\<lambda>(name, m). \<exists>f. call_at HealthServiceStub name (proxy_server grpc_port) = Some f \<and>
      well_typed m f) HealthServiceStub"
    unfolding gs(1) by (rule all_typed [OF gs(2)]) (simp_all add: proxy_typed)
next
  obtain gs where gs: "replica_server mgr = Inr gs"
    "all_served WorkerServiceStub (replica_servicer (rg_engine mgr)) (gs_handlers gs)"
    using replica_server_up by blast
  show "list_all (\<lambda>(name, m). \<exists>f. call_at WorkerServiceStub name (replica_server mgr) = Some f \<and>
      well_typed m f) WorkerServiceStub"
    unfolding gs(1) by (rule all_typed [OF gs(2)]) (simp_all add: replica_typed)
qed

text \<open>Every command of a proxy manager carries its ports.\<close>

lemma proxy_command_same [simp]:
  "proxy_command (start_http_proxy start pm) = proxy_command pm" "proxy_command (open_channel pm) = proxy_command pm"
  "proxy_command (close_channel pm) = proxy_command pm" "proxy_command (terminate_process pm) = proxy_command pm"
  "proxy_command (process_ends p pm) = proxy_command pm" "proxy_command (pm\<lparr>pm_alive := b\<rparr>) = proxy_command pm"
  by (auto simp: proxy_command_def start_http_proxy_def open_channel_def close_channel_def terminate_process_def
      process_ends_def split: start_outcome.splits option.splits)

definition own_commands :: "proxy_manager \<Rightarrow> bool" where
  "own_commands pm \<longleftrightarrow> (\<forall>cmd \<in> set (pm_commands pm). cmd = proxy_command pm)"

lemma own_commands_start: "own_commands pm \<Longrightarrow> own_commands (start_http_proxy start pm)"
  by (auto simp: own_commands_def) (auto simp: start_http_proxy_def split: start_outcome.splits)

lemma commands_same [simp]:
  "pm_commands (open_channel pm) = pm_commands pm" "pm_commands (close_channel pm) = pm_commands pm"
  "pm_commands (terminate_process pm) = pm_commands pm" "pm_commands (process_ends p pm) = pm_commands pm"
  by (auto simp: open_channel_def close_channel_def terminate_process_def process_ends_def split: option.splits)

lemma own_commands_same [simp]:
  "own_commands (open_channel pm) = own_commands pm" "own_commands (close_channel pm) = own_commands pm"
  "own_commands (terminate_process pm) = own_commands pm" "own_commands (process_ends p pm) = own_commands pm"
  "own_commands (pm\<lparr>pm_alive := b\<rparr>) = own_commands pm"
  by (simp_all add: own_commands_def)

lemma own_commands_round: "own_commands pm \<Longrightarrow> own_commands (proxy_heartbeat_round ping start pm)"
  using own_commands_start [of pm start] by (simp add: proxy_heartbeat_round_def split: sent.splits)

lemma reach_own_commands: "reach heartbeat_start heartbeat_step pm \<Longrightarrow> own_commands pm"
proof (induction rule: reach.induct)
  case (reach_init pm)
  have "own_commands \<lparr>pm_node_port = n, pm_http_port = h, pm_grpc_port = g, pm_alive = False, pm_procs = [],
      pm_process = None, pm_channels = [], pm_channel = None, pm_commands = []\<rparr>" for n h g
    by (simp add: own_commands_def)
  then have "own_commands (pm_init o1 n h g)" for o1 n h g using own_commands_start by (simp add: pm_init_def)
  then have "own_commands (heartbeat_begin o2 (pm_init o1 n h g))" for o1 o2 n h g
    using own_commands_start by (simp add: heartbeat_begin_def)
  with reach_init show ?case by (auto simp: heartbeat_start_def)
next
  case (reach_step pm pm')
  from reach_step(2,3) show ?case
    by (cases rule: heartbeat_step.cases) (simp_all add: own_commands_round)
qed

text \<open>
  Every proxy process the head ever starts, the first one and each restart, reads from its command line
  the port at which the head serves routing updates and the port at which the head pings it.
\<close>

theorem proxies_find_head:
  assumes "reach heartbeat_start heartbeat_step pm" and "cmd \<in> set (pm_commands pm)"
  shows "proxy_main (tl cmd) = Some (pm_http_port pm, px_init (pm_node_port pm) (pm_grpc_port pm))"
  using reach_own_commands [OF assms(1)] assms(2) proxy_reads_command [of pm] by (auto simp: own_commands_def)

end
