(* ===== verification/GcpVm.thy ===== *)
theory GcpVm
  imports VmProfiles
begin

text \<open>
  \<open>src/lib/cloud_vm/vm_manager.py\<close>: the manager of Google Cloud VMs.

  The compute client is a record of calls on a state of the world, which also has the clock.
  \<open>NotFoundError\<close> is \<open>exceptions.NotFound\<close>; it and \<open>CloudError\<close> are \<open>GoogleAPICallError\<close>s.
  \<open>wait_for_vm_ready\<close> is a loop that may run on, so it is a \<open>partial_function\<close>: \<open>None\<close> means that it
  does not return.
\<close>

record gcp_instance =
  gi_name :: string
  gi_status :: string
  gi_nat_ip :: string

record gcp_spec =
  gs_name :: string
  gs_machine_type :: string
  gs_source_image :: string
  gs_disk_size_gb :: int
  gs_accelerator :: "(string \<times> int) option"
  gs_on_host_maintenance :: string
  gs_tags :: "string list"
  gs_startup_script :: string

record 's compute_client =
  cc_insert :: "string \<Rightarrow> gcp_spec \<Rightarrow> 's \<Rightarrow> unit res \<times> 's"
  cc_get :: "string \<Rightarrow> string \<Rightarrow> 's \<Rightarrow> gcp_instance res \<times> 's"
  cc_delete :: "string \<Rightarrow> string \<Rightarrow> 's \<Rightarrow> unit res \<times> 's"
  cc_list :: "string \<Rightarrow> 's \<Rightarrow> gcp_instance list res \<times> 's"
  cc_clock :: "'s \<Rightarrow> real"
  cc_sleep :: "real \<Rightarrow> 's \<Rightarrow> 's"

record gcp_manager =
  gm_project_id :: string
  gm_initial_zone :: string
  gm_cache :: "(string, gcp_instance) dict"

fun is_api_call_error :: "exn \<Rightarrow> bool" where
  "is_api_call_error (CloudError m) = True"
| "is_api_call_error NotFoundError = True"
| "is_api_call_error e = False"

section \<open>Looking instances up\<close>

text \<open>\<open>rsplit('-', 1)[0]\<close>: everything before the last dash, or the whole text.\<close>

definition region_of :: "string \<Rightarrow> string" where
  "region_of zone =
     (case dropWhile (\<lambda>c. c \<noteq> CHR ''-'') (rev zone) of [] \<Rightarrow> zone | dash # rest \<Rightarrow> rev rest)"

fun find_zone_loop :: "'s compute_client \<Rightarrow> string \<Rightarrow> string \<Rightarrow> string list \<Rightarrow> 's \<Rightarrow> string option res \<times> 's" where
  "find_zone_loop cc name region [] s = (Inr None, s)"
| "find_zone_loop cc name region (letter # rest) s =
     (let zone = region @ ''-'' @ letter
      in case cc_get cc zone name s of
           (Inr i, s') \<Rightarrow> (Inr (Some zone), s')
         | (Inl e, s') \<Rightarrow> if e = NotFoundError then find_zone_loop cc name region rest s' else (Inl e, s'))"

definition find_vm_zone :: "'s compute_client \<Rightarrow> string \<Rightarrow> gcp_manager \<Rightarrow> 's \<Rightarrow> string option res \<times> 's" where
  "find_vm_zone cc name gm s =
     find_zone_loop cc name (region_of (gm_initial_zone gm)) [''a'', ''b'', ''c'', ''d'', ''f''] s"

text \<open>\<open>if not zone: zone = self._find_vm_zone(name)\<close>: no zone and an empty one are both looked up.\<close>

definition given_or_found_zone ::
  "'s compute_client \<Rightarrow> string \<Rightarrow> string option \<Rightarrow> gcp_manager \<Rightarrow> 's \<Rightarrow> string option res \<times> 's" where
  "given_or_found_zone cc name zone gm s =
     (case zone of
        None \<Rightarrow> find_vm_zone cc name gm s
      | Some z \<Rightarrow> if z = [] then find_vm_zone cc name gm s else (Inr (Some z), s))"

definition get_instance ::
  "'s compute_client \<Rightarrow> string \<Rightarrow> string option \<Rightarrow> gcp_manager \<Rightarrow> 's \<Rightarrow> gcp_instance option res \<times> 's" where
  "get_instance cc name zone gm s =
     (case given_or_found_zone cc name zone gm s of
        (Inl e, s1) \<Rightarrow> (Inl e, s1)
      | (Inr None, s1) \<Rightarrow> (Inr None, s1)
      | (Inr (Some z), s1) \<Rightarrow>
          (case cc_get cc z name s1 of
             (Inr i, s2) \<Rightarrow> (Inr (Some i), s2)
           | (Inl e, s2) \<Rightarrow> (if is_api_call_error e then Inr None else Inl e, s2)))"

definition cache_del :: "string \<Rightarrow> gcp_manager \<Rightarrow> gcp_manager" where
  "cache_del name gm = gm\<lparr>gm_cache := ddel name (gm_cache gm)\<rparr>"

definition get_vm_status ::
  "'s compute_client \<Rightarrow> string \<Rightarrow> string option \<Rightarrow> gcp_manager \<Rightarrow> 's \<Rightarrow> string option \<times> gcp_manager \<times> 's" where
  "get_vm_status cc name zone gm s =
     (case get_instance cc name zone gm s of
        (Inl e, s1) \<Rightarrow> (None, gm, s1)
      | (Inr (Some i), s1) \<Rightarrow> (Some (gi_status i), gm\<lparr>gm_cache := dset name i (gm_cache gm)\<rparr>, s1)
      | (Inr None, s1) \<Rightarrow> (None, cache_del name gm, s1))"

definition list_vms ::
  "'s compute_client \<Rightarrow> gcp_manager \<Rightarrow> 's \<Rightarrow> (string, gcp_instance) dict \<times> gcp_manager \<times> 's" where
  "list_vms cc gm s =
     (case cc_list cc (gm_initial_zone gm) s of
        (Inl e, s1) \<Rightarrow> ([], gm\<lparr>gm_cache := []\<rparr>, s1)
      | (Inr instances, s1) \<Rightarrow>
          (let cache = fold (\<lambda>i d. dset (gi_name i) i d) instances []
           in (cache, gm\<lparr>gm_cache := cache\<rparr>, s1)))"

section \<open>Deleting\<close>

definition gcp_delete_vm ::
  "'s compute_client \<Rightarrow> string \<Rightarrow> string option \<Rightarrow> gcp_manager \<Rightarrow> 's \<Rightarrow> bool res \<times> gcp_manager \<times> 's" where
  "gcp_delete_vm cc name zone gm s =
     (case given_or_found_zone cc name zone gm s of
        (Inl e, s1) \<Rightarrow> (Inl e, gm, s1)
      | (Inr None, s1) \<Rightarrow> (Inr True, cache_del name gm, s1)
      | (Inr (Some z), s1) \<Rightarrow>
          (case cc_delete cc z name s1 of
             (Inr u, s2) \<Rightarrow> (Inr True, cache_del name gm, s2)
           | (Inl e, s2) \<Rightarrow>
               if e = NotFoundError then (Inr True, cache_del name gm, s2) else (Inr False, gm, s2)))"

section \<open>Waiting\<close>

partial_function (option) wait_loop ::
  "'s compute_client \<Rightarrow> string \<Rightarrow> string \<Rightarrow> real \<Rightarrow> real \<Rightarrow> gcp_manager \<Rightarrow> 's \<Rightarrow> (bool \<times> gcp_manager \<times> 's) option"
  where
  "wait_loop cc name zone start timeout gm s =
     (case get_vm_status cc name (Some zone) gm s of
        (status, gm', s') \<Rightarrow>
          if status = Some ''RUNNING'' then Some (True, gm', s')
          else if status = Some ''TERMINATED'' \<or> status = Some ''STOPPED'' then Some (False, gm', s')
          else if cc_clock cc s' - start > timeout then Some (False, gm', s')
          else wait_loop cc name zone start timeout gm' (cc_sleep cc 10 s'))"

definition wait_for_vm_ready ::
  "'s compute_client \<Rightarrow> string \<Rightarrow> string \<Rightarrow> real \<Rightarrow> gcp_manager \<Rightarrow> 's \<Rightarrow> (bool \<times> gcp_manager \<times> 's) option" where
  "wait_for_vm_ready cc name zone timeout gm s = wait_loop cc name zone (cc_clock cc s) timeout gm s"

section \<open>Creating\<close>

text \<open>
  \<open>_generate_startup_script\<close>; the container gets the same environment as on AWS, and \<open>LOG_LEVEL\<close>.
\<close>

definition gcp_scheduler_image :: string where
  "gcp_scheduler_image =
     ''us-east1-docker.pkg.dev/data-backup-457517-f5/my-docker-repo/model-serving-scheduler:v1''"

definition generate_startup_script :: "int \<Rightarrow> string \<Rightarrow> string \<Rightarrow> int \<Rightarrow> int \<Rightarrow> string" where
  "generate_startup_script scheduler_id head_address head_port num_cpus num_gpus =
     (let container_name = ''model-serving-scheduler-'' @ int_text scheduler_id;
          option_lines = [''  --gpus all'', ''  --network host'', ''  --name '' @ container_name] @
            map (\<lambda>(k, v). ''  -e '' @ k @ ''='' @ quoted v)
              (container_env scheduler_id head_address head_port num_cpus num_gpus @ [(''LOG_LEVEL'', ''INFO'')]) @
            [''  -v /var/log/model-serving:/var/log/model-serving'']
      in concat (map (\<lambda>l. l @ newline)
           [''#!/bin/bash'', ''set -e'', [],
            ''echo '' @ quoted ''Post-startup script started. Running as user: $(whoami)'', [],
            ''# Docker and NVIDIA drivers are pre-installed on Deep Learning VM images,'',
            ''# so we can skip those installation steps.'', [],
            ''# 1) Authenticate Docker to Google Artifact Registry.'',
            ''# Use sudo because this configures Docker for all users on the system.'',
            ''echo '' @ quoted ''Configuring Docker authentication for Artifact Registry...'',
            ''sudo gcloud auth configure-docker us-east1-docker.pkg.dev -q'', [],
            ''# 2) Pull the latest version of the scheduler container.'',
            ''# The '' @ [CHR 0x27] @ ''jupyter'' @ [CHR 0x27] @
              '' user is already in the '' @ [CHR 0x27] @ ''docker'' @ [CHR 0x27] @ '' group on DLVM images,'',
            ''# but using sudo is a safer, more explicit practice.'',
            ''echo '' @ quoted (''Pulling scheduler image: '' @ gcp_scheduler_image),
            ''sudo docker pull '' @ gcp_scheduler_image, [],
            ''# 3) Stop and remove any old running instances of this container.'',
            ''echo '' @ quoted ''Cleaning up any existing containers...'',
            ''sudo docker stop '' @ container_name @ '' || true'',
            ''sudo docker rm '' @ container_name @ '' || true'', [],
            ''# 4) Run the new container.'',
            ''echo '' @ quoted (''Starting new container: '' @ container_name)]) @
         continued ''sudo docker run -d'' @ concat (map continued option_lines) @
         concat (map (\<lambda>l. l @ newline)
           [''  '' @ gcp_scheduler_image, '' '',
            ''echo '' @ quoted ''Post-startup script finished successfully.'']))"

text \<open>\<open>profile.boot_disk_size_gb\<close>: the profile has \<open>volume_size_gb\<close> and no such attribute.\<close>

definition profile_boot_disk_size :: "gcp_profile \<Rightarrow> int res" where
  "profile_boot_disk_size profile = Inl (AttributeError ''boot_disk_size_gb'')"

definition build_spec ::
  "(int \<Rightarrow> int \<Rightarrow> string) \<Rightarrow> string \<Rightarrow> string \<Rightarrow> string \<Rightarrow> string \<Rightarrow> gcp_spec res" where
  "build_spec script project name model_id zone =
     (case gcp_get_vm_profile_for_model model_id of
        Inl e \<Rightarrow> Inl e
      | Inr profile \<Rightarrow>
          (case profile_boot_disk_size profile of
             Inl e \<Rightarrow> Inl e
           | Inr disk_size \<Rightarrow>
               Inr \<lparr>gs_name = name,
                 gs_machine_type = ''zones/'' @ zone @ ''/machineTypes/'' @ machine_type_value (gp_machine_type profile),
                 gs_source_image = ''projects/'' @ gp_image_project profile @ ''/global/images/family/'' @ gp_image_family profile,
                 gs_disk_size_gb = disk_size,
                 gs_accelerator = map_option (\<lambda>g. (''projects/'' @ project @ ''/zones/'' @ zone @
                    ''/acceleratorTypes/'' @ gpu_type_value g, gp_gpu_count profile)) (gp_gpu_type profile),
                 gs_on_host_maintenance = gp_maintenance_policy profile, gs_tags = gp_tags profile,
                 gs_startup_script = script (gp_min_cpu_cores profile) (gp_gpu_count profile)\<rparr>))"

text \<open>
  One zone: \<open>Some r\<close> is the value the method returns, \<open>None\<close> means that the next zone is tried; every
  exception leads there.  The outer option is the waiting that may not return.
\<close>

definition create_in_zone ::
  "'s compute_client \<Rightarrow> (int \<Rightarrow> int \<Rightarrow> string) \<Rightarrow> string \<Rightarrow> string \<Rightarrow> string \<Rightarrow> gcp_manager \<Rightarrow> 's \<Rightarrow>
   (string option \<times> gcp_manager \<times> 's) option" where
  "create_in_zone cc script name model_id zone gm s =
     (case build_spec script (gm_project_id gm) name model_id zone of
        Inl e \<Rightarrow> Some (None, gm, s)
      | Inr spec \<Rightarrow>
          (case cc_insert cc zone spec s of
             (Inl e, s1) \<Rightarrow> Some (None, gm, s1)
           | (Inr u, s1) \<Rightarrow>
               (case wait_for_vm_ready cc name zone 300 gm s1 of
                  None \<Rightarrow> None
                | Some (False, gm2, s2) \<Rightarrow>
                    (case gcp_delete_vm cc name (Some zone) gm2 s2 of (r, gm3, s3) \<Rightarrow> Some (None, gm3, s3))
                | Some (True, gm2, s2) \<Rightarrow>
                    (case get_instance cc name (Some zone) gm2 s2 of
                       (Inr (Some i), s3) \<Rightarrow>
                         Some (Some (gi_nat_ip i), gm2\<lparr>gm_cache := dset name i (gm_cache gm2)\<rparr>, s3)
                     | (r, s3) \<Rightarrow> Some (None, gm2, s3)))))"

fun create_in_zones ::
  "'s compute_client \<Rightarrow> (int \<Rightarrow> int \<Rightarrow> string) \<Rightarrow> string \<Rightarrow> string \<Rightarrow> string list \<Rightarrow> gcp_manager \<Rightarrow> 's \<Rightarrow>
   (string option \<times> gcp_manager \<times> 's) option" where
  "create_in_zones cc script name model_id [] gm s = Some (None, gm, s)"
| "create_in_zones cc script name model_id (zone # rest) gm s =
     (case create_in_zone cc script name model_id zone gm s of
        None \<Rightarrow> None
      | Some (Some ip, gm', s') \<Rightarrow> Some (Some ip, gm', s')
      | Some (None, gm', s') \<Rightarrow> create_in_zones cc script name model_id rest gm' s')"

definition gcp_create_vm ::
  "'s compute_client \<Rightarrow> int \<Rightarrow> string \<Rightarrow> string \<Rightarrow> string \<Rightarrow> string \<Rightarrow> gcp_manager \<Rightarrow> 's \<Rightarrow>
   (string option \<times> gcp_manager \<times> 's) option" where
  "gcp_create_vm cc scheduler_id name model_id head_address head_port gm s =
     create_in_zones cc (generate_startup_script scheduler_id head_address head_port) name model_id
       [''us-east1-d'', ''us-east1-c'', ''us-east1-b''] gm s"

section \<open>Properties\<close>

text \<open>
  The Google Cloud manager never creates a machine.  Whatever the model and the service,
  \<open>create_vm\<close> returns \<open>None\<close> without a single call to the service and without a change to its cache:
  in each of the three zones reading \<open>profile.boot_disk_size_gb\<close> raises (or the model has no profile),
  and the exception is taken for a failure of the zone.
\<close>

theorem gcp_never_creates:
  "gcp_create_vm cc scheduler_id name model_id head_address head_port gm s = Some (None, gm, s)"
proof -
  have "\<exists>e. build_spec script project name model_id zone = Inl e" for script project zone
    by (cases "gcp_get_vm_profile_for_model model_id") (simp_all add: build_spec_def profile_boot_disk_size_def)
  then have "create_in_zone cc script name model_id zone gm s = Some (None, gm, s)" for script zone
    unfolding create_in_zone_def by (metis (no_types, lifting) old.sum.simps(5))
  then show ?thesis by (simp add: gcp_create_vm_def)
qed

lemma wait_loop_turn:
  assumes "get_vm_status cc name (Some zone) gm s = (status, gm1, s1)"
  shows "wait_loop cc name zone start timeout gm s =
    (if status = Some ''RUNNING'' then Some (True, gm1, s1)
     else if status = Some ''TERMINATED'' \<or> status = Some ''STOPPED'' then Some (False, gm1, s1)
     else if cc_clock cc s1 - start > timeout then Some (False, gm1, s1)
     else wait_loop cc name zone start timeout gm1 (cc_sleep cc 10 s1))"
  by (subst wait_loop.simps) (simp only: assms prod.case)

lemma find_zone_loop_clock:
  assumes "\<And>z n s. cc_clock cc s \<le> cc_clock cc (snd (cc_get cc z n s))"
  shows "cc_clock cc s \<le> cc_clock cc (snd (find_zone_loop cc name region letters s))"
proof (induction letters arbitrary: s)
  case (Cons letter rest)
  obtain r s1 where g: "cc_get cc (region @ ''-'' @ letter) name s = (r, s1)" by fastforce
  with assms [of s "region @ ''-'' @ letter" name] have "cc_clock cc s \<le> cc_clock cc s1" by simp
  with g Cons.IH [of s1] show ?case by (cases r) (auto simp: Let_def)
qed simp

lemma get_vm_status_round:
  assumes "\<And>z n s. cc_clock cc s \<le> cc_clock cc (snd (cc_get cc z n s))"
    and "get_vm_status cc name zone gm s = (status, gm1, s1)"
  shows "cc_clock cc s \<le> cc_clock cc s1"
    and "status = Some ''RUNNING'' \<Longrightarrow> \<exists>i. dget (gm_cache gm1) name = Some i \<and> gi_status i = ''RUNNING''"
proof -
  obtain r s0 where z: "given_or_found_zone cc name zone gm s = (r, s0)" by fastforce
  then have le: "cc_clock cc s \<le> cc_clock cc s0"
    using find_zone_loop_clock [OF assms(1), of s name "region_of (gm_initial_zone gm)" "[''a'', ''b'', ''c'', ''d'', ''f'']"]
    by (auto simp: given_or_found_zone_def find_vm_zone_def split: option.splits if_splits)
  have "snd (get_instance cc name zone gm s) = s0 \<or> (\<exists>z. snd (get_instance cc name zone gm s) = snd (cc_get cc z name s0))"
    using z by (auto simp: get_instance_def split: sum.splits option.splits prod.splits) (metis snd_conv)+
  then have "cc_clock cc s0 \<le> cc_clock cc (snd (get_instance cc name zone gm s))" using assms(1) by auto
  moreover have "snd (get_instance cc name zone gm s) = s1"
    using assms(2) by (auto simp: get_vm_status_def split: prod.splits sum.splits option.splits)
  ultimately show "cc_clock cc s \<le> cc_clock cc s1" using le by simp
  show "status = Some ''RUNNING'' \<Longrightarrow> \<exists>i. dget (gm_cache gm1) name = Some i \<and> gi_status i = ''RUNNING''"
    using assms(2) by (auto simp: get_vm_status_def split: prod.splits sum.splits option.splits)
qed

lemma wait_loop_returns:
  assumes adv: "\<And>d s. cc_clock cc s + d \<le> cc_clock cc (cc_sleep cc d s)"
    and get: "\<And>z n s. cc_clock cc s \<le> cc_clock cc (snd (cc_get cc z n s))"
  shows "start + timeout < cc_clock cc s + 10 * of_nat n \<Longrightarrow>
    \<exists>b gm' s'. wait_loop cc name zone start timeout gm s = Some (b, gm', s') \<and>
      (b \<longrightarrow> (\<exists>i. dget (gm_cache gm') name = Some i \<and> gi_status i = ''RUNNING''))"
proof (induction n arbitrary: gm s)
  case (Suc n)
  obtain status gm1 s1 where st: "get_vm_status cc name (Some zone) gm s = (status, gm1, s1)"
    by (cases "get_vm_status cc name (Some zone) gm s")
  note run = get_vm_status_round(2) [OF get st]
  have "cc_clock cc s \<le> cc_clock cc s1" by (rule get_vm_status_round(1) [OF get st])
  then have "start + timeout < cc_clock cc (cc_sleep cc 10 s1) + 10 * of_nat n"
    using adv [of s1 10] Suc.prems by simp
  then obtain b gm2 s2 where next_round: "wait_loop cc name zone start timeout gm1 (cc_sleep cc 10 s1) = Some (b, gm2, s2)"
    "b \<longrightarrow> (\<exists>i. dget (gm_cache gm2) name = Some i \<and> gi_status i = ''RUNNING'')"
    using Suc.IH by blast
  note eq = wait_loop_turn [OF st, of start timeout]
  consider "status = Some ''RUNNING''"
    | "status \<noteq> Some ''RUNNING''" "wait_loop cc name zone start timeout gm s = Some (False, gm1, s1)"
    | "wait_loop cc name zone start timeout gm s = Some (b, gm2, s2)"
    unfolding eq next_round(1) by presburger
  then show ?case
  proof cases
    case 1
    then have "wait_loop cc name zone start timeout gm s = Some (True, gm1, s1)" unfolding eq by (rule if_P)
    with run 1 show ?thesis by blast
  qed (use next_round(2) in blast)+
next
  case 0
  obtain status gm1 s1 where st: "get_vm_status cc name (Some zone) gm s = (status, gm1, s1)"
    by (cases "get_vm_status cc name (Some zone) gm s")
  note run = get_vm_status_round(2) [OF get st]
  have "timeout < cc_clock cc s1 - start" using get_vm_status_round(1) [OF get st] 0 by simp
  note late = this and eq = wait_loop_turn [OF st, of start timeout]
  consider "status = Some ''RUNNING''" | "wait_loop cc name zone start timeout gm s = Some (False, gm1, s1)"
    unfolding eq using late by presburger
  then show ?case
  proof cases
    case 1
    then have "wait_loop cc name zone start timeout gm s = Some (True, gm1, s1)" unfolding eq by (rule if_P)
    with run 1 show ?thesis by blast
  qed blast
qed

text \<open>
  C39. Waiting for a machine ends.  If sleeping lets the clock advance by the time asked for and no call
  sets it back, \<open>wait_for_vm_ready\<close> returns for every timeout, and when it returns \<open>True\<close> the machine's
  last reported status was \<open>RUNNING\<close> and the cache has that report.
\<close>

theorem waiting_ends:
  assumes "\<And>d s. cc_clock cc s + d \<le> cc_clock cc (cc_sleep cc d s)"
    and "\<And>z n s. cc_clock cc s \<le> cc_clock cc (snd (cc_get cc z n s))"
  shows "\<exists>b gm' s'. wait_for_vm_ready cc name zone timeout gm s = Some (b, gm', s') \<and>
    (b \<longrightarrow> (\<exists>i. dget (gm_cache gm') name = Some i \<and> gi_status i = ''RUNNING''))"
proof -
  obtain n :: nat where "timeout < of_nat n" using reals_Archimedean2 by blast
  then have "cc_clock cc s + timeout < cc_clock cc s + 10 * of_nat n" by simp
  from wait_loop_returns [OF assms this] show ?thesis unfolding wait_for_vm_ready_def .
qed

text \<open>A machine that is being provisioned until the clock shows 25.\<close>

definition slow_cloud :: "real compute_client" where
  "slow_cloud = \<lparr>cc_insert = (\<lambda>z spec s. (Inr (), s)),
     cc_get = (\<lambda>z n s. (Inr \<lparr>gi_name = n, gi_status = (if s < 25 then ''STAGING'' else ''RUNNING''),
       gi_nat_ip = ''34.1.2.3''\<rparr>, s)),
     cc_delete = (\<lambda>z n s. (Inr (), s)), cc_list = (\<lambda>z s. (Inr [], s)), cc_clock = (\<lambda>s. s),
     cc_sleep = (\<lambda>d s. s + d)\<rparr>"

theorem waiting_ends_witness:
  "\<exists>b gm' s'. wait_for_vm_ready slow_cloud ''scheduler-1'' ''us-east1-d'' 300
     \<lparr>gm_project_id = ''p'', gm_initial_zone = ''us-east1-d'', gm_cache = []\<rparr> 0 = Some (b, gm', s')"
proof -
  have a: "cc_clock slow_cloud s + d \<le> cc_clock slow_cloud (cc_sleep slow_cloud d s)" for d s
    by (simp add: slow_cloud_def)
  have b: "cc_clock slow_cloud s \<le> cc_clock slow_cloud (snd (cc_get slow_cloud z n s))" for z n s
    by (simp add: slow_cloud_def)
  from waiting_ends [OF a b] show ?thesis by blast
qed

end
