(* ===== verification/ProtoImports.thy ===== *)
theory ProtoImports
  imports Prelude "HOL-Library.Sublist"
begin

text \<open>
  \<open>src/scripts/fix_protobuf_imports.py\<close>: rewriting \<open>import x_pb2 as y\<close> to a relative import in the
  generated files.  A file is the list of its lines (the pattern is anchored to lines and matches no
  line break); \<open>is_word\<close> is \<open>\w\<close> on the ASCII characters that occur in generated code.
\<close>

definition is_word :: "char \<Rightarrow> bool" where
  "is_word c \<longleftrightarrow> (let n = (of_char c :: nat) in
     (48 \<le> n \<and> n \<le> 57) \<or> (65 \<le> n \<and> n \<le> 90) \<or> n = 95 \<or> (97 \<le> n \<and> n \<le> 122))"

text \<open>\<open>^import (\w+_pb2) as (\w+)$\<close>, with the two groups.\<close>

definition match_import :: "string \<Rightarrow> (string \<times> string) option" where
  "match_import line =
     (if prefix ''import '' line then
        (let rest = drop 7 line;
             module_name = takeWhile is_word rest;
             rest2 = dropWhile is_word rest
         in if suffix ''_pb2'' module_name \<and> 4 < length module_name \<and> prefix '' as '' rest2 then
              (let alias = drop 4 rest2
               in if alias \<noteq> [] \<and> list_all is_word alias then Some (module_name, alias) else None)
            else None)
      else None)"

definition replace_import :: "string \<Rightarrow> string" where
  "replace_import line =
     (case match_import line of
        None \<Rightarrow> line
      | Some (module_name, alias) \<Rightarrow> ''from . import '' @ module_name @ '' as '' @ alias)"

text \<open>Which files are read (\<open>glob\<close>), and whether one is written.\<close>

definition is_generated :: "string \<Rightarrow> bool" where
  "is_generated file_name \<longleftrightarrow> suffix ''_pb2.py'' file_name \<or> suffix ''_pb2_grpc.py'' file_name"

type_synonym directory = "(string, string list) dict"

definition fix_protobuf_imports :: "directory option \<Rightarrow> directory option \<times> string list" where
  "fix_protobuf_imports generated =
     (case generated of
        None \<Rightarrow> (None, [])
      | Some files \<Rightarrow>
          (Some (map (\<lambda>(n, ls). (n, if is_generated n then map replace_import ls else ls)) files),
           map fst (filter (\<lambda>(n, ls). is_generated n \<and> map replace_import ls \<noteq> ls) files)))"

lemma replaced_is_final: "match_import (''from . import '' @ s) = None"
  by (simp add: match_import_def)

lemma replace_idem: "replace_import (replace_import line) = replace_import line"
proof (cases "match_import line")
  case (Some p)
  obtain m a where "p = (m, a)" by (cases p)
  with Some have "replace_import line = ''from . import '' @ (m @ '' as '' @ a)" by (simp add: replace_import_def)
  then show ?thesis
    using replaced_is_final [of "m @ '' as '' @ a"] by (simp only: replace_import_def option.case)
qed (simp add: replace_import_def)

text \<open>
  The script is safe to run again: a second run changes no file and writes none, and a file that is
  not generated code is never touched.
\<close>

theorem fix_imports_idempotent:
  assumes "fix_protobuf_imports (Some files) = (Some files', written)"
  shows "fix_protobuf_imports (Some files') = (Some files', []) \<and>
    (\<forall>(n, ls) \<in> set files. \<not> is_generated n \<longrightarrow> (n, ls) \<in> set files')"
proof -
  have f: "files' = map (\<lambda>(n, ls). (n, if is_generated n then map replace_import ls else ls)) files"
    using assms by (simp add: fix_protobuf_imports_def)
  have "map replace_import (map replace_import ls) = map replace_import ls" for ls
    by (simp add: replace_idem)
  then have "fix_protobuf_imports (Some files') = (Some files', [])"
    unfolding f by (auto simp: fix_protobuf_imports_def filter_empty_conv comp_def replace_idem)
  moreover have "(n, ls) \<in> set files'" if "(n, ls) \<in> set files" "\<not> is_generated n" for n ls
    using that unfolding f by force
  ultimately show ?thesis by blast
qed

theorem fix_imports_idempotent_witness:
  "fix_protobuf_imports (fst (fix_protobuf_imports (Some [(''a_pb2.py'', [''import common_pb2 as common__pb2''])]))) =
     (fst (fix_protobuf_imports (Some [(''a_pb2.py'', [''import common_pb2 as common__pb2''])])), [])"
proof -
  obtain files' written where r: "fix_protobuf_imports (Some [(''a_pb2.py'', [''import common_pb2 as common__pb2''])]) =
      (Some files', written)"
    by (simp add: fix_protobuf_imports_def)
  from fix_imports_idempotent [OF r] r show ?thesis by simp
qed

end
