(* ===== verification/ReplicaHandle.thy ===== *)
theory ReplicaHandle
  imports Scheduler
begin

text \<open>
  The tasks of the scheduler's replica handle: \<open>submit_task\<close> and \<open>_process_individual_task\<close> of
  \<open>src/lib/replica.py\<close>, and which messages its module of generated code has.

  A task writes to its own queue; \<open>Some\<close> is a chunk with its error flag, \<open>None\<close> the end of the stream.
  Names are looked up in the generated module when the expression is evaluated, also inside the
  \<open>except\<close> branches.
\<close>

text \<open>The messages of \<open>replica_service_pb2\<close> (\<open>src/generated/replica_service_pb2.py\<close>).\<close>

definition replica_pb2_names :: "string list" where
  "replica_pb2_names = [''ReplicaRequest'', ''ReplicaReply'']"

definition pb2_getattr :: "string \<Rightarrow> unit res" where
  "pb2_getattr name = (if name \<in> set replica_pb2_names then Inr () else Inl (AttributeError name))"

type_synonym task_queue = "(string \<times> bool) option list"

text \<open>\<open>await stream_queue.put(replica_service_pb2.TokenChunk(\<dots>))\<close>\<close>

definition put_chunk :: "string \<Rightarrow> bool \<Rightarrow> task_queue \<Rightarrow> unit res \<times> task_queue" where
  "put_chunk text is_error queue =
     (case pb2_getattr ''TokenChunk'' of
        Inl e \<Rightarrow> (Inl e, queue)
      | Inr u \<Rightarrow> (Inr (), queue @ [Some (text, is_error)]))"

fun forward_chunks :: "string list \<Rightarrow> exn option \<Rightarrow> task_queue \<Rightarrow> unit res \<times> task_queue" where
  "forward_chunks [] ending queue = (case ending of None \<Rightarrow> (Inr (), queue) | Some e \<Rightarrow> (Inl e, queue))"
| "forward_chunks (text # rest) ending queue =
     (case put_chunk text False queue of
        (Inl e, queue') \<Rightarrow> (Inl e, queue')
      | (Inr u, queue') \<Rightarrow> forward_chunks rest ending queue')"

text \<open>
  One task: the exception that leaves it, the handle and the queue.  \<open>stream\<close> is what the replica's
  stub would yield for the prompt.
\<close>

definition process_individual_task ::
  "string list \<times> exn option \<Rightarrow> replica_handle \<Rightarrow> task_queue \<Rightarrow> unit res \<times> replica_handle \<times> task_queue" where
  "process_individual_task stream h queue =
     (let h1 = h\<lparr>rh_status := ''processing''\<rparr>;
          (body, queue1) =
            (case pb2_getattr ''PromptRequest'' of
               Inl e \<Rightarrow> (Inl e, queue)
             | Inr u \<Rightarrow>
                 (case forward_chunks (fst stream) (snd stream) queue of
                    (Inl e, q) \<Rightarrow> (Inl e, q)
                  | (Inr u', q) \<Rightarrow> (Inr (), q @ [None])))
      in case body of
           Inr u \<Rightarrow> (Inr (), h1, queue1)
         | Inl e \<Rightarrow>
             (case put_chunk (if is_rpc_error e then ''gRPC stream failed: '' @ exn_text e
                              else ''Generic error in stream: '' @ exn_text e) True queue1 of
                (r, queue2) \<Rightarrow> (r, h1, queue2)))"

definition submit_task ::
  "string list \<times> exn option \<Rightarrow> replica_handle \<Rightarrow> unit res \<times> replica_handle \<times> task_queue" where
  "submit_task stream h = process_individual_task stream h []"

text \<open>
  A task submitted to a replica handle never produces anything: the generated module has neither
  \<open>PromptRequest\<close> nor \<open>TokenChunk\<close>, so the task raises \<open>AttributeError\<close>, raises it again in the branch
  that reports errors, and leaves the queue without a chunk and without an end; a consumer waits
  forever and the handle stays \<open>processing\<close>.
\<close>

theorem submitted_task_never_answers:
  "submit_task stream h = (Inl (AttributeError ''TokenChunk''), h\<lparr>rh_status := ''processing''\<rparr>, [])"
  by (simp add: submit_task_def process_individual_task_def put_chunk_def pb2_getattr_def
      replica_pb2_names_def Let_def)

end
