(* ===== verification/Settings.thy ===== *)
theory Settings
  imports Scheduler
begin

text \<open>\<open>src/lib/configurations.py\<close>: the numbers of attempts and the seconds between them.\<close>

section \<open>Health updates of the workers\<close>

definition head_store_timeout :: int where "head_store_timeout = 5"
definition head_store_max_retries :: nat where "head_store_max_retries = 3"
definition head_store_retry_delay :: int where "head_store_retry_delay = 1"
definition scheduler_replica_heartbeat_interval_seconds :: int where
  "scheduler_replica_heartbeat_interval_seconds = 5"
definition scheduler_health_update_interval :: int where "scheduler_health_update_interval = 5"

section \<open>Pings of workers and proxies\<close>

definition worker_ping_timeout :: int where "worker_ping_timeout = 1"
definition worker_ping_max_retries :: nat where "worker_ping_max_retries = 2"
definition worker_ping_retry_delay :: int where "worker_ping_retry_delay = 1"
definition proxy_ping_timeout :: int where "proxy_ping_timeout = 1"
definition proxy_ping_max_retries :: nat where "proxy_ping_max_retries = 2"
definition proxy_ping_retry_delay :: int where "proxy_ping_retry_delay = 1"
definition proxy_ping_interval :: int where "proxy_ping_interval = 2"
definition proxy_heartbeat_interval :: int where "proxy_heartbeat_interval = 10"

section \<open>Queues and scaling\<close>

definition min_queue_size :: int where "min_queue_size = 2"
definition max_queue_size :: int where "max_queue_size = 10"
definition worker_ping_interval :: int where "worker_ping_interval = 10"
definition autoscaling_interval :: int where "autoscaling_interval = 10"
definition scheduling_interval :: int where "scheduling_interval = 10"

text \<open>
  A worker registers with the settings (\<open>getattr\<close> finds them, so its own defaults, of which the delay is
  another, do not count).
\<close>

lemma registration_uses_settings:
  "sched_register_node stub worker_id node_address node_port num_cpus num_gpus s =
     (case sched_register_request worker_id node_address node_port num_cpus num_gpus of
        Inl e \<Rightarrow> (Inl e, s)
      | Inr request \<Rightarrow>
          (case try_send_with_retries_sync (stub request) head_store_max_retries (of_int head_store_retry_delay) s of
             (answer, sleeps, s') \<Rightarrow>
               (case answer of
                  Inl e \<Rightarrow> Inr SchedulerKilled
                | Inr (Got ack) \<Rightarrow> Inr (if ack then Registered else NotAcknowledged)
                | Inr other \<Rightarrow> Inr SchedulerKilled, s')))"
  by (simp add: sched_register_node_def head_store_max_retries_def head_store_retry_delay_def cong: sum.case_cong)

end
