(* ===== verification/ModuleSources.thy ===== *)
theory ModuleSources
  imports Prelude
begin

text \<open>
  The top level of every Python module under \<open>src/\<close>: its import statements in order, with the names that its
  other statements bind between them.  Relative imports are written with the package they mean.  A
  statement at the top level that calls something may raise; the version check of the generated gRPC
  modules is a statement of its own.  What runs only as \<open>__main__\<close>, the offsets that the \<open>*_pb2\<close> modules
  record and the bodies of classes are left out.  (The builder of a \<open>*_pb2\<close> module also adds its message classes; no
  module imports them by name.)
\<close>

section \<open>Modules and statements\<close>

text \<open>The modules of the repository, and \<open>src.lib.local_metrics\<close>, which is imported but is not there.\<close>

datatype py_module =
    M_src | M_components | M_components_add_replica | M_components_add_replica_vllm |
    M_components_headNode | M_components_headNode_head_controller | M_components_headNode_http_proxy |
    M_components_scheduler | M_generated | M_generated_common_pb2 | M_generated_common_pb2_grpc |
    M_generated_headnode_service_pb2 | M_generated_headnode_service_pb2_grpc |
    M_generated_proxy_service_pb2 | M_generated_proxy_service_pb2_grpc | M_generated_replica_service_pb2 |
    M_generated_replica_service_pb2_grpc | M_generated_worker_service_pb2 |
    M_generated_worker_service_pb2_grpc | M_lib | M_lib_autoscale_manager | M_lib_cloud_vm |
    M_lib_cloud_vm_aws_vm_manager | M_lib_cloud_vm_vm_config | M_lib_cloud_vm_vm_config_aws |
    M_lib_cloud_vm_vm_manager | M_lib_configurations | M_lib_deployment_handle | M_lib_deployment_manager |
    M_lib_deployment_scheduler | M_lib_future_manager | M_lib_headstore_client | M_lib_health_manager |
    M_lib_helpers | M_lib_local_metrics | M_lib_logging_config | M_lib_model_config | M_lib_node_info |
    M_lib_proxy_manager | M_lib_replica | M_lib_utils

fun dotted_name :: "py_module \<Rightarrow> string" where
  "dotted_name M_src = ''src''"
| "dotted_name M_components = ''src.components''"
| "dotted_name M_components_add_replica = ''src.components.add_replica''"
| "dotted_name M_components_add_replica_vllm = ''src.components.add_replica_vllm''"
| "dotted_name M_components_headNode = ''src.components.headNode''"
| "dotted_name M_components_headNode_head_controller = ''src.components.headNode.head_controller''"
| "dotted_name M_components_headNode_http_proxy = ''src.components.headNode.http_proxy''"
| "dotted_name M_components_scheduler = ''src.components.scheduler''"
| "dotted_name M_generated = ''src.generated''"
| "dotted_name M_generated_common_pb2 = ''src.generated.common_pb2''"
| "dotted_name M_generated_common_pb2_grpc = ''src.generated.common_pb2_grpc''"
| "dotted_name M_generated_headnode_service_pb2 = ''src.generated.headnode_service_pb2''"
| "dotted_name M_generated_headnode_service_pb2_grpc = ''src.generated.headnode_service_pb2_grpc''"
| "dotted_name M_generated_proxy_service_pb2 = ''src.generated.proxy_service_pb2''"
| "dotted_name M_generated_proxy_service_pb2_grpc = ''src.generated.proxy_service_pb2_grpc''"
| "dotted_name M_generated_replica_service_pb2 = ''src.generated.replica_service_pb2''"
| "dotted_name M_generated_replica_service_pb2_grpc = ''src.generated.replica_service_pb2_grpc''"
| "dotted_name M_generated_worker_service_pb2 = ''src.generated.worker_service_pb2''"
| "dotted_name M_generated_worker_service_pb2_grpc = ''src.generated.worker_service_pb2_grpc''"
| "dotted_name M_lib = ''src.lib''"
| "dotted_name M_lib_autoscale_manager = ''src.lib.autoscale_manager''"
| "dotted_name M_lib_cloud_vm = ''src.lib.cloud_vm''"
| "dotted_name M_lib_cloud_vm_aws_vm_manager = ''src.lib.cloud_vm.aws_vm_manager''"
| "dotted_name M_lib_cloud_vm_vm_config = ''src.lib.cloud_vm.vm_config''"
| "dotted_name M_lib_cloud_vm_vm_config_aws = ''src.lib.cloud_vm.vm_config_aws''"
| "dotted_name M_lib_cloud_vm_vm_manager = ''src.lib.cloud_vm.vm_manager''"
| "dotted_name M_lib_configurations = ''src.lib.configurations''"
| "dotted_name M_lib_deployment_handle = ''src.lib.deployment_handle''"
| "dotted_name M_lib_deployment_manager = ''src.lib.deployment_manager''"
| "dotted_name M_lib_deployment_scheduler = ''src.lib.deployment_scheduler''"
| "dotted_name M_lib_future_manager = ''src.lib.future_manager''"
| "dotted_name M_lib_headstore_client = ''src.lib.headstore_client''"
| "dotted_name M_lib_health_manager = ''src.lib.health_manager''"
| "dotted_name M_lib_helpers = ''src.lib.helpers''"
| "dotted_name M_lib_local_metrics = ''src.lib.local_metrics''"
| "dotted_name M_lib_logging_config = ''src.lib.logging_config''"
| "dotted_name M_lib_model_config = ''src.lib.model_config''"
| "dotted_name M_lib_node_info = ''src.lib.node_info''"
| "dotted_name M_lib_proxy_manager = ''src.lib.proxy_manager''"
| "dotted_name M_lib_replica = ''src.lib.replica''"
| "dotted_name M_lib_utils = ''src.lib.utils''"

text \<open>The dotted name of a module split into its packages, outermost first; what is inside of a package.\<close>

fun packages :: "py_module \<Rightarrow> py_module list" where
  "packages M_src = [M_src]"
| "packages M_components = [M_src, M_components]"
| "packages M_components_add_replica = [M_src, M_components, M_components_add_replica]"
| "packages M_components_add_replica_vllm = [M_src, M_components, M_components_add_replica_vllm]"
| "packages M_components_headNode = [M_src, M_components, M_components_headNode]"
| "packages M_components_headNode_head_controller = [M_src, M_components, M_components_headNode, M_components_headNode_head_controller]"
| "packages M_components_headNode_http_proxy = [M_src, M_components, M_components_headNode, M_components_headNode_http_proxy]"
| "packages M_components_scheduler = [M_src, M_components, M_components_scheduler]"
| "packages M_generated = [M_src, M_generated]"
| "packages M_generated_common_pb2 = [M_src, M_generated, M_generated_common_pb2]"
| "packages M_generated_common_pb2_grpc = [M_src, M_generated, M_generated_common_pb2_grpc]"
| "packages M_generated_headnode_service_pb2 = [M_src, M_generated, M_generated_headnode_service_pb2]"
| "packages M_generated_headnode_service_pb2_grpc = [M_src, M_generated, M_generated_headnode_service_pb2_grpc]"
| "packages M_generated_proxy_service_pb2 = [M_src, M_generated, M_generated_proxy_service_pb2]"
| "packages M_generated_proxy_service_pb2_grpc = [M_src, M_generated, M_generated_proxy_service_pb2_grpc]"
| "packages M_generated_replica_service_pb2 = [M_src, M_generated, M_generated_replica_service_pb2]"
| "packages M_generated_replica_service_pb2_grpc = [M_src, M_generated, M_generated_replica_service_pb2_grpc]"
| "packages M_generated_worker_service_pb2 = [M_src, M_generated, M_generated_worker_service_pb2]"
| "packages M_generated_worker_service_pb2_grpc = [M_src, M_generated, M_generated_worker_service_pb2_grpc]"
| "packages M_lib = [M_src, M_lib]"
| "packages M_lib_autoscale_manager = [M_src, M_lib, M_lib_autoscale_manager]"
| "packages M_lib_cloud_vm = [M_src, M_lib, M_lib_cloud_vm]"
| "packages M_lib_cloud_vm_aws_vm_manager = [M_src, M_lib, M_lib_cloud_vm, M_lib_cloud_vm_aws_vm_manager]"
| "packages M_lib_cloud_vm_vm_config = [M_src, M_lib, M_lib_cloud_vm, M_lib_cloud_vm_vm_config]"
| "packages M_lib_cloud_vm_vm_config_aws = [M_src, M_lib, M_lib_cloud_vm, M_lib_cloud_vm_vm_config_aws]"
| "packages M_lib_cloud_vm_vm_manager = [M_src, M_lib, M_lib_cloud_vm, M_lib_cloud_vm_vm_manager]"
| "packages M_lib_configurations = [M_src, M_lib, M_lib_configurations]"
| "packages M_lib_deployment_handle = [M_src, M_lib, M_lib_deployment_handle]"
| "packages M_lib_deployment_manager = [M_src, M_lib, M_lib_deployment_manager]"
| "packages M_lib_deployment_scheduler = [M_src, M_lib, M_lib_deployment_scheduler]"
| "packages M_lib_future_manager = [M_src, M_lib, M_lib_future_manager]"
| "packages M_lib_headstore_client = [M_src, M_lib, M_lib_headstore_client]"
| "packages M_lib_health_manager = [M_src, M_lib, M_lib_health_manager]"
| "packages M_lib_helpers = [M_src, M_lib, M_lib_helpers]"
| "packages M_lib_local_metrics = [M_src, M_lib, M_lib_local_metrics]"
| "packages M_lib_logging_config = [M_src, M_lib, M_lib_logging_config]"
| "packages M_lib_model_config = [M_src, M_lib, M_lib_model_config]"
| "packages M_lib_node_info = [M_src, M_lib, M_lib_node_info]"
| "packages M_lib_proxy_manager = [M_src, M_lib, M_lib_proxy_manager]"
| "packages M_lib_replica = [M_src, M_lib, M_lib_replica]"
| "packages M_lib_utils = [M_src, M_lib, M_lib_utils]"

fun submodules :: "py_module \<Rightarrow> (string \<times> py_module) list" where
  "submodules M_src =
     [(''components'', M_components), (''generated'', M_generated), (''lib'', M_lib)]"
| "submodules M_components =
     [(''add_replica'', M_components_add_replica),
      (''add_replica_vllm'', M_components_add_replica_vllm), (''headNode'', M_components_headNode),
      (''scheduler'', M_components_scheduler)]"
| "submodules M_components_headNode =
     [(''head_controller'', M_components_headNode_head_controller),
      (''http_proxy'', M_components_headNode_http_proxy)]"
| "submodules M_generated =
     [(''common_pb2'', M_generated_common_pb2), (''common_pb2_grpc'', M_generated_common_pb2_grpc),
      (''headnode_service_pb2'', M_generated_headnode_service_pb2),
      (''headnode_service_pb2_grpc'', M_generated_headnode_service_pb2_grpc),
      (''proxy_service_pb2'', M_generated_proxy_service_pb2),
      (''proxy_service_pb2_grpc'', M_generated_proxy_service_pb2_grpc),
      (''replica_service_pb2'', M_generated_replica_service_pb2),
      (''replica_service_pb2_grpc'', M_generated_replica_service_pb2_grpc),
      (''worker_service_pb2'', M_generated_worker_service_pb2),
      (''worker_service_pb2_grpc'', M_generated_worker_service_pb2_grpc)]"
| "submodules M_lib =
     [(''autoscale_manager'', M_lib_autoscale_manager), (''cloud_vm'', M_lib_cloud_vm),
      (''configurations'', M_lib_configurations), (''deployment_handle'', M_lib_deployment_handle),
      (''deployment_manager'', M_lib_deployment_manager),
      (''deployment_scheduler'', M_lib_deployment_scheduler),
      (''future_manager'', M_lib_future_manager), (''headstore_client'', M_lib_headstore_client),
      (''health_manager'', M_lib_health_manager), (''helpers'', M_lib_helpers),
      (''local_metrics'', M_lib_local_metrics), (''logging_config'', M_lib_logging_config),
      (''model_config'', M_lib_model_config), (''node_info'', M_lib_node_info),
      (''proxy_manager'', M_lib_proxy_manager), (''replica'', M_lib_replica), (''utils'', M_lib_utils)]"
| "submodules M_lib_cloud_vm =
     [(''aws_vm_manager'', M_lib_cloud_vm_aws_vm_manager), (''vm_config'', M_lib_cloud_vm_vm_config),
      (''vm_config_aws'', M_lib_cloud_vm_vm_config_aws), (''vm_manager'', M_lib_cloud_vm_vm_manager)]"
| "submodules _ = []"

definition all_modules :: "py_module list" where
  "all_modules =
     [M_src, M_components, M_components_add_replica,
        M_components_add_replica_vllm,
      M_components_headNode,
        M_components_headNode_head_controller,
      M_components_headNode_http_proxy, M_components_scheduler,
        M_generated,
      M_generated_common_pb2, M_generated_common_pb2_grpc,
        M_generated_headnode_service_pb2,
      M_generated_headnode_service_pb2_grpc,
        M_generated_proxy_service_pb2,
      M_generated_proxy_service_pb2_grpc,
        M_generated_replica_service_pb2,
      M_generated_replica_service_pb2_grpc,
        M_generated_worker_service_pb2,
      M_generated_worker_service_pb2_grpc, M_lib,
        M_lib_autoscale_manager, M_lib_cloud_vm,
      M_lib_cloud_vm_aws_vm_manager, M_lib_cloud_vm_vm_config,
        M_lib_cloud_vm_vm_config_aws,
      M_lib_cloud_vm_vm_manager, M_lib_configurations,
        M_lib_deployment_handle,
      M_lib_deployment_manager, M_lib_deployment_scheduler,
        M_lib_future_manager,
      M_lib_headstore_client, M_lib_health_manager, M_lib_helpers,
        M_lib_local_metrics,
      M_lib_logging_config, M_lib_model_config, M_lib_node_info,
        M_lib_proxy_manager,
      M_lib_replica, M_lib_utils]"

text \<open>
  \<open>Outside m ns\<close> is an import of a module that is not under \<open>src/\<close>, \<open>From m [(a, n), \<dots>]\<close> is
  \<open>from m import a as n, \<dots>\<close>, \<open>Binds\<close> any number of assignments, functions and classes, \<open>Evaluates f ns\<close> a
  statement that calls \<open>f\<close> and binds \<open>ns\<close>; \<open>Exports\<close> is \<open>__all__\<close>;
  \<open>VersionCheck\<close> has the generated version, the release that makes the warning an error, its date and the
  name of the file.
\<close>

datatype py_stmt =
    Outside string "string list"
  | From py_module "(string \<times> string) list"
  | FromStar py_module
  | Binds "string list"
  | Evaluates string "string list"
  | Exports "string list"
  | VersionCheck string string string string

section \<open>The files\<close>

definition components_add_replica_module :: "py_stmt list" where
  "components_add_replica_module =
     [Outside ''concurrent'' [''futures''],
      Outside ''gc'' [''disable''],
      Outside ''grpc'' [''grpc''],
      From M_generated [(''worker_service_pb2'', ''worker_service_pb2''), (''worker_service_pb2_grpc'',
        ''worker_service_pb2_grpc''), (''replica_service_pb2_grpc'', ''replica_service_pb2_grpc''),
        (''replica_service_pb2'', ''replica_service_pb2''), (''common_pb2'', ''common_pb2'')],
      Outside ''grpc'' [''grpc''],
      Outside ''time'' [''time''],
      Outside ''os'' [''os''],
      Outside ''argparse'' [''argparse''],
      From M_lib [(''model_config'', ''model_config'')],
      Outside ''signal'' [''signal''],
      Outside ''asyncio'' [''asyncio''],
      Outside ''torch'' [''torch''],
      Outside ''vllm'' [''AsyncLLMEngine'', ''SamplingParams''],
      Outside ''vllm.engine.arg_utils'' [''AsyncEngineArgs''],
      Outside ''vllm.utils'' [''random_uuid''],
      Outside ''requests'' [''requests''],
      Outside ''prometheus_client'' [''Histogram'', ''Counter'', ''REGISTRY'', ''start_http_server''],
      Outside ''aiohttp'' [''aiohttp''],
      Binds [''LATENCY_BUCKETS''],
      Evaluates ''Histogram'' [''REQUEST_LATENCY''],
      Evaluates ''Counter'' [''REQUEST_COUNT''],
      Evaluates ''Histogram'' [''FIRST_TOKEN_LATENCY''],
      Evaluates ''Histogram'' [''INTER_TOKEN_LATENCY''],
      Binds [''ReplicaManager'']]"

definition components_add_replica_vllm_module :: "py_stmt list" where
  "components_add_replica_vllm_module =
     [Outside ''concurrent'' [''futures''],
      Outside ''gc'' [''disable''],
      Outside ''grpc'' [''grpc''],
      From M_generated [(''worker_service_pb2'', ''worker_service_pb2''), (''worker_service_pb2_grpc'',
        ''worker_service_pb2_grpc''), (''replica_service_pb2_grpc'', ''replica_service_pb2_grpc''),
        (''replica_service_pb2'', ''replica_service_pb2''), (''common_pb2'', ''common_pb2'')],
      Outside ''grpc'' [''grpc''],
      Outside ''time'' [''time''],
      Outside ''os'' [''os''],
      Outside ''argparse'' [''argparse''],
      From M_lib [(''model_config'', ''model_config'')],
      Outside ''signal'' [''signal''],
      Outside ''asyncio'' [''asyncio''],
      Outside ''torch'' [''torch''],
      Outside ''vllm'' [''AsyncLLMEngine'', ''SamplingParams''],
      Outside ''vllm.engine.arg_utils'' [''AsyncEngineArgs''],
      Outside ''vllm.utils'' [''random_uuid''],
      Outside ''prometheus_client'' [''start_http_server'', ''Histogram'', ''Counter'', ''REGISTRY''],
      Outside ''requests'' [''requests''],
      Outside ''vllm.engine.metrics'' [''Metrics''],
      Evaluates ''Histogram'' [''REQUEST_LATENCY''],
      Evaluates ''Counter'' [''REQUEST_COUNT''],
      Evaluates ''Histogram'' [''FIRST_TOKEN_LATENCY''],
      Binds [''ReplicaManager'', ''main'']]"

definition components_headNode_head_controller_module :: "py_stmt list" where
  "components_headNode_head_controller_module =
     [From M_generated [(''headnode_service_pb2'', ''headnode_service_pb2''), (''headnode_service_pb2_grpc'',
        ''headnode_service_pb2_grpc''), (''worker_service_pb2_grpc'', ''worker_service_pb2_grpc''),
        (''worker_service_pb2'', ''worker_service_pb2'')],
      Outside ''subprocess'' [''subprocess''],
      From M_lib [(''ProxyManager'', ''ProxyManager''), (''DeploymentManager'', ''DeploymentManager''),
        (''HealthManager'', ''HealthManager''), (''AutoScaleManager'', ''AutoScaleManager''), (''NodeInfo'',
        ''NodeInfo''), (''AWSVMManager'', ''AWSVMManager'')],
      Outside ''asyncio'' [''asyncio''],
      Outside ''grpc'' [''grpc''],
      Outside ''typing'' [''Optional''],
      From M_lib_helpers [(''try_send_with_retries'', ''try_send_with_retries''), (''get_gcp_internal_ip'',
        ''get_gcp_internal_ip''), (''get_aws_internal_ip'', ''get_aws_internal_ip'')],
      From M_lib_utils [(''get_local_ip'', ''get_local_ip'')],
      Outside ''argparse'' [''argparse''],
      Outside ''concurrent'' [''futures''],
      Outside ''threading'' [''threading''],
      Binds [''HeadController'', ''main'']]"

definition components_headNode_http_proxy_module :: "py_stmt list" where
  "components_headNode_http_proxy_module =
     [Outside ''sys'' [''sys''],
      Outside ''os'' [''os''],
      Outside ''time'' [''time''],
      Outside ''argparse'' [''argparse''],
      Outside ''asyncio'' [''asyncio''],
      Outside ''uuid'' [''uuid''],
      Outside ''httpx'' [''httpx''],
      Outside ''grpc'' [''grpc''],
      Outside ''fastapi'' [''FastAPI'', ''Request'', ''HTTPException''],
      Outside ''fastapi.responses'' [''Response'', ''PlainTextResponse''],
      Outside ''starlette.responses'' [''StreamingResponse''],
      Outside ''uvicorn'' [''uvicorn''],
      Outside ''xml.dom.pulldom'' [''parseString''],
      From M_lib [(''local_metrics'', ''local_metrics'')],
      From M_generated [(''headnode_service_pb2'', ''headnode_service_pb2''), (''headnode_service_pb2_grpc'',
        ''headnode_service_pb2_grpc'')],
      From M_lib_proxy_manager [(''ProxyManager'', ''ProxyManager'')],
      From M_lib_deployment_manager [(''DeploymentManager'', ''DeploymentManager'')],
      From M_lib_health_manager [(''HealthManager'', ''HealthManager'')],
      From M_lib_deployment_handle [(''DeploymentHandle'', ''DeploymentHandle'')],
      From M_lib_configurations [(''proxy_ping_max_retries'', ''proxy_ping_max_retries''),
        (''proxy_ping_retry_delay'', ''proxy_ping_retry_delay'')],
      From M_generated [(''worker_service_pb2'', ''worker_service_pb2''), (''worker_service_pb2_grpc'',
        ''worker_service_pb2_grpc''), (''proxy_service_pb2'', ''proxy_service_pb2''),
        (''proxy_service_pb2_grpc'', ''proxy_service_pb2_grpc'')],
      From M_generated [(''common_pb2'', ''common_pb2'')],
      From M_lib_model_config [(''model_config_manager'', ''model_config_manager'')],
      Outside ''aioprometheus'' [''render''],
      Outside ''json'' [''json''],
      Outside ''base64'' [''base64''],
      Evaluates ''FastAPI'' [''app''],
      Binds [''http_proxy_instance'', ''grpc_server_instance'', ''HttpProxy'', ''metrics_endpoint'',
        ''handle_process_string_request'', ''MinimalHealthServicer'', ''start_uvicorn'', ''run_proxy_server'',
        ''main'']]"

definition components_scheduler_module :: "py_stmt list" where
  "components_scheduler_module =
     [Outside ''concurrent'' [''futures''],
      Outside ''grpc'' [''grpc''],
      From M_generated [(''headnode_service_pb2'', ''headnode_service_pb2''), (''worker_service_pb2'',
        ''worker_service_pb2''), (''worker_service_pb2_grpc'', ''worker_service_pb2_grpc''),
        (''headnode_service_pb2_grpc'', ''headnode_service_pb2_grpc''), (''replica_service_pb2_grpc'',
        ''replica_service_pb2_grpc''), (''common_pb2'', ''common_pb2'')],
      Outside ''torch'' [''torch''],
      Outside ''grpc'' [''grpc''],
      Outside ''subprocess'' [''subprocess''],
      Outside ''time'' [''time''],
      Outside ''os'' [''os''],
      From M_lib [(''configurations'', ''configurations''), (''FutureManager'', ''FutureManager''),
        (''Replica'', ''Replica'')],
      From M_lib_helpers [(''try_send_with_retries'', ''try_send_with_retries''),
        (''try_send_with_retries_sync'', ''try_send_with_retries_sync'')],
      Outside ''signal'' [''signal''],
      Outside ''asyncio'' [''asyncio''],
      Outside ''google.protobuf'' [''empty_pb2''],
      From M_lib_utils [(''get_local_ip'', ''get_local_ip'')],
      Evaluates ''asyncio.Lock'' [''replica_lock''],
      Binds [''node_id'', ''replica_num'', ''replica_registry''],
      Evaluates ''FutureManager'' [''replica_futures''],
      Binds [''_register_node'', ''HeadNodeManager'', ''serve'', ''main''],
      Evaluates ''asyncio.run'' []]"

definition generated_common_pb2_module :: "py_stmt list" where
  "generated_common_pb2_module =
     [Outside ''google.protobuf'' [''_descriptor''],
      Outside ''google.protobuf'' [''_descriptor_pool''],
      Outside ''google.protobuf'' [''_symbol_database''],
      Outside ''google.protobuf.internal'' [''_builder''],
      Evaluates ''_symbol_database.Default'' [''_sym_db''],
      Outside ''google.protobuf'' [''google_dot_protobuf_dot_empty__pb2''],
      Evaluates ''_descriptor_pool.Default().AddSerializedFile'' [''DESCRIPTOR''],
      Evaluates ''globals'' [''_globals''],
      Evaluates ''_builder.BuildMessageAndEnumDescriptors'' [],
      Evaluates ''_builder.BuildTopDescriptorsAndMessages'' []]"

definition generated_common_pb2_grpc_module :: "py_stmt list" where
  "generated_common_pb2_grpc_module =
     [Outside ''grpc'' [''grpc''],
      Outside ''warnings'' [''warnings''],
      From M_generated [(''common_pb2'', ''common__pb2'')],
      Outside ''google.protobuf'' [''google_dot_protobuf_dot_empty__pb2''],
      Binds [''GRPC_GENERATED_VERSION'', ''GRPC_VERSION'', ''EXPECTED_ERROR_RELEASE'',
        ''SCHEDULED_RELEASE_DATE'', ''_version_not_supported''],
      VersionCheck ''1.64.1'' ''1.65.0'' ''June 25, 2024'' ''common_pb2_grpc.py'',
      Binds [''HeartbeatServiceStub'', ''HeartbeatServiceServicer'',
        ''add_HeartbeatServiceServicer_to_server'', ''HeartbeatService'']]"

definition generated_headnode_service_pb2_module :: "py_stmt list" where
  "generated_headnode_service_pb2_module =
     [Outside ''google.protobuf'' [''_descriptor''],
      Outside ''google.protobuf'' [''_descriptor_pool''],
      Outside ''google.protobuf'' [''_symbol_database''],
      Outside ''google.protobuf.internal'' [''_builder''],
      Evaluates ''_symbol_database.Default'' [''_sym_db''],
      Outside ''google.protobuf'' [''google_dot_protobuf_dot_empty__pb2''],
      From M_generated [(''common_pb2'', ''common__pb2'')],
      Evaluates ''_descriptor_pool.Default().AddSerializedFile'' [''DESCRIPTOR''],
      Evaluates ''globals'' [''_globals''],
      Evaluates ''_builder.BuildMessageAndEnumDescriptors'' [],
      Evaluates ''_builder.BuildTopDescriptorsAndMessages'' []]"

definition generated_headnode_service_pb2_grpc_module :: "py_stmt list" where
  "generated_headnode_service_pb2_grpc_module =
     [Outside ''grpc'' [''grpc''],
      Outside ''warnings'' [''warnings''],
      From M_generated [(''headnode_service_pb2'', ''headnode__service__pb2'')],
      Binds [''GRPC_GENERATED_VERSION'', ''GRPC_VERSION'', ''EXPECTED_ERROR_RELEASE'',
        ''SCHEDULED_RELEASE_DATE'', ''_version_not_supported''],
      VersionCheck ''1.64.1'' ''1.65.0'' ''June 25, 2024'' ''headnode_service_pb2_grpc.py'',
      Binds [''WorkerManagementServiceStub'', ''WorkerManagementServiceServicer'',
        ''add_WorkerManagementServiceServicer_to_server'', ''WorkerManagementService'',
        ''ProxyManagementServiceStub'', ''ProxyManagementServiceServicer'',
        ''add_ProxyManagementServiceServicer_to_server'', ''ProxyManagementService'']]"

definition generated_proxy_service_pb2_module :: "py_stmt list" where
  "generated_proxy_service_pb2_module =
     [Outside ''google.protobuf'' [''_descriptor''],
      Outside ''google.protobuf'' [''_descriptor_pool''],
      Outside ''google.protobuf'' [''_symbol_database''],
      Outside ''google.protobuf.internal'' [''_builder''],
      Evaluates ''_symbol_database.Default'' [''_sym_db''],
      From M_generated [(''common_pb2'', ''common__pb2'')],
      Outside ''google.protobuf'' [''google_dot_protobuf_dot_empty__pb2''],
      Evaluates ''_descriptor_pool.Default().AddSerializedFile'' [''DESCRIPTOR''],
      Evaluates ''globals'' [''_globals''],
      Evaluates ''_builder.BuildMessageAndEnumDescriptors'' [],
      Evaluates ''_builder.BuildTopDescriptorsAndMessages'' []]"

definition generated_proxy_service_pb2_grpc_module :: "py_stmt list" where
  "generated_proxy_service_pb2_grpc_module =
     [Outside ''grpc'' [''grpc''],
      Outside ''warnings'' [''warnings''],
      From M_generated [(''common_pb2'', ''common__pb2'')],
      Outside ''google.protobuf'' [''google_dot_protobuf_dot_empty__pb2''],
      Binds [''GRPC_GENERATED_VERSION'', ''GRPC_VERSION'', ''EXPECTED_ERROR_RELEASE'',
        ''SCHEDULED_RELEASE_DATE'', ''_version_not_supported''],
      VersionCheck ''1.64.1'' ''1.65.0'' ''June 25, 2024'' ''proxy_service_pb2_grpc.py'',
      Binds [''HealthServiceStub'', ''HealthServiceServicer'', ''add_HealthServiceServicer_to_server'',
        ''HealthService'']]"

definition generated_replica_service_pb2_module :: "py_stmt list" where
  "generated_replica_service_pb2_module =
     [Outside ''google.protobuf'' [''_descriptor''],
      Outside ''google.protobuf'' [''_descriptor_pool''],
      Outside ''google.protobuf'' [''_symbol_database''],
      Outside ''google.protobuf.internal'' [''_builder''],
      Evaluates ''_symbol_database.Default'' [''_sym_db''],
      Outside ''google.protobuf'' [''google_dot_protobuf_dot_empty__pb2''],
      From M_generated [(''common_pb2'', ''common__pb2'')],
      Evaluates ''_descriptor_pool.Default().AddSerializedFile'' [''DESCRIPTOR''],
      Evaluates ''globals'' [''_globals''],
      Evaluates ''_builder.BuildMessageAndEnumDescriptors'' [],
      Evaluates ''_builder.BuildTopDescriptorsAndMessages'' []]"

definition generated_replica_service_pb2_grpc_module :: "py_stmt list" where
  "generated_replica_service_pb2_grpc_module =
     [Outside ''grpc'' [''grpc''],
      Outside ''warnings'' [''warnings''],
      From M_generated [(''common_pb2'', ''common__pb2'')],
      Outside ''google.protobuf'' [''google_dot_protobuf_dot_empty__pb2''],
      From M_generated [(''replica_service_pb2'', ''replica__service__pb2'')],
      Binds [''GRPC_GENERATED_VERSION'', ''GRPC_VERSION'', ''EXPECTED_ERROR_RELEASE'',
        ''SCHEDULED_RELEASE_DATE'', ''_version_not_supported''],
      VersionCheck ''1.64.1'' ''1.65.0'' ''June 25, 2024'' ''replica_service_pb2_grpc.py'',
      Binds [''WorkerServiceStub'', ''WorkerServiceServicer'', ''add_WorkerServiceServicer_to_server'',
        ''WorkerService'']]"

definition generated_worker_service_pb2_module :: "py_stmt list" where
  "generated_worker_service_pb2_module =
     [Outside ''google.protobuf'' [''_descriptor''],
      Outside ''google.protobuf'' [''_descriptor_pool''],
      Outside ''google.protobuf'' [''_symbol_database''],
      Outside ''google.protobuf.internal'' [''_builder''],
      Evaluates ''_symbol_database.Default'' [''_sym_db''],
      Outside ''google.protobuf'' [''google_dot_protobuf_dot_empty__pb2''],
      From M_generated [(''common_pb2'', ''common__pb2'')],
      Evaluates ''_descriptor_pool.Default().AddSerializedFile'' [''DESCRIPTOR''],
      Evaluates ''globals'' [''_globals''],
      Evaluates ''_builder.BuildMessageAndEnumDescriptors'' [],
      Evaluates ''_builder.BuildTopDescriptorsAndMessages'' []]"

definition generated_worker_service_pb2_grpc_module :: "py_stmt list" where
  "generated_worker_service_pb2_grpc_module =
     [Outside ''grpc'' [''grpc''],
      Outside ''warnings'' [''warnings''],
      From M_generated [(''common_pb2'', ''common__pb2'')],
      Outside ''google.protobuf'' [''google_dot_protobuf_dot_empty__pb2''],
      From M_generated [(''worker_service_pb2'', ''worker__service__pb2'')],
      Binds [''GRPC_GENERATED_VERSION'', ''GRPC_VERSION'', ''EXPECTED_ERROR_RELEASE'',
        ''SCHEDULED_RELEASE_DATE'', ''_version_not_supported''],
      VersionCheck ''1.64.1'' ''1.65.0'' ''June 25, 2024'' ''worker_service_pb2_grpc.py'',
      Binds [''ReplicaServiceStub'', ''ReplicaServiceServicer'', ''add_ReplicaServiceServicer_to_server'',
        ''ReplicaService'', ''HeadNodeServiceStub'', ''HeadNodeServiceServicer'',
        ''add_HeadNodeServiceServicer_to_server'', ''HeadNodeService'']]"

definition lib_module :: "py_stmt list" where
  "lib_module =
     [From M_lib_proxy_manager [(''ProxyManager'', ''ProxyManager'')],
      From M_lib_deployment_manager [(''DeploymentManager'', ''DeploymentManager'')],
      From M_lib_deployment_handle [(''DeploymentHandle'', ''DeploymentHandle'')],
      From M_lib_health_manager [(''HealthManager'', ''HealthManager'')],
      From M_lib_headstore_client [(''HeadStoreClient'', ''HeadStoreClient'')],
      From M_lib_autoscale_manager [(''AutoScaleManager'', ''AutoScaleManager'')],
      From M_lib_node_info [(''NodeInfo'', ''NodeInfo'')],
      From M_lib [(''helpers'', ''helpers'')],
      From M_lib_future_manager [(''FutureManager'', ''FutureManager'')],
      From M_lib [(''configurations'', ''configurations'')],
      From M_lib_replica [(''Replica'', ''Replica'')],
      From M_lib [(''model_config'', ''model_config'')],
      From M_lib [(''utils'', ''utils'')],
      From M_lib [(''logging_config'', ''logging_config'')],
      FromStar M_lib_cloud_vm,
      From M_lib [(''local_metrics'', ''local_metrics'')],
      Exports [''ProxyManager'', ''DeploymentManager'', ''DeploymentHandle'', ''HealthManager'',
        ''HeadStoreClient'', ''helpers'', ''FutureManager'', ''configurations'', ''AutoScaleManager'',
        ''Replica'', ''model_config'', ''NodeInfo'', ''utils'', ''logging_config'', ''VMManager'',
        ''AWSVMManager'', ''local_metrics'']]"

definition lib_autoscale_manager_module :: "py_stmt list" where
  "lib_autoscale_manager_module =
     [Outside ''dataclasses'' [''dataclass''],
      Outside ''collections'' [''defaultdict''],
      Outside ''httpx'' [''head''],
      From M_generated [(''headnode_service_pb2'', ''headnode_service_pb2''), (''headnode_service_pb2_grpc'',
        ''headnode_service_pb2_grpc''), (''worker_service_pb2_grpc'', ''worker_service_pb2_grpc'')],
      Outside ''typing'' [''List''],
      Outside ''logging'' [''logging''],
      Evaluates ''logging.basicConfig'' [],
      Evaluates ''logging.getLogger'' [''logger''],
      Outside ''asyncio'' [''asyncio''],
      Binds [''Replica'', ''AutoScaleManager'']]"

definition lib_cloud_vm_module :: "py_stmt list" where
  "lib_cloud_vm_module =
     [From M_lib_cloud_vm_vm_manager [(''VMManager'', ''VMManager'')],
      From M_lib_cloud_vm_aws_vm_manager [(''AWSVMManager'', ''AWSVMManager'')],
      Exports [''VMManager'', ''AWSVMManager'']]"

definition lib_cloud_vm_aws_vm_manager_module :: "py_stmt list" where
  "lib_cloud_vm_aws_vm_manager_module =
     [Outside ''logging'' [''logging''],
      Outside ''time'' [''time''],
      Outside ''typing'' [''Dict'', ''Optional''],
      Outside ''boto3'' [''boto3''],
      Outside ''botocore.exceptions'' [''ClientError'', ''WaiterError''],
      From M_lib_cloud_vm_vm_config_aws [(''get_vm_profile_for_model'', ''get_vm_profile_for_model'')],
      Evaluates ''logging.getLogger'' [''logger''],
      Binds [''AWSVMManager'']]"

definition lib_cloud_vm_vm_config_module :: "py_stmt list" where
  "lib_cloud_vm_vm_config_module =
     [Outside ''typing'' [''Dict'', ''Optional''],
      Outside ''dataclasses'' [''dataclass''],
      Outside ''enum'' [''Enum''],
      Binds [''GPUType'', ''MachineType'', ''VMProfile''],
      Evaluates ''VMProfile'' [''VM_PROFILES''],
      Binds [''MODEL_PROFILES'', ''get_vm_profile_for_model'', ''get_vm_profile'', ''list_available_profiles'',
        ''list_model_profiles'']]"

definition lib_cloud_vm_vm_config_aws_module :: "py_stmt list" where
  "lib_cloud_vm_vm_config_aws_module =
     [Outside ''dataclasses'' [''dataclass'', ''field''],
      Outside ''typing'' [''List'', ''Dict'', ''Optional''],
      Binds [''VMProfile''],
      Evaluates ''VMProfile'' [''VM_PROFILES''],
      Binds [''MODEL_PROFILES'', ''get_vm_profile_for_model'']]"

definition lib_cloud_vm_vm_manager_module :: "py_stmt list" where
  "lib_cloud_vm_vm_manager_module =
     [Outside ''logging'' [''logging''],
      Outside ''typing'' [''Dict'', ''Optional''],
      Outside ''time'' [''time''],
      Outside ''google.cloud'' [''compute_v1''],
      Outside ''google.cloud.compute_v1.services.instances'' [''instances_client''],
      Outside ''google.cloud.compute_v1.types'' [''Instance''],
      Outside ''google.api_core'' [''exceptions''],
      From M_lib_logging_config [(''setup_logger'', ''setup_logger'')],
      From M_lib_cloud_vm_vm_config [(''VMProfile'', ''VMProfile''), (''get_vm_profile_for_model'',
        ''get_vm_profile_for_model'')],
      Evaluates ''setup_logger'' [''vm_manager_logger''],
      Binds [''logger'', ''VMManager'']]"

definition lib_configurations_module :: "py_stmt list" where
  "lib_configurations_module =
     [Binds [''head_store_timeout'', ''head_store_max_retries'', ''head_store_retry_delay'',
        ''scheduler_replica_heartbeat_interval_seconds'', ''scheduler_health_update_interval'',
        ''worker_ping_timeout'', ''worker_ping_max_retries'', ''worker_ping_retry_delay'',
        ''proxy_ping_timeout'', ''proxy_ping_max_retries'', ''proxy_ping_retry_delay'',
        ''proxy_ping_interval'', ''proxy_heartbeat_interval'', ''min_queue_size'', ''max_queue_size'',
        ''worker_ping_interval'', ''autoscaling_interval'', ''scheduling_interval'']]"

definition lib_deployment_handle_module :: "py_stmt list" where
  "lib_deployment_handle_module =
     [Outside ''typing'' [''List'', ''Optional''],
      Outside ''random'' [''random''],
      Outside ''asyncio'' [''asyncio''],
      Outside ''grpc'' [''grpc''],
      Outside ''dataclasses'' [''dataclass''],
      From M_generated [(''worker_service_pb2'', ''worker_service_pb2''), (''worker_service_pb2_grpc'',
        ''worker_service_pb2_grpc''), (''replica_service_pb2'', ''replica_service_pb2''),
        (''replica_service_pb2_grpc'', ''replica_service_pb2_grpc'')],
      From M_lib_helpers [(''try_send_with_retries'', ''try_send_with_retries''), (''send_with_delay'',
        ''send_with_delay'')],
      Outside ''time'' [''time''],
      Binds [''ReplicaInfo'', ''DeploymentHandle'']]"

definition lib_deployment_manager_module :: "py_stmt list" where
  "lib_deployment_manager_module =
     [Outside ''asyncio'' [''asyncio''],
      Outside ''time'' [''time''],
      Outside ''logging'' [''logging''],
      Outside ''dataclasses'' [''dataclass'', ''field''],
      Outside ''typing'' [''Dict'', ''List'', ''Optional'', ''Literal''],
      From M_generated [(''headnode_service_pb2'', ''headnode_service_pb2''), (''worker_service_pb2'',
        ''worker_service_pb2'')],
      FromStar M_lib_configurations,
      Binds [''ReplicaStateName'', ''ReplicaInfo'', ''DeploymentHandle'', ''DeploymentManager'']]"

definition lib_deployment_scheduler_module :: "py_stmt list" where
  "lib_deployment_scheduler_module =
     [Outside ''asyncio'' [''asyncio''],
      FromStar M_lib_configurations,
      Binds [''DeploymentScheduler'']]"

definition lib_future_manager_module :: "py_stmt list" where
  "lib_future_manager_module =
     [Outside ''asyncio'' [''asyncio''],
      Outside ''typing'' [''Dict'', ''Any''],
      Binds [''FutureManager'']]"

definition lib_headstore_client_module :: "py_stmt list" where
  "lib_headstore_client_module =
     [Outside ''asyncio'' [''asyncio''],
      Outside ''grpc'' [''grpc''],
      Outside ''typing'' [''Dict'', ''Any''],
      From M_generated [(''headnode_service_pb2'', ''headnode_service_pb2''), (''headnode_service_pb2_grpc'',
        ''headnode_service_pb2_grpc'')],
      Outside ''configurations'' [''configurations''],
      Outside ''time'' [''time''],
      Outside ''os'' [''os''],
      Outside ''signal'' [''signal''],
      Binds [''HeadStoreClient'']]"

definition lib_health_manager_module :: "py_stmt list" where
  "lib_health_manager_module =
     [From M_generated [(''headnode_service_pb2'', ''headnode_service_pb2'')],
      Outside ''asyncio'' [''asyncio''],
      FromStar M_lib_configurations,
      Outside ''google.protobuf.empty_pb2'' [''Empty''],
      From M_lib_logging_config [(''health_logger'', ''health_logger'')],
      Binds [''HealthManager'']]"

definition lib_helpers_module :: "py_stmt list" where
  "lib_helpers_module =
     [Outside ''time'' [''time''],
      Outside ''grpc'' [''grpc''],
      Outside ''asyncio'' [''asyncio''],
      Outside ''requests'' [''requests''],
      Outside ''logging'' [''logging''],
      Outside ''random'' [''random''],
      Outside ''urllib'' [''request'', ''error''],
      Binds [''try_send_with_retries'', ''try_send_with_retries_sync'', ''send_with_delay'',
        ''get_gcp_internal_ip'', ''get_aws_internal_ip'']]"

definition lib_logging_config_module :: "py_stmt list" where
  "lib_logging_config_module =
     [Outside ''logging'' [''logging''],
      Outside ''sys'' [''sys''],
      Outside ''os'' [''os''],
      Binds [''setup_logger''],
      Evaluates ''os.makedirs'' [],
      Evaluates ''setup_logger'' [''headcontroller_logger''],
      Evaluates ''setup_logger'' [''proxymanager_logger''],
      Evaluates ''setup_logger'' [''deployment_logger''],
      Evaluates ''setup_logger'' [''health_logger''],
      Evaluates ''setup_logger'' [''autoscale_logger''],
      Evaluates ''setup_logger'' [''nodeinfo_logger'']]"

definition lib_model_config_module :: "py_stmt list" where
  "lib_model_config_module =
     [Outside ''json'' [''json''],
      Outside ''os'' [''os''],
      Outside ''typing'' [''Dict'', ''Optional''],
      Outside ''dataclasses'' [''dataclass''],
      Binds [''ModelConfig''],
      Evaluates ''ModelConfig'' [''MODEL_CONFIGS''],
      Binds [''ModelConfigManager''],
      Evaluates ''ModelConfigManager'' [''model_config_manager''],
      Binds [''get_model_config_by_endpoint'', ''get_huggingface_model_id'', ''get_deployment_name'',
        ''list_available_models'']]"

definition lib_node_info_module :: "py_stmt list" where
  "lib_node_info_module =
     [From M_generated [(''worker_service_pb2_grpc'', ''worker_service_pb2_grpc''), (''headnode_service_pb2'',
        ''headnode_service_pb2'')],
      Outside ''collections'' [''defaultdict''],
      Outside ''asyncio'' [''asyncio''],
      Outside ''grpc'' [''grpc''],
      Outside ''dataclasses'' [''dataclass''],
      Binds [''Node'', ''NodeInfo'']]"

definition lib_proxy_manager_module :: "py_stmt list" where
  "lib_proxy_manager_module =
     [Outside ''subprocess'' [''subprocess''],
      Outside ''asyncio'' [''asyncio''],
      Outside ''grpc'' [''grpc''],
      From M_generated [(''proxy_service_pb2'', ''proxy_service_pb2''), (''proxy_service_pb2_grpc'',
        ''proxy_service_pb2_grpc'')],
      From M_lib_helpers [(''try_send_with_retries'', ''try_send_with_retries'')],
      From M_lib_configurations [(''proxy_heartbeat_interval'', ''proxy_heartbeat_interval'')],
      Outside ''google.protobuf'' [''empty_pb2''],
      Outside ''os'' [''os''],
      Binds [''ProxyManager'']]"

definition lib_replica_module :: "py_stmt list" where
  "lib_replica_module =
     [Outside ''asyncio'' [''asyncio''],
      Outside ''grpc'' [''grpc''],
      Outside ''typing'' [''Dict'', ''Any''],
      Outside ''collections'' [''deque''],
      Outside ''grpc'' [''StatusCode''],
      From M_lib [(''FutureManager'', ''FutureManager'')],
      From M_generated [(''headnode_service_pb2'', ''headnode_service_pb2''), (''worker_service_pb2'',
        ''worker_service_pb2''), (''replica_service_pb2'', ''replica_service_pb2'')],
      Binds [''Replica'']]"

definition lib_utils_module :: "py_stmt list" where
  "lib_utils_module =
     [Outside ''socket'' [''socket''],
      Outside ''socket'' [''AF_INET'', ''SOCK_DGRAM''],
      Binds [''get_local_ip'']]"

text \<open>The file of each module.\<close>

fun repository :: "py_module \<Rightarrow> py_stmt list option" where
  "repository M_src = Some []"
| "repository M_components = Some []"
| "repository M_components_add_replica = Some components_add_replica_module"
| "repository M_components_add_replica_vllm = Some components_add_replica_vllm_module"
| "repository M_components_headNode = Some []"
| "repository M_components_headNode_head_controller = Some components_headNode_head_controller_module"
| "repository M_components_headNode_http_proxy = Some components_headNode_http_proxy_module"
| "repository M_components_scheduler = Some components_scheduler_module"
| "repository M_generated = Some []"
| "repository M_generated_common_pb2 = Some generated_common_pb2_module"
| "repository M_generated_common_pb2_grpc = Some generated_common_pb2_grpc_module"
| "repository M_generated_headnode_service_pb2 = Some generated_headnode_service_pb2_module"
| "repository M_generated_headnode_service_pb2_grpc = Some generated_headnode_service_pb2_grpc_module"
| "repository M_generated_proxy_service_pb2 = Some generated_proxy_service_pb2_module"
| "repository M_generated_proxy_service_pb2_grpc = Some generated_proxy_service_pb2_grpc_module"
| "repository M_generated_replica_service_pb2 = Some generated_replica_service_pb2_module"
| "repository M_generated_replica_service_pb2_grpc = Some generated_replica_service_pb2_grpc_module"
| "repository M_generated_worker_service_pb2 = Some generated_worker_service_pb2_module"
| "repository M_generated_worker_service_pb2_grpc = Some generated_worker_service_pb2_grpc_module"
| "repository M_lib = Some lib_module"
| "repository M_lib_autoscale_manager = Some lib_autoscale_manager_module"
| "repository M_lib_cloud_vm = Some lib_cloud_vm_module"
| "repository M_lib_cloud_vm_aws_vm_manager = Some lib_cloud_vm_aws_vm_manager_module"
| "repository M_lib_cloud_vm_vm_config = Some lib_cloud_vm_vm_config_module"
| "repository M_lib_cloud_vm_vm_config_aws = Some lib_cloud_vm_vm_config_aws_module"
| "repository M_lib_cloud_vm_vm_manager = Some lib_cloud_vm_vm_manager_module"
| "repository M_lib_configurations = Some lib_configurations_module"
| "repository M_lib_deployment_handle = Some lib_deployment_handle_module"
| "repository M_lib_deployment_manager = Some lib_deployment_manager_module"
| "repository M_lib_deployment_scheduler = Some lib_deployment_scheduler_module"
| "repository M_lib_future_manager = Some lib_future_manager_module"
| "repository M_lib_headstore_client = Some lib_headstore_client_module"
| "repository M_lib_health_manager = Some lib_health_manager_module"
| "repository M_lib_helpers = Some lib_helpers_module"
| "repository M_lib_local_metrics = None"
| "repository M_lib_logging_config = Some lib_logging_config_module"
| "repository M_lib_model_config = Some lib_model_config_module"
| "repository M_lib_node_info = Some lib_node_info_module"
| "repository M_lib_proxy_manager = Some lib_proxy_manager_module"
| "repository M_lib_replica = Some lib_replica_module"
| "repository M_lib_utils = Some lib_utils_module"

lemmas module_defs =
  components_add_replica_module_def components_add_replica_vllm_module_def
  components_headNode_head_controller_module_def components_headNode_http_proxy_module_def
  components_scheduler_module_def generated_common_pb2_module_def generated_common_pb2_grpc_module_def
  generated_headnode_service_pb2_module_def generated_headnode_service_pb2_grpc_module_def
  generated_proxy_service_pb2_module_def generated_proxy_service_pb2_grpc_module_def
  generated_replica_service_pb2_module_def generated_replica_service_pb2_grpc_module_def
  generated_worker_service_pb2_module_def generated_worker_service_pb2_grpc_module_def lib_module_def
  lib_autoscale_manager_module_def lib_cloud_vm_module_def lib_cloud_vm_aws_vm_manager_module_def
  lib_cloud_vm_vm_config_module_def lib_cloud_vm_vm_config_aws_module_def
  lib_cloud_vm_vm_manager_module_def lib_configurations_module_def lib_deployment_handle_module_def
  lib_deployment_manager_module_def lib_deployment_scheduler_module_def lib_future_manager_module_def
  lib_headstore_client_module_def lib_health_manager_module_def lib_helpers_module_def
  lib_logging_config_module_def lib_model_config_module_def lib_node_info_module_def
  lib_proxy_manager_module_def lib_replica_module_def lib_utils_module_def

end
