(* ===== verification/Imports.thy ===== *)
theory Imports
  imports ModuleSources
begin

text \<open>
  Whether the programs of the repository start at all: Python's import system on the import statements of
  \<open>ModuleSources\<close>.  A module that is being imported is in \<open>sys.modules\<close> with the names it has bound so far,
  so a cycle (\<open>src.lib\<close> imports \<open>src.lib.replica\<close>, which imports from \<open>src.lib\<close>) works if the names it
  needs are already there.  Which modules outside of the repository are installed is a parameter; an
  installed one has whatever names are imported from it.
\<close>

section \<open>The import system\<close>

text \<open>
  The environment: the files, what is installed beside them, what the calls at the top level raise, if
  anything (for the statement of a module), the installed version of gRPC, and \<open>first_version_is_lower\<close> of
  \<open>grpc._utilities\<close>, if that version has it.
\<close>

record environment =
  ev_file :: "py_module \<Rightarrow> py_stmt list option"
  ev_installed :: "string \<Rightarrow> bool"
  ev_call :: "py_module \<times> nat \<Rightarrow> exn option"
  ev_grpc_version :: string
  ev_first_version_is_lower :: "(string \<Rightarrow> string \<Rightarrow> bool) option"

text \<open>
  The modules that are being imported, innermost first, with the number of their statements that are
  done, and the modules that are imported; together they are \<open>sys.modules\<close>.
\<close>

record importer =
  im_running :: "(py_module \<times> nat) list"
  im_imported :: "py_module list"
  im_warnings :: "string list"

datatype import_error =
    ModuleNotFoundError string
  | ImportError string py_module
  | StarOutOfScope py_module
  | CallRaised string exn
  | OutOfFuel

definition loaded :: "importer \<Rightarrow> py_module \<Rightarrow> bool" where
  "loaded st m \<longleftrightarrow> m \<in> set (im_imported st) \<or> m \<in> fst ` set (im_running st)"

definition statements :: "environment \<Rightarrow> py_module \<Rightarrow> py_stmt list" where
  "statements env m = (case ev_file env m of None \<Rightarrow> [] | Some stmts \<Rightarrow> stmts)"

text \<open>The names a statement binds in its module; a star import takes \<open>__all__\<close> or the public names.\<close>

fun exports_of :: "py_stmt list \<Rightarrow> string list option" where
  "exports_of [] = None"
| "exports_of (s # rest) = (case s of Exports ns \<Rightarrow> Some ns | _ \<Rightarrow> exports_of rest)"

fun own_names :: "py_stmt \<Rightarrow> string list" where
  "own_names (Outside m ns) = ns"
| "own_names (From m ns) = map snd ns"
| "own_names (FromStar m) = []"
| "own_names (Binds ns) = ns"
| "own_names (Evaluates f ns) = ns"
| "own_names (Exports ns) = [''__all__'']"
| "own_names (VersionCheck g r d f) = []"

fun is_star :: "py_stmt \<Rightarrow> bool" where
  "is_star (FromStar m) = True"
| "is_star _ = False"

definition public :: "string \<Rightarrow> bool" where
  "public n \<longleftrightarrow> n = [] \<or> hd n \<noteq> CHR ''_''"

definition star_names :: "environment \<Rightarrow> py_module \<Rightarrow> string list" where
  "star_names env m =
     (case exports_of (statements env m) of
        Some ns \<Rightarrow> ns
      | None \<Rightarrow> filter public (concat (map own_names (statements env m))))"

fun bound_names :: "environment \<Rightarrow> py_stmt list \<Rightarrow> string list" where
  "bound_names env [] = []"
| "bound_names env (s # rest) =
     (case s of FromStar m \<Rightarrow> star_names env m | _ \<Rightarrow> own_names s) @ bound_names env rest"

definition names_of :: "environment \<Rightarrow> importer \<Rightarrow> py_module \<Rightarrow> string list" where
  "names_of env st m =
     (case map_of (im_running st) m of
        None \<Rightarrow> bound_names env (statements env m)
      | Some k \<Rightarrow> bound_names env (take k (statements env m)))"

text \<open>A name of a module that is in \<open>sys.modules\<close>, or a submodule that is.\<close>

definition available :: "environment \<Rightarrow> importer \<Rightarrow> py_module \<Rightarrow> string \<Rightarrow> bool" where
  "available env st m a \<longleftrightarrow>
     (case map_of (submodules m) a of
        None \<Rightarrow> a \<in> set (names_of env st m)
      | Some s \<Rightarrow> loaded st s \<or> a \<in> set (names_of env st m))"

text \<open>The check at the top of the generated gRPC modules, which warns and goes on.\<close>

definition version_warning :: "string \<Rightarrow> string \<Rightarrow> string \<Rightarrow> string \<Rightarrow> string \<Rightarrow> string" where
  "version_warning installed generated release date file =
     ''The grpc package installed is at version '' @ installed @ '','' @
     '' but the generated code in '' @ file @ '' depends on'' @
     '' grpcio>='' @ generated @ ''.'' @
     '' Please upgrade your grpc module to grpcio>='' @ generated @
     '' or downgrade your generated code using grpcio-tools<='' @ installed @ ''.'' @
     '' This warning will become an error in '' @ release @ '','' @
     '' scheduled for release on '' @ date @ ''.''"

definition check_version :: "environment \<Rightarrow> string \<Rightarrow> string \<Rightarrow> string \<Rightarrow> string \<Rightarrow> importer \<Rightarrow> importer" where
  "check_version env generated release date file st =
     (let version_not_supported =
            (case ev_first_version_is_lower env of None \<Rightarrow> True | Some lower \<Rightarrow> lower (ev_grpc_version env) generated)
      in if version_not_supported
         then st\<lparr>im_warnings := im_warnings st @ [version_warning (ev_grpc_version env) generated release date file]\<rparr>
         else st)"

text \<open>
  One step of the innermost module.  A statement that needs modules that are not loaded starts the first
  of them and is looked at again when that is imported.
\<close>

definition start_module :: "environment \<Rightarrow> py_module \<Rightarrow> importer \<Rightarrow> import_error + importer" where
  "start_module env m st =
     (case ev_file env m of
        None \<Rightarrow> Inl (ModuleNotFoundError (dotted_name m))
      | Some stmts \<Rightarrow> Inr (st\<lparr>im_running := (m, 0) # im_running st\<rparr>))"

definition advance :: "importer \<Rightarrow> importer" where
  "advance st =
     (case im_running st of [] \<Rightarrow> st | (m, k) # rest \<Rightarrow> st\<lparr>im_running := (m, Suc k) # rest\<rparr>)"

definition finish_module :: "importer \<Rightarrow> importer" where
  "finish_module st =
     (case im_running st of
        [] \<Rightarrow> st
      | (m, k) # rest \<Rightarrow> st\<lparr>im_running := rest, im_imported := m # im_imported st\<rparr>)"

definition take_names :: "environment \<Rightarrow> py_module \<Rightarrow> string list \<Rightarrow> importer \<Rightarrow> import_error + importer" where
  "take_names env m ns st =
     (case filter (\<lambda>p. \<not> loaded st p) (packages m) of
        p # _ \<Rightarrow> start_module env p st
      | [] \<Rightarrow>
          (case filter (\<lambda>a. \<not> available env st m a) ns of
             [] \<Rightarrow> Inr (advance st)
           | a # _ \<Rightarrow>
               (case map_of (submodules m) a of
                  None \<Rightarrow> Inl (ImportError a m)
                | Some s \<Rightarrow> if ev_file env s = None then Inl (ImportError a m) else start_module env s st)))"

definition execute :: "environment \<Rightarrow> py_stmt \<Rightarrow> importer \<Rightarrow> import_error + importer" where
  "execute env s st =
     (case s of
        Outside m ns \<Rightarrow> if ev_installed env m then Inr (advance st) else Inl (ModuleNotFoundError m)
      | From m ns \<Rightarrow> take_names env m (map fst ns) st
      | FromStar m \<Rightarrow>
          if m \<in> fst ` set (im_running st) \<or>
             exports_of (statements env m) = None \<and> list_ex is_star (statements env m)
          then Inl (StarOutOfScope m)
          else take_names env m (case exports_of (statements env m) of None \<Rightarrow> [] | Some ns \<Rightarrow> ns) st
      | Binds ns \<Rightarrow> Inr (advance st)
      | Evaluates f ns \<Rightarrow>
          (case ev_call env (hd (im_running st)) of None \<Rightarrow> Inr (advance st) | Some e \<Rightarrow> Inl (CallRaised f e))
      | Exports ns \<Rightarrow> Inr (advance st)
      | VersionCheck generated release date file \<Rightarrow> Inr (advance (check_version env generated release date file st)))"

definition import_step :: "environment \<Rightarrow> importer \<Rightarrow> import_error + importer" where
  "import_step env st =
     (case im_running st of
        [] \<Rightarrow> Inr st
      | (m, k) # rest \<Rightarrow>
          if k < length (statements env m) then execute env (statements env m ! k) st
          else Inr (finish_module st))"

primrec run_imports :: "nat \<Rightarrow> environment \<Rightarrow> importer \<Rightarrow> import_error + importer" where
  "run_imports 0 env st = (if im_running st = [] then Inr st else Inl OutOfFuel)"
| "run_imports (Suc n) env st =
     (if im_running st = [] then Inr st
      else case import_step env st of Inl e \<Rightarrow> Inl e | Inr st' \<Rightarrow> run_imports n env st')"

text \<open>The steps that are enough: every module is started and finished once, every statement done once.\<close>

definition import_fuel :: "environment \<Rightarrow> nat" where
  "import_fuel env = sum_list (map (\<lambda>m. length (statements env m) + 2) all_modules)"

fun import_all :: "environment \<Rightarrow> py_module list \<Rightarrow> importer \<Rightarrow> import_error + importer" where
  "import_all env [] st = Inr st"
| "import_all env (m # ms) st =
     (if loaded st m then import_all env ms st
      else case start_module env m st of
             Inl e \<Rightarrow> Inl e
           | Inr st1 \<Rightarrow>
               (case run_imports (import_fuel env) env st1 of
                  Inl e \<Rightarrow> Inl e
                | Inr st2 \<Rightarrow> import_all env ms st2))"

definition import_module :: "environment \<Rightarrow> py_module \<Rightarrow> import_error + importer" where
  "import_module env m = import_all env (packages m) \<lparr>im_running = [], im_imported = [], im_warnings = []\<rparr>"

text \<open>The programs: what the containers and the C++ replica server import or run.\<close>

definition programs :: "py_module list" where
  "programs =
     [M_components_headNode_head_controller, M_components_headNode_http_proxy, M_components_scheduler,
      M_components_add_replica, M_components_add_replica_vllm]"

section \<open>An import ends\<close>

lemma all_modules_all [simp]: "set all_modules = UNIV"
proof -
  have "m \<in> set all_modules" for m by (cases m) (simp_all add: all_modules_def)
  then show ?thesis by blast
qed

lemma all_modules_distinct: "distinct all_modules"
  by (simp add: all_modules_def)

lemma finite_modules [simp]: "finite (UNIV :: py_module set)"
  by (metis all_modules_all finite_set)

text \<open>What a module still costs: to start it, each of its statements, to finish it.\<close>

definition cost :: "environment \<Rightarrow> importer \<Rightarrow> py_module \<Rightarrow> nat" where
  "cost env st m =
     (case map_of (im_running st) m of
        Some k \<Rightarrow> length (statements env m) - k + 1
      | None \<Rightarrow> if m \<in> set (im_imported st) then 0 else length (statements env m) + 2)"

definition weight :: "environment \<Rightarrow> importer \<Rightarrow> nat" where
  "weight env st = sum (cost env st) UNIV"

definition running_once :: "importer \<Rightarrow> bool" where
  "running_once st \<longleftrightarrow> distinct (map fst (im_running st))"

lemma weight_less:
  assumes "cost env st' m < cost env st m" and "\<And>x. x \<noteq> m \<Longrightarrow> cost env st' x = cost env st x"
  shows "weight env st' < weight env st"
  unfolding weight_def
proof (rule sum_strict_mono_ex1)
  show "\<forall>x \<in> UNIV. cost env st' x \<le> cost env st x"
  proof
    fix x
    show "cost env st' x \<le> cost env st x"
      by (cases "x = m") (use assms in \<open>simp_all add: less_imp_le\<close>)
  qed
qed (use assms in auto)

lemma weight_fuel: "weight env st \<le> import_fuel env"
proof -
  have "weight env st \<le> sum (\<lambda>m. length (statements env m) + 2) UNIV"
    unfolding weight_def by (rule sum_mono) (auto simp: cost_def intro: le_SucI split: option.splits)
  also have "\<dots> = import_fuel env"
    by (simp add: import_fuel_def all_modules_distinct sum_list_distinct_conv_sum_set)
  finally show ?thesis .
qed

definition lighter :: "environment \<Rightarrow> importer \<Rightarrow> importer \<Rightarrow> bool" where
  "lighter env st st' \<longleftrightarrow> running_once st' \<and> weight env st' < weight env st"

lemma start_lighter:
  assumes "start_module env m st = Inr st'" and "\<not> loaded st m" and "running_once st"
  shows "lighter env st st'"
proof -
  from assms(1) have st': "st' = st\<lparr>im_running := (m, 0) # im_running st\<rparr>"
    by (auto simp: start_module_def split: option.splits)
  from assms(2) have "map_of (im_running st) m = None" "m \<notin> set (im_imported st)"
    by (auto simp: loaded_def map_of_eq_None_iff)
  then have "weight env st' < weight env st"
    by (intro weight_less [of _ _ m]) (auto simp: cost_def st')
  with assms(2,3) show ?thesis by (auto simp: lighter_def running_once_def loaded_def st')
qed

lemma advance_lighter:
  assumes "im_running st = (m, k) # rest" and "k < length (statements env m)" and "running_once st"
  shows "lighter env st (advance st)"
proof -
  have "weight env (advance st) < weight env st"
    by (rule weight_less [of _ _ m]) (use assms in \<open>auto simp: cost_def advance_def\<close>)
  with assms show ?thesis by (simp add: lighter_def running_once_def advance_def)
qed

lemma finish_lighter:
  assumes "im_running st = (m, k) # rest" and "running_once st"
  shows "lighter env st (finish_module st)"
proof -
  from assms have gone: "map_of rest m = None" by (auto simp: running_once_def map_of_eq_None_iff)
  have "weight env (finish_module st) < weight env st"
    by (rule weight_less [of _ _ m]) (use assms gone in \<open>auto simp: cost_def finish_module_def split: option.splits\<close>)
  with assms show ?thesis by (simp add: lighter_def running_once_def finish_module_def)
qed

lemma take_lighter:
  assumes "take_names env p ns st = Inr st'" and "im_running st = (m, k) # rest"
    and "k < length (statements env m)" and "running_once st"
  shows "lighter env st st'"
proof (cases "filter (\<lambda>q. \<not> loaded st q) (packages p)")
  case (Cons q qs)
  then have "\<not> loaded st q" by (auto simp: filter_eq_Cons_iff)
  with assms(1,4) Cons show ?thesis by (auto simp: take_names_def intro: start_lighter)
next
  case Nil
  show ?thesis
  proof (cases "filter (\<lambda>a. \<not> available env st p a) ns")
    case Nil2: Nil
    with assms Nil show ?thesis by (auto simp: take_names_def intro: advance_lighter)
  next
    case (Cons a as)
    then have "\<not> available env st p a" by (auto simp: filter_eq_Cons_iff)
    with assms(1,4) Nil Cons show ?thesis
      by (auto simp: take_names_def available_def intro: start_lighter split: option.splits if_splits)
  qed
qed

lemma check_version_frame [simp]:
  "im_running (check_version env g r d f st) = im_running st"
  "im_imported (check_version env g r d f st) = im_imported st"
  by (simp_all add: check_version_def Let_def split: option.splits)

lemma lighter_check: "lighter env (check_version env g r d f st) st' = lighter env st st'"
proof -
  have "cost env (check_version env g r d f st) = cost env st"
    by (rule ext) (simp add: cost_def split: option.splits)
  then show ?thesis by (simp add: lighter_def weight_def)
qed

lemma step_lighter:
  assumes "import_step env st = Inr st'" and "im_running st \<noteq> []" and "running_once st"
  shows "lighter env st st'"
proof -
  from assms(2) obtain m k rest where r: "im_running st = (m, k) # rest" by (cases "im_running st") auto
  show ?thesis
  proof (cases "k < length (statements env m)")
    case True
    let ?s = "statements env m ! k"
    from assms(1) r True have ex: "execute env ?s st = Inr st'" by (simp add: import_step_def)
    show ?thesis
    proof (cases ?s)
      case (VersionCheck g rel d f)
      let ?st = "check_version env g rel d f st"
      have "lighter env ?st (advance ?st)"
        by (rule advance_lighter) (use r True assms(3) in \<open>simp_all add: running_once_def\<close>)
      with ex VersionCheck show ?thesis by (simp add: execute_def lighter_check)
    qed (use ex r True assms(3) in \<open>auto simp: execute_def split: if_splits option.splits intro: advance_lighter take_lighter\<close>)
  next
    case False
    with assms r show ?thesis by (auto simp: import_step_def intro: finish_lighter)
  qed
qed

lemma step_in_fuel: "import_step env st \<noteq> Inl OutOfFuel"
  by (auto simp: import_step_def execute_def take_names_def start_module_def split: option.splits list.splits py_stmt.splits)

lemma run_ends:
  assumes "running_once st" and "weight env st \<le> n"
  shows "run_imports n env st \<noteq> Inl OutOfFuel"
  using assms
proof (induction n arbitrary: st)
  case 0
  have "im_running st = []"
  proof (rule ccontr)
    assume "im_running st \<noteq> []"
    then obtain m k rest where "im_running st = (m, k) # rest" by (cases "im_running st") auto
    then have "0 < cost env st m" by (simp add: cost_def)
    then have "0 < weight env st" unfolding weight_def by (meson UNIV_I finite_modules sum_pos2 zero_le)
    with 0 show False by simp
  qed
  then show ?case by simp
next
  case (Suc n)
  show ?case
  proof (cases "im_running st = []")
    case False
    then show ?thesis
    proof (cases "import_step env st")
      case (Inr st')
      from step_lighter [OF Inr False Suc.prems(1)] Suc.prems(2) have "run_imports n env st' \<noteq> Inl OutOfFuel"
        by (intro Suc.IH) (simp_all add: lighter_def)
      with Inr False show ?thesis by simp
    qed (use step_in_fuel in auto)
  qed simp
qed

lemma run_finishes: "run_imports n env st = Inr st' \<Longrightarrow> im_running st' = []"
  by (induction n arbitrary: st) (auto split: if_splits sum.splits)

lemma import_all_ends: "im_running st = [] \<Longrightarrow> import_all env ms st \<noteq> Inl OutOfFuel"
proof (induction ms arbitrary: st)
  case (Cons m ms)
  show ?case
  proof (cases "loaded st m")
    case False
    show ?thesis
    proof (cases "start_module env m st")
      case (Inl e)
      with False show ?thesis by (auto simp: start_module_def split: option.splits)
    next
      case (Inr st1)
      with Cons.prems have "running_once st1"
        by (auto simp: start_module_def running_once_def split: option.splits)
      from run_ends [OF this weight_fuel] have run: "run_imports (import_fuel env) env st1 \<noteq> Inl OutOfFuel" .
      show ?thesis
      proof (cases "run_imports (import_fuel env) env st1")
        case (Inr st2)
        with Cons.IH [OF run_finishes [OF this]] False \<open>start_module env m st = Inr st1\<close> show ?thesis by simp
      qed (use run False Inr in simp)
    qed
  qed (use Cons in simp)
qed simp

lemma import_all_finishes: "import_all env ms st = Inr st' \<Longrightarrow> im_running st = [] \<Longrightarrow> im_running st' = []"
  by (induction ms arbitrary: st) (auto dest: run_finishes split: if_splits sum.splits)

text \<open>
  Importing a module ends, whatever files and installed modules there are: also a cycle of imports is
  run through once, because a module that is being imported is found in \<open>sys.modules\<close>.  (The model runs at
  most \<open>import_fuel\<close> steps; they are always enough.)
\<close>

lemma imports_end: "import_module env m \<noteq> Inl OutOfFuel"
  unfolding import_module_def by (rule import_all_ends) simp

end
