(* ===== verification/Startup.thy ===== *)
theory Startup
  imports Imports
begin

text \<open>
  The start of the five Python entry modules with the files of the repository, whatever is installed beside
  them.
\<close>

section \<open>More modules, other versions\<close>

text \<open>The version checks change nothing but the warnings.\<close>

definition calm :: "environment \<Rightarrow> environment" where
  "calm env = env\<lparr>ev_grpc_version := [], ev_first_version_is_lower := Some (\<lambda>v g. False)\<rparr>"

definition quiet :: "importer \<Rightarrow> importer" where
  "quiet st = st\<lparr>im_warnings := []\<rparr>"

lemma calm_sel [simp]:
  "ev_file (calm env) = ev_file env" "ev_installed (calm env) = ev_installed env" "ev_call (calm env) = ev_call env"
  "statements (calm env) = statements env" "import_fuel (calm env) = import_fuel env"
  by (simp_all add: calm_def statements_def [abs_def] import_fuel_def)

lemma quiet_sel [simp]:
  "im_running (quiet st) = im_running st" "im_imported (quiet st) = im_imported st"
  "loaded (quiet st) = loaded st"
  by (simp_all add: quiet_def loaded_def [abs_def])

lemma star_names_calm [simp]: "star_names (calm env) = star_names env"
  by (simp add: star_names_def [abs_def] cong: option.case_cong)

lemma bound_names_calm [simp]: "bound_names (calm env) ss = bound_names env ss"
  by (induction ss) (simp_all split: py_stmt.split)

lemma available_quiet [simp]: "available (calm env) (quiet st) m = available env st m"
  by (simp add: available_def [abs_def] names_of_def cong: option.case_cong)

lemma move_quiet [simp]:
  "quiet (advance st) = advance (quiet st)" "quiet (finish_module st) = finish_module (quiet st)"
  "quiet (check_version env g r d f st) = quiet st" "check_version (calm env) g r d f st = st"
  "start_module (calm env) m (quiet st) = map_sum id quiet (start_module env m st)"
  by (auto simp: quiet_def advance_def finish_module_def check_version_def calm_def start_module_def Let_def
      split: list.splits option.splits)

lemma take_names_quiet: "take_names (calm env) m ns (quiet st) = map_sum id quiet (take_names env m ns st)"
  by (simp add: take_names_def split: list.split option.split)

lemma execute_quiet: "execute (calm env) s (quiet st) = map_sum id quiet (execute env s st)"
  by (cases s) (simp_all add: execute_def take_names_quiet split: option.split)

lemma step_quiet: "import_step (calm env) (quiet st) = map_sum id quiet (import_step env st)"
  by (simp add: import_step_def execute_quiet split: list.split)

lemma run_quiet: "run_imports n (calm env) (quiet st) = map_sum id quiet (run_imports n env st)"
proof (induction n arbitrary: st)
  case (Suc n)
  then show ?case by (cases "import_step env st") (simp_all add: step_quiet)
qed simp

lemma import_all_quiet: "import_all (calm env) ms (quiet st) = map_sum id quiet (import_all env ms st)"
proof (induction ms arbitrary: st)
  case (Cons m ms)
  show ?case
  proof (cases "start_module env m st")
    case (Inr st1)
    then show ?thesis
      by (cases "run_imports (import_fuel env) env st1") (simp_all add: Cons run_quiet)
  qed (simp add: Cons)
qed simp

lemma import_module_calm: "import_module (calm env) m = map_sum id quiet (import_module env m)"
  using import_all_quiet [of env "packages m" "\<lparr>im_running = [], im_imported = [], im_warnings = []\<rparr>"]
  by (simp add: import_module_def quiet_def)

text \<open>What imports with some modules installed imports with more of them, and with no call that raises.\<close>

definition also_installed :: "(string \<Rightarrow> bool) \<Rightarrow> environment \<Rightarrow> environment" where
  "also_installed extra env = env\<lparr>ev_installed := \<lambda>n. ev_installed env n \<or> extra n, ev_call := \<lambda>p. None\<rparr>"

lemma also_sel [simp]:
  "ev_file (also_installed extra env) = ev_file env"
  "ev_installed (also_installed extra env) n = (ev_installed env n \<or> extra n)" "ev_call (also_installed extra env) p = None"
  "statements (also_installed extra env) = statements env" "import_fuel (also_installed extra env) = import_fuel env"
  by (simp_all add: also_installed_def statements_def [abs_def] import_fuel_def)

lemma names_also [simp]: "bound_names (also_installed extra env) ss = bound_names env ss"
  by (induction ss) (simp_all add: star_names_def cong: option.case_cong split: py_stmt.split)

lemma steps_also [simp]:
  "available (also_installed extra env) st m = available env st m"
  "start_module (also_installed extra env) p st = start_module env p st"
  by (simp_all add: available_def [abs_def] names_of_def start_module_def cong: option.case_cong)

lemma version_also [simp]: "check_version (also_installed extra env) g r d f st = check_version env g r d f st"
  by (simp add: check_version_def also_installed_def cong: option.case_cong)

lemma take_names_also [simp]: "take_names (also_installed extra env) m ns st = take_names env m ns st"
  by (simp add: take_names_def split: list.split option.split)

lemma execute_also:
  assumes "execute env s st = Inr st'"
  shows "execute (also_installed extra env) s st = Inr st'"
  using assms by (cases s) (auto simp: execute_def split: if_splits option.splits)

lemma step_also:
  assumes "import_step env st = Inr st'"
  shows "import_step (also_installed extra env) st = Inr st'"
  using assms by (auto simp: import_step_def execute_also split: list.splits if_splits)

lemma run_also:
  assumes "run_imports n env st = Inr st'"
  shows "run_imports n (also_installed extra env) st = Inr st'"
  using assms by (induction n arbitrary: st) (auto simp: step_also split: if_splits sum.splits)

lemma import_all_also:
  assumes "import_all env ms st = Inr st'"
  shows "import_all (also_installed extra env) ms st = Inr st'"
  using assms by (induction ms arbitrary: st) (auto simp: run_also split: if_splits sum.splits)

lemma import_module_also:
  assumes "import_module env m = Inr st"
  shows "import_module (also_installed extra env) m = Inr st"
  using assms by (simp add: import_module_def import_all_also)

section \<open>The repository as it is\<close>

definition plain_environment :: "(py_module \<Rightarrow> py_stmt list option) \<Rightarrow> (string \<Rightarrow> bool) \<Rightarrow> environment" where
  "plain_environment files installed =
     \<lparr>ev_file = files, ev_installed = installed, ev_call = (\<lambda>p. None), ev_grpc_version = [],
      ev_first_version_is_lower = Some (\<lambda>v g. False)\<rparr>"

lemma calm_plain: "ev_call env = (\<lambda>p. None) \<Longrightarrow> calm env = plain_environment (ev_file env) (ev_installed env)"
  by (simp add: calm_def plain_environment_def)

definition unconfigured :: "string \<Rightarrow> bool" where
  "unconfigured n \<longleftrightarrow> n \<noteq> ''configurations''"

lemma head_fails:
  "import_module (plain_environment repository unconfigured) M_components_headNode_head_controller =
     Inl (ModuleNotFoundError ''configurations'')"
  by code_simp

lemma proxy_fails:
  "import_module (plain_environment repository unconfigured) M_components_headNode_http_proxy =
     Inl (ModuleNotFoundError ''configurations'')"
  by code_simp

lemma scheduler_fails:
  "import_module (plain_environment repository unconfigured) M_components_scheduler =
     Inl (ModuleNotFoundError ''configurations'')"
  by code_simp

lemma replica_fails:
  "import_module (plain_environment repository unconfigured) M_components_add_replica =
     Inl (ModuleNotFoundError ''configurations'')"
  by code_simp

lemma vllm_replica_fails:
  "import_module (plain_environment repository unconfigured) M_components_add_replica_vllm =
     Inl (ModuleNotFoundError ''configurations'')"
  by code_simp

lemmas unconfigured_fails = head_fails proxy_fails scheduler_fails replica_fails vllm_replica_fails

text \<open>
  C30. As the repository is, none of its five Python entry modules (head, Python proxy, scheduler and the two
  replicas) can be imported.  \<open>src/lib/headstore_client.py\<close> has \<open>import configurations\<close>, while the module is
  \<open>src.lib.configurations\<close>; every one of the five imports \<open>src.lib\<close>, whose \<open>__init__\<close> imports \<open>headstore_client\<close>.
  Unless some other module of that name is on the path, whatever else is installed, the import of each of
  the five raises; if everything else is installed and no call at the top level of a module raises, it raises
  \<open>ModuleNotFoundError\<close> for \<open>configurations\<close>.
\<close>

theorem no_program_starts:
  assumes "ev_file env = repository" and "\<not> ev_installed env ''configurations''" and "m \<in> set programs"
  shows "\<exists>e. import_module env m = Inl e \<and>
    ((\<forall>n. n \<noteq> ''configurations'' \<longrightarrow> ev_installed env n) \<and> (\<forall>p. ev_call env p = None) \<longrightarrow>
      e = ModuleNotFoundError ''configurations'')"
proof -
  let ?bare = "plain_environment repository unconfigured"
  have bare: "import_module ?bare m = Inl (ModuleNotFoundError ''configurations'')"
    using assms(3) unconfigured_fails by (auto simp: programs_def)
  have wider: "also_installed unconfigured (calm env) = ?bare"
    using assms(1,2) 
    by (cases env) (auto simp: also_installed_def calm_def plain_environment_def unconfigured_def fun_eq_iff)
  obtain e where e: "import_module env m = Inl e"
  proof (cases "import_module env m")
    case (Inr st)
    then have "import_module (calm env) m = Inr (quiet st)" by (simp add: import_module_calm)
    from import_module_also [OF this, of unconfigured] bare show ?thesis by (simp add: wider)
  qed auto
  moreover have "e = ModuleNotFoundError ''configurations''"
    if "\<forall>n. n \<noteq> ''configurations'' \<longrightarrow> ev_installed env n" "\<forall>p. ev_call env p = None"
  proof -
    from that assms(1,2) have "calm env = ?bare"
      by (cases env) (auto simp: calm_def plain_environment_def unconfigured_def fun_eq_iff)
    with bare import_module_calm [of env m] e show ?thesis by simp
  qed
  ultimately show ?thesis by blast
qed

theorem no_program_starts_witness:
  "import_module (plain_environment repository unconfigured) M_components_scheduler =
     Inl (ModuleNotFoundError ''configurations'')"
proof -
  have "ev_file (plain_environment repository unconfigured) = repository"
    "ev_installed (plain_environment repository unconfigured) = unconfigured"
    "ev_call (plain_environment repository unconfigured) = (\<lambda>p. None)"
    by (simp_all add: plain_environment_def)
  with no_program_starts [of "plain_environment repository unconfigured" M_components_scheduler]
  show ?thesis by (auto simp: programs_def unconfigured_def)
qed

end
