(* ===== verification/ProtoFiles.thy ===== *)
theory ProtoFiles
  imports Services
begin

text \<open>
  The files \<open>src/protos/*.proto\<close>, and that the generated services (\<open>Services\<close>) are theirs.  The serialized
  descriptors of the \<open>*_pb2\<close> modules are the output of a compiler that is not in the repository and are not
  modelled.
\<close>

section \<open>Proto files\<close>

datatype proto_type = T_float | T_int64 | T_uint64 | T_uint32 | T_bool | T_string | T_message string

text \<open>\<open>Field repeated type name number\<close>, \<open>Map_Field key value name number\<close>,
  \<open>Rpc name request stream reply braces\<close>, where \<open>braces\<close> is an option block, which may be empty.\<close>

datatype proto_field =
    Field bool proto_type string nat
  | Map_Field proto_type proto_type string nat

datatype proto_message = Message string "proto_field list"
datatype proto_rpc = Rpc string string bool string bool
datatype proto_service = Service string "proto_rpc list"

record proto_file =
  pf_name :: string
  pf_package :: string
  pf_imports :: "string list"
  pf_messages :: "proto_message list"
  pf_services :: "proto_service list"

section \<open>The files\<close>

definition common_proto :: proto_file where
  "common_proto =
     \<lparr>pf_name = ''common.proto'', pf_package = ''protos'',
      pf_imports = [''google/protobuf/empty.proto''],
      pf_messages =
       [Message ''Ack''
          [Field False T_bool ''acknowledged'' 1]],
      pf_services =
       [Service ''HeartbeatService''
          [Rpc ''Ping'' ''google.protobuf.Empty'' False ''Ack'' False]]\<rparr>"

definition proxy_proto :: proto_file where
  "proxy_proto =
     \<lparr>pf_name = ''proxy-service.proto'', pf_package = ''protos'',
      pf_imports = [''common.proto'', ''google/protobuf/empty.proto''],
      pf_messages =
       [],
      pf_services =
       [Service ''HealthService''
          [Rpc ''Ping'' ''google.protobuf.Empty'' False ''Ack'' False]]\<rparr>"

definition replica_proto :: proto_file where
  "replica_proto =
     \<lparr>pf_name = ''replica_service.proto'', pf_package = ''protos'',
      pf_imports = [''google/protobuf/empty.proto'', ''common.proto''],
      pf_messages =
       [Message ''ReplicaRequest''
          [Field False T_string ''prompt'' 2],
        Message ''ReplicaReply''
          [Field False T_string ''text'' 1, Field False T_bool ''is_error'' 2]],
      pf_services =
       [Service ''WorkerService''
          [Rpc ''SendRequest'' ''ReplicaRequest'' True ''ReplicaReply'' False,
           Rpc ''Ping'' ''google.protobuf.Empty'' False ''Ack'' False]]\<rparr>"

definition worker_proto :: proto_file where
  "worker_proto =
     \<lparr>pf_name = ''worker-service.proto'', pf_package = ''protos'',
      pf_imports = [''google/protobuf/empty.proto'', ''common.proto''],
      pf_messages =
       [Message ''ReplicaCreationRequest''
          [Field False T_string ''base_node_address'' 1, Field False T_uint32 ''deployment_id'' 5,
          Field False T_uint32 ''num_cpus'' 2, Field False T_uint32 ''num_gpus'' 3,
          Field False T_string ''deployment_name'' 4],
        Message ''ReplicaContent''
          [Field False T_uint32 ''replica_id'' 1, Field False T_string ''port'' 2],
        Message ''ReplicaCreationReply''
          [Field False T_uint32 ''worker_id'' 1, Field True (T_message ''ReplicaContent'') ''replicas'' 2,
          Field False T_string ''worker_address'' 3, Field False T_bool ''created'' 4],
        Message ''replicaStatus''
          [Field False T_string ''state'' 1, Field False T_uint32 ''replica_id'' 2,
          Field False T_uint32 ''pid'' 3, Field False T_string ''port'' 4,
          Field False T_uint32 ''deployment_id'' 5, Field False T_string ''deployment_name'' 6],
        Message ''Reply''
          [Field False T_bool ''ack'' 1]],
      pf_services =
       [Service ''ReplicaService''
          [Rpc ''RegisterReplica'' ''replicaStatus'' False ''Reply'' False],
        Service ''HeadNodeService''
          [Rpc ''CreateReplica'' ''ReplicaCreationRequest'' False ''ReplicaCreationReply'' False,
           Rpc ''Ping'' ''google.protobuf.Empty'' False ''Ack'' False]]\<rparr>"

definition headnode_proto :: proto_file where
  "headnode_proto =
     \<lparr>pf_name = ''headnode-service.proto'', pf_package = ''protos'',
      pf_imports = [''google/protobuf/empty.proto'', ''common.proto''],
      pf_messages =
       [Message ''MetricsRequest''
          [Field False T_uint32 ''worker_id'' 1, Field False T_uint32 ''replica_id'' 2,
          Field False T_float ''avg_requests'' 3, Field False T_uint64 ''sent_time_stamp'' 4,
          Field False T_uint32 ''queue_size'' 5],
        Message ''MetricsReply''
          [Field False T_bool ''acknowledge'' 1],
        Message ''ReplicaState''
          [Field False T_uint32 ''replica_id'' 1, Field False T_uint32 ''deployment_id'' 2,
          Field False T_string ''status'' 3, Field False T_string ''replica_port'' 4],
        Message ''HealthStatusUpdate''
          [Field False T_uint32 ''worker_id'' 1, Field False T_string ''worker_address'' 4,
          Field True (T_message ''ReplicaState'') ''replica_states'' 3],
        Message ''HealthStatusReply''
          [Field False T_bool ''ack'' 1, Field False T_string ''isAlive'' 2],
        Message ''Resource''
          [Field False T_uint32 ''num_cpus'' 1, Field False T_uint32 ''num_gpus'' 2],
        Message ''RegisterRequest''
          [Field False T_uint32 ''node_id'' 1, Field False T_string ''node_address'' 2,
          Field False T_string ''port'' 3, Field False T_string ''state'' 4,
          Field False (T_message ''Resource'') ''resource'' 5],
        Message ''RegisterReply''
          [Field False T_bool ''ack'' 1],
        Message ''SubscriptionRequest''
          [Field False T_string ''proxy_id'' 1],
        Message ''ReplicaInfo''
          [Field False T_string ''replica_id'' 1, Field False T_string ''address'' 2,
          Field False T_string ''state'' 3],
        Message ''DeploymentInfoMessage''
          [Field False T_uint32 ''deployment_id'' 1, Field False T_string ''deployment_name'' 2,
          Field False T_string ''version'' 3, Field False T_string ''status'' 4,
          Field True (T_message ''ReplicaInfo'') ''replicas'' 5],
        Message ''RoutingUpdate''
          [Map_Field T_uint32 (T_message ''DeploymentInfoMessage'') ''current_deployments'' 2,
          Field False T_int64 ''timestamp_ns'' 3]],
      pf_services =
       [Service ''WorkerManagementService''
          [Rpc ''SendHealthStatus'' ''HealthStatusUpdate'' False ''HealthStatusReply'' False,
           Rpc ''RegisterNode'' ''RegisterRequest'' False ''RegisterReply'' False,
           Rpc ''RecordMetrics'' ''MetricsRequest'' False ''MetricsReply'' False],
        Service ''ProxyManagementService''
          [Rpc ''SubscribeToRoutingUpdates'' ''SubscriptionRequest'' True ''RoutingUpdate'' True]]\<rparr>"

section \<open>The generated services\<close>

definition class_named :: "string \<Rightarrow> message_class option" where
  "class_named = map_of
     [(''google.protobuf.Empty'', Empty_class), (''Ack'', Ack_class), (''MetricsRequest'', MetricsRequest_class),
      (''MetricsReply'', MetricsReply_class), (''HealthStatusUpdate'', HealthStatusUpdate_class),
      (''HealthStatusReply'', HealthStatusReply_class), (''RegisterRequest'', RegisterRequest_class),
      (''RegisterReply'', RegisterReply_class), (''SubscriptionRequest'', SubscriptionRequest_class),
      (''RoutingUpdate'', RoutingUpdate_class), (''ReplicaCreationRequest'', ReplicaCreationRequest_class),
      (''ReplicaCreationReply'', ReplicaCreationReply_class), (''replicaStatus'', ReplicaStatus_class),
      (''Reply'', Reply_class), (''ReplicaRequest'', ReplicaRequest_class), (''ReplicaReply'', ReplicaReply_class)]"

fun rpc_row :: "proto_rpc \<Rightarrow> string \<times> arity \<times> message_class option \<times> message_class option" where
  "rpc_row (Rpc n q streaming r braces) =
     (n, if streaming then Unary_Stream else Unary_Unary, class_named q, class_named r)"

fun service_rows :: "proto_file \<Rightarrow> proto_service \<Rightarrow> string \<times> (string \<times> arity \<times> message_class option \<times> message_class option) list"
  where "service_rows f (Service n rs) = (pf_package f @ ''.'' @ n, map rpc_row rs)"

text \<open>What the compiled service has: the rows of its registration, and of its stub with the paths checked.\<close>

definition method_rows :: "method_row list \<Rightarrow> (string \<times> arity \<times> message_class option \<times> message_class option) list" where
  "method_rows rows = map (\<lambda>(n, a, q, r). (n, a, Some q, Some r)) rows"

definition stub_rows ::
  "string \<Rightarrow> (string, stub_method) dict \<Rightarrow> (string \<times> arity \<times> message_class option \<times> message_class option) list" where
  "stub_rows service stub =
     map (\<lambda>(n, m). (n, sm_arity m, if sm_path m = ''/'' @ service @ ''/'' @ n then Some (sm_request m) else None,
       Some (sm_reply m))) stub"

definition generated_services :: "(string \<times> method_row list \<times> (string, stub_method) dict) list" where
  "generated_services =
     [(''protos.HeartbeatService'', HeartbeatService_methods, HeartbeatServiceStub),
      (''protos.HealthService'', HealthService_methods, HealthServiceStub),
      (''protos.WorkerService'', WorkerService_methods, WorkerServiceStub),
      (''protos.ReplicaService'', ReplicaService_methods, ReplicaServiceStub),
      (''protos.HeadNodeService'', HeadNodeService_methods, HeadNodeServiceStub),
      (''protos.WorkerManagementService'', WorkerManagementService_methods, WorkerManagementServiceStub),
      (''protos.ProxyManagementService'', ProxyManagementService_methods, ProxyManagementServiceStub)]"

definition proto_files :: "proto_file list" where
  "proto_files = [common_proto, proxy_proto, replica_proto, worker_proto, headnode_proto]"

text \<open>
  The generated services are those of the proto files: in order, each file's services with their
  methods, the message classes of request and reply and whether the reply is a stream are what the
  registration function enters into the server and what the stub calls, under the path of package,
  service and method.
\<close>

lemma services_are_protos:
  "concat (map (\<lambda>f. map (service_rows f) (pf_services f)) proto_files) =
     map (\<lambda>(n, rows, stub). (n, method_rows rows)) generated_services \<and>
   list_all (\<lambda>(n, rows, stub). stub_rows n stub = method_rows rows) generated_services"
  by code_simp

end
