(* ===== verification/HeadStore.thy ===== *)
theory HeadStore
  imports Settings NodeInfo Startup ProtoFiles
begin

text \<open>
  Two modules that no program uses: the client of the head in \<open>src/lib/headstore_client.py\<close> and the queue of
  \<open>src/lib/deployment_scheduler.py\<close>.  What the first needs of the generated modules is looked up in
  them: the names of \<open>headnode_service_pb2_grpc\<close> and the fields of the messages.
\<close>

section \<open>The constructor\<close>

record head_store =
  hs_head_address :: string
  hs_port :: string
  hs_channel :: string

definition head_store_init :: "environment \<Rightarrow> string \<Rightarrow> string \<Rightarrow> head_store res" where
  "head_store_init env head_address port =
     (if ''HeadNodeServiceStub'' \<in> set (bound_names env (statements env M_generated_headnode_service_pb2_grpc))
      then Inr \<lparr>hs_head_address = head_address, hs_port = port, hs_channel = host_port head_address port\<rparr>
      else Inl (AttributeError ''HeadNodeServiceStub''))"

section \<open>The constructor of a message\<close>

fun field_name :: "proto_field \<Rightarrow> string" where
  "field_name (Field rep t n k) = n"
| "field_name (Map_Field a b n k) = n"

fun fields_named :: "proto_message list \<Rightarrow> string \<Rightarrow> string list" where
  "fields_named [] m = []"
| "fields_named (Message n fs # ms) m = (if n = m then map field_name fs else fields_named ms m)"

text \<open>A keyword that is no field of the message raises \<open>ValueError\<close>.\<close>

definition construct :: "proto_file \<Rightarrow> string \<Rightarrow> string list \<Rightarrow> unit res" where
  "construct f m keywords =
     (case filter (\<lambda>k. k \<notin> set (fields_named (pf_messages f) m)) keywords of
        [] \<Rightarrow> Inr ()
      | k # _ \<Rightarrow> Inl (ValueError (''Protocol message '' @ m @ '' has no '' @ k @ '' field.'')))"

section \<open>Registration\<close>

text \<open>\<open>str(node_info["resources"])\<close> is sent as the state; the resources of the message keep their default.\<close>

definition register_message :: "(string, string) dict \<Rightarrow> register_request res" where
  "register_message node_info =
     (case (dget node_info ''node_id'', dget node_info ''node_address'', dget node_info ''port'',
            dget node_info ''resources'') of
        (Some n, Some a, Some p, Some r) \<Rightarrow>
          (case int_of_text n of
             Inl e \<Rightarrow> Inl e
           | Inr i \<Rightarrow>
               (case construct headnode_proto ''RegisterRequest'' [''node_id'', ''node_address'', ''port'', ''state''] of
                  Inl e \<Rightarrow> Inl e
                | Inr u \<Rightarrow>
                    if uint32_ok i
                    then Inr \<lparr>rq_node_id = i, rq_node_address = a, rq_port = p, rq_state = r,
                              rq_resource = \<lparr>res_num_cpus = 0, res_num_gpus = 0\<rparr>\<rparr>
                    else Inl out_of_range))
      | (Some n, _) \<Rightarrow> (case int_of_text n of Inl e \<Rightarrow> Inl e | Inr i \<Rightarrow> Inl KeyError)
      | _ \<Rightarrow> Inl KeyError)"

text \<open>
  The loop: any \<open>grpc.RpcError\<close> is retried after a sleep, which follows the last attempt too; other
  exceptions leave the function.  After the last attempt the process sends itself \<open>SIGTERM\<close> (the
  Boolean) and the function returns \<open>None\<close>.
\<close>

fun register_loop :: "nat \<Rightarrow> ('s \<Rightarrow> 'a res \<times> 's) \<Rightarrow> 's \<Rightarrow> 'a sent res \<times> bool \<times> int list \<times> 's" where
  "register_loop 0 call s = (Inr GotNone, True, [], s)"
| "register_loop (Suc n) call s =
     (case call s of
        (Inr v, s') \<Rightarrow> (Inr (Got v), False, [], s')
      | (Inl e, s') \<Rightarrow>
          if is_rpc_error e then
            (case register_loop n call s' of
               (r, killed, sleeps, s'') \<Rightarrow> (r, killed, head_store_retry_delay # sleeps, s''))
          else (Inl e, False, [], s'))"

definition head_store_register ::
  "(register_request \<Rightarrow> int \<Rightarrow> 's \<Rightarrow> 'a res \<times> 's) \<Rightarrow> (string, string) dict \<Rightarrow> 's \<Rightarrow>
   'a sent res \<times> bool \<times> int list \<times> 's" where
  "head_store_register stub node_info s =
     (case register_message node_info of
        Inl e \<Rightarrow> (Inl e, False, [], s)
      | Inr request \<Rightarrow> register_loop head_store_max_retries (stub request head_store_timeout) s)"

section \<open>The health report\<close>

definition report_node_health ::
  "(int \<Rightarrow> 's \<Rightarrow> 'a res \<times> 's) \<Rightarrow> 's \<Rightarrow> 'a option res \<times> 's" where
  "report_node_health stub s =
     (case construct headnode_proto ''HealthStatusUpdate'' [''worker_id'', ''state'', ''replica_states''] of
        Inl e \<Rightarrow> (Inl e, s)
      | Inr u \<Rightarrow>
          (case stub head_store_timeout s of
             (Inr response, s') \<Rightarrow> (Inr (Some response), s')
           | (Inl e, s') \<Rightarrow> (Inr None, s')))"

section \<open>The loop meets the retry contract\<close>

definition run_register :: "nat \<Rightarrow> ('s \<Rightarrow> 'a res \<times> 's) \<Rightarrow> 's \<Rightarrow> ('a sent res \<times> bool) \<times> 's" where
  "run_register n call s = (case register_loop n call s of (r, killed, sleeps, s') \<Rightarrow> ((r, killed), s'))"

lemma register_loop_attempts:
  "run_register n call s = (case attempts is_rpc_error call n prev s of
     (r, k, s') \<Rightarrow> ((view_sync r, view_sync r = Inr GotNone), s'))"
proof (induction n arbitrary: s prev)
  case (Suc n)
  obtain x s1 where c: "call s = (x, s1)" by (cases "call s")
  show ?case
  proof (cases x)
    case (Inl e)
    then show ?thesis
      using c Suc [of s1 "Some e"]
      by (cases "attempts is_rpc_error call n (Some e) s1"; cases "register_loop n call s1")
        (auto simp: run_register_def)
  qed (simp add: c run_register_def)
qed (simp add: run_register_def)

interpretation register_retry: retrying run_register is_rpc_error "\<lambda>r. (view_sync r, view_sync r = Inr GotNone)"
  by unfold_locales (rule register_loop_attempts)

text \<open>When every attempt fails the process is killed, after one sleep for each attempt.\<close>

lemma register_loop_sleeps:
  assumes "\<And>j. j < n \<Longrightarrow> \<exists>c. fst (call (after_calls call j s)) = Inl (RpcError c)"
  shows "register_loop n call s = (Inr GotNone, True, replicate n head_store_retry_delay, after_calls call n s)"
  using assms
proof (induction n arbitrary: s)
  case (Suc n)
  obtain x s1 where c: "call s = (x, s1)" by (cases "call s")
  have "\<exists>c. fst (call (after_calls call j s1)) = Inl (RpcError c)" if "j < n" for j
    using Suc.prems [of "Suc j"] that c by simp
  from Suc.IH [of s1, OF this] Suc.prems [of 0] c show ?case by auto
qed simp

lemma register_kills:
  assumes "register_message node_info = Inr request"
    and "\<And>j. j < head_store_max_retries \<Longrightarrow>
      \<exists>c. fst (stub request head_store_timeout (after_calls (stub request head_store_timeout) j s)) = Inl (RpcError c)"
  shows "\<exists>s'. head_store_register stub node_info s = (Inr GotNone, True, [1, 1, 1], s')"
proof -
  from register_loop_sleeps [of head_store_max_retries "stub request head_store_timeout" s, OF assms(2)] assms(1) show ?thesis
    by (simp add: head_store_register_def head_store_max_retries_def head_store_retry_delay_def numeral_3_eq_3)
qed

text \<open>
  The client of the head cannot be made and cannot report: the stub class that its constructor names is
  not in \<open>headnode_service_pb2_grpc\<close> (it is in \<open>worker_service_pb2_grpc\<close>, where it is the stub for calls to a
  worker), and \<open>ReportNodeHealth\<close> builds its message with a field \<open>state\<close> that \<open>HealthStatusUpdate\<close> does not
  have, before its \<open>try\<close>, so it raises without having called the head.
\<close>

theorem head_store_client_raises:
  assumes "ev_file env = repository"
  shows "head_store_init env head_address port = Inl (AttributeError ''HeadNodeServiceStub'') \<and>
    ''HeadNodeServiceStub'' \<in> set (bound_names env (statements env M_generated_worker_service_pb2_grpc)) \<and>
    report_node_health stub s = (Inl (ValueError ''Protocol message HealthStatusUpdate has no state field.''), s)"
proof (intro conjI)
  show "head_store_init env head_address port = Inl (AttributeError ''HeadNodeServiceStub'')"
    using assms by (simp add: head_store_init_def statements_def generated_headnode_service_pb2_grpc_module_def)
  show "''HeadNodeServiceStub'' \<in> set (bound_names env (statements env M_generated_worker_service_pb2_grpc))"
    using assms by (simp add: statements_def generated_worker_service_pb2_grpc_module_def)
  show "report_node_health stub s = (Inl (ValueError ''Protocol message HealthStatusUpdate has no state field.''), s)"
    by (simp add: report_node_health_def construct_def headnode_proto_def)
qed

theorem head_store_client_raises_witness:
  "head_store_init (plain_environment repository unconfigured) ''10.0.0.1'' ''50051'' =
     Inl (AttributeError ''HeadNodeServiceStub'')"
  by (rule head_store_client_raises [THEN conjunct1]) (simp add: plain_environment_def)

section \<open>The queue of the deployment scheduler\<close>

datatype loop_task = Waiting | Ended exn

record deployment_scheduler =
  ds_queue :: "(int \<times> int \<times> bool) list"
  ds_task :: loop_task

text \<open>The names the class defines; the loop calls two others.\<close>

definition ds_methods :: "string list" where
  "ds_methods = [''__init__'', ''schedule_replicas'', ''run_scheduler_loop'']"

definition ds_init :: deployment_scheduler where
  "ds_init = \<lparr>ds_queue = [], ds_task = Waiting\<rparr>"

definition schedule_replicas :: "int \<Rightarrow> int \<Rightarrow> bool \<Rightarrow> deployment_scheduler \<Rightarrow> deployment_scheduler" where
  "schedule_replicas num_replicas deployment_id to_add ds =
     ds\<lparr>ds_queue := ds_queue ds @ [(num_replicas, deployment_id, to_add)]\<rparr>"

definition scheduler_turn :: "deployment_scheduler \<Rightarrow> deployment_scheduler" where
  "scheduler_turn ds =
     (case (ds_task ds, ds_queue ds) of
        (Waiting, (num_replicas, deployment_id, to_add) # rest) \<Rightarrow>
          (let name = if to_add then ''_start_replicas'' else ''_stop_replicas''
           in if name \<in> set ds_methods then ds\<lparr>ds_queue := rest\<rparr>
              else ds\<lparr>ds_queue := rest, ds_task := Ended (AttributeError name)\<rparr>)
      | _ \<Rightarrow> ds)"

text \<open>The machine also keeps all that was asked for, in order.\<close>

inductive ds_step :: "(int \<times> int \<times> bool) list \<times> deployment_scheduler \<Rightarrow> (int \<times> int \<times> bool) list \<times> deployment_scheduler \<Rightarrow> bool"
  where
  ds_schedule: "ds_step (asked, ds) (asked @ [(n, d, a)], schedule_replicas n d a ds)"
| ds_turn: "ds_step (asked, ds) (asked, scheduler_turn ds)"

definition ds_ok :: "(int \<times> int \<times> bool) list \<times> deployment_scheduler \<Rightarrow> bool" where
  "ds_ok s = (case s of (asked, ds) \<Rightarrow>
     (case ds_task ds of
        Waiting \<Rightarrow> ds_queue ds = asked
      | Ended e \<Rightarrow> asked \<noteq> [] \<and> ds_queue ds = tl asked \<and> (\<exists>name. e = AttributeError name)))"

lemma ds_ok_step: "ds_step s t \<Longrightarrow> ds_ok s \<Longrightarrow> ds_ok t"
  by (induction rule: ds_step.induct)
    (auto simp: ds_ok_def schedule_replicas_def scheduler_turn_def ds_methods_def Let_def tl_append
      split: loop_task.splits list.splits if_splits)

interpretation ds_machine: safe_machine "\<lambda>s. s = ([], ds_init)" ds_step ds_ok
  by unfold_locales (auto simp: ds_ok_def ds_init_def dest: ds_ok_step)

text \<open>The first request ends the loop; no later one is taken from the queue.\<close>

lemma deployment_scheduler_takes_one:
  assumes "reach (\<lambda>s. s = ([], ds_init)) ds_step (asked, ds)" and "ds_task ds \<noteq> Waiting"
  shows "ds_queue ds = tl asked"
  using ds_machine.reach_safe [OF assms(1)] assms(2) by (cases "ds_task ds") (simp_all add: ds_ok_def)

end
