(* ===== verification/Logging.thy ===== *)
theory Logging
  imports Prelude
begin

text \<open>
  \<open>src/lib/logging_config.py\<close>: the loggers with their handlers.  A logger prints a record once for each of
  its handlers, and passes it on to the root logger if it propagates.
\<close>

section \<open>Loggers\<close>

datatype log_handler = ToStdout | ToFile string

record logger =
  lg_level :: int
  lg_propagate :: bool
  lg_handlers :: "log_handler list"

record logging =
  ls_loggers :: "(string, logger) dict"
  ls_root :: "log_handler list"
  ls_directories :: "string list"

text \<open>\<open>logging.getLogger\<close>: the logger of that name, a new one has no handlers.\<close>

definition get_logger :: "string \<Rightarrow> logging \<Rightarrow> logger" where
  "get_logger name ls =
     (case dget (ls_loggers ls) name of
        Some l \<Rightarrow> l
      | None \<Rightarrow> \<lparr>lg_level = 0, lg_propagate = True, lg_handlers = []\<rparr>)"

definition put_logger :: "string \<Rightarrow> logger \<Rightarrow> logging \<Rightarrow> logging" where
  "put_logger name l ls = ls\<lparr>ls_loggers := dset name l (ls_loggers ls)\<rparr>"

text \<open>\<open>hasHandlers\<close> of a logger whose parent is the root.\<close>

definition has_handlers :: "logging \<Rightarrow> logger \<Rightarrow> bool" where
  "has_handlers ls l \<longleftrightarrow> lg_handlers l \<noteq> [] \<or> lg_propagate l \<and> ls_root ls \<noteq> []"

definition dirname :: "string \<Rightarrow> string" where
  "dirname p = rev (drop 1 (dropWhile (\<lambda>c. c \<noteq> CHR ''/'') (rev p)))"

definition make_directory :: "string \<Rightarrow> logging \<Rightarrow> unit res \<times> logging" where
  "make_directory d ls =
     (if d = [] then (Inl (GenericError ''FileNotFoundError''), ls)
      else (Inr (), ls\<lparr>ls_directories := (if d \<in> set (ls_directories ls) then ls_directories ls else d # ls_directories ls)\<rparr>))"

section \<open>The set-up\<close>

definition add_handler :: "string \<Rightarrow> log_handler \<Rightarrow> logging \<Rightarrow> logging" where
  "add_handler name h ls =
     put_logger name ((get_logger name ls)\<lparr>lg_handlers := lg_handlers (get_logger name ls) @ [h]\<rparr>) ls"

definition setup_logger :: "string \<Rightarrow> string option \<Rightarrow> logging \<Rightarrow> unit res \<times> logging" where
  "setup_logger name log_file ls0 =
     (let l = (get_logger name ls0)\<lparr>lg_level := 20, lg_propagate := False\<rparr>;
          ls = put_logger name l ls0
      in if has_handlers ls l then (Inr (), ls)
         else
           (let ls1 = add_handler name ToStdout ls
            in case log_file of
                 None \<Rightarrow> (Inr (), ls1)
               | Some f \<Rightarrow>
                   if f = [] then (Inr (), ls1)
                   else
                     (case make_directory (dirname f) ls1 of
                        (Inl e, ls2) \<Rightarrow> (Inl e, ls2)
                      | (Inr u, ls2) \<Rightarrow> (Inr (), add_handler name (ToFile f) ls2))))"

text \<open>The loggers of the components, made when the module is imported.\<close>

definition component_loggers :: "(string \<times> string) list" where
  "component_loggers =
     [(''HeadController'', ''logs/headcontroller.log''), (''ProxyManager'', ''logs/proxy.log''),
      (''DeploymentManager'', ''logs/deployment.log''), (''HealthManager'', ''logs/health.log''),
      (''AutoScaleManager'', ''logs/autoscale.log''), (''NodeInfo'', ''logs/nodeinfo.log'')]"

definition import_logging_config :: "logging \<Rightarrow> unit res \<times> logging" where
  "import_logging_config ls =
     foldl (\<lambda>r (name, f). case r of (Inl e, ls) \<Rightarrow> (Inl e, ls) | (Inr u, ls) \<Rightarrow> setup_logger name (Some f) ls)
       (make_directory ''logs'' ls) component_loggers"

section \<open>Each record is printed once\<close>

lemma get_put [simp]: "get_logger n (put_logger m l ls) = (if n = m then l else get_logger n ls)"
  by (simp add: get_logger_def put_logger_def)

lemma put_frame [simp]:
  "ls_root (put_logger m l ls) = ls_root ls" "ls_directories (put_logger m l ls) = ls_directories ls"
  by (simp_all add: put_logger_def)

lemma get_directory [simp]: "get_logger n (snd (make_directory d ls)) = get_logger n ls"
  by (simp add: make_directory_def get_logger_def)

lemma setup_other: "n \<noteq> name \<Longrightarrow> get_logger n (snd (setup_logger name f ls)) = get_logger n ls"
  by (auto simp: setup_logger_def add_handler_def Let_def make_directory_def get_logger_def put_logger_def split: option.splits)

text \<open>What a logger has after its first set-up depends on the file; later ones add nothing.\<close>

lemma setup_again:
  assumes "lg_handlers (get_logger name ls) \<noteq> []"
  shows "lg_handlers (get_logger name (snd (setup_logger name f ls))) = lg_handlers (get_logger name ls)"
  using assms by (simp add: setup_logger_def has_handlers_def Let_def)

lemma setup_first:
  assumes "lg_handlers (get_logger name ls) = []"
  shows "lg_handlers (get_logger name (snd (setup_logger name f ls))) \<in> {[ToStdout]} \<union> {[ToStdout, ToFile p] | p. True}"
  using assms
  by (auto simp: setup_logger_def has_handlers_def add_handler_def Let_def make_directory_def get_logger_def put_logger_def
      split: option.splits)

definition handlers_once :: "logger \<Rightarrow> bool" where
  "handlers_once l \<longleftrightarrow> distinct (lg_handlers l) \<and> length (filter (\<lambda>h. h = ToStdout) (lg_handlers l)) \<le> 1"

lemma setup_once:
  assumes "\<And>n. handlers_once (get_logger n ls)"
  shows "handlers_once (get_logger n (snd (setup_logger name f ls)))"
proof (cases "n = name")
  case True
  show ?thesis
  proof (cases "lg_handlers (get_logger name ls) = []")
    case False
    with setup_again [OF this, of f] assms [of name] True show ?thesis by (simp add: handlers_once_def)
  qed (use setup_first [of name ls f] True in \<open>auto simp: handlers_once_def\<close>)
qed (simp add: setup_other assms)

inductive log_step :: "logging \<Rightarrow> logging \<Rightarrow> bool" where
  log_setup: "log_step ls (snd (setup_logger name f ls))"

definition loggers_ok :: "logging \<Rightarrow> bool" where
  "loggers_ok ls \<longleftrightarrow> (\<forall>n. handlers_once (get_logger n ls))"

definition log_start :: "logging \<Rightarrow> bool" where
  "log_start ls \<longleftrightarrow> ls_loggers ls = []"

lemma log_start_ok: "log_start ls \<Longrightarrow> loggers_ok ls"
  by (simp add: log_start_def loggers_ok_def get_logger_def handlers_once_def)

lemma log_step_ok: "log_step ls ls' \<Longrightarrow> loggers_ok ls \<Longrightarrow> loggers_ok ls'"
  by (induction rule: log_step.induct) (simp add: loggers_ok_def setup_once)

interpretation log_machine: safe_machine log_start log_step loggers_ok
  by unfold_locales (fact log_start_ok log_step_ok)+

definition main_logs :: logging where
  "main_logs = \<lparr>ls_loggers = [], ls_root = [ToStdout], ls_directories = []\<rparr>"

text \<open>
  However often a logger is set up, and whatever file it is given, it has one handler for the standard
  output at most and none twice, so that each record is printed once (which is what the module sets up
  its loggers for: it turns propagation off).
\<close>

theorem records_printed_once:
  assumes "reach log_start log_step ls"
  shows "distinct (lg_handlers (get_logger name ls)) \<and>
    length (filter (\<lambda>h. h = ToStdout) (lg_handlers (get_logger name ls))) \<le> 1"
  using log_machine.reach_safe [OF assms] by (simp_all add: loggers_ok_def handlers_once_def)

theorem records_printed_once_witness:
  "distinct (lg_handlers (get_logger ''VMManager'' (snd (setup_logger ''VMManager'' (Some ''logs/vm_manager.log'')
     (snd (setup_logger ''VMManager'' None main_logs))))))"
proof -
  have "reach log_start log_step main_logs" by (rule reach_init) (simp add: log_start_def main_logs_def)
  from reach_step [OF reach_step [OF this log_setup] log_setup] show ?thesis
    using records_printed_once by blast
qed

text \<open>A logger that has a console handler never gets its file: the second set-up here writes no file.\<close>

lemma file_lost_on_second_setup:
  "lg_handlers (get_logger ''VMManager'' (snd (setup_logger ''VMManager'' (Some ''logs/vm_manager.log'')
     (snd (setup_logger ''VMManager'' None main_logs))))) = [ToStdout]"
  by code_simp

end
