(* ===== verification/MetricFamilies.thy ===== *)
theory MetricFamilies
  imports ReplicaEngine "HOL-Library.Multiset"
begin

text \<open>
  The metrics of the replica processes (\<open>add_replica.py\<close>, \<open>add_replica_vllm.py\<close>): the families they declare
  and the label sets of their updates.  The counts of \<open>ReplicaEngine\<close> take for granted that an update does
  not raise.
\<close>

section \<open>Families and labels\<close>

datatype metric_kind = Histogram "real list option" | Counter

record family =
  fa_kind :: metric_kind
  fa_name :: string
  fa_labels :: "string list"

text \<open>\<open>labels(**kw)\<close> of the Prometheus client: the keywords have to be the declared label names.\<close>

definition labels :: "family \<Rightarrow> (string \<times> string) list \<Rightarrow> string option list res" where
  "labels f kw =
     (if mset (map fst kw) = mset (fa_labels f) then Inr (map (map_of kw) (fa_labels f))
      else Inl (ValueError ''Incorrect label names''))"

section \<open>\<open>add_replica.py\<close>\<close>

definition latency_buckets :: "real list" where
  "latency_buckets = [1 / 10, 1 / 2, 1, 5, 10, 30, 60, 120, 180]"

definition queue_request_latency :: family where
  "queue_request_latency =
     \<lparr>fa_kind = Histogram (Some latency_buckets), fa_name = ''replica_request_latency_seconds'',
      fa_labels = [''deployment_name'']\<rparr>"

definition queue_request_count :: family where
  "queue_request_count =
     \<lparr>fa_kind = Counter, fa_name = ''replica_requests_total'', fa_labels = [''deployment_name'', ''status'']\<rparr>"

definition queue_first_token_latency :: family where
  "queue_first_token_latency =
     \<lparr>fa_kind = Histogram None, fa_name = ''replica_first_token_latency_seconds'', fa_labels = [''deployment_name'']\<rparr>"

definition queue_inter_token_latency :: family where
  "queue_inter_token_latency =
     \<lparr>fa_kind = Histogram None, fa_name = ''replica_inter_token_latency_seconds'', fa_labels = [''deployment_name'']\<rparr>"

text \<open>The updates of \<open>generate_stream\<close>, in the order of the text.\<close>

definition queue_updates :: "string \<Rightarrow> (family \<times> (string \<times> string) list) list" where
  "queue_updates deployment_name =
     [(queue_first_token_latency, [(''deployment_name'', deployment_name)]),
      (queue_inter_token_latency, [(''deployment_name'', deployment_name)]),
      (queue_request_latency, [(''deployment_name'', deployment_name)]),
      (queue_request_count, [(''deployment_name'', deployment_name), (''status'', ''success'')]),
      (queue_request_count, [(''deployment_name'', deployment_name), (''status'', ''error'')])]"

section \<open>\<open>add_replica_vllm.py\<close>\<close>

definition server_request_latency :: family where
  "server_request_latency =
     \<lparr>fa_kind = Histogram None, fa_name = ''replica_request_latency_seconds'',
      fa_labels = [''deployment_name'', ''replica_id'']\<rparr>"

definition server_request_count :: family where
  "server_request_count =
     \<lparr>fa_kind = Counter, fa_name = ''replica_requests_total'',
      fa_labels = [''deployment_name'', ''replica_id'', ''status'']\<rparr>"

definition server_first_token_latency :: family where
  "server_first_token_latency =
     \<lparr>fa_kind = Histogram None, fa_name = ''replica_first_token_latency_seconds'',
      fa_labels = [''deployment_name'', ''replica_id'']\<rparr>"

definition server_updates :: "string \<Rightarrow> int \<Rightarrow> (family \<times> (string \<times> string) list) list" where
  "server_updates deployment_name replica_id =
     (let who = [(''deployment_name'', deployment_name), (''replica_id'', int_text replica_id)]
      in [(server_first_token_latency, who), (server_request_count, who @ [(''status'', ''success'')]),
          (server_request_count, who @ [(''status'', ''error'')]), (server_request_latency, who)])"

text \<open>
  No update of a metric raises: each names exactly the labels its family declares, in both processes, and
  the families of a process have different names, as the registry asks for.
\<close>

theorem metric_updates_accepted:
  "list_all (\<lambda>(f, kw). labels f kw = Inr (map (Some \<circ> snd) kw)) (queue_updates d @ server_updates d k) \<and>
   distinct (map fa_name [queue_request_latency, queue_request_count, queue_first_token_latency, queue_inter_token_latency]) \<and>
   distinct (map fa_name [server_request_latency, server_request_count, server_first_token_latency])"
  by (simp add: queue_updates_def server_updates_def labels_def Let_def
      queue_request_latency_def queue_request_count_def queue_first_token_latency_def queue_inter_token_latency_def
      server_request_latency_def server_request_count_def server_first_token_latency_def)

end
