(* ===== verification/Processes.thy ===== *)
theory Processes
  imports CommandLines Servers ModelConfig
begin

text \<open>
  How the processes run around their handlers: the polling of a replica's own metrics, the life of the
  proxy's two servers, the start of the Python replica, and small functions nothing else needs.
\<close>

section \<open>The replicas\<close>

text \<open>
  One round of \<open>poll_metrics_periodically\<close>: what is printed for what \<open>requests.get\<close> returns (the status and
  the lines) or raises.  The loop never ends; \<open>polling\<close> is the output of some of its rounds.
\<close>

definition poll_round :: "(int \<times> string list) res \<Rightarrow> string list" where
  "poll_round response =
     (case response of
        Inl e \<Rightarrow> [''Could not fetch metrics: '' @ exn_text e]
      | Inr (status_code, text_lines) \<Rightarrow>
          if status_code = 200 then ''--- METRICS SNAPSHOT ---'' # snapshot_lines text_lines else [])"

fun polling :: "(int \<times> string list) res list \<Rightarrow> string list" where
  "polling [] = []"
| "polling (response # rest) = poll_round response @ polling rest"

lemma snapshot_is_part:
  assumes "(200, text_lines) = r" and "Inr r \<in> set responses" and "line \<in> set (snapshot_lines text_lines)"
  shows "line \<in> set (polling responses)"
  using assms by (induction responses rule: polling.induct) (auto simp: poll_round_def)

text \<open>The methods of \<open>ReplicaManager\<close> in \<open>add_replica.py\<close>; the one that \<open>start_polling_metrics\<close> calls is not there.\<close>

definition queue_manager_methods :: "string list" where
  "queue_manager_methods = [''__init__'', ''init_model'', ''start_polling_metrics'', ''generate_stream'']"

definition start_polling_metrics :: "unit res" where
  "start_polling_metrics =
     (if ''poll_metrics_periodically'' \<in> set queue_manager_methods then Inr ()
      else Inl (AttributeError ''poll_metrics_periodically''))"

lemma start_polling_raises: "start_polling_metrics = Inl (AttributeError ''poll_metrics_periodically'')"
  by (simp add: start_polling_metrics_def queue_manager_methods_def)

text \<open>Ten seconds of sleep and a text.\<close>

definition load_and_run_model :: "string \<Rightarrow> int \<times> string" where
  "load_and_run_model model = (10, ''done '' @ model)"

text \<open>
  \<open>main\<close> after the manager is there: the server listens, two seconds later the replica registers.  A
  failed registration sends \<open>SIGTERM\<close> to the process.
\<close>

datatype replica_event =
    Listening string
  | Slept int
  | Registering replica_status
  | Terminated
  | Waiting_for_termination

definition serve_replica ::
  "(replica_status \<Rightarrow> 's \<Rightarrow> bool res \<times> 's) \<Rightarrow> replica_manager \<Rightarrow> 's \<Rightarrow> replica_event list \<times> unit res \<times> 's" where
  "serve_replica stub mgr s =
     (let started = [Listening (host_port ''0.0.0.0'' (rg_port mgr)), Slept 2]
      in case manager_status mgr of
           Inl e \<Rightarrow> (started, Inl e, s)
         | Inr status \<Rightarrow>
             (case register_replica stub status s of
                (Inl e, kills, s') \<Rightarrow> (started @ [Registering status] @ replicate kills Terminated, Inl e, s')
              | (Inr b, kills, s') \<Rightarrow>
                  (started @ [Registering status] @ replicate kills Terminated @ [Waiting_for_termination], Inr (), s')))"

text \<open>
  A Python replica registers the port on which it is already listening, so that a proxy that learns of it
  can reach it at once.
\<close>

lemma registers_listening_port:
  assumes "serve_replica stub mgr s = (es, r, s')" and "es = before @ Registering status # after"
  shows "Listening (host_port ''0.0.0.0'' (rs_port status)) \<in> set before"
proof -
  have notin: "Registering st \<notin> set (replicate k Terminated)" for st k by (simp add: in_set_replicate)
  obtain st tail where m: "manager_status mgr = Inr st"
    and es: "es = [Listening (host_port ''0.0.0.0'' (rg_port mgr)), Slept 2] @ Registering st # tail"
    and tail: "\<forall>x. Registering x \<notin> set tail"
  proof (cases "manager_status mgr")
    case (Inl e)
    with assms show ?thesis by (auto simp: serve_replica_def Cons_eq_append_conv)
  next
    case (Inr st)
    with assms(1) that [of st] show ?thesis
      by (auto simp: serve_replica_def Let_def in_set_replicate split: prod.splits sum.splits)
  qed
  from assms(2) es tail have "before = [Listening (host_port ''0.0.0.0'' (rg_port mgr)), Slept 2] \<and> status = st"
    by (auto simp: append_eq_Cons_conv Cons_eq_append_conv)
  with m show ?thesis by (auto simp: manager_status_def split: if_splits)
qed

section \<open>The proxy\<close>

text \<open>\<open>send_request\<close> of a handle is an asynchronous generator, which cannot be awaited.\<close>

definition send_request_to_worker :: "string \<Rightarrow> unit res" where
  "send_request_to_worker message =
     Inl (TypeError (''object async_generator can'' @ [CHR 0x27] @ ''t be used in '' @ [CHR 0x27] @ ''await'' @
       [CHR 0x27] @ '' expression''))"

text \<open>
  \<open>/metrics\<close>: what \<open>render\<close> makes of the registry for the \<open>accept\<close> header, with the content type it gives.
\<close>

definition metrics_endpoint ::
  "(string list \<Rightarrow> (string \<times> (string, string) dict) res) \<Rightarrow> (string, string) dict \<Rightarrow> (string \<times> string) res" where
  "metrics_endpoint render headers =
     (let accept_header = (case dget headers ''accept'' of None \<Rightarrow> [] | Some a \<Rightarrow> a)
      in case render [accept_header] of
           Inl e \<Rightarrow> Inl e
         | Inr (content, http_headers) \<Rightarrow>
             (case dget http_headers ''Content-Type'' of None \<Rightarrow> Inl KeyError | Some t \<Rightarrow> Inr (content, t)))"

text \<open>
  \<open>run_proxy_server\<close>: the proxy, the health server, and then both servers until one of them ends: they
  return, one raises, or the coroutine is cancelled (\<open>CancelledError\<close>, which is caught).
\<close>

datatype servers_end = Returned | Raised exn | Cancelled

datatype grpc_state = NotStarted_server | Running_server int | Stopped_server int

record proxy_process =
  pp_proxy :: "proxy option"
  pp_grpc :: grpc_state

definition run_proxy_server ::
  "int \<Rightarrow> int \<Rightarrow> unit res \<Rightarrow> servers_end \<Rightarrow> proxy_process \<Rightarrow> unit res \<times> proxy_process" where
  "run_proxy_server grpc_port parent_port start ending p =
     (let p1 = p\<lparr>pp_proxy := Some (px_init parent_port grpc_port), pp_grpc := NotStarted_server\<rparr>
      in case start of
           Inl e \<Rightarrow> (Inl e, p1)
         | Inr u \<Rightarrow>
             (let p2 = p1\<lparr>pp_grpc := Running_server grpc_port\<rparr>;
                  result = (case ending of Returned \<Rightarrow> Inr () | Cancelled \<Rightarrow> Inr () | Raised e \<Rightarrow> Inl e)
              in (result, p2\<lparr>pp_grpc := Stopped_server 5\<rparr>)))"

text \<open>
  Once the health server runs it is stopped with five seconds of grace, however the servers end; the
  proxy itself is not closed (nothing calls its \<open>close\<close>), its subscription ends with the process.
\<close>

lemma health_server_stopped:
  assumes "start = Inr ()"
  shows "pp_grpc (snd (run_proxy_server grpc_port parent_port start ending p)) = Stopped_server 5 \<and>
    pp_proxy (snd (run_proxy_server grpc_port parent_port start ending p)) = Some (px_init parent_port grpc_port)"
  using assms by (simp add: run_proxy_server_def Let_def)

section \<open>Module functions of \<open>model_config.py\<close>\<close>

definition model_config_manager :: "bool \<Rightarrow> config_file \<Rightarrow> config_manager" where
  "model_config_manager writable file = cm_init writable file"

text \<open>The functions of the module ask the manager of the module.\<close>

definition module_model_config_by_endpoint :: "config_manager \<Rightarrow> string \<Rightarrow> model_config option" where
  "module_model_config_by_endpoint manager endpoint = get_model_config_by_endpoint endpoint manager"

definition module_huggingface_model_id :: "config_manager \<Rightarrow> string \<Rightarrow> json option" where
  "module_huggingface_model_id manager endpoint = get_huggingface_model_id endpoint manager"

definition module_deployment_name :: "config_manager \<Rightarrow> string \<Rightarrow> json option" where
  "module_deployment_name manager endpoint = get_deployment_name endpoint manager"

definition list_available_models :: "config_manager \<Rightarrow> (string, model_config) dict" where
  "list_available_models manager = list_models manager"

end
