(* ===== verification/Spec2Isabelle.thy ===== *)
theory Spec2Isabelle
  imports CppFleet CppDrift CppMain WorkerLoops Servers GcpVm ProtoImports ReplicaHandle HeadStore Logging MetricFamilies Processes
begin

text \<open>
  A verification library for the model-serving system of this repository.

  \<^bold>\<open>The program.\<close>  A head node (\<open>src/components/headNode/head_controller.py\<close>) creates virtual machines;
  on each of them a scheduler (\<open>src/components/scheduler.py\<close>) registers with the head, starts replica
  processes (\<open>replica_server.cc\<close>) when the head asks for them, and reports the health of its replicas.  The head keeps the
  deployments and their replicas and streams its routing table to the HTTP proxies
  (\<open>http_proxy.py\<close> and its C++ twin \<open>http_proxy.cpp\<close>), which send each request to a least loaded replica
  of the deployment that the path names.  The replicas (\<open>replica_server.cc\<close> with \<open>add_replica.py\<close> in its
  embedded interpreter, or \<open>add_replica_vllm.py\<close>) stream the text of the model back.
  The parts talk by gRPC; each Python process is single-threaded \<open>asyncio\<close>, so that a handler runs without
  interruption from one \<open>await\<close> that suspends to the next.

  \<^bold>\<open>How the code is modelled.\<close>  Each process has a record of its state and each handler is a function on
  it; a handler that suspends between two changes of the state is two functions.  Exceptions are values
  (\<open>'a res = exn + 'a\<close>), so every \<open>raise\<close>, every \<open>except\<close> and every early return is a branch.  Python
  dictionaries are association lists in insertion order (\<open>dget\<close>, \<open>dset\<close>, \<open>ddel\<close>), objects that the code
  shares are entries of a heap (replica objects, futures, the proxy's deployment handles), integers are
  unbounded as in Python.  What the repository does not contain is an argument: the calls of a gRPC
  stub, of the EC2 and Compute clients and of the vLLM engine are functions on a state of the world,
  the clock and the random jitter are numbers given to the operations.

  \<^bold>\<open>Theories.\<close>
  \<^item> \<open>Prelude\<close>: exceptions, dictionaries and sums over them, decimal text of integers, reachable states
    with the locale \<open>safe_machine\<close>.  \<open>Messages\<close>: the protobuf messages as records.
  \<^item> \<open>Helpers\<close> (\<open>lib/helpers.py\<close>, \<open>lib/utils.py\<close>): the four retry loops, against one reference of bounded
    attempts; \<open>FutureManager\<close> (\<open>lib/future_manager.py\<close>); \<open>NodeInfo\<close> (\<open>lib/node_info.py\<close>); \<open>AutoScale\<close>
    (\<open>lib/autoscale_manager.py\<close>).
  \<^item> \<open>DeploymentManager\<close> (\<open>lib/deployment_manager.py\<close>), with \<open>DeploymentInvariants\<close> (the tables agree,
    the ledger is exact), \<open>DeploymentSpec\<close> (the abstract table \<open>routes\<close> and the refinement of each
    operation) and \<open>DeploymentProps\<close> (histories, error paths).
  \<^item> \<open>RoutingPublisher\<close> (\<open>SubscribeToRoutingUpdates\<close> and \<open>_on_deployment_change\<close>), \<open>HealthManager\<close>
    (\<open>lib/health_manager.py\<close>), \<open>HeadController\<close> (the rest of \<open>head_controller.py\<close>) and \<open>HeadProps\<close>: the
    head as a machine, its invariant and what follows.
  \<^item> \<open>Scheduler\<close>, \<open>SchedulerProps\<close> and \<open>WorkerLoops\<close> (\<open>scheduler.py\<close>: handlers, machine, background tasks),
    \<open>ReplicaHandle\<close> (\<open>lib/replica.py\<close>).
  \<^item> \<open>ProxyHandle\<close> (\<open>lib/deployment_handle.py\<close>), \<open>Utf8\<close>, \<open>HttpProxy\<close> and \<open>ProxyProps\<close> (\<open>http_proxy.py\<close>),
    \<open>ProxyManager\<close> (\<open>lib/proxy_manager.py\<close>).
  \<^item> \<open>ReplicaEngine\<close> (\<open>add_replica.py\<close>, \<open>add_replica_vllm.py\<close>), \<open>ModelConfig\<close> (\<open>lib/model_config.py\<close>).
  \<^item> \<open>VmProfiles\<close>, \<open>AwsVm\<close>, \<open>GcpVm\<close> (\<open>lib/cloud_vm\<close>), \<open>ProtoImports\<close> (\<open>scripts/fix_protobuf_imports.py\<close>).
  \<^item> \<open>Services\<close> (\<open>generated/*_pb2_grpc.py\<close>): the stub, the servicer base class and the registration function
    of each of the seven services, with the locale \<open>grpc_service\<close>; \<open>CommandLines\<close>: the arguments the
    processes are started with and how they read them; \<open>Servers\<close>: the servicer objects of the program and
    the servers each process runs.
  \<^item> \<open>Cluster\<close> and \<open>ClusterProps\<close>: the head, the schedulers and the calls between them as one machine;
    \<open>EndToEnd\<close>: the head's table at the proxy.  \<open>Fleet\<close>: the control plane, proxies of any kind and the
    routing streams between them (late, lost, broken) as one machine, with the locale \<open>proxy_port\<close> of what
    a kind of proxy has to promise.  \<open>WholeSystem\<close>: this machine with the Python proxy and its requests in
    flight; \<open>CppFleet\<close>: with the C++ proxy.  This theory: the properties across head, proxy, replica and
    virtual machine.
  \<^item> \<open>HandleTable\<close>: what both proxies rely on in the table of handles that a routing update builds.
    \<open>CppReplica\<close> (\<open>replica_server.cc\<close>: arguments, registration, start), \<open>CppStream\<close> (its \<open>SendRequest\<close>, the
    thread safe queue and the Python thread as one machine), \<open>ReplicaPorts\<close> (the metrics ports of the
    replicas of one host), \<open>CppHandle\<close> (\<open>deployment_handle.cpp\<close>), \<open>CppProxy\<close> (\<open>http_proxy.cpp\<close>: its table and one session with nothing in
    between), \<open>CppSessions\<close> (its sessions cut into steps, many at once, and what its counts of active requests
    mean), \<open>CppDrift\<close> (how far they can be off), \<open>CppMain\<close> (its \<open>main\<close>, listener and health
    service), and \<open>CppSystem\<close>: head, C++ proxy and C++ replica.
  \<^item> \<open>ModuleSources\<close>, \<open>Imports\<close> and \<open>Startup\<close>: the import statements and top-level calls of every module, the
    import system as a machine, and why no Python entry module can be imported as the repository is.
    \<open>ProtoFiles\<close>: the files \<open>protos/*.proto\<close>, whose services are those of \<open>Services\<close>.
  \<^item> \<open>Settings\<close> (\<open>lib/configurations.py\<close>), \<open>HeadStore\<close> (\<open>lib/headstore_client.py\<close>, \<open>lib/deployment_scheduler.py\<close>),
    \<open>Logging\<close> (\<open>lib/logging_config.py\<close>), \<open>MetricFamilies\<close> (the labels of the replicas' metrics), \<open>Processes\<close> (what
    the processes do around their handlers).

  \<^bold>\<open>What the groups of theorems show.\<close>  Invariants by rule induction over step relations: the tables of
  the deployment manager, the head, one scheduler, the proxy, the proxy manager, the control plane.
  The machine of the whole system carries the invariants of the control plane and of the proxies to
  requests: whatever table a proxy of either kind has, a request goes to a replica registered for its
  deployment.  One session of the C++ proxy, computed at one go, is one run of its steps; with many, the
  count of a replica keeps its distance from the number of sessions at it except where a release, which
  takes no mutex, writes back an old value.
  Refinement: each operation of the deployment manager against \<open>routes\<close>, the control plane against the
  head machine, which discharges the assumptions of that machine about replies and reports, and the
  whole system against the control plane.
  Functional behaviour on every branch: the retry loops, a request at the proxy, the streams of the
  replicas, the creation and termination of instances.  Several theorems state what the code does
  where that is not what its comments say; they are marked as such in their texts.  The lemmas about
  the Python servers say which handler each of nine remote calls reaches, and the types of their first
  answers; the numbers that workers send fit the fields of the messages, and a replica registers what its
  command line told it.

  \<^bold>\<open>Interfaces.\<close>  The locales \<open>keyed_store\<close>, \<open>completion_table\<close>, \<open>resource_ledger\<close>, \<open>allocation_book\<close>,
  \<open>grpc_service\<close>, the retry contract of \<open>Helpers\<close>, \<open>handle_table\<close>, \<open>proxy_port\<close> (on both proxies), \<open>safe_machine\<close> and \<open>stuttering_simulation\<close> state what one part
  relies on in another; each is interpreted on the definitions of the program.

  \<^bold>\<open>Bounds.\<close>  Retry loops recurse on the number of attempts (three everywhere), so they always return.
  The one loop that may run on, \<open>wait_for_vm_ready\<close>, is a \<open>partial_function\<close>; that it returns is a
  theorem about clocks that advance.  The endless service loops are step relations.The import of a
  module runs on fuel, \<open>import_fuel\<close>, which is always enough (the lemma \<open>imports_end\<close>).

  \<^bold>\<open>Assumptions.\<close>  Each scheduler identifier starts once; a process that registers reports the identifier,
  port and deployment it was started with; a dead replica in a health report is placed in its own
  deployment (the machine of the head; the control plane proves it).  The proxies of one head are of one
  kind; as long as no replica fails both kinds choose the same replica (\<open>proxies_choose_alike\<close>).  Each step
  of a C++ thread that holds a mutex is atomic; the release of a replica, which holds none, is split into
  its load and its store in \<open>CppSessions\<close> (the choice of a replica, under the mutex, is one step also
  towards a release), and the \<open>int\<close> that holds the count of a replica is taken as unbounded.  Boost's reader of options keeps its documented promise (\<open>po_documented\<close>).

  \<^bold>\<open>Not modelled.\<close>  The serialized descriptors of the \<open>generated/*_pb2.py\<close> modules (their message classes
  are the records of \<open>Messages\<close>); which thread of the C++ programs runs a step; what is printed and the format of log
  records; the module \<open>local_metrics\<close> (absent from the repository; calls to it are
  logged), uvicorn and signal handling, Docker and infrastructure files, tests.  Code in comments and
  string literals (the autoscaling loop of \<open>deployment_manager.py\<close>, the health updates of
  \<open>add_replica_vllm.py\<close>) is no code.  The other theories take the repository as if its modules
  could be imported; \<open>Startup\<close> shows that this takes a module \<open>configurations\<close> on the path.
\<close>

section \<open>Properties\<close>

text \<open>
  What the head knows, the proxy serves.  In every reachable state of the control plane, a proxy
  that applies the head's latest snapshot routes the name of every deployment of the head to a handle
  of that deployment with exactly the head's replicas, in order, with identifier, address and state;
  and the snapshot is one the proxy's machine accepts (every identifier splits, every address is there).
\<close>

theorem proxy_serves_head_table:
  assumes "reach cluster_start cluster_step cl" and "hc_snapshot (cl_head cl) = Some u"
    and "routes (hc_dm (cl_head cl)) d = Some (name, version, infos)"
  shows "update_ok u \<and> (\<exists>h. dget (px_table (apply_routing_update u px)) name = Some h \<and>
    ph_deployment_id (px_handles (apply_routing_update u px) ! h) = d \<and>
    ph_replicas (px_handles (apply_routing_update u px) ! h) =
      map (\<lambda>info. \<lparr>rt_replica_id = ri_replica_num info, rt_replica_address = ri_address info,
        rt_state = ri_state info\<rparr>) infos)"
proof -
  have hd: "head_ok (cl_head cl)" by (rule cluster_okD(1) [OF cluster_machine.reach_safe [OF assms(1)]])
  from proxy_follows_head(1) [OF hd assms(2,3), of px] proxy_follows_head(2) [OF hd assms(2,3)]
  show ?thesis by (auto simp: routed_info_def [abs_def])
qed

theorem proxy_serves_head_table_witness:
  "\<exists>u h. hc_snapshot (cl_head run_answered) = Some u \<and>
    dget (px_table (apply_routing_update u (px_init 50052 50053))) ''/v1/chat/tinyllama'' = Some h \<and>
    map rt_replica_address (ph_replicas (px_handles (apply_routing_update u (px_init 50052 50053)) ! h)) =
      [host_port ''10.0.0.1'' (int_text 50101)]"
proof -
  obtain u where u: "hc_snapshot (cl_head run_answered) = Some u" using run_answered_snapshot by blast
  from proxy_serves_head_table [OF run_answered_reach u run_answered_route, of "px_init 50052 50053"]
  obtain h where "dget (px_table (apply_routing_update u (px_init 50052 50053))) ''/v1/chat/tinyllama'' = Some h"
    "ph_replicas (px_handles (apply_routing_update u (px_init 50052 50053)) ! h) =
      [\<lparr>rt_replica_id = replica_key (int_text 1) (int_text 1),
        rt_replica_address = host_port ''10.0.0.1'' (int_text 50101), rt_state = ''RUNNING''\<rparr>]"
    by auto
  with u show ?thesis by (intro exI [of _ u] exI [of _ h]) simp
qed

text \<open>
  A request is answered by a replica that exists.  Take any reachable state of the control plane
  and any reachable proxy, and let the proxy apply the head's latest snapshot.  A request for a
  deployment with a replica is then streamed from the address of a replica that is registered with the
  scheduler of some worker for exactly this deployment, the client receives this replica's texts up to
  the first error, unchanged and in order, and every count of outstanding requests is as before; a
  request for a deployment without a replica is answered with the retry message.
\<close>

theorem request_reaches_registered_replica:
  assumes "reach cluster_start cluster_step cl" and "hc_snapshot (cl_head cl) = Some u"
    and "routes (hc_dm (cl_head cl)) d = Some (name, version, infos)"
    and "reach proxy_start proxy_step px"
  shows "(if infos = [] then fst (forward_request_to_replica replica i name message (apply_routing_update u px)) = [retry_chunk]
    else \<exists>w sc k h px'. dget (cl_workers cl) w = Some sc \<and> dget (sc_registry sc) k = Some h \<and> rh_deployment_id h = d \<and>
      forward_request_to_replica replica i name message (apply_routing_update u px) =
        (map rp_text (takeWhile (\<lambda>x. \<not> rp_is_error x)
           (fst (replica (host_port (sc_node_address sc) (rh_port h)) message))), px') \<and>
      (\<forall>h' k'. outstanding (px_handles px' ! h') k' = outstanding (px_handles (apply_routing_update u px) ! h') k'))"
proof -
  let ?px = "apply_routing_update u px"
  note ok = cluster_okD [OF cluster_machine.reach_safe [OF assms(1)]]
  obtain h where t: "dget (px_table ?px) name = Some h" and rs: "ph_replicas (px_handles ?px ! h) = map routed_info infos"
    using proxy_follows_head(1) [OF ok(1) assms(2,3), of px] by blast
  have px: "proxy_ok ?px"
    using proxy_ok_update [OF proxy_machine.reach_safe [OF assms(4)] proxy_follows_head(2) [OF ok(1) assms(2,3)]] .
  have sv: "backed (cl_workers cl) d info" if "info \<in> set infos" for info
    using ok(6) that assms(3) by (auto simp: serves_def)
  then have "\<forall>info \<in> set infos. ri_state info = ''RUNNING''" by (force simp: backed_def)
  then have run: "running_replicas (px_handles ?px ! h) = map routed_info infos" using rs by (rule running_infos)
  show ?thesis
  proof (cases "infos = []")
    case True
    then show ?thesis using forward_nothing_running [OF px t, of replica i message] run by simp
  next
    case False
    then obtain r px' where r: "r \<in> routed_info ` set infos"
      "forward_request_to_replica replica i name message ?px =
        (map rp_text (takeWhile (\<lambda>x. \<not> rp_is_error x) (fst (replica (rt_replica_address r) message))), px')"
      "\<forall>h' k. outstanding (px_handles px' ! h') k = outstanding (px_handles ?px ! h') k"
      using forward_running [OF px t, of replica i message] run rs by auto
    then obtain info where "info \<in> set infos" "rt_replica_address r = ri_address info"
      by (auto simp: routed_info_def)
    with sv obtain w sc k h where "dget (cl_workers cl) w = Some sc" "dget (sc_registry sc) k = Some h"
      "rh_deployment_id h = d" "rt_replica_address r = host_port (sc_node_address sc) (rh_port h)"
      unfolding backed_def by (metis replica_info.select_convs(2))
    with r False show ?thesis by metis
  qed
qed

theorem request_reaches_registered_replica_witness:
  "\<exists>u. hc_snapshot (cl_head run_answered) = Some u \<and>
    fst (forward_request_to_replica hello_replica 0 ''/v1/chat/tinyllama'' [104, 105]
      (apply_routing_update u (px_init 50052 50053))) = [''Hel'', ''lo'']"
proof -
  obtain u where u: "hc_snapshot (cl_head run_answered) = Some u" using run_answered_snapshot by blast
  have "reach proxy_start proxy_step (px_init 50052 50053)"
    by (rule reach_init) (auto simp: proxy_start_def)
  from request_reaches_registered_replica [OF run_answered_reach u run_answered_route this, of hello_replica 0 "[104, 105]"]
  have "fst (forward_request_to_replica hello_replica 0 ''/v1/chat/tinyllama'' [104, 105]
      (apply_routing_update u (px_init 50052 50053))) = [''Hel'', ''lo'']"
    by (auto simp: hello_replica_def reply_def)
  with u show ?thesis by blast
qed

text \<open>
  The client gets the model's text.  When every \<open>RUNNING\<close> replica of a deployment runs the Python
  server with an engine whose texts for this prompt grow, one per step, up to the finished text \<open>u'\<close>,
  the pieces the proxy streams to the client, put together, are exactly \<open>u'\<close>.
\<close>

theorem client_gets_model_text:
  assumes "reach proxy_start proxy_step px" and "dget (px_table px) name = Some h"
    and "running_replicas (px_handles px ! h) \<noteq> []"
    and "gen (format_prompt (decode message)) = Inr (map step_output us @ [last_output u'], ending)"
    and "growing [] (us @ [u'])"
    and "\<And>r. r \<in> set (running_replicas (px_handles px ! h)) \<Longrightarrow>
      fst (replica (rt_replica_address r) message) = fst (vllm_send_request (Some gen) (decode message) m)"
  shows "concat (fst (forward_request_to_replica replica i name message px)) = u'"
proof -
  obtain pieces m' where v: "vllm_send_request (Some gen) (decode message) m = (map (\<lambda>p. reply p False) pieces, m')"
    "concat pieces = u'"
    using vllm_pieces [where gen = gen and us = us and u' = u' and ending = ending and m = m and
        prompt = "decode message", OF assms(4,5)] by blast
  obtain r px' where r: "r \<in> set (running_replicas (px_handles px ! h))"
    "forward_request_to_replica replica i name message px =
      (map rp_text (takeWhile (\<lambda>x. \<not> rp_is_error x) (fst (replica (rt_replica_address r) message))), px')"
    using forward_running [OF proxy_machine.reach_safe [OF assms(1)] assms(2,3), of replica i message]
    by (auto simp: running_replicas_def)
  have "map rp_text (takeWhile (\<lambda>x. \<not> rp_is_error x) (map (\<lambda>p. reply p False) ps)) = ps" for ps
    by (induction ps) (simp_all add: reply_def)
  then show ?thesis using r(2) assms(6) [OF r(1)] v by simp
qed

definition demo_gen :: "string \<Rightarrow> generation res" where
  "demo_gen prompt = Inr (map step_output [''He'', ''Hello''] @ [last_output ''Hello!''], None)"

definition demo_text :: "nat list \<Rightarrow> string" where
  "demo_text message = map char_of message"

definition demo_backend :: "string \<Rightarrow> nat list \<Rightarrow> replica_reply list \<times> exn option" where
  "demo_backend address message = (fst (vllm_send_request (Some demo_gen) (demo_text message) no_metrics), None)"

theorem client_gets_model_text_witness:
  "concat (fst (forward_request_to_replica demo_backend 0 ''/v1/chat/tinyllama'' [104, 105] demo_proxy)) = ''Hello!''"
proof -
  have g: "demo_gen (format_prompt (demo_text [104, 105])) = Inr (map step_output [''He'', ''Hello''] @ [last_output ''Hello!''], None)"
    by (simp add: demo_gen_def)
  show ?thesis
    by (rule client_gets_model_text [where h = 0 and gen = demo_gen and decode = demo_text and m = no_metrics and
          us = "[''He'', ''Hello'']" and ending = None, OF demo_proxy_reach _ _ g])
      (simp_all add: demo_proxy_eq dict_eval running_replicas_def demo_backend_def)
qed

text \<open>
  C37. A virtual machine becomes a worker.  The scheduler that starts with the environment the boot
  script gives its container registers with the head under the identifier the head chose; it then runs
  with the head's address.  The head has it as a node with this identifier, the address at which this
  scheduler listens and a new channel, with the machine's numbers of CPUs and GPUs and none of them in
  use, and the creation the head queues goes to that address.
\<close>

theorem vm_becomes_worker:
  assumes "env = dget (container_env w head_address head_port num_cpus num_gpus)"
    and "uint32_ok w" and "uint32_ok num_cpus" and "uint32_ok num_gpus"
  shows "\<exists>sc hc'. sched_main env cpu_count device_count local_ip head_stub hc = (Inr (Some sc), hc') \<and>
    sc = sched_init w local_ip 50051 head_address head_port \<and>
    dget (ni_map (dm_nodes (hc_dm hc'))) w = Some \<lparr>nd_id = w, nd_address = grpc_address sc,
      nd_channel = length (ni_channels (dm_nodes (hc_dm hc))),
      nd_resource = \<lparr>res_num_cpus = num_cpus, res_num_gpus = num_gpus\<rparr>, nd_used_cpus = 0, nd_used_gpus = 0\<rparr> \<and>
    pipeline hc' = pipeline hc @ [QPair (grpc_address sc) 2]"
proof -
  let ?rq = "\<lparr>rq_node_id = w, rq_node_address = local_ip, rq_port = int_text 50051, rq_state = ''alive'',
    rq_resource = \<lparr>res_num_cpus = num_cpus, res_num_gpus = num_gpus\<rparr>\<rparr>"
  let ?sc = "sched_init w local_ip 50051 head_address head_port"
  have env: "env ''SCHEDULER_ID'' = Some (int_text w)" "env ''HEAD_HOST'' = Some head_address"
    "env ''HEAD_PORT'' = Some head_port" "env ''NUM_CPUS'' = Some (int_text num_cpus)"
    "env ''NUM_GPUS'' = Some (int_text num_gpus)"
    using assms(1) by (simp_all add: container_env_def dict_eval)
  have "head_stub ?rq hc = (Inr True, snd (register_node ?rq hc))"
    by (simp add: head_stub_def register_node_def Let_def)
  from sync_first [of "head_stub ?rq", OF this, of 1]
  have "sched_main env cpu_count device_count local_ip head_stub hc = (Inr (Some ?sc), snd (register_node ?rq hc))"
    by (simp add: sched_main_def env sched_register_node_def sched_register_request_def Let_def assms(2-4))
  moreover have "grpc_address ?sc = host_port local_ip (int_text 50051)" by (simp add: grpc_address_def sched_init_def)
  moreover have "dget (ni_map (dm_nodes (hc_dm (snd (register_node ?rq hc))))) w = Some \<lparr>nd_id = w,
      nd_address = host_port local_ip (int_text 50051), nd_channel = length (ni_channels (dm_nodes (hc_dm hc))),
      nd_resource = \<lparr>res_num_cpus = num_cpus, res_num_gpus = num_gpus\<rparr>, nd_used_cpus = 0, nd_used_gpus = 0\<rparr>"
    by (simp add: register_node_def add_node_def Let_def queue_put_def)
  ultimately show ?thesis by simp
qed

theorem vm_becomes_worker_witness:
  "\<exists>sc hc'. sched_main (dget (container_env 3 ''172.31.0.10'' ''50052'' 4 1)) 96 8 ''172.31.0.7'' head_stub demo_start =
      (Inr (Some sc), hc') \<and> sc_worker_id sc = 3 \<and>
    map_option nd_resource (dget (ni_map (dm_nodes (hc_dm hc'))) 3) = Some \<lparr>res_num_cpus = 4, res_num_gpus = 1\<rparr>"
  using vm_becomes_worker [of _ 3 "''172.31.0.10''" "''50052''" 4 1 96 8 "''172.31.0.7''" demo_start, OF refl]
  by (auto simp: sched_init_def uint32_ok_def)

text \<open>\<open>MODEL_CONFIGS[deployment_name].model_id\<close>, as the replicas use it.\<close>

definition default_model_id :: "string \<Rightarrow> string option" where
  "default_model_id deployment_name = (case dget MODEL_CONFIGS deployment_name of
     Some c \<Rightarrow> (case mc_model_id c of JStr s \<Rightarrow> Some s | _ \<Rightarrow> None) | None \<Rightarrow> None)"

text \<open>
  Every deployment the head can route has a model: in every reachable state the name of each of
  its deployments is a key of the default model table, so a replica started for it gets past the
  lookup of its model (no \<open>KeyError\<close>), whatever loading the model does.
\<close>

theorem deployments_have_models:
  assumes "reach head_start head_step hc" and "routes (hc_dm hc) d = Some (name, version, infos)"
  shows "\<exists>model_id engine. init_model args_for default_model_id load name = Inr (model_id, engine) \<and>
    model_id \<in> {''gpt2'', ''TinyLlama/TinyLlama-1.1B-Chat-v1.0'', ''microsoft/phi-2''}"
proof -
  have "name \<in> {''/v1/chat/gpt2'', ''/v1/chat/tinyllama'', ''/v1/chat/phi2''}"
    using deployment_names [OF head_machine.reach_safe [OF assms(1)] assms(2)] .
  then have "default_model_id name \<in> Some ` {''gpt2'', ''TinyLlama/TinyLlama-1.1B-Chat-v1.0'', ''microsoft/phi-2''}"
    by (auto simp: default_model_id_def MODEL_CONFIGS_def model_config_of_def dict_eval)
  then show ?thesis by (auto simp: init_model_def)
qed

theorem deployments_have_models_witness:
  "\<exists>model_id engine. init_model queue_engine_args default_model_id (\<lambda>_. Inl (GenericError ''CUDA out of memory'')) ''/v1/chat/tinyllama'' =
    Inr (model_id, engine)"
proof -
  have "routes (hc_dm demo_serving) 2 = Some (''/v1/chat/tinyllama'', ''1.0'', [])"
    by (simp add: demo_serving_facts(7) first_routes_eq)
  from deployments_have_models [OF demo_serving_facts(1) this, of queue_engine_args "\<lambda>_. Inl (GenericError ''CUDA out of memory'')"]
  show ?thesis by blast
qed

text \<open>
  A replica registers as what it was started for.  When a scheduler has started a process for a
  creation call, a Python replica that is run with the arguments of that command line comes up, loads
  the model of its deployment's name, and the message it registers with carries the number, the port and
  the deployment of the call, to the address of the scheduler that started it; the process listens on
  the port it reports.  This is what the machine of the control plane assumes of registrations.
\<close>

theorem replica_registers_as_launched:
  assumes "create_replica_rpc request None sc = (Inr (Inr a), sc')"
    and "model_ids (cq_deployment_name request) = Some model_id" and "option_value (cq_deployment_name request)"
    and "uint32_ok (sc_replica_num sc + 1)" and "uint32_ok (cq_deployment_id request)" and "uint32_ok pid"
  shows "\<exists>mgr status gs. replica_main model_ids load None pid (tl (last (sc_launched sc'))) = Started mgr \<and>
    manager_status mgr = Inr status \<and> from_launch status sc' \<and> rs_replica_id status = sc_replica_num sc' \<and>
    rs_deployment_id status = cq_deployment_id request \<and> rg_model_id mgr = model_id \<and>
    rg_parent mgr = host_port ''0.0.0.0'' (int_text (sc_node_port sc')) \<and>
    replica_server mgr = Inr gs \<and> gs_addresses gs = [host_port ''0.0.0.0'' (rs_port status)]"
proof -
  let ?k = "sc_replica_num sc + 1"
  let ?cmd = "replica_command ?k (int_text (50100 + ?k)) (cq_deployment_name request)
    (int_text (cq_deployment_id request)) (int_text (sc_node_port sc))"
  have l: "sc_launched sc' = sc_launched sc @ [?cmd]" "sc_replica_num sc' = ?k" "sc_node_port sc' = sc_node_port sc"
    using assms(1) by (auto simp: create_replica_rpc_def start_replica_cpp_def Let_def split: sum.splits prod.splits)
  note m = replica_reads_command [of "int_text (50100 + ?k)" "cq_deployment_name request" "int_text (sc_node_port sc)"
      model_ids model_id load pid ?k "cq_deployment_id request", OF _ assms(3) _ assms(2)]
  obtain mgr where mgr: "replica_main model_ids load None pid (tl ?cmd) = Started mgr" "rg_replica_id mgr = ?k"
    "rg_port mgr = int_text (50100 + ?k)" "rg_deployment_id mgr = cq_deployment_id request" "rg_pid mgr = pid"
    "rg_parent mgr = host_port ''0.0.0.0'' (int_text (sc_node_port sc))" "rg_model_id mgr = model_id"
    using m by simp
  obtain gs where "replica_server mgr = Inr gs" "gs_addresses gs = [host_port ''0.0.0.0'' (rg_port mgr)]"
    using replica_server_up by blast
  moreover obtain status where st: "manager_status mgr = Inr status" "rs_replica_id status = ?k"
    "rs_port status = int_text (50100 + ?k)" "rs_deployment_id status = cq_deployment_id request"
    using mgr assms(4-6) by (simp add: manager_status_def)
  moreover have "from_launch status sc'" using l by (auto simp: from_launch_def st)
  ultimately show ?thesis using mgr l by auto
qed

theorem replica_registers_as_launched_witness:
  "\<exists>mgr status. replica_main default_model_id (\<lambda>_. Inl (GenericError ''no GPU'')) None 4711
      (tl (last (sc_launched run_waiting))) = Started mgr \<and>
    manager_status mgr = Inr status \<and> from_launch status run_waiting \<and> rs_replica_id status = 1"
proof -
  have "routes (hc_dm run_head) 2 = Some (''/v1/chat/tinyllama'', ''1.0'', [])"
    by (simp add: run_facts(5) first_routes_eq)
  then have "map_option cq_deployment_name (create_replica_request 2 0 0 run_head) = Some ''/v1/chat/tinyllama''"
    by (auto simp: create_replica_request_def get_deployment_def routes_def)
  then have name: "cq_deployment_name run_request = ''/v1/chat/tinyllama''" by (simp add: run_facts(3))
  have "default_model_id (cq_deployment_name run_request) = Some ''TinyLlama/TinyLlama-1.1B-Chat-v1.0''"
    by (simp add: name default_model_id_def MODEL_CONFIGS_def model_config_of_def dict_eval)
  moreover have "option_value (cq_deployment_name run_request)" by (simp add: name option_value_def)
  moreover have "uint32_ok (sc_replica_num demo_sched + 1)" "uint32_ok (cq_deployment_id run_request)" "uint32_ok 4711"
    by (simp_all add: run_facts(4) demo_sched_def sched_init_def uint32_ok_def)
  ultimately show ?thesis
    using replica_registers_as_launched [OF run_facts(7), of default_model_id] run_facts(8) by metis
qed

end
